(* ===== verification/Prelude.thy ===== *)
theory Prelude
  imports Main "HOL-Library.List_Lexorder"
begin

text \<open>
  Vocabulary shared by every component: the exceptions the code raises, results that are either an
  exception or a value, the dictionary and de-duplication idioms of the source, and the generic list
  facts the component proofs rest on.

  An exception is a value of \<open>exn\<close>; a call that may raise returns \<open>'a res\<close>.  The constructor keeps
  the part of the exception the program itself inspects: the \<open>code\<close> of an \<open>AdapterError\<close>.  Message
  texts are not modelled, the program never branches on them.  \<open>Diverges\<close> is no exception of the code:
  it is what a model with fuel answers when the fuel runs out, and is proved unreachable.
\<close>

section \<open>Exceptions and results\<close>

datatype exn =
    AdapterError string
  | OperationCancelled
  | OSError
  | ValueError
  | JSONDecodeError
  | UnicodeError
  | KeyError
  | TypeError
  | RuntimeError string
  | InvariantViolation
  | InvalidTransition
  | Diverges

type_synonym 'a res = "exn + 'a"

definition adapter_error :: "exn \<Rightarrow> bool" where
  "adapter_error e \<longleftrightarrow> (case e of AdapterError _ \<Rightarrow> True | _ \<Rightarrow> False)"

definition bindR :: "'a res \<Rightarrow> ('a \<Rightarrow> 'b res) \<Rightarrow> 'b res" where
  "bindR r f = (case r of Inl e \<Rightarrow> Inl e | Inr x \<Rightarrow> f x)"

lemma bindR_simps [simp]:
  "bindR (Inl e) f = Inl e"
  "bindR (Inr x) f = f x"
  by (simp_all add: bindR_def)

lemma bindR_eq_Inr: "bindR r f = Inr y \<longleftrightarrow> (\<exists>x. r = Inr x \<and> f x = Inr y)"
  by (cases r) auto

lemma bindR_eq_Inl: "bindR r f = Inl e \<longleftrightarrow> r = Inl e \<or> (\<exists>x. r = Inr x \<and> f x = Inl e)"
  by (cases r) auto

text \<open>\<open>if not cond: raise e\<close>.\<close>

definition guardR :: "bool \<Rightarrow> exn \<Rightarrow> unit res" where
  "guardR b e = (if b then Inr () else Inl e)"

lemma guardR_simps [simp]:
  "guardR True e = Inr ()"
  "guardR False e = Inl e"
  by (simp_all add: guardR_def)

lemma guardR_eq_Inr [simp]: "guardR b e = Inr u \<longleftrightarrow> b"
  by (simp add: guardR_def)

lemma guardR_eq_Inl [simp]: "guardR b e = Inl e' \<longleftrightarrow> \<not> b \<and> e' = e"
  by (auto simp: guardR_def)

text \<open>A comprehension whose body may raise: stops at the first exception, as the loop would.\<close>

fun mapR :: "('a \<Rightarrow> 'b res) \<Rightarrow> 'a list \<Rightarrow> 'b list res" where
  "mapR f [] = Inr []"
| "mapR f (x # xs) = bindR (f x) (\<lambda>y. bindR (mapR f xs) (\<lambda>ys. Inr (y # ys)))"

lemma mapR_Inr_length: "mapR f xs = Inr ys \<Longrightarrow> length ys = length xs"
  by (induction xs arbitrary: ys) (auto simp: bindR_eq_Inr)

lemma mapR_Inr_list_all2: "mapR f xs = Inr ys \<Longrightarrow> list_all2 (\<lambda>x y. f x = Inr y) xs ys"
  by (induction xs arbitrary: ys) (auto simp: bindR_eq_Inr)

lemma mapR_total: "(\<And>x. x \<in> set xs \<Longrightarrow> f x = Inr (g x)) \<Longrightarrow> mapR f xs = Inr (map g xs)"
  by (induction xs) auto

text \<open>A loop that only checks: \<open>for x in xs: check(x)\<close>.\<close>

fun eachR :: "('a \<Rightarrow> unit res) \<Rightarrow> 'a list \<Rightarrow> unit res" where
  "eachR f [] = Inr ()"
| "eachR f (x # xs) = bindR (f x) (\<lambda>_. eachR f xs)"

lemma eachR_Inr [simp]: "eachR f xs = Inr u \<longleftrightarrow> (\<forall>x\<in>set xs. f x = Inr ())"
  by (induction xs) (auto simp: bindR_eq_Inr)

lemma eachR_Inl: "eachR f xs = Inl e \<Longrightarrow> \<exists>x\<in>set xs. f x = Inl e"
  by (induction xs) (auto simp: bindR_eq_Inl)

section \<open>Dictionaries\<close>

text \<open>
  \<open>tuple(dict.fromkeys(xs))\<close> keeps the first occurrence of each element; \<open>dict(pairs)\<close> keeps the
  last value of each key.
\<close>

definition dict_keys :: "'a list \<Rightarrow> 'a list" where
  "dict_keys xs = rev (remdups (rev xs))"

lemma set_dict_keys [simp]: "set (dict_keys xs) = set xs"
  by (simp add: dict_keys_def)

lemma distinct_dict_keys [simp]: "distinct (dict_keys xs)"
  by (simp add: dict_keys_def)

lemma dict_keys_distinct [simp]: "distinct xs \<Longrightarrow> dict_keys xs = xs"
  by (simp add: dict_keys_def distinct_remdups_id)

lemma dict_keys_Nil [simp]: "dict_keys [] = []"
  by (simp add: dict_keys_def)

lemma dict_keys_eq_Nil [simp]: "dict_keys xs = [] \<longleftrightarrow> xs = []"
  by (simp add: dict_keys_def)

definition dict_of :: "('k \<times> 'v) list \<Rightarrow> ('k \<rightharpoonup> 'v)" where
  "dict_of kvs = map_of (rev kvs)"

lemma dict_of_Nil [simp]: "dict_of [] = Map.empty"
  by (simp add: dict_of_def)

lemma dict_of_snoc: "dict_of (kvs @ [(k, v)]) = (dict_of kvs)(k \<mapsto> v)"
  by (simp add: dict_of_def)

lemma dict_of_SomeD: "dict_of kvs k = Some v \<Longrightarrow> (k, v) \<in> set kvs"
  by (auto simp: dict_of_def dest: map_of_SomeD)

lemma dom_dict_of: "dom (dict_of kvs) = fst ` set kvs"
  by (simp add: dict_of_def dom_map_of_conv_image_fst)

lemma dict_of_distinct:
  assumes "distinct (map fst kvs)" and "(k, v) \<in> set kvs"
  shows "dict_of kvs k = Some v"
  using assms by (simp add: dict_of_def rev_map[symmetric])

section \<open>Generic list facts\<close>

lemma take_drop_append: "n \<le> length xs \<Longrightarrow> take n (xs @ ys) = take n xs \<and> drop n (xs @ ys) = drop n xs @ ys"
  by simp

lemma suffix_drop_length: "xs = ys @ zs \<Longrightarrow> drop (length xs - length zs) xs = zs"
  by simp

lemma sorted_wrt_distinct_map:
  assumes "sorted_wrt (\<lambda>a b. f a < (f b :: 'a :: linorder)) xs"
  shows "distinct (map f xs)"
  using assms by (induction xs) fastforce+

text \<open>Python's slice \<open>xs[a:b]\<close> with \<open>0 \<le> a \<le> b\<close>; out-of-range bounds are clipped, as in Python.\<close>

definition slice :: "nat \<Rightarrow> nat \<Rightarrow> 'a list \<Rightarrow> 'a list" where
  "slice a b xs = drop a (take b xs)"

lemma slice_split:
  assumes "a \<le> b" and "b \<le> length xs"
  shows "xs = take a xs @ slice a b xs @ drop b xs"
proof -
  have "take a xs = take a (take b xs)" using assms by simp
  then have "take a xs @ slice a b xs = take b xs"
    unfolding slice_def by (metis append_take_drop_id)
  then show ?thesis by (metis append.assoc append_take_drop_id)
qed

lemma length_slice: "a \<le> b \<Longrightarrow> b \<le> length xs \<Longrightarrow> length (slice a b xs) = b - a"
  by (simp add: slice_def)

end
