(* ===== verification/PyText.thy ===== *)
theory PyText
  imports Prelude
begin

text \<open>
  Python text: a \<open>str\<close> is the list of its code points (so \<open>length\<close>, offsets and slices count what
  the source counts), a \<open>bytes\<close> value is the list of its byte values.  The operations of \<open>str\<close> the
  program uses (\<open>strip\<close>, \<open>startswith\<close>, \<open>splitlines\<close>, ...) and strict UTF-8 coding are defined as
  CPython computes them.
\<close>

type_synonym str = "int list"
type_synonym bytes = "int list"

definition lit :: "string \<Rightarrow> str" where
  "lit s = map of_char s"

lemma lit_simps [simp]:
  "lit [] = []"
  "lit (c # cs) = of_char c # lit cs"
  by (simp_all add: lit_def)

section \<open>Character classes and trimming\<close>

text \<open>\<open>str.isspace\<close>: the code points CPython treats as white space.\<close>

definition isspace :: "int \<Rightarrow> bool" where
  "isspace c \<longleftrightarrow> (9 \<le> c \<and> c \<le> 13) \<or> (28 \<le> c \<and> c \<le> 32) \<or> c = 133 \<or> c = 160 \<or> c = 5760
     \<or> (8192 \<le> c \<and> c \<le> 8202) \<or> c = 8232 \<or> c = 8233 \<or> c = 8239 \<or> c = 8287 \<or> c = 12288"

definition lstrip :: "str \<Rightarrow> str" where
  "lstrip s = dropWhile isspace s"

definition rstrip :: "str \<Rightarrow> str" where
  "rstrip s = rev (dropWhile isspace (rev s))"

definition strip :: "str \<Rightarrow> str" where
  "strip s = rstrip (lstrip s)"

text \<open>\<open>not value.strip()\<close>\<close>

definition blank :: "str \<Rightarrow> bool" where
  "blank s \<longleftrightarrow> strip s = []"

lemma blank_iff: "blank s \<longleftrightarrow> (\<forall>c\<in>set s. isspace c)"
proof -
  have "blank s \<longleftrightarrow> (\<forall>c\<in>set (dropWhile isspace s). isspace c)"
    by (simp add: blank_def strip_def rstrip_def lstrip_def dropWhile_eq_Nil_conv)
  also have "\<dots> \<longleftrightarrow> (\<forall>c\<in>set s. isspace c)"
  proof
    assume a: "\<forall>c\<in>set (dropWhile isspace s). isspace c"
    show "\<forall>c\<in>set s. isspace c"
    proof
      fix c assume "c \<in> set s"
      then have "c \<in> set (takeWhile isspace s) \<or> c \<in> set (dropWhile isspace s)"
        by (metis Un_iff set_append takeWhile_dropWhile_id)
      then show "isspace c" using a by (auto dest: set_takeWhileD)
    qed
  next
    assume "\<forall>c\<in>set s. isspace c"
    then show "\<forall>c\<in>set (dropWhile isspace s). isspace c" by (auto dest: set_dropWhileD)
  qed
  finally show ?thesis .
qed

definition startswith :: "str \<Rightarrow> str \<Rightarrow> bool" where
  "startswith s p \<longleftrightarrow> take (length p) s = p"

definition endswith :: "str \<Rightarrow> str \<Rightarrow> bool" where
  "endswith s p \<longleftrightarrow> length p \<le> length s \<and> drop (length s - length p) s = p"

lemma startswith_append: "startswith (p @ s) p"
  by (simp add: startswith_def)

lemma startswith_iff: "startswith s p \<longleftrightarrow> (\<exists>t. s = p @ t)"
  by (metis append_eq_conv_conj append_take_drop_id startswith_def)

lemma endswith_iff: "endswith s p \<longleftrightarrow> (\<exists>t. s = t @ p)"
  unfolding endswith_def by (metis append_take_drop_id diff_diff_cancel length_append
    le_add2 suffix_drop_length)

definition isdigit :: "int \<Rightarrow> bool" where
  "isdigit c \<longleftrightarrow> 48 \<le> c \<and> c \<le> 57"

text \<open>\<open>s.split(sep, 1)\<close> / \<open>s.partition(sep)\<close> on a one-character separator.\<close>

definition partition1 :: "int \<Rightarrow> str \<Rightarrow> str \<times> str option" where
  "partition1 c s = (takeWhile (\<lambda>x. x \<noteq> c) s,
     (case dropWhile (\<lambda>x. x \<noteq> c) s of [] \<Rightarrow> None | _ # t \<Rightarrow> Some t))"

section \<open>Lines\<close>

text \<open>
  \<open>str.splitlines(keepends=True)\<close>: a line ends at one of CPython's line boundaries, carriage return
  followed by line feed being one boundary; a final line without a boundary is kept.
\<close>

definition islinebreak :: "int \<Rightarrow> bool" where
  "islinebreak c \<longleftrightarrow> (10 \<le> c \<and> c \<le> 13) \<or> (28 \<le> c \<and> c \<le> 30) \<or> c = 133 \<or> c = 8232 \<or> c = 8233"

fun splitlines_aux :: "str \<Rightarrow> str \<Rightarrow> str list" where
  "splitlines_aux acc [] = (if acc = [] then [] else [rev acc])"
| "splitlines_aux acc (c # cs) =
     (if c = 13 then
        (case cs of
           [] \<Rightarrow> [rev (c # acc)]
         | d # ds \<Rightarrow> if d = 10 then rev (d # c # acc) # splitlines_aux [] ds
                     else rev (c # acc) # splitlines_aux [] cs)
      else if islinebreak c then rev (c # acc) # splitlines_aux [] cs
      else splitlines_aux (c # acc) cs)"

definition splitlines_keep :: "str \<Rightarrow> str list" where
  "splitlines_keep s = splitlines_aux [] s"

lemma concat_splitlines_aux: "concat (splitlines_aux acc s) = rev acc @ s"
  by (induction acc s rule: splitlines_aux.induct) (auto split: list.splits)

lemma concat_splitlines_keep [simp]: "concat (splitlines_keep s) = s"
  by (simp add: splitlines_keep_def concat_splitlines_aux)

text \<open>\<open>str.removesuffix\<close>.\<close>

definition removesuffix :: "str \<Rightarrow> str \<Rightarrow> str" where
  "removesuffix s p = (if p \<noteq> [] \<and> endswith s p then take (length s - length p) s else s)"

text \<open>\<open>str.splitlines()\<close> drops the boundaries.\<close>

definition drop_break :: "str \<Rightarrow> str" where
  "drop_break l = (if endswith l [13, 10] then take (length l - 2) l
     else if l \<noteq> [] \<and> islinebreak (last l) then butlast l else l)"

definition splitlines :: "str \<Rightarrow> str list" where
  "splitlines s = map drop_break (splitlines_keep s)"

definition join :: "str \<Rightarrow> str list \<Rightarrow> str" where
  "join sep xs = concat (case xs of [] \<Rightarrow> [] | y # ys \<Rightarrow> y # map (\<lambda>z. sep @ z) ys)"

section \<open>Strict UTF-8\<close>

definition valid_cp :: "int \<Rightarrow> bool" where
  "valid_cp c \<longleftrightarrow> 0 \<le> c \<and> c < 1114112 \<and> \<not> (55296 \<le> c \<and> c \<le> 57343)"

definition utf8_char :: "int \<Rightarrow> bytes" where
  "utf8_char c =
     (if c < 128 then [c]
      else if c < 2048 then [192 + c div 64, 128 + c mod 64]
      else if c < 65536 then [224 + c div 4096, 128 + c div 64 mod 64, 128 + c mod 64]
      else [240 + c div 262144, 128 + c div 4096 mod 64, 128 + c div 64 mod 64, 128 + c mod 64])"

text \<open>\<open>text.encode("utf-8")\<close>; lone surrogates raise \<open>UnicodeEncodeError\<close>.\<close>

definition utf8_encode :: "str \<Rightarrow> bytes res" where
  "utf8_encode s = (if \<forall>c\<in>set s. valid_cp c then Inr (concat (map utf8_char s)) else Inl UnicodeError)"

definition iscont :: "int \<Rightarrow> bool" where
  "iscont b \<longleftrightarrow> 128 \<le> b \<and> b < 192"

text \<open>\<open>content.decode("utf-8")\<close>; overlong forms, surrogates and truncated sequences raise.\<close>

definition decode2 :: "int \<Rightarrow> int \<Rightarrow> int option" where
  "decode2 a b = (if 194 \<le> a \<and> a < 224 \<and> iscont b then Some ((a - 192) * 64 + (b - 128)) else None)"

definition decode3 :: "int \<Rightarrow> int \<Rightarrow> int \<Rightarrow> int option" where
  "decode3 a b c =
     (let v = (a - 224) * 4096 + (b - 128) * 64 + (c - 128) in
      if 224 \<le> a \<and> a < 240 \<and> iscont b \<and> iscont c \<and> 2048 \<le> v \<and> valid_cp v then Some v else None)"

definition decode4 :: "int \<Rightarrow> int \<Rightarrow> int \<Rightarrow> int \<Rightarrow> int option" where
  "decode4 a b c d =
     (let v = (a - 240) * 262144 + (b - 128) * 4096 + (c - 128) * 64 + (d - 128) in
      if 240 \<le> a \<and> a < 248 \<and> iscont b \<and> iscont c \<and> iscont d \<and> 65536 \<le> v \<and> valid_cp v
      then Some v else None)"

fun utf8_decode :: "bytes \<Rightarrow> str res" where
  "utf8_decode [] = Inr []"
| "utf8_decode (a # bs) =
     (if 0 \<le> a \<and> a < 128 then bindR (utf8_decode bs) (\<lambda>s. Inr (a # s))
      else (case bs of
        [] \<Rightarrow> Inl UnicodeError
      | b # cs \<Rightarrow>
          (case decode2 a b of
             Some v \<Rightarrow> bindR (utf8_decode cs) (\<lambda>s. Inr (v # s))
           | None \<Rightarrow>
          (case cs of
             [] \<Rightarrow> Inl UnicodeError
           | c # ds \<Rightarrow>
               (case decode3 a b c of
                  Some v \<Rightarrow> bindR (utf8_decode ds) (\<lambda>s. Inr (v # s))
                | None \<Rightarrow>
               (case ds of
                  [] \<Rightarrow> Inl UnicodeError
                | d # es \<Rightarrow>
                    (case decode4 a b c d of
                       Some v \<Rightarrow> bindR (utf8_decode es) (\<lambda>s. Inr (v # s))
                     | None \<Rightarrow> Inl UnicodeError)))))))"

declare utf8_decode.simps(2) [simp del]

lemma base64_digit:
  fixes v q r :: int
  assumes "v = 64 * q + r" and "0 \<le> r" and "r < 64"
  shows "v div 64 = q" and "v mod 64 = r"
  using assms by (auto intro: int_div_pos_eq int_mod_pos_eq)

lemma div_base64:
  fixes v :: int
  shows "v div 4096 = v div 64 div 64" and "v div 262144 = v div 64 div 64 div 64"
  by (simp_all add: zdiv_zmult2_eq [symmetric])

lemma utf8_digits:
  fixes c :: int
  assumes "0 \<le> c"
  obtains q1 q2 q3 where
    "c div 64 = q1" "c div 4096 = q2" "c div 262144 = q3"
    "c = 64 * q1 + c mod 64" "q1 = 64 * q2 + q1 mod 64" "q2 = 64 * q3 + q2 mod 64"
    "0 \<le> c mod 64" "c mod 64 < 64" "0 \<le> q1 mod 64" "q1 mod 64 < 64" "0 \<le> q2 mod 64" "q2 mod 64 < 64"
    "0 \<le> q3"
proof (rule that [of "c div 64" "c div 64 div 64" "c div 64 div 64 div 64"])
  show "0 \<le> c div 64 div 64 div 64" using assms by (simp add: pos_imp_zdiv_nonneg_iff)
qed (simp_all only: div_base64 mult_div_mod_eq refl pos_mod_bound pos_mod_sign zero_less_numeral)

lemma decode_utf8_char:
  assumes "valid_cp c"
  shows "utf8_decode (utf8_char c @ bs) = bindR (utf8_decode bs) (\<lambda>s. Inr (c # s))"
proof -
  have c: "0 \<le> c" "c < 1114112" "\<not> (55296 \<le> c \<and> c \<le> 57343)"
    using assms by (auto simp: valid_cp_def)
  obtain q1 q2 q3 where q: "c div 64 = q1" "c div 4096 = q2" "c div 262144 = q3"
    and e: "c = 64 * q1 + c mod 64" "q1 = 64 * q2 + q1 mod 64" "q2 = 64 * q3 + q2 mod 64"
    and b: "0 \<le> c mod 64" "c mod 64 < 64" "0 \<le> q1 mod 64" "q1 mod 64 < 64" "0 \<le> q2 mod 64"
      "q2 mod 64 < 64" "0 \<le> q3"
    using c(1) by (rule utf8_digits)
  consider "c < 128" | "128 \<le> c" "c < 2048" | "2048 \<le> c" "c < 65536" | "65536 \<le> c" by linarith
  then show ?thesis
  proof cases
    case 1
    then show ?thesis using c by (simp add: utf8_char_def utf8_decode.simps(2))
  next
    case 2
    have "2 \<le> q1" "q1 < 32" "(192 + q1 - 192) * 64 + (128 + c mod 64 - 128) = c"
      using 2 e(1) b by (linarith, linarith, simp)
    then have "decode2 (192 + q1) (128 + c mod 64) = Some c"
      using b by (simp only: decode2_def iscont_def) simp
    then show ?thesis using 2 b \<open>2 \<le> q1\<close>
      by (simp add: utf8_char_def q utf8_decode.simps(2))
  next
    case 3
    have "decode2 (224 + q2) (128 + q1 mod 64) = None"
      using 3 e b by (simp add: decode2_def)
    moreover have "decode3 (224 + q2) (128 + q1 mod 64) (128 + c mod 64) = Some c"
    proof -
      have "(224 + q2 - 224) * 4096 + (128 + q1 mod 64 - 128) * 64 + (128 + c mod 64 - 128) = c"
        using e(1,2) by simp
      moreover have "q2 < 16" using 3 e b by linarith
      ultimately show ?thesis using 3 assms b
        by (simp only: decode3_def Let_def iscont_def) simp
    qed
    ultimately show ?thesis using 3 b e
      by (simp add: utf8_char_def q utf8_decode.simps(2))
  next
    case 4
    have q3: "q3 \<le> 4" using c(2) e b by linarith
    have "decode2 (240 + q3) (128 + q2 mod 64) = None"
      "decode3 (240 + q3) (128 + q2 mod 64) (128 + q1 mod 64) = None"
      using b by (simp_all add: decode2_def decode3_def)
    moreover have "decode4 (240 + q3) (128 + q2 mod 64) (128 + q1 mod 64) (128 + c mod 64) = Some c"
    proof -
      have "(240 + q3 - 240) * 262144 + (128 + q2 mod 64 - 128) * 4096 + (128 + q1 mod 64 - 128) * 64
          + (128 + c mod 64 - 128) = c"
        using e by simp
      then show ?thesis using 4 assms b q3
        by (simp only: decode4_def Let_def iscont_def) simp
    qed
    ultimately show ?thesis using 4 b
      by (simp add: utf8_char_def q utf8_decode.simps(2))
  qed
qed

lemma decode_concat_utf8_char:
  "\<forall>c\<in>set s. valid_cp c \<Longrightarrow> utf8_decode (concat (map utf8_char s)) = Inr s"
  by (induction s) (simp_all add: decode_utf8_char)

theorem utf8_decode_encode: "utf8_encode s = Inr b \<Longrightarrow> utf8_decode b = Inr s"
  by (auto simp: utf8_encode_def decode_concat_utf8_char split: if_splits)

lemma decode2_char: "decode2 a b = Some v \<Longrightarrow> utf8_char v = [a, b] \<and> valid_cp v"
proof -
  assume "decode2 a b = Some v"
  then have v: "194 \<le> a" "a < 224" "128 \<le> b" "b < 192" "v = 64 * (a - 192) + (b - 128)"
    by (auto simp: decode2_def iscont_def split: if_splits)
  have "v div 64 = a - 192" "v mod 64 = b - 128" using base64_digit [OF v(5)] v by simp_all
  moreover have "128 \<le> v" "v < 2048" using v by simp_all
  ultimately show ?thesis by (simp add: utf8_char_def valid_cp_def)
qed

lemma decode3_char: "decode3 a b c = Some v \<Longrightarrow> utf8_char v = [a, b, c] \<and> valid_cp v"
proof -
  assume "decode3 a b c = Some v"
  then have v: "224 \<le> a" "a < 240" "128 \<le> b" "b < 192" "128 \<le> c" "c < 192" "2048 \<le> v" "valid_cp v"
      "v = 64 * (64 * (a - 224) + (b - 128)) + (c - 128)"
    by (auto simp: decode3_def iscont_def Let_def split: if_splits)
  have q: "v div 64 = 64 * (a - 224) + (b - 128)" "v mod 64 = c - 128"
    using base64_digit [OF v(9)] v by simp_all
  have "v div 64 div 64 = a - 224" "v div 64 mod 64 = b - 128"
    using base64_digit [OF q(1)] v by simp_all
  moreover have "v < 65536" using v by simp
  ultimately show ?thesis using v(7,8) q(2) by (simp add: utf8_char_def div_base64)
qed

lemma decode4_char: "decode4 a b c d = Some v \<Longrightarrow> utf8_char v = [a, b, c, d] \<and> valid_cp v"
proof -
  assume "decode4 a b c d = Some v"
  then have v: "240 \<le> a" "a < 248" "128 \<le> b" "b < 192" "128 \<le> c" "c < 192" "128 \<le> d" "d < 192"
      "65536 \<le> v" "valid_cp v"
      "v = 64 * (64 * (64 * (a - 240) + (b - 128)) + (c - 128)) + (d - 128)"
    by (auto simp: decode4_def iscont_def Let_def split: if_splits)
  have q1: "v div 64 = 64 * (64 * (a - 240) + (b - 128)) + (c - 128)" "v mod 64 = d - 128"
    using base64_digit [OF v(11)] v(7,8) by simp_all
  have q2: "v div 64 div 64 = 64 * (a - 240) + (b - 128)" "v div 64 mod 64 = c - 128"
    using base64_digit [OF q1(1)] v(5,6) by simp_all
  have q3: "v div 64 div 64 div 64 = a - 240" "v div 64 div 64 mod 64 = b - 128"
    using base64_digit [OF q2(1)] v(3,4) by simp_all
  have "\<not> v < 128" "\<not> v < 2048" "\<not> v < 65536" using v(9) by simp_all
  then have "utf8_char v = [240 + (a - 240), 128 + (b - 128), 128 + (c - 128), 128 + (d - 128)]"
    by (simp only: utf8_char_def div_base64 if_False q1(2) q2(2) q3)
  then show ?thesis using v(10) by simp
qed

theorem utf8_encode_decode: "utf8_decode b = Inr s \<Longrightarrow> utf8_encode s = Inr b"
proof (induction b arbitrary: s rule: utf8_decode.induct)
  case 1
  then show ?case by (simp add: utf8_encode_def)
next
  case (2 a bs)
  have *: "\<lbrakk>utf8_decode r = Inr t; valid_cp v; utf8_char v = p;
      utf8_decode r = Inr t \<Longrightarrow> utf8_encode t = Inr r\<rbrakk> \<Longrightarrow> utf8_encode (v # t) = Inr (p @ r)" for r t v p
    by (auto simp: utf8_encode_def split: if_splits)
  show ?case
  proof (cases "0 \<le> a \<and> a < 128")
    case True
    then have "valid_cp a" "utf8_char a = [a]" by (auto simp: valid_cp_def utf8_char_def)
    from True "2.prems" obtain t where t: "utf8_decode bs = Inr t" "s = a # t"
      by (auto simp: utf8_decode.simps(2) bindR_eq_Inr)
    with True "2.IH"(1) * [of bs t a "[a]"] \<open>valid_cp a\<close> \<open>utf8_char a = [a]\<close> show ?thesis by simp
  next
    case a: False
    then obtain b cs where bs: "bs = b # cs" using "2.prems"
      by (auto simp: utf8_decode.simps(2) split: list.splits)
    show ?thesis
    proof (cases "decode2 a b")
      case (Some v)
      with a bs "2.prems" obtain t where "utf8_decode cs = Inr t" "s = v # t"
        by (auto simp: utf8_decode.simps(2) bindR_eq_Inr)
      with Some "2.IH"(4) [OF a bs Some] decode2_char [OF Some] * [of cs t v "[a, b]"] bs
      show ?thesis by simp
    next
      case d2: None
      then obtain c ds where cs: "cs = c # ds" using "2.prems" a bs
        by (auto simp: utf8_decode.simps(2) split: list.splits)
      show ?thesis
      proof (cases "decode3 a b c")
        case (Some v)
        with a bs cs d2 "2.prems" obtain t where "utf8_decode ds = Inr t" "s = v # t"
          by (auto simp: utf8_decode.simps(2) bindR_eq_Inr)
        with Some "2.IH"(3) [OF a bs d2 cs Some] decode3_char [OF Some] * [of ds t v "[a, b, c]"] bs cs
        show ?thesis by simp
      next
        case d3: None
        then obtain d es where ds: "ds = d # es" using "2.prems" a bs cs d2
          by (auto simp: utf8_decode.simps(2) split: list.splits)
        obtain v where d4: "decode4 a b c d = Some v" using "2.prems" a bs cs ds d2 d3
          by (auto simp: utf8_decode.simps(2) split: option.splits)
        with a bs cs ds d2 d3 "2.prems" obtain t where "utf8_decode es = Inr t" "s = v # t"
          by (auto simp: utf8_decode.simps(2) bindR_eq_Inr)
        with d4 "2.IH"(2) [OF a bs d2 cs d3 ds d4] decode4_char [OF d4] * [of es t v "[a, b, c, d]"] bs cs ds
        show ?thesis by simp
      qed
    qed
  qed
qed

end
