(* ===== verification/Json.thy ===== *)
theory Json
  imports PyText
begin

text \<open>
  The parts of Python's \<open>json\<close> module the program calls: string literals (strict decoding with
  surrogate pairs, both encodings), scalar tokens and compact serialisation.

  A float is kept as the numeral it is written with: the program never computes with floats, it only
  compares, stores and prints them.  CPython refuses to convert integer numerals of more than 4300
  digits with a plain \<open>ValueError\<close>, which the model keeps apart from \<open>JSONDecodeError\<close>.
\<close>

datatype json =
    JNull
  | JBool bool
  | JInt int
  | JFloat str
  | JStr str
  | JArr "json list"
  | JObj "(str \<times> json) list"

section \<open>String literals\<close>

definition hexval :: "int \<Rightarrow> int option" where
  "hexval c = (if 48 \<le> c \<and> c \<le> 57 then Some (c - 48)
     else if 97 \<le> c \<and> c \<le> 102 then Some (c - 87)
     else if 65 \<le> c \<and> c \<le> 70 then Some (c - 55) else None)"

definition hex4 :: "int \<Rightarrow> int \<Rightarrow> int \<Rightarrow> int \<Rightarrow> int option" where
  "hex4 a b c d = (case (hexval a, hexval b, hexval c, hexval d) of
      (Some w, Some x, Some y, Some z) \<Rightarrow> Some (4096 * w + 256 * x + 16 * y + z)
    | _ \<Rightarrow> None)"

definition simple_escape :: "int \<Rightarrow> int option" where
  "simple_escape e = (if e = 34 \<or> e = 92 \<or> e = 47 then Some e
     else if e = 98 then Some 8 else if e = 102 then Some 12 else if e = 110 then Some 10
     else if e = 114 then Some 13 else if e = 116 then Some 9 else None)"

definition is_high :: "int \<Rightarrow> bool" where
  "is_high u \<longleftrightarrow> 55296 \<le> u \<and> u \<le> 56319"

definition is_low :: "int \<Rightarrow> bool" where
  "is_low u \<longleftrightarrow> 56320 \<le> u \<and> u \<le> 57343"

text \<open>
  What \<open>json.loads\<close> makes of the characters between the quotes: \<open>None\<close> where it raises
  \<open>JSONDecodeError\<close> (a raw control character, an unknown or truncated escape, a bare quote).
\<close>

definition take_hex4 :: "str \<Rightarrow> (int \<times> str) option" where
  "take_hex4 s = (if length s < 4 then None
     else map_option (\<lambda>u. (u, drop 4 s)) (hex4 (s ! 0) (s ! 1) (s ! 2) (s ! 3)))"

text \<open>The character after \<open>\u\<close>: a high surrogate joins an immediately following low one.\<close>

definition unescape_u :: "str \<Rightarrow> (int \<times> str) option" where
  "unescape_u s = (case take_hex4 s of
      None \<Rightarrow> None
    | Some (u, r) \<Rightarrow>
        if is_high u \<and> startswith r [92, 117] then
          (case take_hex4 (drop 2 r) of
             Some (u', r') \<Rightarrow>
               if is_low u' then Some (65536 + (u - 55296) * 1024 + (u' - 56320), r') else Some (u, r)
           | None \<Rightarrow> None)
        else Some (u, r))"

definition unescape_step :: "int \<Rightarrow> str \<Rightarrow> (int \<times> str) option" where
  "unescape_step c cs =
     (if c = 92 then
        (case cs of
           [] \<Rightarrow> None
         | e # ds \<Rightarrow> if e = 117 then unescape_u ds
                     else map_option (\<lambda>d. (d, ds)) (simple_escape e))
      else if c < 32 \<or> c = 34 then None
      else Some (c, cs))"

lemma take_hex4_length: "take_hex4 s = Some (u, r) \<Longrightarrow> length r < length s"
  by (auto simp: take_hex4_def split: if_splits)

lemma unescape_u_length: "unescape_u s = Some (u, r) \<Longrightarrow> length r < length s"
  by (auto simp: unescape_u_def split: option.splits if_splits dest!: take_hex4_length)

lemma unescape_step_length: "unescape_step c cs = Some (v, r) \<Longrightarrow> length r \<le> length cs"
  by (auto simp: unescape_step_def split: option.splits if_splits list.splits dest!: unescape_u_length)

function json_unescape :: "str \<Rightarrow> str option" where
  "json_unescape [] = Some []"
| "json_unescape (c # cs) =
     (case unescape_step c cs of
        None \<Rightarrow> None
      | Some (v, r) \<Rightarrow> map_option (\<lambda>t. v # t) (json_unescape r))"
  by pat_completeness auto
termination
  by (relation "measure length") (auto dest!: unescape_step_length)

declare json_unescape.simps(2) [simp del]

definition hexdigit :: "int \<Rightarrow> int" where
  "hexdigit n = (if n < 10 then 48 + n else 87 + n)"

definition u_escape :: "int \<Rightarrow> str" where
  "u_escape c = [92, 117, hexdigit (c div 4096 mod 16), hexdigit (c div 256 mod 16),
     hexdigit (c div 16 mod 16), hexdigit (c mod 16)]"

definition short_escape :: "int \<Rightarrow> str option" where
  "short_escape c = (if c = 34 then Some [92, 34] else if c = 92 then Some [92, 92]
     else if c = 8 then Some [92, 98] else if c = 12 then Some [92, 102] else if c = 10 then Some [92, 110]
     else if c = 13 then Some [92, 114] else if c = 9 then Some [92, 116] else None)"

text \<open>\<open>ensure_ascii=False\<close>: only quotes, backslashes and control characters are escaped.\<close>

definition escape_char :: "int \<Rightarrow> str" where
  "escape_char c = (case short_escape c of Some e \<Rightarrow> e
     | None \<Rightarrow> if c < 32 then u_escape c else [c])"

text \<open>\<open>ensure_ascii=True\<close>: everything outside printable ASCII is escaped, astral characters as a
  surrogate pair.\<close>

definition escape_char_ascii :: "int \<Rightarrow> str" where
  "escape_char_ascii c = (case short_escape c of Some e \<Rightarrow> e
     | None \<Rightarrow> if 32 \<le> c \<and> c \<le> 126 then [c]
         else if c < 65536 then u_escape c
         else u_escape (55296 + (c - 65536) div 1024) @ u_escape (56320 + (c - 65536) mod 1024))"

definition json_string :: "bool \<Rightarrow> str \<Rightarrow> str" where
  "json_string ascii s = 34 # concat (map (if ascii then escape_char_ascii else escape_char) s) @ [34]"

section \<open>Numbers\<close>

fun dec_nat :: "nat \<Rightarrow> str" where
  "dec_nat n = (if n < 10 then [48 + int n] else dec_nat (n div 10) @ [48 + int (n mod 10)])"

declare dec_nat.simps [simp del]

definition dec_int :: "int \<Rightarrow> str" where
  "dec_int i = (if i < 0 then 45 # dec_nat (nat (- i)) else dec_nat (nat i))"

definition dec_val :: "str \<Rightarrow> int" where
  "dec_val ds = foldl (\<lambda>a d. 10 * a + (d - 48)) 0 ds"

text \<open>
  The number grammar of CPython's scanner: the longest prefix
  \<open>-?(0|[1-9][0-9]*)([.][0-9]+)?([eE][-+]?[0-9]+)?\<close>.  Each piece returns what it matched and the rest.
\<close>

definition scan_digits :: "str \<Rightarrow> str \<times> str" where
  "scan_digits s = (takeWhile isdigit s, dropWhile isdigit s)"

definition scan_int :: "str \<Rightarrow> (str \<times> str) option" where
  "scan_int s = (case s of
      [] \<Rightarrow> None
    | c # cs \<Rightarrow> if c = 48 then Some ([48], cs)
                else if 49 \<le> c \<and> c \<le> 57 then Some (scan_digits s) else None)"

definition scan_frac :: "str \<Rightarrow> str \<times> str" where
  "scan_frac s = (case s of
      [] \<Rightarrow> ([], s)
    | c # cs \<Rightarrow> if c = 46 \<and> fst (scan_digits cs) \<noteq> [] then (46 # fst (scan_digits cs), snd (scan_digits cs))
                else ([], s))"

definition scan_exp :: "str \<Rightarrow> str \<times> str" where
  "scan_exp s = (case s of
      [] \<Rightarrow> ([], s)
    | c # cs \<Rightarrow>
        if c = 101 \<or> c = 69 then
          (let sg = (case cs of d # _ \<Rightarrow> if d = 45 \<or> d = 43 then [d] else [] | [] \<Rightarrow> []);
               ds = drop (length sg) cs
           in if fst (scan_digits ds) \<noteq> [] then (c # sg @ fst (scan_digits ds), snd (scan_digits ds))
              else ([], s))
        else ([], s))"

definition too_many_digits :: "str \<Rightarrow> bool" where
  "too_many_digits ds \<longleftrightarrow> 4300 < int (length ds)"

text \<open>A token that is one JSON number and nothing else.\<close>

definition loads_number :: "str \<Rightarrow> json res" where
  "loads_number t =
     (let sg = (case t of c # _ \<Rightarrow> if c = 45 then [c] else [] | [] \<Rightarrow> []) in
      case scan_int (drop (length sg) t) of
        None \<Rightarrow> Inl JSONDecodeError
      | Some (ds, r) \<Rightarrow>
          (let (fr, r1) = scan_frac r; (ex, r2) = scan_exp r1 in
           if fr = [] \<and> ex = [] then
             (if too_many_digits ds then Inl ValueError
              else if r2 \<noteq> [] then Inl JSONDecodeError
              else Inr (JInt (if sg = [] then dec_val ds else - dec_val ds)))
           else if r2 \<noteq> [] then Inl JSONDecodeError
           else Inr (JFloat t)))"

text \<open>
  \<open>json.loads(token)\<close> for a token that starts with neither a quote nor a bracket: one of the words
  Python accepts (the non-standard \<open>NaN\<close> and infinities included) or a number.
\<close>

definition loads_token :: "str \<Rightarrow> json res" where
  "loads_token t =
     (if t = lit ''null'' then Inr JNull
      else if t = lit ''true'' then Inr (JBool True)
      else if t = lit ''false'' then Inr (JBool False)
      else if t = lit ''NaN'' \<or> t = lit ''Infinity'' \<or> t = lit ''-Infinity'' then Inr (JFloat t)
      else loads_number t)"

section \<open>Compact serialisation\<close>

text \<open>
  \<open>json.dumps(v, sort_keys=True, separators=(",", ":"))\<close>, with \<open>ensure_ascii\<close> as first argument.
\<close>

fun dumps :: "bool \<Rightarrow> json \<Rightarrow> str" where
  "dumps a JNull = lit ''null''"
| "dumps a (JBool b) = (if b then lit ''true'' else lit ''false'')"
| "dumps a (JInt i) = dec_int i"
| "dumps a (JFloat t) = t"
| "dumps a (JStr s) = json_string a s"
| "dumps a (JArr vs) = 91 # join [44] (map (\<lambda>v. dumps a v) vs) @ [93]"
| "dumps a (JObj kvs) =
     123 # join [44] (map (\<lambda>(k, t). json_string a k @ 58 # t)
       (sort_key fst (map (\<lambda>(k, v). (k, dumps a v)) kvs))) @ [125]"

definition jopt :: "('a \<Rightarrow> json) \<Rightarrow> 'a option \<Rightarrow> json" where
  "jopt f x = (case x of None \<Rightarrow> JNull | Some y \<Rightarrow> f y)"

section \<open>Round trips of scalars\<close>

text \<open>Printing a scalar and reading it back.\<close>

lemma dec_nat_isdigit: "list_all isdigit (dec_nat n)"
proof (induction n rule: dec_nat.induct)
  case (1 n)
  have d: "isdigit (48 + int k)" if "k < 10" for k using that by (simp add: isdigit_def)
  show ?case
  proof (cases "n < 10")
    case True
    then show ?thesis using d [of n] by (subst dec_nat.simps) simp
  next
    case False
    then show ?thesis using "1.IH" d [of "n mod 10"] by (subst dec_nat.simps) simp
  qed
qed

lemma dec_nat_nonempty [simp]: "dec_nat n \<noteq> []"
  by (subst dec_nat.simps) simp

lemma dec_val_snoc: "dec_val (ds @ [d]) = 10 * dec_val ds + (d - 48)"
  by (simp add: dec_val_def)

lemma dec_val_dec_nat [simp]: "dec_val (dec_nat n) = int n"
proof (induction n rule: dec_nat.induct)
  case (1 n)
  show ?case
  proof (cases "n < 10")
    case True
    then show ?thesis by (subst dec_nat.simps) (simp add: dec_val_def)
  next
    case False
    with "1.IH" have "dec_val (dec_nat (n div 10)) = int (n div 10)" by simp
    then have "dec_val (dec_nat (n div 10) @ [48 + int (n mod 10)]) = int (10 * (n div 10) + n mod 10)"
      by (simp only: dec_val_snoc)
    with False show ?thesis by (subst dec_nat.simps) simp
  qed
qed

lemma hd_dec_nat: "n \<noteq> 0 \<Longrightarrow> 49 \<le> hd (dec_nat n) \<and> hd (dec_nat n) \<le> 57"
proof (induction n rule: dec_nat.induct)
  case (1 n)
  show ?case
  proof (cases "n < 10")
    case True
    then show ?thesis using "1.prems" by (subst (1 2) dec_nat.simps) simp
  next
    case False
    then have "n div 10 \<noteq> 0" by simp
    with "1.IH" False have "49 \<le> hd (dec_nat (n div 10)) \<and> hd (dec_nat (n div 10)) \<le> 57" by blast
    with False show ?thesis by (subst (1 2) dec_nat.simps) (simp add: hd_append)
  qed
qed

lemma dec_nat_0 [simp]: "dec_nat 0 = [48]"
  by (subst dec_nat.simps) simp

lemma scan_int_dec_nat: "scan_int (dec_nat n) = Some (dec_nat n, [])"
proof (cases "n = 0")
  case True
  then show ?thesis by (simp add: scan_int_def)
next
  case False
  obtain d ds where d: "dec_nat n = d # ds" by (cases "dec_nat n") auto
  have "takeWhile isdigit (dec_nat n) = dec_nat n" "dropWhile isdigit (dec_nat n) = []"
    using dec_nat_isdigit [of n] by (auto simp: takeWhile_eq_all_conv dropWhile_eq_Nil_conv list_all_iff)
  then show ?thesis using hd_dec_nat [OF False] d
    by (simp add: scan_int_def scan_digits_def)
qed

lemma loads_number_dec_int:
  assumes "\<not> too_many_digits (dec_nat (nat \<bar>i\<bar>))"
  shows "loads_number (dec_int i) = Inr (JInt i)"
proof (cases "i < 0")
  case True
  then show ?thesis using assms
    by (simp add: loads_number_def dec_int_def scan_int_dec_nat scan_frac_def scan_exp_def)
next
  case False
  obtain d ds where d: "dec_nat (nat i) = d # ds" by (cases "dec_nat (nat i)") auto
  then have "d \<noteq> 45" using dec_nat_isdigit [of "nat i"] by (auto simp: isdigit_def)
  with False assms d show ?thesis
    using scan_int_dec_nat [of "nat i"] dec_val_dec_nat [of "nat i"]
    by (simp add: loads_number_def dec_int_def scan_frac_def scan_exp_def)
qed

lemma dec_int_head:
  obtains d ds where "dec_int i = d # ds" "d = 45 \<or> isdigit d"
proof (cases "i < 0")
  case True
  then show ?thesis using that by (auto simp: dec_int_def)
next
  case False
  then show ?thesis using that dec_nat_isdigit [of "nat i"]
    by (cases "dec_nat (nat i)") (auto simp: dec_int_def)
qed

lemma dec_int_no_word: "dec_int i \<notin> {lit ''null'', lit ''true'', lit ''false'', lit ''NaN'', lit ''Infinity'', lit ''-Infinity''}"
proof -
  obtain d ds where "dec_int i = d # ds" "d = 45 \<or> isdigit d" by (rule dec_int_head)
  moreover have "dec_int i \<noteq> lit ''-Infinity''"
    using dec_nat_isdigit [of "nat (- i)"] dec_nat_isdigit [of "nat i"]
    by (auto simp: dec_int_def isdigit_def)
  ultimately show ?thesis by (auto simp: isdigit_def)
qed

lemma loads_token_dec_int:
  assumes "\<not> too_many_digits (dec_nat (nat \<bar>i\<bar>))"
  shows "loads_token (dec_int i) = Inr (JInt i)"
  using loads_number_dec_int [OF assms] dec_int_no_word [of i] by (simp add: loads_token_def)

lemma hexval_hexdigit: "0 \<le> n \<Longrightarrow> n < 16 \<Longrightarrow> hexval (hexdigit n) = Some n"
  by (auto simp: hexval_def hexdigit_def)

lemma hex4_control:
  assumes "0 \<le> c" and "c < 32"
  shows "hex4 (hexdigit (c div 4096 mod 16)) (hexdigit (c div 256 mod 16)) (hexdigit (c div 16 mod 16))
    (hexdigit (c mod 16)) = Some c"
proof -
  have z: "c div 4096 = 0" "c div 256 = 0" "c div 16 mod 16 = c div 16" using assms by simp_all
  have "hexval (hexdigit 0) = Some 0" "hexval (hexdigit (c div 16)) = Some (c div 16)"
    "hexval (hexdigit (c mod 16)) = Some (c mod 16)"
    using assms by (auto intro!: hexval_hexdigit)
  then show ?thesis unfolding hex4_def z by (simp add: mult.commute)
qed

lemma unescape_escape_char:
  assumes "0 \<le> c"
  shows "json_unescape (escape_char c @ s) = map_option (\<lambda>t. c # t) (json_unescape s)"
proof (cases "short_escape c")
  case (Some e)
  then show ?thesis
    by (auto simp: escape_char_def short_escape_def json_unescape.simps(2) unescape_step_def
        simple_escape_def split: if_splits)
next
  case None
  show ?thesis
  proof (cases "c < 32")
    case True
    have "take_hex4 (drop 2 (u_escape c) @ s) = Some (c, s)"
      using hex4_control [OF assms True] by (simp add: take_hex4_def u_escape_def)
    moreover have "\<not> is_high c" using True by (simp add: is_high_def)
    ultimately have "unescape_u (drop 2 (u_escape c) @ s) = Some (c, s)"
      by (simp add: unescape_u_def)
    then show ?thesis using None True
      by (simp add: escape_char_def u_escape_def json_unescape.simps(2) unescape_step_def)
  next
    case False
    with None have "c \<noteq> 92" "c \<noteq> 34" by (auto simp: short_escape_def)
    with None False show ?thesis
      by (simp add: escape_char_def json_unescape.simps(2) unescape_step_def)
  qed
qed

lemma json_unescape_escape:
  "\<forall>c\<in>set s. 0 \<le> c \<Longrightarrow> json_unescape (concat (map escape_char s)) = Some s"
  by (induction s) (simp_all add: unescape_escape_char)

section \<open>Decimals computed on integers\<close>

function digits_of :: "int \<Rightarrow> str" where
  "digits_of i = (if i < 10 then [48 + i] else digits_of (i div 10) @ [48 + i mod 10])"
  by pat_completeness auto
termination by (relation "measure nat") auto

declare digits_of.simps [simp del]

lemma digits_of_nat: "digits_of (int n) = dec_nat n"
proof (induction n rule: dec_nat.induct)
  case (1 n)
  then show ?case by (subst digits_of.simps, subst dec_nat.simps) (simp add: zdiv_int zmod_int)
qed

lemma dec_int_code [code]: "dec_int i = (if i < 0 then 45 # digits_of (- i) else digits_of i)"
  using digits_of_nat [of "nat i"] digits_of_nat [of "nat (- i)"] by (cases "i < 0") (simp_all add: dec_int_def)

lemma dec_nat_code [code]: "dec_nat n = digits_of (int n)"
  by (simp add: digits_of_nat)

end
