(* ===== verification/Domain.thy ===== *)
theory Domain
  imports Json
begin

text \<open>
  The domain layer (\<open>domain/enums.py\<close>, \<open>domain/models.py\<close>, \<open>domain/workflow.py\<close>,
  \<open>domain/serialization.py\<close>): the enumerations, the frozen dataclasses as records, the checks of their
  \<open>__post_init__\<close> methods as \<open>check_\<dots>\<close> functions (the constructor succeeds iff the check does), the
  plan state machine, and the validity of an approval.

  Every domain timestamp is an aware UTC instant, here the number of microseconds since an epoch.  Four
  functions of Python's standard library stay parameters, collected in the record \<open>runtime\<close>: the
  hexadecimal SHA-256 digest, the ISO formatting of an instant and its parsing (\<open>Naive\<close> is a timestamp
  without a zone, represented by its ISO text, \<open>None\<close> a \<open>ValueError\<close>), and the Unicode database's digits beyond ASCII (\<open>OnlyDigit\<close> is a character such as a superscript, for which \<open>str.isdigit\<close> holds and which
  \<open>int\<close> refuses).  No property depends on what they compute beyond what its hypotheses say.
\<close>

type_synonym time = int

datatype digit_class = NoDigit | OnlyDigit | Decimal int

datatype iso_time = Naive str | Aware time

record runtime =
  sha256 :: "bytes \<Rightarrow> str"
  isoformat :: "time \<Rightarrow> str"
  fromisoformat :: "str \<Rightarrow> iso_time option"
  unicode_digit :: "int \<Rightarrow> digit_class"

definition digit_of :: "runtime \<Rightarrow> int \<Rightarrow> digit_class" where
  "digit_of rt c = (if isdigit c then Decimal (c - 48) else if c < 128 then NoDigit else unicode_digit rt c)"

text \<open>\<open>str.isdigit\<close>, the \<open>\d\<close> of a regular expression, and \<open>int\<close> of a text that \<open>isdigit\<close> accepts.\<close>

definition py_isdigit :: "runtime \<Rightarrow> str \<Rightarrow> bool" where
  "py_isdigit rt s \<longleftrightarrow> s \<noteq> [] \<and> list_all (\<lambda>c. digit_of rt c \<noteq> NoDigit) s"

definition is_decimal :: "runtime \<Rightarrow> int \<Rightarrow> bool" where
  "is_decimal rt c \<longleftrightarrow> (case digit_of rt c of Decimal _ \<Rightarrow> True | _ \<Rightarrow> False)"

definition int_of_digits :: "runtime \<Rightarrow> str \<Rightarrow> int res" where
  "int_of_digits rt s = (if too_many_digits s \<or> \<not> list_all (is_decimal rt) s then Inl ValueError
     else Inr (foldl (\<lambda>a c. 10 * a + (case digit_of rt c of Decimal d \<Rightarrow> d | _ \<Rightarrow> 0)) 0 s))"

lemma digit_of_ascii [simp]: "isdigit c \<Longrightarrow> digit_of rt c = Decimal (c - 48)"
  by (simp add: digit_of_def)

lemma py_isdigit_ascii: "s \<noteq> [] \<Longrightarrow> list_all isdigit s \<Longrightarrow> py_isdigit rt s"
  by (auto simp: py_isdigit_def list_all_iff)

section \<open>Enumerations\<close>

datatype host_kind = HK_LOCAL | HK_SSH

datatype probe_status = PB_OK | PB_NOT_INSTALLED | PB_NOT_APPLICABLE | PB_UNSUPPORTED
  | PB_PERMISSION_DENIED | PB_UNAVAILABLE | PB_TIMEOUT | PB_FAILED | PB_CANCELLED

datatype report_status = RS_COMPLETE | RS_PARTIAL | RS_FAILED

datatype severity = SV_INFO | SV_LOW | SV_MEDIUM | SV_HIGH | SV_CRITICAL

datatype confidence = CF_LOW | CF_MEDIUM | CF_HIGH

datatype plan_status = DRAFT | REVIEWED | APPROVED | BACKED_UP | APPLYING | VALIDATING
  | COMMITTED | ROLLING_BACK | ROLLED_BACK | RECOVERY_REQUIRED

datatype change_operation = CREATE_FILE | REPLACE_FILE | REMOVE_CREATED_FILE | DAEMON_RELOAD
  | RESTART_SERVICE

datatype validation_status = VS_PASSED | VS_FAILED | VS_SKIPPED

fun change_operation_value :: "change_operation \<Rightarrow> str" where
  "change_operation_value CREATE_FILE = lit ''create_file''"
| "change_operation_value REPLACE_FILE = lit ''replace_file''"
| "change_operation_value REMOVE_CREATED_FILE = lit ''remove_created_file''"
| "change_operation_value DAEMON_RELOAD = lit ''daemon_reload''"
| "change_operation_value RESTART_SERVICE = lit ''restart_service''"

section \<open>The plan state machine\<close>

fun allowed :: "plan_status \<Rightarrow> plan_status list" where
  "allowed DRAFT = [REVIEWED]"
| "allowed REVIEWED = [APPROVED]"
| "allowed APPROVED = [BACKED_UP]"
| "allowed BACKED_UP = [APPLYING]"
| "allowed APPLYING = [VALIDATING, ROLLING_BACK]"
| "allowed VALIDATING = [COMMITTED, ROLLING_BACK]"
| "allowed ROLLING_BACK = [ROLLED_BACK, RECOVERY_REQUIRED]"
| "allowed COMMITTED = []"
| "allowed ROLLED_BACK = []"
| "allowed RECOVERY_REQUIRED = []"

record plan_machine =
  pm_plan_id :: str
  pm_status :: plan_status

definition terminal :: "plan_machine \<Rightarrow> bool" where
  "terminal m \<longleftrightarrow> allowed (pm_status m) = []"

definition can_transition_to :: "plan_machine \<Rightarrow> plan_status \<Rightarrow> bool" where
  "can_transition_to m t \<longleftrightarrow> t \<in> set (allowed (pm_status m))"

definition transition_to :: "plan_machine \<Rightarrow> plan_status \<Rightarrow> plan_machine res" where
  "transition_to m t = (if can_transition_to m t then Inr (m\<lparr>pm_status := t\<rparr>) else Inl InvalidTransition)"

text \<open>The machine as a step relation, and the statuses a plan passes through.\<close>

inductive plan_step :: "plan_status \<Rightarrow> plan_status \<Rightarrow> bool" where
  plan_step_intro: "transition_to m t = Inr m' \<Longrightarrow> plan_step (pm_status m) (pm_status m')"

inductive plan_reaches :: "plan_status \<Rightarrow> plan_status list \<Rightarrow> plan_status \<Rightarrow> bool" where
  here: "plan_reaches s [] s"
| onward: "plan_step s t \<Longrightarrow> plan_reaches t ts u \<Longrightarrow> plan_reaches s (t # ts) u"

inductive_cases plan_reaches_NilE: "plan_reaches s [] u"
inductive_cases plan_reaches_ConsE: "plan_reaches s (t # ts) u"

lemma plan_step_iff: "plan_step s t \<longleftrightarrow> t \<in> set (allowed s)"
proof
  assume "plan_step s t"
  then show "t \<in> set (allowed s)"
    by cases (auto simp: transition_to_def can_transition_to_def split: if_splits)
next
  assume "t \<in> set (allowed s)"
  then have "transition_to \<lparr>pm_plan_id = [], pm_status = s\<rparr> t = Inr \<lparr>pm_plan_id = [], pm_status = t\<rparr>"
    by (simp add: transition_to_def can_transition_to_def)
  from plan_step_intro [OF this] show "plan_step s t" by simp
qed

text \<open>How far a status is from the end: every transition decreases it.\<close>

fun plan_rank :: "plan_status \<Rightarrow> nat" where
  "plan_rank DRAFT = 7"
| "plan_rank REVIEWED = 6"
| "plan_rank APPROVED = 5"
| "plan_rank BACKED_UP = 4"
| "plan_rank APPLYING = 3"
| "plan_rank VALIDATING = 2"
| "plan_rank ROLLING_BACK = 1"
| "plan_rank COMMITTED = 0"
| "plan_rank ROLLED_BACK = 0"
| "plan_rank RECOVERY_REQUIRED = 0"

lemma plan_step_rank: "plan_step s t \<Longrightarrow> plan_rank t < plan_rank s"
  by (cases s) (auto simp: plan_step_iff)

lemma plan_reaches_rank: "plan_reaches s ts u \<Longrightarrow> plan_rank u + length ts \<le> plan_rank s"
  by (induction rule: plan_reaches.induct) (auto dest: plan_step_rank)

lemma plan_step_visits:
  "plan_step s t \<Longrightarrow> t = COMMITTED \<Longrightarrow> s = VALIDATING"
  "plan_step s t \<Longrightarrow> t = VALIDATING \<Longrightarrow> s = APPLYING"
  "plan_step s t \<Longrightarrow> t = APPLYING \<Longrightarrow> s = BACKED_UP"
  "plan_step s t \<Longrightarrow> t = BACKED_UP \<Longrightarrow> s = APPROVED"
  "plan_step s t \<Longrightarrow> t = APPROVED \<Longrightarrow> s = REVIEWED"
  "plan_step s t \<Longrightarrow> t = REVIEWED \<Longrightarrow> s = DRAFT"
  "plan_step s t \<Longrightarrow> t \<noteq> DRAFT"
  by (cases s; auto simp: plan_step_iff)+

text \<open>Reading a path backwards from its end.\<close>

lemma plan_reaches_snoc: "plan_reaches s (ts @ [t]) u \<longleftrightarrow> u = t \<and> (\<exists>v. plan_reaches s ts v \<and> plan_step v t)"
proof (induction ts arbitrary: s)
  case Nil
  show ?case
    by (auto elim: plan_reaches_NilE plan_reaches_ConsE intro: plan_reaches.intros)
next
  case (Cons a ts)
  show ?case
    using Cons.IH [of a]
    by (auto elim!: plan_reaches_ConsE intro: plan_reaches.intros)
qed

lemma plan_reaches_back:
  assumes "plan_reaches s ts u" and "s \<noteq> u" and "\<And>v. plan_step v u \<Longrightarrow> v = w"
  obtains ts' where "ts = ts' @ [u]" "plan_reaches s ts' w"
proof (cases ts rule: rev_cases)
  case Nil
  with assms show ?thesis by (auto elim: plan_reaches_NilE)
next
  case (snoc ts' t)
  with assms show ?thesis using that by (auto simp: plan_reaches_snoc)
qed

text \<open>
  A plan that ends committed went through every safety stage, in order: reviewed, approved,
  backed up, applying, validating. No path to \<open>COMMITTED\<close> skips one, visits one twice, or contains a
  rollback.
\<close>

theorem committed_path_unique:
  assumes "plan_reaches DRAFT ts COMMITTED"
  shows "ts = [REVIEWED, APPROVED, BACKED_UP, APPLYING, VALIDATING, COMMITTED]"
proof -
  obtain t5 where t5: "ts = t5 @ [COMMITTED]" "plan_reaches DRAFT t5 VALIDATING"
    by (rule plan_reaches_back [OF assms]) (auto dest: plan_step_visits)
  obtain t4 where t4: "t5 = t4 @ [VALIDATING]" "plan_reaches DRAFT t4 APPLYING"
    by (rule plan_reaches_back [OF t5(2)]) (auto dest: plan_step_visits)
  obtain t3 where t3: "t4 = t3 @ [APPLYING]" "plan_reaches DRAFT t3 BACKED_UP"
    by (rule plan_reaches_back [OF t4(2)]) (auto dest: plan_step_visits)
  obtain t2 where t2: "t3 = t2 @ [BACKED_UP]" "plan_reaches DRAFT t2 APPROVED"
    by (rule plan_reaches_back [OF t3(2)]) (auto dest: plan_step_visits)
  obtain t1 where t1: "t2 = t1 @ [APPROVED]" "plan_reaches DRAFT t1 REVIEWED"
    by (rule plan_reaches_back [OF t2(2)]) (auto dest: plan_step_visits)
  obtain t0 where t0: "t1 = t0 @ [REVIEWED]" "plan_reaches DRAFT t0 DRAFT"
    by (rule plan_reaches_back [OF t1(2)]) (auto dest: plan_step_visits)
  have "t0 = []" using plan_reaches_rank [OF t0(2)] by simp
  with t0 t1 t2 t3 t4 t5 show ?thesis by simp
qed

end
