(* ===== verification/Models.thy ===== *)
theory Models
  imports Domain
begin

text \<open>
  The frozen dataclasses of \<open>domain/models.py\<close> as records, with the checks of their
  \<open>__post_init__\<close> methods, the reflective serialisation \<open>to_primitive\<close> spelled out per class, and the
  validity of an approval.  A \<open>JsonValue\<close> (a scalar or nested tuples) is a \<open>json\<close> value, tuples being
  arrays.
\<close>

section \<open>Shared checks\<close>

definition required :: "str \<Rightarrow> unit res" where
  "required v = (if blank v then Inl InvariantViolation else Inr ())"

definition non_negative :: "int option \<Rightarrow> unit res" where
  "non_negative v = (case v of Some i \<Rightarrow> if i < 0 then Inl InvariantViolation else Inr () | None \<Rightarrow> Inr ())"

lemma required_Inr [simp]: "required v = Inr u \<longleftrightarrow> \<not> blank v"
  by (simp add: required_def)

lemma non_negative_Inr [simp]: "non_negative v = Inr u \<longleftrightarrow> (\<forall>i. v = Some i \<longrightarrow> 0 \<le> i)"
  by (auto simp: non_negative_def split: option.splits)

section \<open>Hosts, hardware and products\<close>

record localized_message =
  message_key :: str
  arguments :: "(str \<times> json) list"
  fallback_text :: str

definition check_localized_message :: "localized_message \<Rightarrow> unit res" where
  "check_localized_message m = required (message_key m)"

record host_capabilities =
  can_execute :: bool
  can_read_files :: bool
  can_stage_files :: bool
  can_elevate :: bool
  service_manager :: "str option"
  gpu_tools :: "str list"
  limitations :: "str list"

record host_info =
  hi_host_id :: str
  hi_kind :: host_kind
  hi_display_name :: str
  hi_capabilities :: host_capabilities
  hi_hostname :: "str option"
  hi_user :: "str option"
  hi_ssh_alias :: "str option"
  hi_fingerprint :: "str option"
  hi_observed_at :: time

definition check_host_info :: "host_info \<Rightarrow> unit res" where
  "check_host_info h =
     bindR (required (hi_host_id h)) (\<lambda>_. bindR (required (hi_display_name h)) (\<lambda>_.
       if hi_kind h = HK_SSH \<and> (hi_ssh_alias h = None \<or> hi_ssh_alias h = Some [])
       then Inl InvariantViolation else Inr ()))"

record disk_info =
  mount_point :: str
  total_bytes :: int
  free_bytes :: int
  filesystem :: "str option"

definition check_disk_info :: "disk_info \<Rightarrow> unit res" where
  "check_disk_info d =
     bindR (required (mount_point d)) (\<lambda>_. bindR (non_negative (Some (total_bytes d))) (\<lambda>_.
     bindR (non_negative (Some (free_bytes d))) (\<lambda>_.
       if total_bytes d < free_bytes d then Inl InvariantViolation else Inr ())))"

record system_info =
  distribution :: str
  distribution_version :: str
  kernel :: str
  architecture :: str
  disks :: "disk_info list"

text \<open>A float is its numeral together with its exact decimal value \<open>pf_mant / 10 ^ pf_scale\<close>.\<close>

record pyfloat =
  pf_text :: str
  pf_mant :: int
  pf_scale :: nat

definition pf_between :: "int \<Rightarrow> pyfloat \<Rightarrow> int \<Rightarrow> bool" where
  "pf_between lo x hi \<longleftrightarrow> lo * 10 ^ pf_scale x \<le> pf_mant x \<and> pf_mant x \<le> hi * 10 ^ pf_scale x"

record gpu_info =
  gpu_id :: str
  gpu_vendor :: str
  gpu_name :: str
  vram_total_bytes :: "int option"
  vram_used_bytes :: "int option"
  utilization_pct :: "pyfloat option"
  temperature_c :: "pyfloat option"
  driver_version :: "str option"
  compute_stack :: "str option"
  compute_version :: "str option"
  compute_architecture :: "str option"

definition check_gpu_info :: "gpu_info \<Rightarrow> unit res" where
  "check_gpu_info g =
     bindR (non_negative (vram_total_bytes g)) (\<lambda>_. bindR (non_negative (vram_used_bytes g)) (\<lambda>_.
     bindR (case (vram_total_bytes g, vram_used_bytes g) of
              (Some t, Some u) \<Rightarrow> if t < u then Inl InvariantViolation else Inr ()
            | _ \<Rightarrow> Inr ()) (\<lambda>_.
       case utilization_pct g of
         Some p \<Rightarrow> if \<not> pf_between 0 p 100 then Inl InvariantViolation else Inr ()
       | None \<Rightarrow> Inr ())))"

record hardware_info =
  cpu :: str
  logical_cores :: int
  ram_total_bytes :: int
  ram_available_bytes :: int
  swap_total_bytes :: int
  swap_free_bytes :: int
  physical_cores :: "int option"
  gpus :: "gpu_info list"

definition check_hardware_info :: "hardware_info \<Rightarrow> unit res" where
  "check_hardware_info h =
     (if logical_cores h \<le> 0 then Inl InvariantViolation
      else bindR (eachR (\<lambda>v. non_negative (Some v))
        [ram_total_bytes h, ram_available_bytes h, swap_total_bytes h, swap_free_bytes h]) (\<lambda>_.
        if ram_total_bytes h < ram_available_bytes h then Inl InvariantViolation
        else if swap_total_bytes h < swap_free_bytes h then Inl InvariantViolation
        else Inr ()))"

record service_info =
  unit_name :: str
  load_state :: str
  active_state :: str
  sub_state :: str
  svc_enabled :: "bool option"
  fragment_path :: "str option"
  drop_in_paths :: "str list"

record observed_setting =
  os_key :: str
  os_configured :: json
  os_runtime :: json
  os_effective :: json
  os_sources :: "str list"
  os_consistent :: "bool option"

record ollama_model_info =
  om_name :: str
  om_digest :: "str option"
  size_bytes :: "int option"
  om_architecture :: "str option"
  parameter_size :: "str option"
  quantization :: "str option"
  configured_context :: "int option"
  runtime_context :: "int option"
  loaded :: bool
  processor :: "str option"
  cpu_memory_bytes :: "int option"
  gpu_memory_bytes :: "int option"

definition check_ollama_model_info :: "ollama_model_info \<Rightarrow> unit res" where
  "check_ollama_model_info m =
     bindR (required (om_name m)) (\<lambda>_. eachR non_negative
       [size_bytes m, configured_context m, runtime_context m, cpu_memory_bytes m, gpu_memory_bytes m])"

record ollama_info =
  ol_installed :: bool
  ol_version :: "str option"
  ol_binary_path :: "str option"
  service :: "service_info option"
  environment :: "(str \<times> str) list"
  api_endpoint :: "str option"
  api_connectivity :: probe_status
  models :: "ollama_model_info list"
  loaded_models :: "ollama_model_info list"
  settings :: "observed_setting list"

record opencode_info =
  oc_installed :: bool
  oc_version :: "str option"
  oc_binary_path :: "str option"
  config_locations :: "str list"
  active_config :: "str option"
  provider :: "str option"
  model :: "str option"
  base_url :: "str option"
  available_providers :: "str list"
  available_models :: "str list"
  base_urls :: "str list"
  context_settings :: "(str \<times> json) list"
  timeout_settings :: "(str \<times> json) list"
  ollama_compatible :: "bool option"
  parse_warnings :: "str list"

section \<open>The diagnostic report\<close>

text \<open>A probe's value is an arbitrary object; here its primitive form.\<close>

record probe_result =
  pr_status :: probe_status
  pr_value :: "json option"
  pr_source :: "str option"
  pr_observed_at :: time
  pr_duration_ms :: int
  pr_warnings :: "str list"
  pr_error_code :: "str option"
  pr_error_message :: "str option"

definition check_probe_result :: "probe_result \<Rightarrow> unit res" where
  "check_probe_result p =
     bindR (non_negative (Some (pr_duration_ms p))) (\<lambda>_.
       if pr_status p = PB_OK \<and> pr_value p = None then Inl InvariantViolation
       else if pr_status p \<noteq> PB_OK \<and> pr_value p \<noteq> None then Inl InvariantViolation
       else Inr ())"

record diagnostic_finding =
  finding_id :: str
  category :: str
  df_severity :: severity
  summary :: localized_message
  df_evidence :: "(str \<times> json) list"
  possible_causes :: "str list"
  affected_fields :: "str list"

record diagnostic_report =
  report_id :: str
  dr_schema_version :: str
  host :: host_info
  dr_status :: report_status
  dr_system :: "system_info option"
  dr_hardware :: "hardware_info option"
  ollama :: "ollama_info option"
  opencode :: "opencode_info option"
  probe_results :: "(str \<times> probe_result) list"
  findings :: "diagnostic_finding list"
  started_at :: time
  completed_at :: "time option"

section \<open>Profiles, recommendations, changes\<close>

record optimization_profile =
  profile_id :: str
  pf_version :: int
  profile_name :: str
  goals :: "str list"
  constraints :: "str list"

record risk =
  risk_severity :: severity
  risk_message :: localized_message
  mitigations :: "localized_message list"

record recommendation =
  recommendation_id :: str
  rule_id :: str
  rule_version :: int
  rc_target :: str
  setting_key :: str
  current_value :: json
  recommended_value :: json
  reason :: localized_message
  rc_severity :: severity
  rc_confidence :: confidence
  impact :: localized_message
  rc_risk :: risk
  rc_requires_restart :: bool
  rc_requires_root :: bool
  evidence :: "(str \<times> json) list"
  actionable :: bool
  conflicts_with :: "str list"

record change =
  change_id :: str
  ch_target :: str
  operation :: change_operation
  ch_before :: json
  ch_after :: json
  before_hash :: "str option"
  diff :: str
  requires_root :: bool
  requires_restart :: bool
  rollback_operation :: "change_operation option"
  validation_checks :: "str list"
  source_span :: "(int \<times> int) option"
  replacement_text :: "str option"

definition check_change :: "change \<Rightarrow> unit res" where
  "check_change c =
     bindR (required (change_id c)) (\<lambda>_. bindR (required (ch_target c)) (\<lambda>_.
       case source_span c of
         Some (start, end) \<Rightarrow>
           if start < 0 \<or> end < start \<or> replacement_text c = None then Inl InvariantViolation else Inr ()
       | None \<Rightarrow> Inr ()))"

record change_set =
  change_set_id :: str
  cs_host_id :: str
  changes :: "change list"
  content_hash :: str
  cs_status :: plan_status
  affected_services :: "str list"

definition check_change_set :: "change_set \<Rightarrow> unit res" where
  "check_change_set cs =
     (if distinct (map change_id (changes cs)) then Inr () else Inl InvariantViolation)"

lemma check_change_Inr:
  "check_change c = Inr u \<longleftrightarrow> \<not> blank (change_id c) \<and> \<not> blank (ch_target c) \<and>
     (\<forall>a b. source_span c = Some (a, b) \<longrightarrow> 0 \<le> a \<and> a \<le> b \<and> replacement_text c \<noteq> None)"
  by (auto simp: check_change_def bindR_eq_Inr split: option.splits prod.splits)

lemma check_change_set_Inr [simp]:
  "check_change_set cs = Inr u \<longleftrightarrow> distinct (map change_id (changes cs))"
  by (simp add: check_change_set_def)

section \<open>Encryption policy, plans, approvals\<close>

record encryption_info =
  enc_enabled :: bool
  scheme :: "str option"
  envelope_version :: "int option"
  key_reference :: "str option"
  key_scope :: "str option"

definition check_encryption_info :: "encryption_info \<Rightarrow> unit res" where
  "check_encryption_info e =
     (if \<not> enc_enabled e \<and> \<not> (scheme e = None \<and> envelope_version e = None \<and> key_reference e = None
            \<and> key_scope e = None) then Inl InvariantViolation
      else if enc_enabled e \<and> (scheme e \<noteq> Some (lit ''AES-256-GCM'') \<or> envelope_version e \<noteq> Some 1
            \<or> (key_reference e = None \<or> key_reference e = Some [])
            \<or> (key_scope e \<noteq> Some (lit ''local_secret_service'') \<and> key_scope e \<noteq> Some (lit ''remote_root'')))
      then Inl InvariantViolation else Inr ())"

definition no_encryption :: encryption_info where
  "no_encryption = \<lparr>enc_enabled = False, scheme = None, envelope_version = None, key_reference = None,
     key_scope = None\<rparr>"

definition encryption_content_hash :: "runtime \<Rightarrow> encryption_info \<Rightarrow> str" where
  "encryption_content_hash rt e = sha256 rt (dumps True (JArr
     [JBool (enc_enabled e), jopt JStr (scheme e), jopt JInt (envelope_version e),
      jopt JStr (key_reference e), jopt JStr (key_scope e)]))"

record optimization_plan =
  plan_id :: str
  op_report_id :: str
  report_hash :: str
  op_profile :: optimization_profile
  rule_catalog_version :: str
  recommendations :: "recommendation list"
  selected_ids :: "str list"
  op_change_set :: "change_set option"
  op_status :: plan_status
  created_at :: time
  expires_at :: "time option"
  backup_policy :: encryption_info

record approval_record =
  approval_id :: str
  ap_plan_id :: str
  ap_report_hash :: str
  change_set_hash :: str
  actor :: str
  backup_policy_hash :: str
  plaintext_backup_acknowledged :: bool
  approved_at :: time
  ap_expires_at :: "time option"

definition unexpired :: "time \<Rightarrow> time option \<Rightarrow> bool" where
  "unexpired now e = (case e of None \<Rightarrow> True | Some t \<Rightarrow> now < t)"

definition is_valid_for :: "runtime \<Rightarrow> approval_record \<Rightarrow> optimization_plan \<Rightarrow> time \<Rightarrow> bool" where
  "is_valid_for rt a p now = (case op_change_set p of
       None \<Rightarrow> False
     | Some cs \<Rightarrow>
         ap_plan_id a = plan_id p
         \<and> ap_report_hash a = report_hash p
         \<and> change_set_hash a = content_hash cs
         \<and> backup_policy_hash a = encryption_content_hash rt (backup_policy p)
         \<and> (enc_enabled (backup_policy p) \<or> plaintext_backup_acknowledged a)
         \<and> unexpired now (expires_at p)
         \<and> unexpired now (ap_expires_at a))"

section \<open>Validation results and backups\<close>

record validation_result =
  validation_id :: str
  vr_scope :: str
  check :: str
  vr_status :: validation_status
  expected :: json
  actual :: json
  vr_severity :: severity
  vr_message :: "localized_message option"
  vr_duration_ms :: int

record backup_item =
  bi_target :: str
  existed :: bool
  content_ref :: "str option"
  bi_sha256 :: "str option"
  mode :: "int option"
  uid :: "int option"
  gid :: "int option"
  selinux_context :: "str option"
  service_state :: "str option"
  bi_storage_location :: "str option"

record backup_manifest =
  backup_id :: str
  bm_schema_version :: str
  bm_plan_id :: str
  bm_change_set_hash :: str
  bm_host_id :: str
  host_fingerprint :: "str option"
  items :: "backup_item list"
  manifest_hash :: str
  storage_location :: str
  encryption :: encryption_info
  protected :: bool
  bm_created_at :: time
  retention_expires_at :: "time option"
  complete :: bool

section \<open>Schema versions\<close>

text \<open>
  \<open>validate_schema_version\<close>: the part before the first dot, read by \<open>int\<close>, is 1.  Python's \<open>int\<close> trims
  white space and accepts a sign; its underscores and non-ASCII digits are not modelled.
\<close>

definition py_int :: "str \<Rightarrow> int option" where
  "py_int t = (let s = strip t;
       neg = (s \<noteq> [] \<and> hd s = 45);
       ds = (if s \<noteq> [] \<and> (hd s = 45 \<or> hd s = 43) then tl s else s)
     in if ds \<noteq> [] \<and> list_all isdigit ds then Some (if neg then - dec_val ds else dec_val ds) else None)"

definition validate_schema_version :: "str \<Rightarrow> unit res" where
  "validate_schema_version v = (case partition1 46 v of
       (_, None) \<Rightarrow> Inl InvariantViolation
     | (major, Some _) \<Rightarrow>
         (case py_int major of
            None \<Rightarrow> Inl InvariantViolation
          | Some m \<Rightarrow> if m \<noteq> 1 then Inl InvariantViolation else Inr ()))"

end
