(* ===== verification/PyNet.thy ===== *)
theory PyNet
  imports PyText Json
begin

text \<open>
  The parts of Python's \<open>ipaddress\<close> and \<open>urllib.parse\<close> the endpoint checks of the planners call:
  \<open>ip_address(text)\<close> with \<open>is_loopback\<close>, and \<open>urlsplit(text)\<close> with the fields the planner reads.
\<close>

section \<open>Splitting\<close>

fun split_on :: "int \<Rightarrow> str \<Rightarrow> str list" where
  "split_on c [] = [[]]"
| "split_on c (x # xs) =
     (if x = c then [] # split_on c xs
      else (case split_on c xs of [] \<Rightarrow> [[x]] | y # ys \<Rightarrow> (x # y) # ys))"

lemma split_on_nonempty [simp]: "split_on c s \<noteq> []"
  by (induction s) (auto split: list.splits)

text \<open>\<open>text.rpartition(c)\<close>: \<open>None\<close> when the separator is missing.\<close>

definition rpartition1 :: "int \<Rightarrow> str \<Rightarrow> (str \<times> str) option" where
  "rpartition1 c s = (if c \<in> set s
     then Some (rev (tl (dropWhile (\<lambda>x. x \<noteq> c) (rev s))), rev (takeWhile (\<lambda>x. x \<noteq> c) (rev s)))
     else None)"

section \<open>IP addresses\<close>

datatype ip = IPv4 "int list" | IPv6 "int list"

definition octet :: "str \<Rightarrow> int option" where
  "octet s = (if s = [] \<or> \<not> list_all isdigit s \<or> 3 < length s \<or> (s \<noteq> [48] \<and> hd s = 48)
        \<or> 255 < dec_val s then None else Some (dec_val s))"

fun all_some :: "'a option list \<Rightarrow> 'a list option" where
  "all_some [] = Some []"
| "all_some (x # xs) = (case (x, all_some xs) of (Some y, Some ys) \<Rightarrow> Some (y # ys) | _ \<Rightarrow> None)"

definition parse_ipv4 :: "str \<Rightarrow> int list option" where
  "parse_ipv4 s = (let ps = split_on 46 s in if length ps = 4 then all_some (map octet ps) else None)"

definition hextet :: "str \<Rightarrow> int option" where
  "hextet s = (if s = [] \<or> 4 < length s then None
     else map_option (foldl (\<lambda>a d. 16 * a + d) 0) (all_some (map hexval s)))"

text \<open>The index of the empty inner part that \<open>::\<close> stands for; two of them are an error.\<close>

definition inner_empty :: "str list \<Rightarrow> nat list" where
  "inner_empty ps = filter (\<lambda>i. ps ! i = []) [1..<length ps - 1]"

definition ipv6_groups :: "str list \<Rightarrow> int list option" where
  "ipv6_groups ps =
     (case inner_empty ps of
        [] \<Rightarrow> if length ps = 8 then all_some (map hextet ps) else None
      | [k] \<Rightarrow>
          (let hi0 = take k ps; lo0 = drop (Suc k) ps;
               hi = (if hi0 \<noteq> [] \<and> hd hi0 = [] then tl hi0 else hi0);
               lo = (if lo0 \<noteq> [] \<and> last lo0 = [] then butlast lo0 else lo0)
           in if (hi0 \<noteq> hi \<and> hi \<noteq> []) \<or> (lo0 \<noteq> lo \<and> lo \<noteq> []) \<or> 8 \<le> length hi + length lo then None
              else (case (all_some (map hextet hi), all_some (map hextet lo)) of
                      (Some a, Some b) \<Rightarrow> Some (a @ replicate (8 - length hi - length lo) 0 @ b)
                    | _ \<Rightarrow> None))
      | _ \<Rightarrow> None)"

definition hex16 :: "int \<Rightarrow> int \<Rightarrow> str" where
  "hex16 a b = map hexdigit [a div 16, a mod 16, b div 16, b mod 16]"

definition parse_ipv6 :: "str \<Rightarrow> int list option" where
  "parse_ipv6 s =
     (let (addr, scope) = partition1 37 s;
          ps = split_on 58 addr
      in if scope = Some [] \<or> (case scope of Some sc \<Rightarrow> 37 \<in> set sc | None \<Rightarrow> False) then None
         else if length ps < 3 then None
         else (let full = (if 46 \<in> set (last ps)
                 then map_option (\<lambda>v. butlast ps @ [hex16 (v ! 0) (v ! 1), hex16 (v ! 2) (v ! 3)])
                        (parse_ipv4 (last ps))
                 else Some ps)
               in case full of None \<Rightarrow> None
                  | Some qs \<Rightarrow> if 9 < length qs then None else ipv6_groups qs))"

text \<open>\<open>ipaddress.ip_address(text)\<close>; \<open>None\<close> is its \<open>ValueError\<close>.\<close>

definition ip_address :: "str \<Rightarrow> ip option" where
  "ip_address s = (if 47 \<in> set s then None else (case parse_ipv4 s of Some v \<Rightarrow> Some (IPv4 v)
     | None \<Rightarrow> map_option IPv6 (parse_ipv6 s)))"

fun is_loopback :: "ip \<Rightarrow> bool" where
  "is_loopback (IPv4 v) = (hd v = 127)"
| "is_loopback (IPv6 g) =
     (if take 6 g = [0, 0, 0, 0, 0, 65535] then g ! 6 div 256 = 127 else g = [0, 0, 0, 0, 0, 0, 0, 1])"

section \<open>URLs\<close>

record url =
  url_scheme :: str
  url_netloc :: str
  url_path :: str
  url_query :: str
  url_fragment :: str

definition is_alpha :: "int \<Rightarrow> bool" where
  "is_alpha c \<longleftrightarrow> (65 \<le> c \<and> c \<le> 90) \<or> (97 \<le> c \<and> c \<le> 122)"

definition lower_ascii :: "int \<Rightarrow> int" where
  "lower_ascii c = (if 65 \<le> c \<and> c \<le> 90 then c + 32 else c)"

definition scheme_char :: "int \<Rightarrow> bool" where
  "scheme_char c \<longleftrightarrow> is_alpha c \<or> isdigit c \<or> c = 43 \<or> c = 45 \<or> c = 46"

definition split_scheme :: "str \<Rightarrow> str \<times> str" where
  "split_scheme u = (case partition1 58 u of
      (s, Some r) \<Rightarrow> if s \<noteq> [] \<and> is_alpha (hd s) \<and> list_all scheme_char s then (map lower_ascii s, r) else ([], u)
    | _ \<Rightarrow> ([], u))"

definition netloc_end :: "int \<Rightarrow> bool" where
  "netloc_end c \<longleftrightarrow> c = 47 \<or> c = 63 \<or> c = 35"

definition split_netloc :: "str \<Rightarrow> str \<times> str" where
  "split_netloc r = (if startswith r [47, 47]
     then (takeWhile (\<lambda>c. \<not> netloc_end c) (drop 2 r), dropWhile (\<lambda>c. \<not> netloc_end c) (drop 2 r))
     else ([], r))"

definition hostinfo :: "str \<Rightarrow> str" where
  "hostinfo netloc = (case rpartition1 64 netloc of Some (_, h) \<Rightarrow> h | None \<Rightarrow> netloc)"

text \<open>CPython's check of a bracketed host: nothing around the brackets but a port, and the host an IPv6
  address or an \<open>IPvFuture\<close> literal.\<close>

definition ipvfuture :: "str \<Rightarrow> bool" where
  "ipvfuture h = (case partition1 46 (drop 1 h) of
      (x, Some y) \<Rightarrow> x \<noteq> [] \<and> list_all (\<lambda>c. hexval c \<noteq> None) x \<and> y \<noteq> [] \<and> 10 \<notin> set y
    | _ \<Rightarrow> False)"

definition bracket_ok :: "str \<Rightarrow> bool" where
  "bracket_ok netloc =
     (let (pre, br) = partition1 91 (hostinfo netloc) in
      case br of
        Some b \<Rightarrow>
          (let (h, port) = partition1 93 b in
           pre = [] \<and> (case port of Some p \<Rightarrow> p = [] \<or> hd p = 58 | None \<Rightarrow> True)
           \<and> (if startswith h [118] then ipvfuture h
               else (case ip_address h of Some (IPv6 _) \<Rightarrow> True | _ \<Rightarrow> False)))
      | None \<Rightarrow> False)"

text \<open>
  \<open>urlsplit(text)\<close>: leading controls and blanks are dropped, tab, carriage return and line feed removed.
  The Unicode normalisation check of non-ASCII hosts is not modelled.
\<close>

definition urlsplit :: "str \<Rightarrow> url res" where
  "urlsplit text =
     (let u = filter (\<lambda>c. c \<noteq> 9 \<and> c \<noteq> 13 \<and> c \<noteq> 10) (dropWhile (\<lambda>c. 0 \<le> c \<and> c \<le> 32) text);
          (sch, r) = split_scheme u;
          (netloc, r) = split_netloc r;
          (r, frag) = partition1 35 r;
          (path, query) = partition1 63 r
      in if (91 \<in> set netloc) \<noteq> (93 \<in> set netloc) then Inl ValueError
         else if 91 \<in> set netloc \<and> \<not> bracket_ok netloc then Inl ValueError
         else Inr \<lparr>url_scheme = sch, url_netloc = netloc, url_path = path,
               url_query = (case query of Some q \<Rightarrow> q | None \<Rightarrow> []),
               url_fragment = (case frag of Some f \<Rightarrow> f | None \<Rightarrow> [])\<rparr>)"

definition url_hostname :: "url \<Rightarrow> str option" where
  "url_hostname u =
     (let hi = hostinfo (url_netloc u);
          h = (case partition1 91 hi of
                 (_, Some b) \<Rightarrow> fst (partition1 93 b)
               | (_, None) \<Rightarrow> fst (partition1 58 hi))
      in if h = [] then None else Some (map lower_ascii h))"

definition url_username :: "url \<Rightarrow> str option" where
  "url_username u = map_option (\<lambda>(i, _). fst (partition1 58 i)) (rpartition1 64 (url_netloc u))"

definition url_password :: "url \<Rightarrow> str option" where
  "url_password u = (case rpartition1 64 (url_netloc u) of
      Some (i, _) \<Rightarrow> snd (partition1 58 i) | None \<Rightarrow> None)"

end
