(* ===== verification/Jsonc.thy ===== *)
theory Jsonc
  imports Json "HOL-Library.Sublist"
begin

text \<open>
  The JSONC span parser of \<open>planning/opencode.py\<close> (\<open>_JsoncSpanParser\<close>, \<open>locate_scalar_spans\<close>): a
  recursive descent over the text that records, for every scalar, its dotted path, its source span and
  its value.

  The parser object's state is \<open>(position, spans)\<close>.  Here \<open>position\<close> is represented by the text that is
  still unread (\<open>position = n - length rest\<close>, \<open>n\<close> the length of the content) and \<open>spans\<close> by the log of
  the assignments made to the dictionary, oldest first; \<open>dict_of\<close> turns the log into the dictionary.
  The recursion carries fuel; \<open>length content\<close> is always enough (\<open>locate_terminates\<close>).  Python's own
  recursion limit on deeply nested input is not modelled.
\<close>

record scalar_span =
  span_start :: nat
  span_end :: nat
  span_value :: json

type_synonym spans = "(str \<times> scalar_span) list"

definition parse_failed :: exn where
  "parse_failed = AdapterError ''parse_failed''"

section \<open>Lexical steps\<close>

fun find_close :: "str \<Rightarrow> str option" where
  "find_close (c # d # r) = (if c = 42 \<and> d = 47 then Some r else find_close (d # r))"
| "find_close _ = None"

lemma find_close_suffix: "find_close s = Some r \<Longrightarrow> \<exists>u. s = u @ r \<and> u \<noteq> []"
  by (induction s rule: find_close.induct) (auto split: if_splits)

lemma find_close_length: "find_close s = Some r \<Longrightarrow> length r < length s"
  by (auto dest: find_close_suffix)

function skip :: "str \<Rightarrow> str res" where
  "skip [] = Inr []"
| "skip (c # cs) =
     (if isspace c then skip cs
      else if startswith (c # cs) [47, 47] then skip (drop 1 (dropWhile (\<lambda>x. x \<noteq> 10) (drop 1 cs)))
      else if startswith (c # cs) [47, 42] then
        (case find_close (drop 1 cs) of
           None \<Rightarrow> Inl parse_failed
         | Some r \<Rightarrow> skip r)
      else Inr (c # cs))"
  by pat_completeness auto
termination
proof (relation "measure length")
  fix c :: int and cs :: str
  have "length (dropWhile (\<lambda>x. x \<noteq> 10) (drop 1 cs)) \<le> length (drop 1 cs)" by (rule length_dropWhile_le)
  then show "(drop 1 (dropWhile (\<lambda>x. x \<noteq> 10) (drop 1 cs)), c # cs) \<in> measure length" by simp
qed (auto dest!: find_close_length)

declare skip.simps(2) [simp del]

definition expect :: "str \<Rightarrow> str \<Rightarrow> str res" where
  "expect v s = bindR (skip s) (\<lambda>s. if startswith s v then Inr (drop (length v) s) else Inl parse_failed)"

definition take_tok :: "str \<Rightarrow> str \<Rightarrow> str option" where
  "take_tok v s = (if startswith s v then Some (drop (length v) s) else None)"

fun scan_string :: "bool \<Rightarrow> str \<Rightarrow> (str \<times> str) option" where
  "scan_string escaped [] = None"
| "scan_string escaped (c # cs) =
     (if escaped then map_option (\<lambda>(b, r). (c # b, r)) (scan_string False cs)
      else if c = 92 then map_option (\<lambda>(b, r). (c # b, r)) (scan_string True cs)
      else if c = 34 then Some ([], cs)
      else map_option (\<lambda>(b, r). (c # b, r)) (scan_string False cs))"

text \<open>
  \<open>_string\<close> is only called at the opening quote (its callers have skipped blanks), so what it hands to
  \<open>json.loads\<close> is the quote, the scanned body and the closing quote.  A decoding error is not
  caught here: it leaves the parser as \<open>JSONDecodeError\<close>.
\<close>

definition string_tok :: "str \<Rightarrow> (str \<times> str) res" where
  "string_tok s =
     bindR (expect [34] s) (\<lambda>r.
       case scan_string False r of
         None \<Rightarrow> Inl parse_failed
       | Some (body, r') \<Rightarrow>
           (case json_unescape body of
              None \<Rightarrow> Inl JSONDecodeError
            | Some v \<Rightarrow> Inr (v, r')))"

definition token_end :: "int \<Rightarrow> bool" where
  "token_end c \<longleftrightarrow> c \<in> {44, 93, 125, 32, 9, 13, 10, 47}"

text \<open>The last part of \<open>_value\<close>: a string or a bare token, with its value.\<close>

definition scalar_tok :: "str \<Rightarrow> (json \<times> str) res" where
  "scalar_tok s =
     (if startswith s [34] then bindR (string_tok s) (\<lambda>(v, r). Inr (JStr v, r))
      else (case loads_token (takeWhile (\<lambda>c. \<not> token_end c) s) of
              Inr v \<Rightarrow> Inr (v, dropWhile (\<lambda>c. \<not> token_end c) s)
            | Inl e \<Rightarrow> Inl (if e = JSONDecodeError then parse_failed else e)))"

text \<open>\<open>_path\<close>: the dotted key of a path; array indices attach without a dot.\<close>

definition path_step :: "str \<Rightarrow> str \<Rightarrow> str" where
  "path_step result part =
     result @ (if startswith part [91] then part else (if result \<noteq> [] then [46] else []) @ part)"

definition dotted :: "str list \<Rightarrow> str" where
  "dotted parts = foldl path_step [] parts"

definition index_part :: "nat \<Rightarrow> str" where
  "index_part i = 91 # dec_nat i @ [93]"

section \<open>The recursive descent\<close>

text \<open>
  \<open>_object\<close> and \<open>_array\<close> are the loops \<open>members\<close> and \<open>elements\<close> behind an opening bracket; both take the
  recursive call to \<open>_value\<close> as an argument, which \<open>p_value\<close> instantiates with itself at one unit of
  fuel less.
\<close>

type_synonym value_parser = "str list \<Rightarrow> str \<Rightarrow> spans \<Rightarrow> (str \<times> spans) res"

text \<open>The end of one iteration: closed, or a comma that may be followed by the closing bracket.\<close>

definition separator :: "int \<Rightarrow> str \<Rightarrow> (str + str) res" where
  "separator close s =
     bindR (skip s) (\<lambda>s. case take_tok [close] s of
         Some r \<Rightarrow> Inr (Inl r)
       | None \<Rightarrow> bindR (expect [44] s) (\<lambda>s. bindR (skip s) (\<lambda>s.
           case take_tok [close] s of
             Some r \<Rightarrow> Inr (Inl r)
           | None \<Rightarrow> Inr (Inr s))))"

definition member_head :: "str \<Rightarrow> (str \<times> str) res" where
  "member_head s = bindR (string_tok s) (\<lambda>(key, s). bindR (skip s) (\<lambda>s. bindR (expect [58] s) (\<lambda>s.
     Inr (key, s))))"

fun members :: "value_parser \<Rightarrow> nat \<Rightarrow> value_parser" where
  "members pv 0 path s m = Inl Diverges"
| "members pv (Suc k) path s m =
     bindR (member_head s) (\<lambda>(key, s). bindR (pv (path @ [key]) s m) (\<lambda>(s, m).
     bindR (separator 125 s) (\<lambda>x. case x of Inl r \<Rightarrow> Inr (r, m) | Inr s \<Rightarrow> members pv k path s m)))"

fun elements :: "value_parser \<Rightarrow> nat \<Rightarrow> nat \<Rightarrow> value_parser" where
  "elements pv 0 i path s m = Inl Diverges"
| "elements pv (Suc k) i path s m =
     bindR (pv (path @ [index_part i]) s m) (\<lambda>(s, m).
     bindR (separator 93 s) (\<lambda>x. case x of Inl r \<Rightarrow> Inr (r, m) | Inr s \<Rightarrow> elements pv k (Suc i) path s m))"

text \<open>The opening bracket, and whether the group is empty.\<close>

definition open_group :: "int \<Rightarrow> int \<Rightarrow> str \<Rightarrow> (str + str) res" where
  "open_group op close s =
     bindR (expect [op] s) (\<lambda>s. bindR (skip s) (\<lambda>s.
       case take_tok [close] s of Some r \<Rightarrow> Inr (Inl r) | None \<Rightarrow> Inr (Inr s)))"

definition p_object :: "value_parser \<Rightarrow> nat \<Rightarrow> value_parser" where
  "p_object pv k path s m =
     bindR (open_group 123 125 s) (\<lambda>x. case x of Inl r \<Rightarrow> Inr (r, m) | Inr s \<Rightarrow> members pv k path s m)"

definition p_array :: "value_parser \<Rightarrow> nat \<Rightarrow> value_parser" where
  "p_array pv k path s m =
     bindR (open_group 91 93 s) (\<lambda>x. case x of Inl r \<Rightarrow> Inr (r, m) | Inr s \<Rightarrow> elements pv k 0 path s m)"

fun p_value :: "nat \<Rightarrow> nat \<Rightarrow> value_parser" where
  "p_value n 0 path s m = Inl Diverges"
| "p_value n (Suc f) path s m =
     bindR (skip s) (\<lambda>s.
       if startswith s [123] then p_object (p_value n f) f path s m
       else if startswith s [91] then p_array (p_value n f) f path s m
       else bindR (scalar_tok s) (\<lambda>(v, r).
              Inr (r, m @ [(dotted path,
                \<lparr>span_start = n - length s, span_end = n - length r, span_value = v\<rparr>)])))"

definition parse_log :: "str \<Rightarrow> spans res" where
  "parse_log content =
     bindR (skip content) (\<lambda>s. bindR (p_object (p_value (length content) (length content)) (length content) [] s []) (\<lambda>(s, m).
       bindR (skip s) (\<lambda>s. if s \<noteq> [] then Inl parse_failed else Inr m)))"

definition locate_scalar_spans :: "str \<Rightarrow> (str \<rightharpoonup> scalar_span) res" where
  "locate_scalar_spans content = bindR (parse_log content) (\<lambda>m. Inr (dict_of m))"

section \<open>What one lexical step consumes\<close>

lemma skip_suffix: "skip s = Inr r \<Longrightarrow> suffix r s"
proof (induction s rule: skip.induct)
  case 1
  then show ?case by simp
next
  case (2 c cs)
  have d: "suffix (drop 1 (dropWhile (\<lambda>x. x \<noteq> 10) (drop 1 cs))) (c # cs)"
    by (meson suffix_ConsI suffix_drop suffix_dropWhile suffix_order.trans)
  have f: "suffix t (c # cs)" if "find_close (drop 1 cs) = Some t" for t
  proof -
    from find_close_suffix [OF that] have "suffix t (drop 1 cs)" by (auto simp: suffix_def)
    then show ?thesis by (meson suffix_ConsI suffix_drop suffix_order.trans)
  qed
  show ?case
    using 2 d f
    by (auto simp: skip.simps(2) suffix_ConsI split: if_splits option.splits
        dest: suffix_order.trans)
qed

lemma skip_stops: "skip s = Inr r \<Longrightarrow> r = [] \<or> \<not> isspace (hd r)"
  by (induction s rule: skip.induct) (auto simp: skip.simps(2) split: if_splits option.splits)

lemma skip_err: "skip s = Inl e \<Longrightarrow> e = parse_failed"
  by (induction s rule: skip.induct) (auto simp: skip.simps(2) split: if_splits option.splits)

lemma skip_char [simp]: "\<not> isspace c \<Longrightarrow> c \<noteq> 47 \<Longrightarrow> skip (c # s) = Inr (c # s)"
  by (simp add: skip.simps(2) startswith_def)

lemma expect_suffix: "expect v s = Inr r \<Longrightarrow> v \<noteq> [] \<Longrightarrow> strict_suffix r s"
proof -
  assume "expect v s = Inr r" and v: "v \<noteq> []"
  then obtain t where "skip s = Inr t" "startswith t v" "r = drop (length v) t"
    by (auto simp: expect_def bindR_eq_Inr split: if_splits)
  then have "suffix t s" "t = v @ r" by (auto simp: skip_suffix startswith_iff)
  with v show ?thesis by (auto simp: strict_suffix_def suffix_def)
qed

lemma expect_err: "expect v s = Inl e \<Longrightarrow> e = parse_failed"
  by (auto simp: expect_def bindR_eq_Inl dest: skip_err split: if_splits)

lemma take_tok_suffix: "take_tok v s = Some r \<Longrightarrow> s = v @ r"
  by (auto simp: take_tok_def startswith_iff split: if_splits)

lemma scan_string_split: "scan_string esc s = Some (body, r) \<Longrightarrow> s = body @ 34 # r"
  by (induction esc s arbitrary: body rule: scan_string.induct) (auto split: if_splits)

lemma string_tok_InrE:
  assumes "string_tok s = Inr (v, r)"
  obtains t body where "expect [34] s = Inr t" "scan_string False t = Some (body, r)"
    "json_unescape body = Some v"
proof -
  from assms obtain t where t: "expect [34] s = Inr t" by (auto simp: string_tok_def bindR_eq_Inr)
  show ?thesis
  proof (cases "scan_string False t")
    case None
    with assms t show ?thesis by (simp add: string_tok_def)
  next
    case (Some p)
    obtain body r' where p: "p = (body, r')" by fastforce
    show ?thesis
    proof (cases "json_unescape body")
      case None
      with assms t Some p show ?thesis by (simp add: string_tok_def)
    next
      case (Some w)
      with assms t \<open>scan_string False t = Some p\<close> p that show ?thesis by (simp add: string_tok_def)
    qed
  qed
qed

lemma string_tok_strict: "string_tok s = Inr (v, r) \<Longrightarrow> strict_suffix r s"
proof (elim string_tok_InrE)
  fix t body assume t: "expect [34] s = Inr t" and "scan_string False t = Some (body, r)"
  then have "suffix r t" by (auto dest: scan_string_split simp: suffix_def)
  with expect_suffix [OF t] show ?thesis by (auto simp: suffix_order.le_less_trans)
qed

lemma string_tok_err: "string_tok s = Inl e \<Longrightarrow> e = parse_failed \<or> e = JSONDecodeError"
  by (fastforce simp: string_tok_def bindR_eq_Inl dest: expect_err split: option.splits prod.splits)

lemma loads_token_err: "loads_token t = Inl e \<Longrightarrow> e = JSONDecodeError \<or> e = ValueError"
  by (auto simp: loads_token_def loads_number_def Let_def split: if_splits option.splits prod.splits)

lemma loads_token_nonempty: "loads_token t = Inr v \<Longrightarrow> t \<noteq> []"
  by (auto simp: loads_token_def loads_number_def scan_int_def)

text \<open>The value a piece of scalar source text denotes.\<close>

definition decode_scalar :: "str \<Rightarrow> json res" where
  "decode_scalar t = (if startswith t [34]
     then (case json_unescape (butlast (tl t)) of Some v \<Rightarrow> Inr (JStr v) | None \<Rightarrow> Inl JSONDecodeError)
     else loads_token t)"

lemma scalar_tok_text:
  assumes "scalar_tok s = Inr (v, r)"
  obtains t where "s = t @ r" "t \<noteq> []" "decode_scalar t = Inr v"
proof (cases "startswith s [34]")
  case True
  then obtain s0 where s: "s = 34 # s0" by (auto simp: startswith_iff)
  then have "expect [34] s = Inr s0" by (simp add: expect_def startswith_def isspace_def)
  with True assms obtain body w where "scan_string False s0 = Some (body, r)" "json_unescape body = Some w"
      "v = JStr w"
    by (auto simp: scalar_tok_def bindR_eq_Inr elim!: string_tok_InrE)
  then show ?thesis using s
    by (intro that [of "34 # body @ [34]"]) (auto dest: scan_string_split simp: decode_scalar_def startswith_def)
next
  case False
  then have l: "loads_token (takeWhile (\<lambda>c. \<not> token_end c) s) = Inr v"
      and r: "r = dropWhile (\<lambda>c. \<not> token_end c) s"
    using assms by (auto simp: scalar_tok_def split: sum.splits)
  let ?t = "takeWhile (\<lambda>c. \<not> token_end c) s"
  have "\<not> startswith ?t [34]" using False by (cases s) (auto simp: startswith_def split: if_splits)
  then show ?thesis using l r loads_token_nonempty [OF l]
    by (intro that [of ?t]) (auto simp: decode_scalar_def)
qed

lemma scalar_tok_err: "scalar_tok s = Inl e \<Longrightarrow> e \<in> {parse_failed, JSONDecodeError, ValueError}"
  by (auto simp: scalar_tok_def bindR_eq_Inl split: sum.splits if_splits
      dest: string_tok_err loads_token_err)

lemma separator_strict:
  assumes "separator c s = Inr x"
  shows "strict_suffix (case x of Inl r \<Rightarrow> r | Inr r \<Rightarrow> r) s"
proof -
  obtain t where t: "skip s = Inr t" using assms by (auto simp: separator_def bindR_eq_Inr)
  have st: "suffix t s" by (rule skip_suffix [OF t])
  show ?thesis
  proof (cases "take_tok [c] t")
    case (Some r)
    then have "x = Inl r" using assms t by (simp add: separator_def)
    moreover have "strict_suffix r t" using take_tok_suffix [OF Some] by (auto simp: strict_suffix_def suffix_def)
    ultimately show ?thesis using st by (auto simp: suffix_order.less_le_trans)
  next
    case None
    then obtain p q where p: "expect [44] t = Inr p" and q: "skip p = Inr q"
      using assms t by (auto simp: separator_def bindR_eq_Inr)
    have ps: "strict_suffix p s" using expect_suffix [OF p] st by (auto simp: suffix_order.less_le_trans)
    have qs: "strict_suffix q s" using skip_suffix [OF q] ps by (rule suffix_order.le_less_trans)
    show ?thesis
    proof (cases "take_tok [c] q")
      case (Some r)
      then have "x = Inl r" using assms t None p q by (simp add: separator_def)
      moreover have "suffix r q" using take_tok_suffix [OF Some] by (auto simp: suffix_def)
      ultimately show ?thesis using qs by (auto simp: suffix_order.le_less_trans)
    next
      case None': None
      then have "x = Inr q" using assms t None p q by (simp add: separator_def)
      then show ?thesis using qs by simp
    qed
  qed
qed

lemma separator_err: "separator c s = Inl e \<Longrightarrow> e = parse_failed"
  by (auto simp: separator_def bindR_eq_Inl dest: skip_err expect_err split: option.splits)

lemma open_group_strict:
  assumes "open_group op c s = Inr x"
  shows "strict_suffix (case x of Inl r \<Rightarrow> r | Inr r \<Rightarrow> r) s"
proof -
  obtain p q where p: "expect [op] s = Inr p" and q: "skip p = Inr q"
    using assms by (auto simp: open_group_def bindR_eq_Inr)
  have qs: "strict_suffix q s"
    using expect_suffix [OF p] skip_suffix [OF q] by (auto simp: suffix_order.le_less_trans)
  show ?thesis
  proof (cases "take_tok [c] q")
    case (Some r)
    then have "x = Inl r" using assms p q by (simp add: open_group_def)
    moreover have "suffix r q" using take_tok_suffix [OF Some] by (auto simp: suffix_def)
    ultimately show ?thesis using qs by (auto simp: suffix_order.le_less_trans)
  next
    case None
    then have "x = Inr q" using assms p q by (simp add: open_group_def)
    then show ?thesis using qs by simp
  qed
qed

lemma open_group_err: "open_group op c s = Inl e \<Longrightarrow> e = parse_failed"
  by (auto simp: open_group_def bindR_eq_Inl dest: skip_err expect_err split: option.splits)

lemma member_head_strict: "member_head s = Inr (key, r) \<Longrightarrow> strict_suffix r s"
  by (auto simp: member_head_def bindR_eq_Inr dest!: string_tok_strict skip_suffix expect_suffix)

lemma member_head_err: "member_head s = Inl e \<Longrightarrow> e \<in> {parse_failed, JSONDecodeError}"
  by (auto simp: member_head_def bindR_eq_Inl dest: string_tok_err skip_err expect_err)

section \<open>Where the spans lie\<close>

text \<open>The offset in \<open>C\<close> of an unread rest \<open>s\<close>.\<close>

definition pos :: "str \<Rightarrow> str \<Rightarrow> nat" where
  "pos C s = length C - length s"

lemma pos_mono: "suffix r s \<Longrightarrow> suffix s C \<Longrightarrow> pos C s \<le> pos C r"
  by (auto simp: pos_def suffix_length_le diff_le_mono2)

lemma pos_le: "pos C s \<le> length C"
  by (simp add: pos_def)

lemma slice_pos:
  assumes "suffix s C" and "s = t @ r"
  shows "slice (pos C s) (pos C r) C = t"
  using assms by (auto simp: suffix_def pos_def slice_def)

text \<open>A recorded span delimits a piece of the text whose value is the recorded one.\<close>

definition span_ok :: "str \<Rightarrow> scalar_span \<Rightarrow> bool" where
  "span_ok C sp \<longleftrightarrow> span_start sp < span_end sp \<and> span_end sp \<le> length C
     \<and> decode_scalar (slice (span_start sp) (span_end sp) C) = Inr (span_value sp)"

definition before :: "str \<times> scalar_span \<Rightarrow> str \<times> scalar_span \<Rightarrow> bool" where
  "before p q \<longleftrightarrow> span_end (snd p) \<le> span_start (snd q)"

text \<open>\<open>new\<close> is what a parse from \<open>s\<close> down to \<open>r\<close> may have logged.\<close>

definition located :: "str \<Rightarrow> str \<Rightarrow> str \<Rightarrow> spans \<Rightarrow> bool" where
  "located C s r new \<longleftrightarrow> sorted_wrt before new \<and>
     (\<forall>p\<in>set new. span_ok C (snd p) \<and> pos C s \<le> span_start (snd p) \<and> span_end (snd p) \<le> pos C r)"

lemma located_Nil [simp]: "located C s r []"
  by (simp add: located_def)

lemma located_widen:
  assumes "located C s r new" and "pos C s' \<le> pos C s" and "pos C r \<le> pos C r'"
  shows "located C s' r' new"
  using assms by (force simp: located_def)

lemma located_append:
  assumes "located C s t a" and "located C t r b" and "pos C s \<le> pos C t" and "pos C t \<le> pos C r"
  shows "located C s r (a @ b)"
proof -
  have "before p q" if "p \<in> set a" "q \<in> set b" for p q
    using assms(1,2) that by (force simp: located_def before_def)
  then show ?thesis using assms by (force simp: located_def sorted_wrt_append)
qed

section \<open>The contract of a value parser\<close>

text \<open>
  What the loops of \<open>_object\<close> and \<open>_array\<close> need of the recursive call, and what they promise with it:
  every successful parse consumes text and extends the log by spans of the text it consumed.
\<close>

locale descent_contract =
  fixes C :: str and pv :: value_parser
  assumes pv_parses: "suffix s C \<Longrightarrow> pv path s m = Inr (r, m') \<Longrightarrow>
    strict_suffix r s \<and> (\<exists>new. m' = m @ new \<and> located C s r new)"
begin

lemma pv_widens:
  assumes "suffix s C" and "suffix s1 s" and "pv path s1 m = Inr (s2, m2)" and "suffix r s2"
  obtains new where "m2 = m @ new" "located C s r new" "strict_suffix s2 s" "suffix s2 C" "located C s s2 new"
proof -
  have s1: "suffix s1 C" using assms(1,2) by (rule suffix_order.trans [rotated])
  from pv_parses [OF s1 assms(3)] obtain new where
    new: "strict_suffix s2 s1" "m2 = m @ new" "located C s1 s2 new" by blast
  have s2: "suffix s2 C" using new(1) s1 by (meson suffix_order.less_imp_le suffix_order.trans)
  have "pos C s \<le> pos C s1" "pos C s2 \<le> pos C r"
    using assms s2 by (auto intro: pos_mono)
  then have "located C s r new" "located C s s2 new" using new(3) by (auto intro: located_widen)
  moreover have "strict_suffix s2 s" using new(1) assms(2) by (rule suffix_order.less_le_trans)
  ultimately show ?thesis using that new(2) s2 by blast
qed

lemma members_parses:
  "suffix s C \<Longrightarrow> members pv k path s m = Inr (r, m') \<Longrightarrow>
    strict_suffix r s \<and> (\<exists>new. m' = m @ new \<and> located C s r new)"
proof (induction k arbitrary: s m)
  case 0
  then show ?case by simp
next
  case (Suc k)
  then obtain key s1 s2 m2 x where h: "member_head s = Inr (key, s1)"
    and v: "pv (path @ [key]) s1 m = Inr (s2, m2)" and x: "separator 125 s2 = Inr x"
    and k: "(case x of Inl r \<Rightarrow> Inr (r, m2) | Inr s \<Rightarrow> members pv k path s m2) = Inr (r, m')"
    by (auto simp: bindR_eq_Inr)
  have s1: "suffix s1 s" using member_head_strict [OF h] by simp
  show ?case
  proof (cases x)
    case (Inl t)
    with x have t: "strict_suffix t s2" by (auto dest: separator_strict)
    then obtain new where "m2 = m @ new" "located C s t new" "strict_suffix s2 s" "suffix s2 C"
        "located C s s2 new"
      by (rule pv_widens [OF Suc.prems(1) s1 v suffix_order.less_imp_le])
    with t k Inl show ?thesis by (auto intro: suffix_order.less_trans)
  next
    case (Inr t)
    with x have t: "strict_suffix t s2" by (auto dest: separator_strict)
    then obtain a where a: "m2 = m @ a" "located C s t a" "strict_suffix s2 s" "suffix s2 C"
        "located C s s2 a"
      by (rule pv_widens [OF Suc.prems(1) s1 v suffix_order.less_imp_le])
    have tC: "suffix t C" using t a(4) by (meson suffix_order.less_imp_le suffix_order.trans)
    from Suc.IH [OF tC, of m2] k Inr obtain b where b: "strict_suffix r t" "m' = m2 @ b" "located C t r b"
      by auto
    have ts: "strict_suffix t s" using t a(3) by (rule suffix_order.less_trans)
    have "located C s r (a @ b)"
      using a(2) b(3) by (rule located_append) (use ts b(1) tC Suc.prems(1) in \<open>auto intro!: pos_mono\<close>)
    then show ?thesis using a(1) b(1,2) ts by (auto intro: suffix_order.less_trans)
  qed
qed

lemma elements_parses:
  "suffix s C \<Longrightarrow> elements pv k i path s m = Inr (r, m') \<Longrightarrow>
    strict_suffix r s \<and> (\<exists>new. m' = m @ new \<and> located C s r new)"
proof (induction k arbitrary: i s m)
  case 0
  then show ?case by simp
next
  case (Suc k)
  then obtain s2 m2 x where v: "pv (path @ [index_part i]) s m = Inr (s2, m2)"
    and x: "separator 93 s2 = Inr x"
    and k: "(case x of Inl r \<Rightarrow> Inr (r, m2) | Inr s \<Rightarrow> elements pv k (Suc i) path s m2) = Inr (r, m')"
    by (auto simp: bindR_eq_Inr)
  show ?case
  proof (cases x)
    case (Inl t)
    with x have t: "strict_suffix t s2" by (auto dest: separator_strict)
    then obtain new where "m2 = m @ new" "located C s t new" "strict_suffix s2 s" "suffix s2 C"
        "located C s s2 new"
      by (rule pv_widens [OF Suc.prems(1) suffix_order.refl v suffix_order.less_imp_le])
    with t k Inl show ?thesis by (auto intro: suffix_order.less_trans)
  next
    case (Inr t)
    with x have t: "strict_suffix t s2" by (auto dest: separator_strict)
    then obtain a where a: "m2 = m @ a" "located C s t a" "strict_suffix s2 s" "suffix s2 C"
        "located C s s2 a"
      by (rule pv_widens [OF Suc.prems(1) suffix_order.refl v suffix_order.less_imp_le])
    have tC: "suffix t C" using t a(4) by (meson suffix_order.less_imp_le suffix_order.trans)
    from Suc.IH [OF tC, of "Suc i" m2] k Inr obtain b where b: "strict_suffix r t" "m' = m2 @ b" "located C t r b"
      by auto
    have ts: "strict_suffix t s" using t a(3) by (rule suffix_order.less_trans)
    have "located C s r (a @ b)"
      using a(2) b(3) by (rule located_append) (use ts b(1) tC Suc.prems(1) in \<open>auto intro!: pos_mono\<close>)
    then show ?thesis using a(1) b(1,2) ts by (auto intro: suffix_order.less_trans)
  qed
qed

lemma group_parses:
  assumes "suffix s C" and "open_group op c s = Inr x"
    and "(case x of Inl r \<Rightarrow> Inr (r, m) | Inr s \<Rightarrow> body s) = Inr (r, m')"
    and body: "\<And>t. suffix t C \<Longrightarrow> body t = Inr (r, m') \<Longrightarrow>
      strict_suffix r t \<and> (\<exists>new. m' = m @ new \<and> located C t r new)"
  shows "strict_suffix r s \<and> (\<exists>new. m' = m @ new \<and> located C s r new)"
proof (cases x)
  case (Inl t)
  then show ?thesis using assms(3) open_group_strict [OF assms(2)] by auto
next
  case (Inr t)
  then have t: "strict_suffix t s" using open_group_strict [OF assms(2)] by simp
  then have tC: "suffix t C" using assms(1) by (meson suffix_order.less_imp_le suffix_order.trans)
  from body [OF tC] Inr assms(3) obtain new where
    "strict_suffix r t" "m' = m @ new" "located C t r new" by auto
  then show ?thesis using t assms(1)
    by (auto intro!: exI [of _ new] located_widen [of C t r] pos_mono intro: suffix_order.less_trans)
qed

lemma p_object_parses:
  assumes "suffix s C" and "p_object pv k path s m = Inr (r, m')"
  shows "strict_suffix r s \<and> (\<exists>new. m' = m @ new \<and> located C s r new)"
proof -
  from assms(2) obtain x where "open_group 123 125 s = Inr x"
    and "(case x of Inl r \<Rightarrow> Inr (r, m) | Inr s \<Rightarrow> members pv k path s m) = Inr (r, m')"
    by (auto simp: p_object_def bindR_eq_Inr)
  with assms(1) show ?thesis by (rule group_parses) (rule members_parses)
qed

lemma p_array_parses:
  assumes "suffix s C" and "p_array pv k path s m = Inr (r, m')"
  shows "strict_suffix r s \<and> (\<exists>new. m' = m @ new \<and> located C s r new)"
proof -
  from assms(2) obtain x where "open_group 91 93 s = Inr x"
    and "(case x of Inl r \<Rightarrow> Inr (r, m) | Inr s \<Rightarrow> elements pv k 0 path s m) = Inr (r, m')"
    by (auto simp: p_array_def bindR_eq_Inr)
  with assms(1) show ?thesis by (rule group_parses) (rule elements_parses)
qed

end

text \<open>A scalar logs exactly the text it consumed.\<close>

lemma scalar_located:
  assumes "suffix s C" and "scalar_tok s = Inr (v, r)"
  shows "strict_suffix r s" and
    "located C s r [(d, \<lparr>span_start = length C - length s, span_end = length C - length r, span_value = v\<rparr>)]"
proof -
  obtain t where t: "s = t @ r" "t \<noteq> []" "decode_scalar t = Inr v"
    using assms(2) by (rule scalar_tok_text)
  then show r: "strict_suffix r s" by (auto simp: strict_suffix_def suffix_def)
  have "length s \<le> length C" using assms(1) by (rule suffix_length_le)
  moreover have "length r < length s" using t by simp
  ultimately have "pos C s < pos C r" by (simp add: pos_def)
  then show "located C s r [(d, \<lparr>span_start = length C - length s, span_end = length C - length r, span_value = v\<rparr>)]"
    using slice_pos [OF assms(1) t(1)] t(3)
    by (simp add: located_def span_ok_def pos_def)
qed

lemma p_value_parses: "descent_contract C (p_value (length C) f)"
proof (induction f)
  case 0
  show ?case by unfold_locales simp
next
  case (Suc f)
  show ?case
  proof
    fix s path m r m'
    assume s: "suffix s C" and p: "p_value (length C) (Suc f) path s m = Inr (r, m')"
    then obtain s1 where s1: "skip s = Inr s1" by (auto simp: bindR_eq_Inr)
    have s1s: "suffix s1 s" by (rule skip_suffix [OF s1])
    then have s1C: "suffix s1 C" using s by (rule suffix_order.trans)
    consider (obj) "p_object (p_value (length C) f) f path s1 m = Inr (r, m')"
      | (arr) "p_array (p_value (length C) f) f path s1 m = Inr (r, m')"
      | (sc) v where "scalar_tok s1 = Inr (v, r)" "m' = m @ [(dotted path,
          \<lparr>span_start = length C - length s1, span_end = length C - length r, span_value = v\<rparr>)]"
      using p s1 by (auto simp: bindR_eq_Inr split: if_splits)
    then have "strict_suffix r s1 \<and> (\<exists>new. m' = m @ new \<and> located C s1 r new)"
    proof cases
      case obj
      with s1C show ?thesis by (rule descent_contract.p_object_parses [OF Suc.IH])
    next
      case arr
      with s1C show ?thesis by (rule descent_contract.p_array_parses [OF Suc.IH])
    next
      case sc
      then show ?thesis using scalar_located [OF s1C] by blast
    qed
    then show "strict_suffix r s \<and> (\<exists>new. m' = m @ new \<and> located C s r new)"
      using s1s s by (auto intro: suffix_order.less_le_trans located_widen pos_mono)
  qed
qed

interpretation descent: descent_contract C "p_value (length C) f" for C f
  by (rule p_value_parses)

text \<open>The whole parse.\<close>

lemma parse_log_located:
  assumes "parse_log C = Inr m"
  shows "located C C [] m"
proof -
  from assms obtain s r r1 where "skip C = Inr s" "skip r = Inr r1"
    and o: "p_object (p_value (length C) (length C)) (length C) [] s [] = Inr (r, m)"
    by (auto simp: parse_log_def bindR_eq_Inr split: if_splits)
  then have s: "suffix s C" by (auto dest: skip_suffix)
  with descent.p_object_parses [OF this o] have "located C s r m" by auto
  then show ?thesis by (rule located_widen) (auto simp: pos_def s suffix_length_le)
qed

section \<open>The fuel is enough\<close>

lemma bindR_group_eq_Inl:
  "bindR g (\<lambda>x. case x of Inl r \<Rightarrow> Inr (k r) | Inr s \<Rightarrow> h s) = Inl e \<longleftrightarrow>
     g = Inl e \<or> (\<exists>t. g = Inr (Inr t) \<and> h t = Inl e)"
proof (cases g)
  case (Inr x)
  then show ?thesis by (cases x) auto
qed simp

locale total_descent = descent_contract +
  fixes L :: nat
  assumes pv_total: "suffix s C \<Longrightarrow> length s < L \<Longrightarrow> pv path s m \<noteq> Inl Diverges"
begin

lemma members_total:
  "suffix s C \<Longrightarrow> length s < k \<Longrightarrow> length s \<le> L \<Longrightarrow> members pv k path s m \<noteq> Inl Diverges"
proof (induction k arbitrary: s m)
  case 0
  then show ?case by simp
next
  case (Suc k)
  show ?case
  proof
    assume d: "members pv (Suc k) path s m = Inl Diverges"
    have "member_head s \<noteq> Inl Diverges" by (auto dest: member_head_err simp: parse_failed_def)
    then obtain key s1 where h: "member_head s = Inr (key, s1)"
      using d by (auto simp: bindR_eq_Inl)
    note s1 = member_head_strict [OF h]
    have s1C: "suffix s1 C" and l1: "length s1 < length s"
      using s1 Suc.prems(1) by (auto intro: suffix_order.trans suffix_length_less)
    have "pv (path @ [key]) s1 m \<noteq> Inl Diverges" using pv_total [OF s1C] l1 Suc.prems(3) by simp
    then obtain s2 m2 where v: "pv (path @ [key]) s1 m = Inr (s2, m2)"
      using d h by (auto simp: bindR_eq_Inl)
    note s2 = pv_parses [OF s1C v, THEN conjunct1]
    have "separator 125 s2 \<noteq> Inl Diverges" by (auto dest: separator_err simp: parse_failed_def)
    then obtain t where x: "separator 125 s2 = Inr (Inr t)" and k: "members pv k path t m2 = Inl Diverges"
      using d h v by (auto simp: bindR_group_eq_Inl)
    from separator_strict [OF x] have "suffix t C" "length t < length s2"
      using s2 s1C by (auto intro: suffix_order.trans suffix_length_less)
    moreover have "length s2 < length s1" using s2 by (rule suffix_length_less)
    ultimately show False using Suc.IH [of t m2] k l1 Suc.prems by simp
  qed
qed

lemma elements_total:
  "suffix s C \<Longrightarrow> length s < k \<Longrightarrow> length s < L \<Longrightarrow> elements pv k i path s m \<noteq> Inl Diverges"
proof (induction k arbitrary: i s m)
  case 0
  then show ?case by simp
next
  case (Suc k)
  show ?case
  proof
    assume d: "elements pv (Suc k) i path s m = Inl Diverges"
    then obtain s2 m2 where v: "pv (path @ [index_part i]) s m = Inr (s2, m2)"
      using pv_total [OF Suc.prems(1,3)] by (auto simp: bindR_eq_Inl)
    note s2 = pv_parses [OF Suc.prems(1) v, THEN conjunct1]
    have "separator 93 s2 \<noteq> Inl Diverges" by (auto dest: separator_err simp: parse_failed_def)
    then obtain t where x: "separator 93 s2 = Inr (Inr t)"
      and k: "elements pv k (Suc i) path t m2 = Inl Diverges"
      using d v by (auto simp: bindR_group_eq_Inl)
    from separator_strict [OF x] have "suffix t C" "length t < length s2"
      using s2 Suc.prems(1) by (auto intro: suffix_order.trans suffix_length_less)
    moreover have "length s2 < length s" using s2 by (rule suffix_length_less)
    ultimately show False using Suc.IH [of t "Suc i" m2] k Suc.prems by simp
  qed
qed

lemma opened_total:
  assumes "suffix s C" and "length s \<le> L" and "length s \<le> k"
  shows "p_object pv k path s m \<noteq> Inl Diverges" and "p_array pv k path s m \<noteq> Inl Diverges"
proof -
  have t: "suffix t C \<and> length t < k \<and> length t < L" if "open_group op c s = Inr (Inr t)" for op c t
    using open_group_strict [OF that] assms by (auto intro: suffix_order.trans dest: suffix_length_less)
  have e: "open_group op c s \<noteq> Inl Diverges" for op c
    by (auto dest: open_group_err simp: parse_failed_def)
  show "p_object pv k path s m \<noteq> Inl Diverges"
  proof
    assume "p_object pv k path s m = Inl Diverges"
    then obtain u where "open_group 123 125 s = Inr (Inr u)" "members pv k path u m = Inl Diverges"
      using e by (auto simp: p_object_def bindR_group_eq_Inl)
    with t [of 123 125 u] members_total [of u k path m] show False by simp
  qed
  show "p_array pv k path s m \<noteq> Inl Diverges"
  proof
    assume "p_array pv k path s m = Inl Diverges"
    then obtain u where "open_group 91 93 s = Inr (Inr u)" "elements pv k 0 path u m = Inl Diverges"
      using e by (auto simp: p_array_def bindR_group_eq_Inl)
    with t [of 91 93 u] elements_total [of u k 0 path m] show False by simp
  qed
qed

end

lemma p_value_total: "total_descent C (p_value (length C) f) f"
proof (induction f)
  case 0
  show ?case by unfold_locales simp
next
  case (Suc f)
  show ?case
  proof
    fix s path m
    assume s: "suffix s C" and l: "length s < Suc f"
    show "p_value (length C) (Suc f) path s m \<noteq> Inl Diverges"
    proof
      assume d: "p_value (length C) (Suc f) path s m = Inl Diverges"
      have "skip s \<noteq> Inl Diverges" by (auto dest: skip_err simp: parse_failed_def)
      then obtain s1 where s1: "skip s = Inr s1" by (cases "skip s") (use d in auto)
      have s1C: "suffix s1 C" and l1: "length s1 \<le> f"
        using skip_suffix [OF s1] s l by (auto intro: suffix_order.trans dest: suffix_length_le)
      have "scalar_tok s1 \<noteq> Inl Diverges" by (auto dest: scalar_tok_err simp: parse_failed_def)
      then show False
        using d s1 total_descent.opened_total [OF Suc.IH s1C l1 l1]
        by (auto simp: bindR_eq_Inl split: if_splits)
    qed
  qed
qed

interpretation descent_total: total_descent C "p_value (length C) f" f for C f
  by (rule p_value_total)

lemma parse_log_total: "parse_log C \<noteq> Inl Diverges"
proof
  assume d: "parse_log C = Inl Diverges"
  have "skip s \<noteq> Inl Diverges" for s by (auto dest: skip_err simp: parse_failed_def)
  then obtain s where s: "skip C = Inr s"
    and o: "p_object (p_value (length C) (length C)) (length C) [] s [] = Inl Diverges"
    using d by (auto simp: parse_log_def bindR_eq_Inl parse_failed_def split: if_splits)
  have "suffix s C" using skip_suffix [OF s] .
  then show False using descent_total.opened_total(1) [of s C] o by (auto simp: suffix_length_le)
qed

section \<open>Errors\<close>

text \<open>What the parser can raise.\<close>

definition parse_error :: "exn \<Rightarrow> bool" where
  "parse_error e \<longleftrightarrow> e \<in> {parse_failed, JSONDecodeError, ValueError, Diverges}"

lemma parse_error_failed [simp]: "parse_error parse_failed"
  by (simp add: parse_error_def)

lemma lexical_error:
  "skip s = Inl e \<Longrightarrow> parse_error e"
  "scalar_tok s = Inl e \<Longrightarrow> parse_error e"
  "member_head s = Inl e \<Longrightarrow> parse_error e"
  "separator c s = Inl e \<Longrightarrow> parse_error e"
  "open_group op c s = Inl e \<Longrightarrow> parse_error e"
  by (auto simp: parse_error_def dest: skip_err scalar_tok_err member_head_err separator_err open_group_err)

lemma members_error:
  assumes "\<And>path s m e. pv path s m = Inl e \<Longrightarrow> parse_error e"
  shows "members pv k path s m = Inl e \<Longrightarrow> parse_error e"
proof (induction k arbitrary: s m)
  case 0
  then show ?case by (simp add: parse_error_def)
next
  case (Suc k)
  then show ?case
    by (auto simp: bindR_eq_Inl [of "member_head s"] bindR_eq_Inl [of "pv _ _ _"] bindR_group_eq_Inl
        dest: lexical_error assms)
qed

lemma elements_error:
  assumes "\<And>path s m e. pv path s m = Inl e \<Longrightarrow> parse_error e"
  shows "elements pv k i path s m = Inl e \<Longrightarrow> parse_error e"
proof (induction k arbitrary: i s m)
  case 0
  then show ?case by (simp add: parse_error_def)
next
  case (Suc k)
  then show ?case
    by (auto simp: bindR_eq_Inl [of "pv _ _ _"] bindR_group_eq_Inl dest: lexical_error assms)
qed

lemma opened_error:
  assumes pv: "\<And>path s m e. pv path s m = Inl e \<Longrightarrow> parse_error e"
  shows "p_object pv k path s m = Inl e \<or> p_array pv k path s m = Inl e \<Longrightarrow> parse_error e"
proof -
  have "parse_error e" if "members pv k path t m = Inl e" for t
    using pv that by (rule members_error)
  moreover have "parse_error e" if "elements pv k 0 path t m = Inl e" for t
    using pv that by (rule elements_error)
  ultimately show "p_object pv k path s m = Inl e \<or> p_array pv k path s m = Inl e \<Longrightarrow> parse_error e"
    by (auto simp: p_object_def p_array_def bindR_group_eq_Inl dest: lexical_error)
qed

lemma p_value_error: "p_value n f path s m = Inl e \<Longrightarrow> parse_error e"
proof (induction f arbitrary: path s m e)
  case 0
  then show ?case by (simp add: parse_error_def)
next
  case (Suc f)
  have "parse_error e" if "p_object (p_value n f) f path t m = Inl e \<or> p_array (p_value n f) f path t m = Inl e" for t
    using Suc.IH that by (rule opened_error)
  with Suc.prems show ?case
    by (auto simp: bindR_eq_Inl split: if_splits dest: lexical_error)
qed

lemma parse_log_error:
  assumes "parse_log C = Inl e"
  shows "e \<in> {parse_failed, JSONDecodeError, ValueError}"
proof -
  have o: "parse_error e" if "p_object (p_value (length C) (length C)) (length C) [] t [] = Inl e" for t
    using p_value_error disjI1 [OF that] by (rule opened_error)
  have "parse_error e"
    using assms by (auto simp: parse_log_def bindR_eq_Inl split: if_splits dest: lexical_error o)
  then show ?thesis using assms parse_log_total [of C] by (auto simp: parse_error_def)
qed

end
