(* ===== verification/OpenCodePlan.thy ===== *)
theory OpenCodePlan
  imports Jsonc Models PyNet
begin

text \<open>
  \<open>planning/opencode.py\<close>: turning selected recommendations into changes of the active OpenCode
  configuration.  A change replaces one existing scalar, found by the span parser, of an allowlisted
  setting by a validated value; everything else is an error.
\<close>

section \<open>The allowlist\<close>

text \<open>
  \<open>_ALLOWED_PATH.fullmatch\<close>.  No alternative of the pattern lets a segment contain a dot, so a match is
  a condition on the segments of the path between dots.
\<close>

definition allowed_path :: "str \<Rightarrow> bool" where
  "allowed_path p =
     (case split_on 46 p of
        [a] \<Rightarrow> a \<in> {lit ''model'', lit ''small_model''}
      | [a, b] \<Rightarrow> a = lit ''compaction''
          \<and> b \<in> {lit ''auto'', lit ''prune'', lit ''tail_turns'', lit ''preserve_recent_tokens'', lit ''reserved''}
      | [a, b, c, d] \<Rightarrow> a = lit ''provider'' \<and> b \<noteq> [] \<and> c = lit ''options''
          \<and> d \<in> {lit ''baseURL'', lit ''timeout'', lit ''headerTimeout'', lit ''chunkTimeout''}
      | [a, b, c, d, e, f] \<Rightarrow> a = lit ''provider'' \<and> b \<noteq> [] \<and> c = lit ''models'' \<and> d \<noteq> []
          \<and> e = lit ''limit'' \<and> f = lit ''context''
      | _ \<Rightarrow> False)"

section \<open>Values\<close>

text \<open>
  \<open>_encode_scalar\<close>: arrays stand for tuples, which are no JSON scalars; \<open>json.dumps\<close> prints an
  integer with \<open>int.__repr__\<close>, which refuses more than 4300 digits.
\<close>

definition encode_scalar :: "json \<Rightarrow> str res" where
  "encode_scalar v = (case v of
      JArr _ \<Rightarrow> Inl (AdapterError ''invalid_recommendation'')
    | JObj _ \<Rightarrow> Inl (AdapterError ''invalid_recommendation'')
    | JInt i \<Rightarrow> if too_many_digits (dec_nat (nat \<bar>i\<bar>)) then Inl ValueError else Inr (dec_int i)
    | _ \<Rightarrow> Inr (dumps False v))"

definition int_at_least :: "int \<Rightarrow> json \<Rightarrow> bool" where
  "int_at_least k v = (case v of JInt i \<Rightarrow> k \<le> i | _ \<Rightarrow> False)"

definition check_if :: "bool \<Rightarrow> unit res" where
  "check_if b = guardR b (AdapterError ''invalid_recommendation'')"

definition loopback_url :: "url \<Rightarrow> bool" where
  "loopback_url u \<longleftrightarrow> url_scheme u = lit ''http''
     \<and> url_hostname u \<in> {Some (lit ''127.0.0.1''), Some (lit ''::1''), Some (lit ''localhost'')}
     \<and> url_username u \<in> {None, Some []} \<and> url_password u \<in> {None, Some []}
     \<and> url_query u = [] \<and> url_fragment u = []"

definition validate_value :: "str \<Rightarrow> json \<Rightarrow> unit res" where
  "validate_value path v =
     (if path \<in> {lit ''compaction.auto'', lit ''compaction.prune''} then
        check_if (case v of JBool _ \<Rightarrow> True | _ \<Rightarrow> False)
      else if path \<in> {lit ''compaction.tail_turns'', lit ''compaction.preserve_recent_tokens'',
                      lit ''compaction.reserved''} then
        check_if (int_at_least 0 v)
      else if path \<in> {lit ''model'', lit ''small_model''} then
        check_if (case v of JStr s \<Rightarrow> 47 \<in> set s \<and> \<not> blank s | _ \<Rightarrow> False)
      else if endswith path (lit ''.options.baseURL'') then
        (case v of
           JStr s \<Rightarrow> bindR (urlsplit s) (\<lambda>u. check_if (loopback_url u))
         | _ \<Rightarrow> Inl (AdapterError ''invalid_recommendation''))
      else if endswith path (lit ''.options.timeout'') \<or> endswith path (lit ''.options.headerTimeout'') then
        check_if (v = JBool False \<or> int_at_least 1 v)
      else if endswith path (lit ''.options.chunkTimeout'') \<or> endswith path (lit ''.limit.context'') then
        check_if (int_at_least 1 v)
      else Inl (AdapterError ''setting_not_allowed''))"

text \<open>
  \<open>span.value != current\<close> and \<open>type(span.value) is not type(current)\<close> raise the same error, so
  together they demand equality at the same type; a \<open>NaN\<close> equals nothing.
\<close>

definition same_scalar :: "json \<Rightarrow> json \<Rightarrow> bool" where
  "same_scalar v w \<longleftrightarrow> v = w \<and> v \<noteq> JFloat (lit ''NaN'')"

section \<open>Planning\<close>

record config_snapshot =
  snap_path :: str
  snap_content :: str
  snap_sha256 :: str

text \<open>\<open>ConfigSnapshot.capture\<close>.\<close>

definition capture :: "runtime \<Rightarrow> str \<Rightarrow> str \<Rightarrow> config_snapshot res" where
  "capture rt path content = bindR (utf8_encode content) (\<lambda>b.
     Inr \<lparr>snap_path = path, snap_content = content, snap_sha256 = sha256 rt b\<rparr>)"

text \<open>The body of the loop over the recommendations: the change for one selected recommendation.\<close>

definition plan_one :: "(str \<rightharpoonup> scalar_span) \<Rightarrow> config_snapshot \<Rightarrow> recommendation \<Rightarrow> change res" where
  "plan_one spans snap r =
     (let path = setting_key r in
      if \<not> allowed_path path then Inl (AdapterError ''setting_not_allowed'')
      else (case spans path of
        None \<Rightarrow> Inl (AdapterError ''source_conflict'')
      | Some sp \<Rightarrow>
          if \<not> same_scalar (span_value sp) (current_value r) then Inl (AdapterError ''source_conflict'')
          else bindR (validate_value path (recommended_value r)) (\<lambda>_.
               bindR (encode_scalar (recommended_value r)) (\<lambda>replacement.
               bindR (encode_scalar (span_value sp)) (\<lambda>old.
               let c = \<lparr>change_id = lit ''opencode:'' @ recommendation_id r,
                        ch_target = snap_path snap,
                        operation = REPLACE_FILE,
                        ch_before = span_value sp,
                        ch_after = recommended_value r,
                        before_hash = Some (snap_sha256 snap),
                        diff = path @ lit '': '' @ old @ lit '' -> '' @ replacement,
                        requires_root = False,
                        requires_restart = False,
                        rollback_operation = Some REPLACE_FILE,
                        validation_checks = [lit ''opencode.config.parse'', lit ''opencode.setting.value''],
                        source_span = Some (int (span_start sp), int (span_end sp)),
                        replacement_text = Some replacement\<rparr>
               in bindR (check_change c) (\<lambda>_. Inr c))))))"

definition selected_for :: "config_snapshot \<Rightarrow> recommendation list \<Rightarrow> recommendation list" where
  "selected_for snap rs =
     filter (\<lambda>r. actionable r \<and> rc_target r = snap_path snap) (sort_key recommendation_id rs)"

text \<open>\<open>_change_set_hash\<close>: the tuple \<open>(host_id, payload)\<close> is serialised as nested arrays.\<close>

definition span_json :: "(int \<times> int) option \<Rightarrow> json" where
  "span_json s = jopt (\<lambda>(a, b). JArr [JInt a, JInt b]) s"

definition change_set_hash_json :: "str \<Rightarrow> change list \<Rightarrow> json" where
  "change_set_hash_json h cs = JArr [JStr h, JArr (map (\<lambda>c. JArr [JStr (change_id c), JStr (ch_target c),
     jopt JStr (before_hash c), span_json (source_span c), jopt JStr (replacement_text c)]) cs)]"

definition opencode_change_set_hash :: "runtime \<Rightarrow> str \<Rightarrow> change list \<Rightarrow> str res" where
  "opencode_change_set_hash rt h cs =
     bindR (utf8_encode (dumps False (change_set_hash_json h cs))) (\<lambda>b. Inr (sha256 rt b))"

definition supported_opencode :: str where
  "supported_opencode = lit ''1.18.25''"

text \<open>\<open>OpenCodeChangePlanner.plan\<close>.\<close>

definition plan_opencode ::
  "runtime \<Rightarrow> str \<Rightarrow> diagnostic_report \<Rightarrow> recommendation list \<Rightarrow> config_snapshot \<Rightarrow> change_set res" where
  "plan_opencode rt supported report rs snap =
     (case opencode report of
        None \<Rightarrow> Inl (AdapterError ''unsupported_version'')
      | Some info \<Rightarrow>
          if oc_version info \<noteq> Some supported then Inl (AdapterError ''unsupported_version'')
          else if active_config info \<noteq> Some (snap_path snap) then Inl (AdapterError ''source_conflict'')
          else if parse_warnings info \<noteq> [] then Inl (AdapterError ''parse_failed'')
          else bindR (locate_scalar_spans (snap_content snap)) (\<lambda>spans.
               bindR (mapR (plan_one spans snap) (selected_for snap rs)) (\<lambda>cs.
               bindR (opencode_change_set_hash rt (hi_host_id (host report)) cs) (\<lambda>h.
               let cset = \<lparr>change_set_id = lit ''opencode:'' @ report_id report @ lit '':'' @ take 12 h,
                           cs_host_id = hi_host_id (host report),
                           changes = cs,
                           content_hash = h,
                           cs_status = DRAFT,
                           affected_services = []\<rparr>
               in bindR (check_change_set cset) (\<lambda>_. Inr cset)))))"

end
