(* ===== verification/OllamaPlan.thy ===== *)
theory OllamaPlan
  imports Models PyNet OpenCodePlan
begin

text \<open>
  \<open>planning/ollama.py\<close>: turning selected recommendations into one change of the systemd drop-in the
  program owns, and the editor of an existing drop-in, which replaces literal assignments, keeps every
  other line and refuses whatever it does not understand.
\<close>

definition bad_value :: exn where
  "bad_value = AdapterError ''invalid_recommendation''"

definition unsupported_drop_in :: exn where
  "unsupported_drop_in = AdapterError ''unsupported_existing_drop_in''"

definition drop_in_path :: str where
  "drop_in_path = lit ''/etc/systemd/system/ollama.service.d/90-llm-manager.conf''"

definition ollama_keys :: "str list" where
  "ollama_keys = [lit ''OLLAMA_HOST'', lit ''OLLAMA_CONTEXT_LENGTH'', lit ''OLLAMA_KEEP_ALIVE'',
     lit ''OLLAMA_MAX_LOADED_MODELS'', lit ''OLLAMA_NUM_PARALLEL'', lit ''OLLAMA_MAX_QUEUE'',
     lit ''OLLAMA_FLASH_ATTENTION'', lit ''OLLAMA_KV_CACHE_TYPE'']"

type_synonym policy = "(str \<times> int \<times> int) list"

definition bounds_for :: "policy \<Rightarrow> str \<Rightarrow> (int \<times> int) option" where
  "bounds_for pol key = map_of pol key"

section \<open>Values\<close>

definition strip_brackets :: "str \<Rightarrow> str" where
  "strip_brackets s = rev (dropWhile (\<lambda>c. c = 91 \<or> c = 93) (rev (dropWhile (\<lambda>c. c = 91 \<or> c = 93) s)))"

definition loopback_host :: "str \<Rightarrow> bool" where
  "loopback_host h = (case ip_address h of Some a \<Rightarrow> is_loopback a | None \<Rightarrow> h = lit ''localhost'')"

text \<open>
  The \<open>OLLAMA_HOST\<close> branch.  Without a colon \<open>rpartition\<close> gives no separator, which is refused before
  anything else is looked at; \<open>int\<close> may raise \<open>ValueError\<close> on digits that are no decimals.
\<close>

definition validate_endpoint :: "runtime \<Rightarrow> str \<Rightarrow> str res" where
  "validate_endpoint rt s = (case rpartition1 58 s of
      None \<Rightarrow> Inl bad_value
    | Some (h, port) \<Rightarrow>
        if \<not> loopback_host (strip_brackets h) \<or> \<not> py_isdigit rt port then Inl bad_value
        else bindR (int_of_digits rt port) (\<lambda>n. if 1 \<le> n \<and> n \<le> 65535 then Inr s else Inl bad_value))"

text \<open>The regular expression of \<open>OLLAMA_KEEP_ALIVE\<close>.\<close>

definition keep_alive :: "runtime \<Rightarrow> str \<Rightarrow> bool" where
  "keep_alive rt s = (case s of
      [] \<Rightarrow> False
    | c # cs \<Rightarrow>
        let rest = (if c = 48 then cs else dropWhile (is_decimal rt) cs)
        in isdigit c \<and> rest \<in> {[], lit ''ms'', lit ''s'', lit ''m'', lit ''h''})"

definition validate_setting :: "runtime \<Rightarrow> policy \<Rightarrow> str \<Rightarrow> json \<Rightarrow> str res" where
  "validate_setting rt pol key v =
     (if key = lit ''OLLAMA_HOST'' then
        (case v of JStr s \<Rightarrow> validate_endpoint rt s | _ \<Rightarrow> Inl bad_value)
      else if key = lit ''OLLAMA_FLASH_ATTENTION'' then
        (if v \<in> {JStr [49], JInt 1, JBool True} then Inr [49]
         else if v \<in> {JStr [48], JInt 0, JBool False} then Inr [48]
         else Inl bad_value)
      else if key = lit ''OLLAMA_KV_CACHE_TYPE'' then
        (case v of
           JStr s \<Rightarrow> if s \<in> {lit ''f16'', lit ''q8_0'', lit ''q4_0''} then Inr s else Inl bad_value
         | _ \<Rightarrow> Inl bad_value)
      else if key = lit ''OLLAMA_KEEP_ALIVE'' then
        (case v of JStr s \<Rightarrow> if keep_alive rt s then Inr s else Inl bad_value | _ \<Rightarrow> Inl bad_value)
      else (case bounds_for pol key of
          None \<Rightarrow> Inl (AdapterError ''unverified_threshold'')
        | Some (lo, hi) \<Rightarrow>
            (case v of
               JInt i \<Rightarrow> if lo \<le> i \<and> i \<le> hi
                 then (if too_many_digits (dec_nat (nat \<bar>i\<bar>)) then Inl ValueError else Inr (dec_int i))
                 else Inl bad_value
             | _ \<Rightarrow> Inl bad_value)))"

section \<open>Rendering and editing the drop-in\<close>

type_synonym setting = "str \<times> str"

definition service_header :: str where
  "service_header = lit ''[Service]''"

definition env_line :: "setting \<Rightarrow> str" where
  "env_line kv = lit ''Environment='' @ 34 # fst kv @ 61 # snd kv @ [34]"

definition unsafe_value :: "str \<Rightarrow> bool" where
  "unsafe_value v \<longleftrightarrow> (\<exists>c\<in>set v. c \<in> {10, 13, 0, 34})"

definition render_drop_in :: "setting list \<Rightarrow> str res" where
  "render_drop_in kvs = bindR (mapR (\<lambda>kv. if unsafe_value (snd kv) then Inl bad_value else Inr (env_line kv)) kvs)
     (\<lambda>ls. Inr (join [10] (service_header # ls) @ [10]))"

text \<open>\<open>render_drop_in(...).split("\n", 1)[1]\<close>: the assignments without the section header.\<close>

definition render_assignments :: "setting list \<Rightarrow> str res" where
  "render_assignments kvs = bindR (render_drop_in kvs) (\<lambda>t.
     case partition1 10 t of (_, Some r) \<Rightarrow> Inr r | (_, None) \<Rightarrow> Inl bad_value)"

text \<open>The two character classes of the assignment pattern, and the pattern itself.\<close>

definition key_char :: "int \<Rightarrow> bool" where
  "key_char c \<longleftrightarrow> (65 \<le> c \<and> c \<le> 90) \<or> c = 95"

definition value_char :: "int \<Rightarrow> bool" where
  "value_char c \<longleftrightarrow> is_alpha c \<or> isdigit c \<or> c \<in> {95, 46, 58, 91, 93, 43, 45}"

definition match_assignment :: "str \<Rightarrow> setting option" where
  "match_assignment line =
     (let p = lit ''Environment='' @ [34] in
      if \<not> startswith line p then None
      else (let r = drop (length p) line; k = takeWhile key_char r; r1 = dropWhile key_char r in
        if k = [] \<or> \<not> startswith r1 [61] then None
        else (let v = takeWhile value_char (tl r1); r2 = dropWhile value_char (tl r1) in
          if v = [] \<or> r2 \<noteq> [34] then None else Some (k, v))))"

definition starts_comment :: "str \<Rightarrow> bool" where
  "starts_comment line \<longleftrightarrow> startswith (lstrip line) [35] \<or> startswith (lstrip line) [59]"

text \<open>One line of the loop; the state is \<open>(seen, section_seen)\<close>.\<close>

definition update_line :: "(str \<rightharpoonup> str) \<Rightarrow> str list \<times> bool \<Rightarrow> str \<Rightarrow> (str \<times> (str list \<times> bool)) res" where
  "update_line repl st raw =
     (let (seen, section) = st; line = removesuffix raw [10] in
      if endswith (rstrip line) [92] then Inl unsupported_drop_in
      else if blank line \<or> starts_comment line then Inr (raw, st)
      else if line = service_header \<and> \<not> section then Inr (raw, (seen, True))
      else (case (section, match_assignment line) of
          (True, Some (k, v)) \<Rightarrow>
            if k \<notin> set ollama_keys \<or> k \<in> set seen then Inl unsupported_drop_in
            else (case repl k of
                None \<Rightarrow> Inr (raw, (k # seen, section))
              | Some w \<Rightarrow> bindR (render_assignments [(k, w)]) (\<lambda>t.
                  Inr (if endswith raw [10] then t else removesuffix t [10], (k # seen, section))))
        | _ \<Rightarrow> Inl unsupported_drop_in))"

fun update_lines :: "(str \<rightharpoonup> str) \<Rightarrow> str list \<times> bool \<Rightarrow> str list \<Rightarrow> (str list \<times> (str list \<times> bool)) res" where
  "update_lines repl st [] = Inr ([], st)"
| "update_lines repl st (raw # raws) =
     bindR (update_line repl st raw) (\<lambda>(out, st). bindR (update_lines repl st raws) (\<lambda>(outs, st).
       Inr (out # outs, st)))"

definition control_char :: "int \<Rightarrow> bool" where
  "control_char c \<longleftrightarrow> c < 32 \<and> c \<notin> {10, 9}"

definition update_drop_in :: "str \<Rightarrow> setting list \<Rightarrow> str res" where
  "update_drop_in content kvs =
     (if \<exists>c\<in>set content. control_char c then Inl unsupported_drop_in
      else bindR (update_lines (dict_of kvs) ([], False) (splitlines_keep content)) (\<lambda>(ls, seen, section).
        if \<not> section then Inl unsupported_drop_in
        else (let result = concat ls; missing = filter (\<lambda>kv. fst kv \<notin> set seen) kvs in
          if missing = [] then Inr result
          else bindR (render_assignments missing) (\<lambda>t.
            Inr ((if endswith result [10] then result else result @ [10]) @ t)))))"

section \<open>Planning\<close>

text \<open>The loop that validates the selected settings in order.\<close>

fun collect_settings :: "runtime \<Rightarrow> policy \<Rightarrow> setting list \<Rightarrow> recommendation list \<Rightarrow> setting list res" where
  "collect_settings rt pol acc [] = Inr acc"
| "collect_settings rt pol acc (r # rs) =
     (if setting_key r \<in> set (map fst acc) then Inl (AdapterError ''duplicate_setting'')
      else if setting_key r \<notin> set ollama_keys then Inl (AdapterError ''setting_not_allowed'')
      else bindR (validate_setting rt pol (setting_key r) (recommended_value r)) (\<lambda>v.
        collect_settings rt pol (acc @ [(setting_key r, v)]) rs))"

definition selected_ollama :: "recommendation list \<Rightarrow> recommendation list" where
  "selected_ollama rs =
     filter (\<lambda>r. actionable r \<and> rc_target r = lit ''ollama.systemd'') (sort_key setting_key rs)"

definition drop_in_change :: "runtime \<Rightarrow> str \<Rightarrow> setting list \<Rightarrow> str option \<Rightarrow> change res" where
  "drop_in_change rt rid kvs existing =
     bindR (case existing of None \<Rightarrow> render_drop_in kvs | Some t \<Rightarrow> update_drop_in t kvs) (\<lambda>rendered.
     bindR (case existing of None \<Rightarrow> Inr None | Some t \<Rightarrow> bindR (utf8_encode t) (\<lambda>b. Inr (Some (sha256 rt b)))) (\<lambda>before.
     let c = \<lparr>change_id = lit ''ollama:drop-in:'' @ rid,
              ch_target = drop_in_path,
              operation = (if existing \<noteq> None then REPLACE_FILE else CREATE_FILE),
              ch_before = JStr (if existing \<noteq> None then lit ''exists'' else lit ''absent''),
              ch_after = JArr (map (\<lambda>(k, v). JArr [JStr k, JStr v]) kvs),
              before_hash = before,
              diff = join [10] (map (\<lambda>(k, v). k @ lit '': <current> -> '' @ v) kvs),
              requires_root = True,
              requires_restart = True,
              rollback_operation = Some (if existing \<noteq> None then REPLACE_FILE else REMOVE_CREATED_FILE),
              validation_checks = [lit ''systemd.daemon_reload'', lit ''ollama.service.active'',
                lit ''ollama.environment.effective'', lit ''ollama.api.connectivity''],
              source_span = map_option (\<lambda>t. (0, int (length t))) existing,
              replacement_text = Some rendered\<rparr>
     in bindR (check_change c) (\<lambda>_. Inr c)))"

definition ollama_hash_json :: "str \<Rightarrow> change list \<Rightarrow> json" where
  "ollama_hash_json h cs = JArr [JStr h, JArr (map (\<lambda>c. JArr [JStr (change_id c), JStr (ch_target c),
     JStr (change_operation_value (operation c)), jopt JStr (before_hash c), jopt JStr (replacement_text c)]) cs)]"

definition ollama_hash :: "runtime \<Rightarrow> str \<Rightarrow> change list \<Rightarrow> str" where
  "ollama_hash rt h cs = sha256 rt (dumps True (ollama_hash_json h cs))"

definition supported_ollama :: str where
  "supported_ollama = lit ''0.33.2''"

definition service_supported :: "service_info option \<Rightarrow> bool" where
  "service_supported s = (case s of None \<Rightarrow> False
     | Some u \<Rightarrow> unit_name u = lit ''ollama.service'' \<and> load_state u = lit ''loaded'')"

text \<open>\<open>OllamaDropInPlanner.plan\<close>.\<close>

definition plan_ollama ::
  "runtime \<Rightarrow> policy \<Rightarrow> str \<Rightarrow> diagnostic_report \<Rightarrow> recommendation list \<Rightarrow> str option \<Rightarrow> change_set res" where
  "plan_ollama rt pol supported report rs existing =
     (if \<not> can_elevate (hi_capabilities (host report)) then Inl (AdapterError ''privileged_helper_unavailable'')
      else (case ollama report of
        None \<Rightarrow> Inl (AdapterError ''unsupported_version'')
      | Some info \<Rightarrow>
          if ol_version info \<noteq> Some supported then Inl (AdapterError ''unsupported_version'')
          else if \<not> service_supported (service info) then Inl (AdapterError ''unsupported_service'')
          else bindR (collect_settings rt pol [] (selected_ollama rs)) (\<lambda>kvs.
               bindR (if kvs = [] then Inr []
                      else bindR (drop_in_change rt (report_id report) kvs existing) (\<lambda>c. Inr [c])) (\<lambda>cs.
               let h = ollama_hash rt (hi_host_id (host report)) cs;
                   cset = \<lparr>change_set_id = lit ''ollama:'' @ report_id report @ lit '':'' @ take 12 h,
                           cs_host_id = hi_host_id (host report),
                           changes = cs,
                           content_hash = h,
                           cs_status = DRAFT,
                           affected_services = (if cs = [] then [] else [lit ''ollama.service''])\<rparr>
               in bindR (check_change_set cset) (\<lambda>_. Inr cset)))))"

end
