(* ===== verification/DropIn.thy ===== *)
theory DropIn
  imports OllamaPlan
begin

text \<open>
  What the drop-in editor promises: it rewrites a supported drop-in line by line, the rewritten text is a
  supported drop-in again, and reading its assignments back gives the old ones overridden by the selected
  settings.
\<close>

section \<open>Assignment lines\<close>

definition assignment_ok :: "setting \<Rightarrow> bool" where
  "assignment_ok kv \<longleftrightarrow> fst kv \<noteq> [] \<and> list_all key_char (fst kv) \<and> snd kv \<noteq> [] \<and> list_all value_char (snd kv)"

lemma match_env_line: "assignment_ok kv \<Longrightarrow> match_assignment (env_line kv) = Some kv"
proof -
  assume a: "assignment_ok kv"
  obtain k v where kv: "kv = (k, v)" by fastforce
  let ?p = "lit ''Environment='' @ [34]"
  have l: "env_line kv = ?p @ k @ 61 # v @ [34]" by (simp add: env_line_def kv)
  have "startswith (env_line kv) ?p" unfolding l by (rule startswith_append)
  moreover have "drop (length ?p) (env_line kv) = k @ 61 # v @ [34]" unfolding l by (rule append_eq_conv_conj [THEN iffD1, THEN conjunct2, symmetric]) simp
  moreover have "takeWhile key_char (k @ 61 # v @ [34]) = k" "dropWhile key_char (k @ 61 # v @ [34]) = 61 # v @ [34]"
    using a by (auto simp: kv assignment_ok_def list_all_iff key_char_def takeWhile_append dropWhile_append)
  moreover have "takeWhile value_char (v @ [34]) = v" "dropWhile value_char (v @ [34]) = [34]"
    using a by (auto simp: kv assignment_ok_def list_all_iff value_char_def is_alpha_def isdigit_def takeWhile_append dropWhile_append)
  ultimately show ?thesis using a
    by (simp add: match_assignment_def Let_def kv assignment_ok_def startswith_def)
qed

lemma match_assignmentD:
  assumes "match_assignment line = Some kv"
  shows "line = env_line kv \<and> assignment_ok kv"
proof -
  let ?p = "lit ''Environment='' @ [34]"
  define r where "r = drop (length ?p) line"
  define r1 where "r1 = dropWhile key_char r"
  have a: "startswith line ?p" "takeWhile key_char r \<noteq> []" "startswith r1 [61]"
    "takeWhile value_char (tl r1) \<noteq> []" "dropWhile value_char (tl r1) = [34]"
    "kv = (takeWhile key_char r, takeWhile value_char (tl r1))"
    using assms unfolding match_assignment_def Let_def r_def r1_def by (auto split: if_splits)
  have "line = ?p @ r" using a(1) by (metis r_def append_eq_conv_conj startswith_iff)
  moreover have "r = takeWhile key_char r @ r1" by (simp add: r1_def)
  moreover have "r1 = 61 # tl r1" using a(3) by (auto simp: startswith_iff)
  moreover have "tl r1 = takeWhile value_char (tl r1) @ [34]" using a(5) by (metis takeWhile_dropWhile_id)
  ultimately have "line = ?p @ takeWhile key_char r @ 61 # takeWhile value_char (tl r1) @ [34]" by metis
  then show ?thesis using a(2,4,6)
    by (auto simp: env_line_def assignment_ok_def list_all_iff dest: set_takeWhileD)
qed

lemma lit_Environment: "env_line kv = 69 # tl (env_line kv)"
  by (simp add: env_line_def)

lemma env_line_shape:
  "\<not> blank (env_line kv)" "\<not> starts_comment (env_line kv)" "env_line kv \<noteq> service_header"
  "rstrip (env_line kv) = env_line kv" "\<not> endswith (env_line kv) [92]" "\<not> endswith (env_line kv) [10]"
proof -
  show "\<not> blank (env_line kv)" by (subst lit_Environment) (auto simp: blank_iff isspace_def)
  have "lstrip (env_line kv) = env_line kv"
    by (subst (1 2) lit_Environment) (simp add: lstrip_def isspace_def)
  then show "\<not> starts_comment (env_line kv)" unfolding starts_comment_def
    by (subst (asm) lit_Environment) (auto simp: startswith_def env_line_def)
  show "env_line kv \<noteq> service_header" by (subst lit_Environment) (simp add: service_header_def)
  have "rev (env_line kv) = 34 # tl (rev (env_line kv))" by (simp add: env_line_def)
  moreover have "\<not> isspace 34" by (simp add: isspace_def)
  ultimately show "rstrip (env_line kv) = env_line kv" unfolding rstrip_def
    by (metis dropWhile.simps(2) rev_rev_ident)
  show "\<not> endswith (env_line kv) [92]" "\<not> endswith (env_line kv) [10]"
    by (auto simp: endswith_iff env_line_def)
qed

lemma ollama_keys_chars: "k \<in> set ollama_keys \<Longrightarrow> k \<noteq> [] \<and> list_all key_char k"
  by (auto simp: ollama_keys_def key_char_def)

lemma env_line_no_break: "assignment_ok kv \<Longrightarrow> c \<in> set (env_line kv) \<Longrightarrow> \<not> islinebreak c"
  by (auto simp: env_line_def assignment_ok_def list_all_iff islinebreak_def key_char_def value_char_def
      is_alpha_def isdigit_def)

section \<open>Rendering\<close>

lemma concat_map_shift: "concat (map (\<lambda>z. x # z) ls) @ [x] = x # concat (map (\<lambda>z. z @ [x]) ls)"
  by (induction ls) auto

lemma mapR_guard:
  "mapR (\<lambda>x. if P x then Inl e else Inr (g x)) xs = (if \<exists>x\<in>set xs. P x then Inl e else Inr (map g xs))"
  by (induction xs) auto

lemma render_assignments_eq:
  "render_assignments kvs = (if \<exists>kv\<in>set kvs. unsafe_value (snd kv) then Inl bad_value
     else Inr (concat (map (\<lambda>kv. env_line kv @ [10]) kvs)))"
proof (cases "\<exists>kv\<in>set kvs. unsafe_value (snd kv)")
  case False
  have "join [10] (service_header # map env_line kvs) @ [10] =
      service_header @ 10 # concat (map (\<lambda>kv. env_line kv @ [10]) kvs)"
    using concat_map_shift [of 10 "map env_line kvs"] by (simp add: join_def comp_def)
  moreover have "partition1 10 (service_header @ 10 # t) = (service_header, Some t)" for t
    by (simp add: partition1_def service_header_def)
  ultimately show ?thesis using False
    by (simp add: render_assignments_def render_drop_in_def mapR_guard)
qed (simp add: render_assignments_def render_drop_in_def mapR_guard)

section \<open>One line, all lines\<close>

definition match_line :: "str \<Rightarrow> setting option" where
  "match_line raw = match_assignment (removesuffix raw [10])"

definition newline_of :: "str \<Rightarrow> str" where
  "newline_of raw = (if endswith raw [10] then [10] else [])"

lemma line_newline: "removesuffix raw [10] @ newline_of raw = raw"
  by (auto simp: removesuffix_def newline_of_def endswith_def) (metis append_take_drop_id)

text \<open>The reference: the new text of one line.\<close>

definition rewrite_line :: "(str \<rightharpoonup> str) \<Rightarrow> str \<Rightarrow> str" where
  "rewrite_line repl raw = (case match_line raw of
      None \<Rightarrow> raw
    | Some (k, v) \<Rightarrow> (case repl k of None \<Rightarrow> raw | Some w \<Rightarrow> env_line (k, w) @ newline_of raw))"

definition env_of :: "str list \<Rightarrow> setting list" where
  "env_of raws = List.map_filter match_line raws"

lemma env_of_simps [simp]:
  "env_of [] = []"
  "env_of (raw # raws) = (case match_line raw of None \<Rightarrow> env_of raws | Some kv \<Rightarrow> kv # env_of raws)"
  by (simp_all add: env_of_def map_filter_simps split: option.splits)

lemma env_of_append: "env_of (xs @ ys) = env_of xs @ env_of ys"
  by (induction xs) (auto split: option.splits)

lemma match_lineD: "match_line raw = Some kv \<Longrightarrow> raw = env_line kv @ newline_of raw \<and> assignment_ok kv"
  unfolding match_line_def by (metis line_newline match_assignmentD)

lemma removesuffix_env_line [simp]: "removesuffix (env_line kv @ [10]) [10] = env_line kv"
  by (simp add: removesuffix_def endswith_def)

lemma update_line_Inr:
  assumes "update_line repl (seen, sec) raw = Inr (out, st')"
  shows "out = rewrite_line repl raw \<and>
    (case match_line raw of
       None \<Rightarrow> fst st' = seen
     | Some (k, v) \<Rightarrow> k \<notin> set seen \<and> k \<in> set ollama_keys \<and> fst st' = k # seen)"
proof (cases "match_line raw")
  case None
  then show ?thesis using assms
    by (auto simp: update_line_def Let_def rewrite_line_def match_line_def split: if_splits bool.splits)
next
  case (Some kv)
  obtain k v where kv: "kv = (k, v)" by fastforce
  let ?line = "removesuffix raw [10]"
  have m: "match_assignment ?line = Some (k, v)" using Some kv by (simp add: match_line_def)
  then have l: "?line = env_line (k, v)" by (auto dest: match_assignmentD)
  then have "\<not> endswith (rstrip ?line) [92]" "\<not> blank ?line" "\<not> starts_comment ?line" "?line \<noteq> service_header"
    using env_line_shape [of "(k, v)"] by simp_all
  with assms m have sec and k: "k \<in> set ollama_keys" "k \<notin> set seen"
    and o: "(case repl k of None \<Rightarrow> Inr (raw, (k # seen, sec))
              | Some w \<Rightarrow> bindR (render_assignments [(k, w)]) (\<lambda>t.
                  Inr (if endswith raw [10] then t else removesuffix t [10], (k # seen, sec)))) = Inr (out, st')"
    by (auto simp: update_line_def Let_def split: bool.splits if_splits)
  then show ?thesis using Some kv
    by (auto simp: rewrite_line_def newline_of_def render_assignments_eq split: option.splits if_splits)
qed

lemma update_lines_Inr:
  assumes "update_lines repl (seen, sec) raws = Inr (outs, (seen', sec'))"
  shows "outs = map (rewrite_line repl) raws \<and> set seen' = set seen \<union> fst ` set (env_of raws) \<and>
    distinct (map fst (env_of raws)) \<and> set seen \<inter> fst ` set (env_of raws) = {} \<and>
    fst ` set (env_of raws) \<subseteq> set ollama_keys"
  using assms
proof (induction raws arbitrary: seen sec outs)
  case Nil
  then show ?case by simp
next
  case (Cons raw raws)
  then obtain out seen1 sec1 outs' where u: "update_line repl (seen, sec) raw = Inr (out, (seen1, sec1))"
    and us: "update_lines repl (seen1, sec1) raws = Inr (outs', (seen', sec'))" and o: "outs = out # outs'"
    by (auto simp: bindR_eq_Inr)
  have mem: "(k, v) \<in> set xs \<Longrightarrow> k \<in> fst ` set xs" for k :: str and v :: str and xs by force
  from update_line_Inr [OF u] Cons.IH [OF us] o show ?case
    by (auto split: option.splits dest: mem)
qed

text \<open>Reading the rewritten lines.\<close>

definition override :: "(str \<rightharpoonup> str) \<Rightarrow> setting \<Rightarrow> setting" where
  "override repl kv = (fst kv, (case repl (fst kv) of None \<Rightarrow> snd kv | Some w \<Rightarrow> w))"

definition proper_repl :: "(str \<rightharpoonup> str) \<Rightarrow> bool" where
  "proper_repl repl \<longleftrightarrow> (\<forall>k w. repl k = Some w \<longrightarrow> w \<noteq> [] \<and> list_all value_char w)"

lemma match_rewrite_line:
  assumes "proper_repl repl"
  shows "match_line (rewrite_line repl raw) = map_option (override repl) (match_line raw)"
proof (cases "match_line raw")
  case None
  then show ?thesis by (simp add: rewrite_line_def)
next
  case (Some kv)
  obtain k v where kv: "kv = (k, v)" by fastforce
  show ?thesis
  proof (cases "repl k")
    case None
    then show ?thesis using Some kv by (simp add: rewrite_line_def override_def)
  next
    case (Some w)
    have "assignment_ok (k, w)" using match_lineD [OF \<open>match_line raw = Some kv\<close>] assms Some kv
      by (auto simp: assignment_ok_def proper_repl_def)
    then have "match_line (env_line (k, w) @ newline_of raw) = Some (k, w)"
      using match_env_line env_line_shape(6) by (auto simp: match_line_def newline_of_def removesuffix_def endswith_def)
    then show ?thesis using Some kv \<open>match_line raw = Some kv\<close> by (simp add: rewrite_line_def override_def)
  qed
qed

lemma env_of_rewrite:
  "proper_repl repl \<Longrightarrow> env_of (map (rewrite_line repl) raws) = map (override repl) (env_of raws)"
  by (induction raws) (auto simp: match_rewrite_line split: option.splits)

section \<open>The text and its lines\<close>

definition complete_line :: "str \<Rightarrow> bool" where
  "complete_line l \<longleftrightarrow> l \<noteq> [] \<and> islinebreak (last l) \<and> last l \<noteq> 13 \<and> (\<forall>c\<in>set (butlast l). \<not> islinebreak c)"

definition open_line :: "str \<Rightarrow> bool" where
  "open_line l \<longleftrightarrow> l \<noteq> [] \<and> (\<forall>c\<in>set l. \<not> islinebreak c)"

fun line_list :: "str list \<Rightarrow> bool" where
  "line_list [] \<longleftrightarrow> True"
| "line_list (l # ls) \<longleftrightarrow> (if ls = [] then complete_line l \<or> open_line l else complete_line l \<and> line_list ls)"

lemma splitlines_aux_step:
  assumes "c \<noteq> 13"
  shows "splitlines_aux acc (c # cs) =
    (if islinebreak c then rev (c # acc) # splitlines_aux [] cs else splitlines_aux (c # acc) cs)"
  using assms by simp

lemma line_list_splitlines:
  "13 \<notin> set s \<Longrightarrow> \<forall>c\<in>set acc. \<not> islinebreak c \<Longrightarrow> line_list (splitlines_aux acc s)"
proof (induction s arbitrary: acc)
  case Nil
  then show ?case by (simp add: open_line_def)
next
  case (Cons c s)
  show ?case
  proof (cases "islinebreak c")
    case True
    then have "complete_line (rev (c # acc))" using Cons.prems by (auto simp: complete_line_def)
    then show ?thesis using True Cons by (simp add: splitlines_aux_step)
  next
    case False
    then show ?thesis using Cons by (simp add: splitlines_aux_step)
  qed
qed

lemma splitlines_no_break:
  "\<forall>c\<in>set l. \<not> islinebreak c \<Longrightarrow> splitlines_aux acc (l @ s) = splitlines_aux (rev l @ acc) s"
  by (induction l arbitrary: acc) (auto simp: islinebreak_def)

lemma splitlines_complete:
  assumes "complete_line l"
  shows "splitlines_aux [] (l @ s) = l # splitlines_aux [] s"
proof -
  obtain b e where l: "l = b @ [e]" using assms by (metis append_butlast_last_id complete_line_def)
  then have "splitlines_aux [] (l @ s) = splitlines_aux (rev b) (e # s)"
    using assms splitlines_no_break [of b "[]" "e # s"] by (simp add: complete_line_def)
  also have "\<dots> = l # splitlines_aux [] s"
    using assms l by (subst splitlines_aux_step) (auto simp: complete_line_def)
  finally show ?thesis .
qed

lemma splitlines_line_list: "line_list ls \<Longrightarrow> splitlines_aux [] (concat ls) = ls"
proof (induction ls)
  case Nil
  then show ?case by simp
next
  case (Cons l ls)
  show ?case
  proof (cases "complete_line l")
    case True
    then show ?thesis using Cons by (simp add: splitlines_complete split: if_splits)
  next
    case False
    then have "ls = []" "open_line l" using Cons.prems by (auto split: if_splits)
    then show ?thesis using splitlines_no_break [of l "[]" "[]"] by (simp add: open_line_def)
  qed
qed

lemma rewrite_line_kind:
  assumes "proper_repl repl"
  shows "complete_line raw \<Longrightarrow> complete_line (rewrite_line repl raw)"
    and "open_line raw \<Longrightarrow> open_line (rewrite_line repl raw)"
proof -
  have r: "rewrite_line repl raw = raw \<or> (\<exists>kv kv'. raw = env_line kv @ newline_of raw \<and> assignment_ok kv \<and>
      rewrite_line repl raw = env_line kv' @ newline_of raw \<and> assignment_ok kv')"
  proof (cases "match_line raw")
    case (Some kv)
    then show ?thesis using match_lineD [OF Some] assms
      by (cases kv) (fastforce simp: rewrite_line_def proper_repl_def assignment_ok_def split: option.splits)
  qed (simp add: rewrite_line_def)
  have e: "env_line kv \<noteq> []" for kv by (simp add: env_line_def)
  have last_env: "\<not> islinebreak (last (env_line kv))" for kv by (simp add: env_line_def islinebreak_def)
  show "complete_line (rewrite_line repl raw)" if c: "complete_line raw"
  proof (cases "endswith raw [10]")
    case True
    have o: "complete_line (env_line kv @ [10])" if "assignment_ok kv" for kv
      using env_line_no_break [OF that] e [of kv] by (auto simp: complete_line_def islinebreak_def butlast_append)
    have n: "newline_of raw = [10]" using True by (simp add: newline_of_def)
    consider "rewrite_line repl raw = raw"
      | kv where "rewrite_line repl raw = env_line kv @ newline_of raw" "assignment_ok kv"
      using r by blast
    then show ?thesis by cases (use c n o in simp_all)
  next
    case False
    have n: "newline_of raw = []" using False by (simp add: newline_of_def)
    have nr: "raw \<noteq> env_line kv" for kv using c last_env [of kv] by (auto simp: complete_line_def)
    have "rewrite_line repl raw = raw" using r nr unfolding n append_Nil2 by blast
    then show ?thesis using c by simp
  qed
  show "open_line (rewrite_line repl raw)" if c: "open_line raw"
  proof -
    have "10 \<notin> set raw" using c by (fastforce simp: open_line_def islinebreak_def)
    then have "\<not> endswith raw [10]" by (auto simp only: endswith_iff set_append list.set)
    then have n: "newline_of raw = []" by (simp add: newline_of_def)
    have o: "open_line (env_line kv)" if "assignment_ok kv" for kv
      using env_line_no_break [OF that] e by (auto simp: open_line_def)
    consider "rewrite_line repl raw = raw"
      | kv where "rewrite_line repl raw = env_line kv @ newline_of raw" "assignment_ok kv"
      using r by blast
    then show ?thesis by cases (use c n o in simp_all)
  qed
qed

lemma line_list_rewrite: "proper_repl repl \<Longrightarrow> line_list ls \<Longrightarrow> line_list (map (rewrite_line repl) ls)"
  by (induction ls) (auto simp: rewrite_line_kind split: if_splits)

section \<open>The rewritten text\<close>

definition drop_in_env :: "str \<Rightarrow> setting list" where
  "drop_in_env content = env_of (splitlines_keep content)"

definition missing_from :: "str \<Rightarrow> setting list \<Rightarrow> setting list" where
  "missing_from content kvs = filter (\<lambda>kv. fst kv \<notin> fst ` set (drop_in_env content)) kvs"

definition proper_settings :: "setting list \<Rightarrow> bool" where
  "proper_settings kvs \<longleftrightarrow> distinct (map fst kvs) \<and> (\<forall>kv\<in>set kvs. assignment_ok kv \<and> fst kv \<in> set ollama_keys)"

lemma proper_repl_dict: "proper_settings kvs \<Longrightarrow> proper_repl (dict_of kvs)"
  by (fastforce simp: proper_settings_def proper_repl_def assignment_ok_def dest: dict_of_SomeD)

lemma dict_of_map_of: "distinct (map fst kvs) \<Longrightarrow> dict_of kvs = map_of kvs"
proof (induction kvs)
  case (Cons kv kvs)
  then have "fst kv \<notin> dom (map_of kvs)" by (simp add: dom_map_of_conv_image_fst)
  moreover have "dict_of (kv # kvs) = (\<lambda>k. if dict_of kvs k = None \<and> k = fst kv then Some (snd kv) else dict_of kvs k)"
    by (rule ext, cases kv) (auto simp: dict_of_def map_add_def split: option.splits)
  ultimately show ?case using Cons by (cases kv) (auto simp: dom_def)
qed simp

lemma proper_safe: "proper_settings kvs \<Longrightarrow> \<not> (\<exists>kv\<in>set kvs. unsafe_value (snd kv))"
  by (fastforce simp: proper_settings_def assignment_ok_def unsafe_value_def list_all_iff value_char_def
      is_alpha_def isdigit_def)

definition assignments_text :: "setting list \<Rightarrow> str" where
  "assignments_text kvs = concat (map (\<lambda>kv. env_line kv @ [10]) kvs)"

text \<open>The reference result of the editor.\<close>

definition edited_drop_in :: "str \<Rightarrow> setting list \<Rightarrow> str" where
  "edited_drop_in content kvs =
     (let result = concat (map (rewrite_line (dict_of kvs)) (splitlines_keep content));
          missing = missing_from content kvs
      in if missing = [] then result
         else (if endswith result [10] then result else result @ [10]) @ assignments_text missing)"

lemma update_drop_in_Inr:
  assumes "update_drop_in content kvs = Inr r"
  shows "r = edited_drop_in content kvs \<and> (\<forall>c\<in>set content. \<not> control_char c)
    \<and> distinct (map fst (drop_in_env content)) \<and> fst ` set (drop_in_env content) \<subseteq> set ollama_keys"
proof -
  from assms have nc: "\<forall>c\<in>set content. \<not> control_char c"
    by (auto simp: update_drop_in_def split: if_splits)
  then obtain ls seen sec where u: "update_lines (dict_of kvs) ([], False) (splitlines_keep content) = Inr (ls, seen, sec)"
    using assms by (auto simp: update_drop_in_def bindR_eq_Inr)
  from update_lines_Inr [OF u] have ls: "ls = map (rewrite_line (dict_of kvs)) (splitlines_keep content)"
    and seen: "set seen = fst ` set (drop_in_env content)" and d: "distinct (map fst (drop_in_env content))"
      "fst ` set (drop_in_env content) \<subseteq> set ollama_keys"
    by (auto simp: drop_in_env_def)
  have "\<not> (\<exists>c\<in>set content. control_char c)" using nc by blast
  with assms u ls seen have "r = edited_drop_in content kvs"
    by (auto simp: update_drop_in_def edited_drop_in_def missing_from_def Let_def bindR_eq_Inr
        render_assignments_eq assignments_text_def split: if_splits)
  with nc d show ?thesis by simp
qed

section \<open>Reading it back\<close>

lemma env_append_complete:
  assumes "13 \<notin> set s"
  shows "env_of (splitlines_aux acc (s @ 10 # t)) = env_of (splitlines_aux acc (s @ [10])) @ env_of (splitlines_aux [] t)"
  using assms
proof (induction s arbitrary: acc)
  case Nil
  show ?case by (simp add: splitlines_aux_step islinebreak_def split: option.splits)
next
  case (Cons c s)
  then show ?case by (simp add: splitlines_aux_step split: option.splits)
qed

lemma match_line_newline: "\<not> endswith l [10] \<Longrightarrow> match_line (l @ [10]) = match_line l"
  by (auto simp: match_line_def removesuffix_def endswith_def)

lemma match_line_Nil [simp]: "match_line [] = None"
  by (simp add: match_line_def removesuffix_def match_assignment_def startswith_def)

lemma env_newline:
  assumes "13 \<notin> set s" and "\<not> endswith (rev acc @ s) [10]"
  shows "env_of (splitlines_aux acc (s @ [10])) = env_of (splitlines_aux acc s)"
  using assms
proof (induction s arbitrary: acc)
  case Nil
  then show ?case using match_line_newline [of "rev acc"]
    by (auto simp: splitlines_aux_step islinebreak_def split: option.splits)
next
  case (Cons c s)
  have "\<not> endswith s [10]" "\<not> endswith (rev (c # acc) @ s) [10]"
    using Cons.prems(2) by (auto simp: endswith_iff)
  moreover have "c \<noteq> 13" "13 \<notin> set s" using Cons.prems(1) by auto
  ultimately show ?case using Cons.IH [of "[]"] Cons.IH [of "c # acc"]
    by (simp add: splitlines_aux_step split: option.splits)
qed

lemma drop_in_env_append:
  assumes "13 \<notin> set s"
  shows "drop_in_env ((if endswith s [10] then s else s @ [10]) @ t) = drop_in_env s @ drop_in_env t"
proof (cases "endswith s [10]")
  case True
  then obtain u where "s = u @ [10]" by (auto simp: endswith_iff)
  then show ?thesis using True assms env_append_complete [of u "[]" t]
    by (simp add: drop_in_env_def splitlines_keep_def)
next
  case False
  then show ?thesis using assms env_append_complete [of s "[]" t] env_newline [of s "[]"]
    by (simp add: drop_in_env_def splitlines_keep_def)
qed

lemma complete_env_line: "assignment_ok kv \<Longrightarrow> complete_line (env_line kv @ [10])"
  using env_line_no_break [of kv] by (auto simp: complete_line_def islinebreak_def butlast_append)

lemma drop_in_env_assignments:
  "\<forall>kv\<in>set kvs. assignment_ok kv \<Longrightarrow> drop_in_env (assignments_text kvs) = kvs"
proof (induction kvs)
  case Nil
  then show ?case by (simp add: drop_in_env_def splitlines_keep_def assignments_text_def)
next
  case (Cons kv kvs)
  have "splitlines_keep (assignments_text (kv # kvs)) = (env_line kv @ [10]) # splitlines_keep (assignments_text kvs)"
    using splitlines_complete [OF complete_env_line, of kv "assignments_text kvs"] Cons.prems
    by (simp add: splitlines_keep_def assignments_text_def)
  moreover have "match_line (env_line kv @ [10]) = Some kv" using Cons.prems
    by (simp add: match_line_def match_env_line)
  ultimately show ?case using Cons by (simp add: drop_in_env_def)
qed

lemma concat_rewrite_no_cr:
  assumes "proper_repl repl" and "13 \<notin> set content"
  shows "13 \<notin> set (concat (map (rewrite_line repl) (splitlines_keep content)))"
proof -
  have "line_list ls \<Longrightarrow> 13 \<notin> set (concat ls)" for ls
  proof (induction ls)
    case (Cons l ls)
    have "13 \<notin> set l" if "complete_line l"
    proof -
      have "13 \<notin> set (butlast l)" "last l \<noteq> 13" using that by (force simp: complete_line_def islinebreak_def)+
      moreover have "butlast l @ [last l] = l" using that by (simp add: complete_line_def)
      ultimately show ?thesis by (metis Un_iff empty_iff insert_iff list.set set_append)
    qed
    moreover have "13 \<notin> set l" if "open_line l"
      using that by (force simp: open_line_def islinebreak_def)
    ultimately show ?case using Cons by (auto split: if_splits)
  qed simp
  moreover have "line_list (map (rewrite_line repl) (splitlines_keep content))"
    using assms by (simp add: splitlines_keep_def line_list_rewrite line_list_splitlines)
  ultimately show ?thesis by blast
qed

lemma drop_in_env_edited:
  assumes "proper_settings kvs" and "13 \<notin> set content"
  shows "drop_in_env (edited_drop_in content kvs) =
    map (override (dict_of kvs)) (drop_in_env content) @ missing_from content kvs"
proof -
  let ?ls = "map (rewrite_line (dict_of kvs)) (splitlines_keep content)"
  have p: "proper_repl (dict_of kvs)" using assms(1) by (rule proper_repl_dict)
  have "line_list ?ls" using p line_list_rewrite line_list_splitlines [of content "[]"] assms(2)
    by (simp add: splitlines_keep_def)
  then have e: "drop_in_env (concat ?ls) = map (override (dict_of kvs)) (drop_in_env content)"
    using env_of_rewrite [OF p] splitlines_line_list by (simp add: drop_in_env_def splitlines_keep_def)
  have "\<forall>kv\<in>set (missing_from content kvs). assignment_ok kv"
    using assms(1) by (auto simp: missing_from_def proper_settings_def)
  then have "drop_in_env (assignments_text (missing_from content kvs)) = missing_from content kvs"
    by (rule drop_in_env_assignments)
  then show ?thesis using e drop_in_env_append [OF concat_rewrite_no_cr [OF p assms(2)]]
    by (simp add: edited_drop_in_def Let_def)
qed

section \<open>Supported drop-ins stay supported\<close>

text \<open>A text the editor accepts: editing nothing gives it back.\<close>

definition supported_drop_in :: "str \<Rightarrow> bool" where
  "supported_drop_in content \<longleftrightarrow> update_drop_in content [] = Inr content"

lemma rewrite_empty [simp]: "rewrite_line Map.empty raw = raw"
  by (simp add: rewrite_line_def split: option.splits prod.splits)

lemma rewrite_empty_id: "rewrite_line Map.empty = (\<lambda>raw. raw)"
  by (rule ext) simp

lemma render_one:
  "w \<noteq> [] \<Longrightarrow> list_all value_char w \<Longrightarrow> render_assignments [(k, w)] = Inr (env_line (k, w) @ [10])"
  by (auto simp: render_assignments_eq unsafe_value_def list_all_iff value_char_def is_alpha_def isdigit_def)

lemma update_line_match:
  assumes m: "match_line raw = Some (k, v)" and p: "proper_repl repl"
  shows "update_line repl (seen, sec) raw = (if sec \<and> k \<in> set ollama_keys \<and> k \<notin> set seen
    then Inr (rewrite_line repl raw, (k # seen, sec)) else Inl unsupported_drop_in)"
proof -
  let ?line = "removesuffix raw [10]"
  have m': "match_assignment ?line = Some (k, v)" using m by (simp add: match_line_def)
  then have l: "?line = env_line (k, v)" by (auto dest: match_assignmentD)
  then have "\<not> endswith (rstrip ?line) [92]" "\<not> blank ?line" "\<not> starts_comment ?line" "?line \<noteq> service_header"
    using env_line_shape [of "(k, v)"] by simp_all
  moreover have "render_assignments [(k, w)] = Inr (env_line (k, w) @ [10])" if "repl k = Some w" for w
    using p that by (intro render_one) (auto simp: proper_repl_def)
  ultimately show ?thesis using m m'
    by (cases sec) (auto simp: update_line_def Let_def rewrite_line_def newline_of_def split: option.splits)
qed

lemma update_line_other:
  "match_line raw = None \<Longrightarrow> update_line repl st raw = update_line repl' st raw"
  by (cases st) (simp add: update_line_def match_line_def Let_def split: bool.splits)

lemma match_of_rewrite_other: "match_line raw = None \<Longrightarrow> rewrite_line repl raw = raw"
  by (simp add: rewrite_line_def)

lemma update_line_rewritten:
  assumes "update_line Map.empty st raw = Inr (out, st')" and p: "proper_repl repl"
  shows "update_line repl st raw = Inr (rewrite_line repl raw, st')"
    and "update_line Map.empty st (rewrite_line repl raw) = Inr (rewrite_line repl raw, st')"
proof -
  obtain seen sec where st: "st = (seen, sec)" by fastforce
  have e: "proper_repl Map.empty" by (simp add: proper_repl_def)
  show "update_line repl st raw = Inr (rewrite_line repl raw, st')"
  proof (cases "match_line raw")
    case None
    then show ?thesis using assms(1) update_line_other [OF None, of repl st Map.empty]
      update_line_Inr [of Map.empty seen sec raw out st'] st by (simp add: match_of_rewrite_other)
  next
    case (Some kv)
    then show ?thesis using assms st update_line_match [OF _ e] update_line_match [OF _ p]
      by (cases kv) (auto split: if_splits)
  qed
  show "update_line Map.empty st (rewrite_line repl raw) = Inr (rewrite_line repl raw, st')"
  proof (cases "match_line raw")
    case None
    then show ?thesis using assms(1) update_line_Inr [of Map.empty seen sec raw out st'] st
      by (simp add: match_of_rewrite_other)
  next
    case (Some kv)
    obtain k v where kv: "kv = (k, v)" by fastforce
    then obtain w where "match_line (rewrite_line repl raw) = Some (k, w)"
      using Some match_rewrite_line [OF p, of raw] by (simp add: override_def)
    from update_line_match [OF this e] update_line_match [OF Some [unfolded kv] e] assms(1) st
    show ?thesis by (auto split: if_splits)
  qed
qed

lemma update_lines_rewritten:
  assumes "update_lines Map.empty st raws = Inr (outs, st')" and p: "proper_repl repl"
  shows "update_lines repl st raws = Inr (map (rewrite_line repl) raws, st') \<and>
    update_lines Map.empty st (map (rewrite_line repl) raws) = Inr (map (rewrite_line repl) raws, st')"
  using assms(1)
proof (induction raws arbitrary: st outs)
  case Nil
  then show ?case by simp
next
  case (Cons raw raws)
  then obtain out st1 outs' where u: "update_line Map.empty st raw = Inr (out, st1)"
    and us: "update_lines Map.empty st1 raws = Inr (outs', st')"
    by (auto simp: bindR_eq_Inr)
  from update_line_rewritten [OF u p] Cons.IH [OF us] show ?case by simp
qed

lemma update_lines_append:
  "update_lines repl st (xs @ ys) = bindR (update_lines repl st xs) (\<lambda>(a, st1).
     bindR (update_lines repl st1 ys) (\<lambda>(b, st2). Inr (a @ b, st2)))"
  by (induction xs arbitrary: st) (auto simp: bindR_def split: sum.splits)

lemma update_line_newline:
  assumes "update_line Map.empty st l = Inr (l, st')" and "\<not> endswith l [10]"
  shows "update_line Map.empty st (l @ [10]) = Inr (l @ [10], st')"
proof -
  have "removesuffix l [10] = l" using assms(2) by (simp add: removesuffix_def)
  moreover have "removesuffix (l @ [10]) [10] = l" by (simp add: removesuffix_def endswith_def)
  ultimately show ?thesis using assms
    by (cases st) (auto simp: update_line_def Let_def split: if_splits bool.splits option.splits)
qed

lemma update_line_blank: "update_line Map.empty st [10] = Inr ([10], st)"
  by (cases st) (simp add: update_line_def Let_def removesuffix_def endswith_def rstrip_def blank_def strip_def lstrip_def)

lemma update_lines_newline:
  assumes "13 \<notin> set s" and "\<not> endswith (rev acc @ s) [10]"
    and "update_lines Map.empty st (splitlines_aux acc s) = Inr (splitlines_aux acc s, st')"
  shows "update_lines Map.empty st (splitlines_aux acc (s @ [10])) = Inr (splitlines_aux acc (s @ [10]), st')"
  using assms
proof (induction s arbitrary: acc st)
  case Nil
  then show ?case using update_line_newline [of st "rev acc" st']
    by (cases st') (auto simp: splitlines_aux_step islinebreak_def update_line_blank bindR_eq_Inr split: if_splits)
next
  case (Cons c s)
  have e: "\<not> endswith s [10]" "\<not> endswith (rev (c # acc) @ s) [10]"
    using Cons.prems(2) by (auto simp: endswith_iff)
  have c: "c \<noteq> 13" "13 \<notin> set s" using Cons.prems(1) by auto
  show ?case
  proof (cases "islinebreak c")
    case True
    with Cons.prems(3) c obtain st1 where "update_line Map.empty st (rev acc @ [c]) = Inr (rev acc @ [c], st1)"
      "update_lines Map.empty st1 (splitlines_aux [] s) = Inr (splitlines_aux [] s, st')"
      by (auto simp: splitlines_aux_step bindR_eq_Inr)
    with Cons.IH [OF c(2), of "[]" st1] e(1) True c show ?thesis by (simp add: splitlines_aux_step)
  next
    case False
    with Cons.IH [OF c(2) e(2), of st] Cons.prems(3) c show ?thesis by (simp add: splitlines_aux_step)
  qed
qed

lemma update_lines_fresh:
  assumes "\<forall>kv\<in>set kvs. assignment_ok kv \<and> fst kv \<in> set ollama_keys \<and> fst kv \<notin> set seen"
    and "distinct (map fst kvs)"
  shows "\<exists>seen'. update_lines Map.empty (seen, True) (map (\<lambda>kv. env_line kv @ [10]) kvs)
    = Inr (map (\<lambda>kv. env_line kv @ [10]) kvs, (seen', True))"
  using assms
proof (induction kvs arbitrary: seen)
  case Nil
  then show ?case by simp
next
  case (Cons kv kvs)
  obtain k v where kv: "kv = (k, v)" by fastforce
  have "match_line (env_line kv @ [10]) = Some (k, v)"
    using Cons.prems(1) match_env_line kv by (simp add: match_line_def)
  from update_line_match [OF this, of Map.empty seen True] Cons.prems(1) kv
  have u: "update_line Map.empty (seen, True) (env_line kv @ [10]) = Inr (env_line kv @ [10], (k # seen, True))"
    by (simp add: proper_repl_def)
  from Cons.IH [of "k # seen"] Cons.prems kv obtain seen' where
    "update_lines Map.empty (k # seen, True) (map (\<lambda>kv. env_line kv @ [10]) kvs)
      = Inr (map (\<lambda>kv. env_line kv @ [10]) kvs, (seen', True))" by force
  with u show ?case by simp
qed


lemma no_control:
  assumes "proper_settings kvs" and "\<forall>c\<in>set content. \<not> control_char c"
  shows "\<forall>c\<in>set (edited_drop_in content kvs). \<not> control_char c"
proof -
  have env: "\<forall>c\<in>set (env_line kv). \<not> control_char c" if "assignment_ok kv" for kv
    using that by (auto simp: assignment_ok_def env_line_def list_all_iff control_char_def key_char_def
        value_char_def is_alpha_def isdigit_def)
  have rw: "\<forall>c\<in>set (rewrite_line (dict_of kvs) raw). \<not> control_char c"
    if "\<forall>c\<in>set raw. \<not> control_char c" for raw
  proof (cases "match_line raw")
    case None
    then show ?thesis using that by (simp add: match_of_rewrite_other)
  next
    case (Some kv)
    obtain k v where kv: "kv = (k, v)" by fastforce
    show ?thesis
    proof (cases "dict_of kvs k")
      case None
      then show ?thesis using Some kv that by (simp add: rewrite_line_def)
    next
      case (Some w)
      then have "assignment_ok (k, w)" using assms(1) by (auto simp: proper_settings_def dest: dict_of_SomeD)
      from env [OF this] show ?thesis using Some \<open>match_line raw = Some kv\<close> kv
        by (auto simp: rewrite_line_def newline_of_def control_char_def)
    qed
  qed
  have "set content = (\<Union>raw\<in>set (splitlines_keep content). set raw)"
    by (metis concat_splitlines_keep set_concat)
  then have "\<forall>raw\<in>set (splitlines_keep content). \<forall>c\<in>set raw. \<not> control_char c" using assms(2) by auto
  with rw have "\<forall>c\<in>set (concat (map (rewrite_line (dict_of kvs)) (splitlines_keep content))). \<not> control_char c"
    by auto
  moreover have "\<forall>c\<in>set (assignments_text (missing_from content kvs)). \<not> control_char c"
    using env assms(1) by (auto simp: assignments_text_def missing_from_def proper_settings_def control_char_def)
  moreover have "\<not> control_char 10" by (simp add: control_char_def)
  ultimately show ?thesis by (auto simp: edited_drop_in_def Let_def)
qed

lemma supportedD:
  assumes "supported_drop_in content"
  obtains seen where "\<forall>c\<in>set content. \<not> control_char c"
    "update_lines Map.empty ([], False) (splitlines_keep content) = Inr (splitlines_keep content, (seen, True))"
    "set seen = fst ` set (drop_in_env content)"
proof -
  have nc: "\<forall>c\<in>set content. \<not> control_char c"
    using assms by (auto simp: supported_drop_in_def update_drop_in_def split: if_splits)
  then obtain ls seen where u: "update_lines Map.empty ([], False) (splitlines_keep content) = Inr (ls, (seen, True))"
    using assms by (auto simp: supported_drop_in_def update_drop_in_def bindR_eq_Inr split: if_splits)
  from update_lines_Inr [OF u] u nc show ?thesis
    by (intro that [of seen]) (auto simp: drop_in_env_def rewrite_empty_id)
qed

lemma splitlines_append_newline:
  assumes "13 \<notin> set s"
  shows "splitlines_aux acc (s @ 10 # t) = splitlines_aux acc (s @ [10]) @ splitlines_aux [] t"
  using assms by (induction s arbitrary: acc) (auto simp: splitlines_aux_step islinebreak_def)

lemma splitlines_ends:
  assumes "endswith B [10]" and "13 \<notin> set B"
  shows "splitlines_keep (B @ t) = splitlines_keep B @ splitlines_keep t"
proof -
  from assms(1) obtain u where "B = u @ [10]" by (auto simp only: endswith_iff)
  then show ?thesis using assms(2) splitlines_append_newline [of u "[]" t] by (simp add: splitlines_keep_def)
qed

lemma splitlines_assignments:
  assumes "\<forall>kv\<in>set kvs. assignment_ok kv"
  shows "splitlines_keep (assignments_text kvs) = map (\<lambda>kv. env_line kv @ [10]) kvs"
proof -
  have "line_list (map (\<lambda>kv. env_line kv @ [10]) kvs)"
    using assms by (induction kvs) (auto simp: complete_env_line)
  then show ?thesis by (simp add: splitlines_keep_def assignments_text_def splitlines_line_list)
qed

lemma supportedI:
  assumes "\<forall>c\<in>set content. \<not> control_char c"
    and "update_lines Map.empty ([], False) (splitlines_keep content) = Inr (splitlines_keep content, (seen, True))"
  shows "supported_drop_in content"
  using assms by (auto simp: supported_drop_in_def update_drop_in_def)

lemma update_supported:
  assumes "supported_drop_in content" and "proper_settings kvs"
  shows "update_drop_in content kvs = Inr (edited_drop_in content kvs)"
    and "supported_drop_in (edited_drop_in content kvs)"
proof -
  from assms(1) obtain seen where nc: "\<forall>c\<in>set content. \<not> control_char c"
    and u: "update_lines Map.empty ([], False) (splitlines_keep content) = Inr (splitlines_keep content, (seen, True))"
    and seen: "set seen = fst ` set (drop_in_env content)"
    by (rule supportedD)
  note p = proper_repl_dict [OF assms(2)]
  let ?ls = "map (rewrite_line (dict_of kvs)) (splitlines_keep content)"
  let ?m = "missing_from content kvs"
  note us = update_lines_rewritten [OF u p]
  have m: "?m = filter (\<lambda>kv. fst kv \<notin> set seen) kvs" by (simp add: missing_from_def seen)
  have safe: "\<not> (\<exists>kv\<in>set ?m. unsafe_value (snd kv))"
    using proper_safe [OF assms(2)] by (auto simp: missing_from_def)
  show "update_drop_in content kvs = Inr (edited_drop_in content kvs)"
    using nc us safe by (auto simp: update_drop_in_def edited_drop_in_def Let_def m render_assignments_eq
        assignments_text_def)
  have no13: "13 \<notin> set content" using nc by (force simp: control_char_def)
  have ll: "line_list ?ls" using p line_list_rewrite line_list_splitlines [of content "[]"] no13
    by (simp add: splitlines_keep_def)
  have cr: "13 \<notin> set (concat ?ls)" by (rule concat_rewrite_no_cr [OF p no13])
  have sl: "splitlines_keep (concat ?ls) = ?ls" using splitlines_line_list [OF ll] by (simp add: splitlines_keep_def)
  show "supported_drop_in (edited_drop_in content kvs)"
  proof -
    let ?base = "if endswith (concat ?ls) [10] then concat ?ls else concat ?ls @ [10]"
    have e: "edited_drop_in content kvs = (if ?m = [] then concat ?ls else ?base @ assignments_text ?m)"
      by (simp add: edited_drop_in_def Let_def)
    have base: "update_lines Map.empty ([], False) (splitlines_keep ?base) = Inr (splitlines_keep ?base, (seen, True))"
    proof (cases "endswith (concat ?ls) [10]")
      case True
      then show ?thesis using us sl by simp
    next
      case False
      then show ?thesis using us sl update_lines_newline [OF cr, of "[]" "([], False)" "(seen, True)"]
        by (simp add: splitlines_keep_def)
    qed
    have nl: "endswith ?base [10]" by (simp add: endswith_def)
    have b13: "13 \<notin> set ?base" using cr by auto
    have fresh: "\<forall>kv\<in>set ?m. assignment_ok kv \<and> fst kv \<in> set ollama_keys \<and> fst kv \<notin> set seen"
      using assms(2) by (auto simp: m proper_settings_def)
    have "distinct (map fst ?m)" using assms(2) by (simp add: m proper_settings_def distinct_map_filter)
    from update_lines_fresh [OF fresh this] obtain seen' where
      f: "update_lines Map.empty (seen, True) (splitlines_keep (assignments_text ?m))
        = Inr (splitlines_keep (assignments_text ?m), (seen', True))"
      using splitlines_assignments [of ?m] fresh by auto
    have "splitlines_keep (?base @ assignments_text ?m) = splitlines_keep ?base @ splitlines_keep (assignments_text ?m)"
      using nl b13 by (rule splitlines_ends)
    then have full: "update_lines Map.empty ([], False) (splitlines_keep (?base @ assignments_text ?m))
        = Inr (splitlines_keep (?base @ assignments_text ?m), (seen', True))"
      using base f by (simp add: update_lines_append)
    show ?thesis
    proof (cases "?m = []")
      case True
      then have "edited_drop_in content kvs = concat ?ls" using e by simp
      then show ?thesis using supportedI [OF no_control [OF assms(2) nc]] us sl by simp
    next
      case False
      then have "edited_drop_in content kvs = ?base @ assignments_text ?m" using e by simp
      then show ?thesis using supportedI [OF no_control [OF assms(2) nc]] full by simp
    qed
  qed
qed

lemma map_of_override: "map_of (map (override repl) env) k =
    (case map_of env k of None \<Rightarrow> None | Some v \<Rightarrow> Some (case repl k of None \<Rightarrow> v | Some w \<Rightarrow> w))"
  by (induction env) (auto simp: override_def)

lemma map_of_filter_keys: "map_of (filter (\<lambda>kv. fst kv \<notin> S) kvs) k = (if k \<in> S then None else map_of kvs k)"
  by (induction kvs) auto

lemma filter_keys_disjoint: "S \<inter> fst ` set (filter (\<lambda>kv. fst kv \<notin> S) kvs) = {}"
  by auto

lemma map_of_overridden:
  assumes "proper_settings kvs"
  shows "map_of (map (override (dict_of kvs)) (drop_in_env content) @ missing_from content kvs) =
    map_of (drop_in_env content) ++ map_of kvs"
proof
  fix k
  have d: "dict_of kvs = map_of kvs" using assms by (simp add: dict_of_map_of proper_settings_def)
  have m: "map_of (missing_from content kvs) k = (if map_of (drop_in_env content) k = None then map_of kvs k else None)"
    by (simp add: missing_from_def map_of_filter_keys map_of_eq_None_iff)
  show "map_of (map (override (dict_of kvs)) (drop_in_env content) @ missing_from content kvs) k =
      (map_of (drop_in_env content) ++ map_of kvs) k"
    by (simp add: map_add_def map_of_override d m split: option.splits)
qed



text \<open>A drop-in with a comment and two assignments, one of them selected, and a setting it lacks.\<close>

definition sample_drop_in :: str where
  "sample_drop_in = lit ''# managed'' @ [10] @ service_header @ [10] @ env_line (lit ''OLLAMA_HOST'', lit ''127.0.0.1:11434'')
     @ [10] @ env_line (lit ''OLLAMA_MAX_QUEUE'', lit ''5'')"

definition sample_settings :: "setting list" where
  "sample_settings = [(lit ''OLLAMA_FLASH_ATTENTION'', [49]), (lit ''OLLAMA_MAX_QUEUE'', lit ''64'')]"


section \<open>The planned change\<close>

lemma collect_settings_Inr:
  assumes "collect_settings rt pol acc rs = Inr kvs" and "distinct (map fst acc)" and "fst ` set acc \<subseteq> set ollama_keys"
  shows "\<exists>new. kvs = acc @ new \<and> distinct (map fst kvs) \<and> fst ` set kvs \<subseteq> set ollama_keys \<and>
    list_all2 (\<lambda>r kv. fst kv = setting_key r \<and> validate_setting rt pol (setting_key r) (recommended_value r) = Inr (snd kv)) rs new"
  using assms
proof (induction rs arbitrary: acc)
  case Nil
  then show ?case by simp
next
  case (Cons r rs)
  from Cons.prems(1) have k: "setting_key r \<notin> set (map fst acc)" "setting_key r \<in> set ollama_keys"
    by (auto split: if_splits)
  then obtain v where v: "validate_setting rt pol (setting_key r) (recommended_value r) = Inr v"
    and c: "collect_settings rt pol (acc @ [(setting_key r, v)]) rs = Inr kvs"
    using Cons.prems(1) by (auto simp: bindR_eq_Inr split: if_splits)
  have "distinct (map fst (acc @ [(setting_key r, v)]))" "fst ` set (acc @ [(setting_key r, v)]) \<subseteq> set ollama_keys"
    using Cons.prems(2,3) k by auto
  from Cons.IH [OF c this] v show ?case by auto
qed

lemma plan_ollama_InrD:
  assumes "plan_ollama rt pol supported report rs existing = Inr cset"
  obtains info kvs where "can_elevate (hi_capabilities (host report))" "ollama report = Some info"
    "ol_version info = Some supported" "service_supported (service info)"
    "collect_settings rt pol [] (selected_ollama rs) = Inr kvs"
    "if kvs = [] then changes cset = [] else \<exists>c. drop_in_change rt (report_id report) kvs existing = Inr c \<and> changes cset = [c]"
    "content_hash cset = ollama_hash rt (hi_host_id (host report)) (changes cset)"
proof -
  have e: "can_elevate (hi_capabilities (host report))" using assms by (auto simp: plan_ollama_def split: if_splits)
  then obtain info where i: "ollama report = Some info"
    using assms by (auto simp: plan_ollama_def split: option.splits)
  note a = assms [unfolded plan_ollama_def i option.case Let_def]
  have g: "ol_version info = Some supported" "service_supported (service info)"
    using a e by (auto split: if_splits)
  then obtain kvs where "collect_settings rt pol [] (selected_ollama rs) = Inr kvs"
    using a e by (auto simp: bindR_eq_Inr)
  then show ?thesis using a e g i
    by (intro that [of info kvs]) (auto simp: bindR_eq_Inr split: if_splits)
qed

text \<open>The new text of a drop-in the planner writes.\<close>

definition fresh_drop_in :: "setting list \<Rightarrow> str" where
  "fresh_drop_in kvs = service_header @ 10 # assignments_text kvs"

lemma render_drop_in_Inr: "render_drop_in kvs = Inr t \<Longrightarrow> t = fresh_drop_in kvs"
  using concat_map_shift [of 10 "map env_line kvs"]
  by (auto simp: render_drop_in_def mapR_guard join_def comp_def fresh_drop_in_def assignments_text_def split: if_splits)

lemma drop_in_env_fresh: "\<forall>kv\<in>set kvs. assignment_ok kv \<Longrightarrow> drop_in_env (fresh_drop_in kvs) = kvs"
proof -
  assume a: "\<forall>kv\<in>set kvs. assignment_ok kv"
  have "drop_in_env (service_header @ [10]) = []" by code_simp
  moreover have "endswith (service_header @ [10]) [10]" "13 \<notin> set (service_header @ [10])"
    by (simp_all add: endswith_def service_header_def)
  ultimately show ?thesis
    using drop_in_env_append [of "service_header @ [10]" "assignments_text kvs"] drop_in_env_assignments [OF a]
    by (simp add: fresh_drop_in_def)
qed

lemma drop_in_change_InrD:
  assumes "drop_in_change rt rid kvs existing = Inr c"
  shows "requires_root c \<and> requires_restart c \<and> ch_target c = drop_in_path
    \<and> operation c = (if existing = None then CREATE_FILE else REPLACE_FILE)
    \<and> rollback_operation c = Some (if existing = None then REMOVE_CREATED_FILE else REPLACE_FILE)
    \<and> source_span c = map_option (\<lambda>t. (0, int (length t))) existing
    \<and> (before_hash c = None \<longleftrightarrow> existing = None)
    \<and> replacement_text c = Some (case existing of None \<Rightarrow> fresh_drop_in kvs | Some t \<Rightarrow> edited_drop_in t kvs)"
  using assms
  by (auto simp: drop_in_change_def bindR_eq_Inr Let_def dest: render_drop_in_Inr update_drop_in_Inr split: option.splits)

text \<open>
  A planned Ollama change set holds no change exactly when nothing was selected, and otherwise
  one: it needs root and a restart, writes the program's own drop-in and nothing else, creates the file (to
  be removed on rollback) or replaces the text it was planned on. Its settings are the selected ones, each
  once, all allowlisted, with validated values; if those values are plain, the assignments read back from
  the new file are the old ones overridden by them.
\<close>

theorem plan_ollama_sound:
  assumes "plan_ollama rt pol supported report rs existing = Inr cset"
  shows "\<exists>kvs. distinct (map fst kvs) \<and> fst ` set kvs \<subseteq> set ollama_keys
    \<and> list_all2 (\<lambda>r kv. fst kv = setting_key r
        \<and> validate_setting rt pol (setting_key r) (recommended_value r) = Inr (snd kv)) (selected_ollama rs) kvs
    \<and> (changes cset = [] \<longleftrightarrow> selected_ollama rs = [])
    \<and> (\<forall>c\<in>set (changes cset). changes cset = [c] \<and> requires_root c \<and> requires_restart c \<and> ch_target c = drop_in_path
        \<and> operation c = (if existing = None then CREATE_FILE else REPLACE_FILE)
        \<and> rollback_operation c = Some (if existing = None then REMOVE_CREATED_FILE else REPLACE_FILE)
        \<and> (\<exists>t. replacement_text c = Some t \<and> ((\<forall>kv\<in>set kvs. assignment_ok kv) \<longrightarrow>
             map_of (drop_in_env t) = map_of (drop_in_env (case existing of None \<Rightarrow> [] | Some s \<Rightarrow> s)) ++ map_of kvs)))"
proof -
  from assms obtain info kvs where k: "collect_settings rt pol [] (selected_ollama rs) = Inr kvs"
    and c: "if kvs = [] then changes cset = [] else \<exists>c. drop_in_change rt (report_id report) kvs existing = Inr c \<and> changes cset = [c]"
    by (rule plan_ollama_InrD)
  from collect_settings_Inr [OF k] have d: "distinct (map fst kvs)" "fst ` set kvs \<subseteq> set ollama_keys"
    and l: "list_all2 (\<lambda>r kv. fst kv = setting_key r
      \<and> validate_setting rt pol (setting_key r) (recommended_value r) = Inr (snd kv)) (selected_ollama rs) kvs"
    by auto
  have e: "changes cset = [] \<longleftrightarrow> selected_ollama rs = []" using c l by (auto split: if_splits)
  have t: "map_of (drop_in_env (case existing of None \<Rightarrow> fresh_drop_in kvs | Some t \<Rightarrow> edited_drop_in t kvs)) =
      map_of (drop_in_env (case existing of None \<Rightarrow> [] | Some s \<Rightarrow> s)) ++ map_of kvs"
    if p: "\<forall>kv\<in>set kvs. assignment_ok kv" and q: "drop_in_change rt (report_id report) kvs existing = Inr c" for c
  proof (cases existing)
    case None
    have "drop_in_env [] = []" by (simp add: drop_in_env_def splitlines_keep_def)
    then show ?thesis using None drop_in_env_fresh [OF p] by simp
  next
    case (Some s)
    then obtain r where r: "update_drop_in s kvs = Inr r" using q by (auto simp: drop_in_change_def bindR_eq_Inr)
    have pk: "proper_settings kvs" using d p by (auto simp: proper_settings_def)
    have "13 \<notin> set s" using update_drop_in_Inr [OF r] by (force simp: control_char_def)
    from drop_in_env_edited [OF pk this] map_of_overridden [OF pk, of s] Some show ?thesis by simp
  qed
  have one: "changes cset = [x] \<and> drop_in_change rt (report_id report) kvs existing = Inr x"
    if "x \<in> set (changes cset)" for x
    using c that by (auto split: if_splits)
  show ?thesis
  proof (intro exI [of _ kvs] conjI ballI d l e)
    fix x assume x: "x \<in> set (changes cset)"
    from one [OF this] have x1: "changes cset = [x]"
      and q: "drop_in_change rt (report_id report) kvs existing = Inr x" by blast+
    note D = drop_in_change_InrD [OF q]
    show "changes cset = [x]" by (rule x1)
    show "requires_root x" "requires_restart x" "ch_target x = drop_in_path"
      "operation x = (if existing = None then CREATE_FILE else REPLACE_FILE)"
      "rollback_operation x = Some (if existing = None then REMOVE_CREATED_FILE else REPLACE_FILE)"
      using D by blast+
    show "\<exists>t. replacement_text x = Some t \<and> ((\<forall>kv\<in>set kvs. assignment_ok kv) \<longrightarrow>
        map_of (drop_in_env t) = map_of (drop_in_env (case existing of None \<Rightarrow> [] | Some s \<Rightarrow> s)) ++ map_of kvs)"
      using D t [OF _ q] by blast
  qed
qed

text \<open>An IPv6 loopback address with a scope id.\<close>

definition scoped_endpoint :: str where
  "scoped_endpoint = lit ''[::1%h]:11434''"

lemma scoped_endpoint_valid: "validate_setting rt pol (lit ''OLLAMA_HOST'') (JStr scoped_endpoint) = Inr scoped_endpoint"
proof -
  have "rpartition1 58 scoped_endpoint = Some (lit ''[::1%h]'', lit ''11434'')" by code_simp
  moreover have "loopback_host (strip_brackets (lit ''[::1%h]''))" by code_simp
  moreover have "py_isdigit rt (lit ''11434'')" by (rule py_isdigit_ascii) (simp_all add: isdigit_def)
  moreover have "int_of_digits rt (lit ''11434'') = Inr 11434"
    by (simp add: int_of_digits_def is_decimal_def digit_of_def isdigit_def too_many_digits_def)
  ultimately show "validate_setting rt pol (lit ''OLLAMA_HOST'') (JStr scoped_endpoint) = Inr scoped_endpoint"
    by (simp only: validate_setting_def validate_endpoint_def) simp
qed

lemma scoped_endpoint_unsupported: "\<not> supported_drop_in (fresh_drop_in [(lit ''OLLAMA_HOST'', scoped_endpoint)])"
  by code_simp

text \<open>
  Validation accepts a loopback endpoint with a scope id; the percent sign reaches the
  drop-in, where systemd expands it, and the editor refuses the file ever after.
\<close>

lemma scoped_endpoint_accepted:
  "validate_setting rt pol (lit ''OLLAMA_HOST'') (JStr scoped_endpoint) = Inr scoped_endpoint
   \<and> \<not> supported_drop_in (fresh_drop_in [(lit ''OLLAMA_HOST'', scoped_endpoint)])"
  using scoped_endpoint_valid scoped_endpoint_unsupported by blast

section \<open>A planned drop-in\<close>

definition sample_ollama_report :: diagnostic_report where
  "sample_ollama_report = \<lparr>report_id = lit ''r'', dr_schema_version = lit ''1.0'',
     host = \<lparr>hi_host_id = lit ''local'', hi_kind = HK_LOCAL, hi_display_name = lit ''Local'',
       hi_capabilities = \<lparr>can_execute = True, can_read_files = True, can_stage_files = True, can_elevate = True,
         service_manager = None, gpu_tools = [], limitations = []\<rparr>,
       hi_hostname = None, hi_user = None, hi_ssh_alias = None, hi_fingerprint = None, hi_observed_at = 0\<rparr>,
     dr_status = RS_COMPLETE, dr_system = None, dr_hardware = None,
     ollama = Some \<lparr>ol_installed = True, ol_version = Some supported_ollama, ol_binary_path = None,
       service = Some \<lparr>unit_name = lit ''ollama.service'', load_state = lit ''loaded'', active_state = [], sub_state = [],
         svc_enabled = None, fragment_path = None, drop_in_paths = []\<rparr>,
       environment = [], api_endpoint = None, api_connectivity = PB_OK, models = [], loaded_models = [], settings = []\<rparr>,
     opencode = None, probe_results = [], findings = [], started_at = 0, completed_at = None\<rparr>"

definition sample_ollama_recommendations :: "recommendation list" where
  "sample_ollama_recommendations = map (\<lambda>(i, k, v). \<lparr>recommendation_id = i, rule_id = lit ''rule'', rule_version = 1,
     rc_target = lit ''ollama.systemd'', setting_key = k, current_value = JNull, recommended_value = v,
     reason = \<lparr>message_key = lit ''k'', arguments = [], fallback_text = []\<rparr>, rc_severity = SV_LOW,
     rc_confidence = CF_HIGH, impact = \<lparr>message_key = lit ''k'', arguments = [], fallback_text = []\<rparr>,
     rc_risk = \<lparr>risk_severity = SV_LOW,
       risk_message = \<lparr>message_key = lit ''k'', arguments = [], fallback_text = []\<rparr>, mitigations = []\<rparr>,
     rc_requires_restart = True, rc_requires_root = True, evidence = [], actionable = True, conflicts_with = []\<rparr>)
     [(lit ''r1'', lit ''OLLAMA_MAX_QUEUE'', JInt 64), (lit ''r2'', lit ''OLLAMA_FLASH_ATTENTION'', JBool True)]"

end
