(* ===== verification/Primitive.thy ===== *)
theory Primitive
  imports Models
begin

text \<open>
  \<open>to_primitive\<close> of \<open>domain/serialization.py\<close> at the classes of a diagnostic report, and the stable hash of
  \<open>application/optimization.py\<close>.  The code walks the fields of a dataclass by reflection; here every class has
  its own function, with the field names of the source.
\<close>

definition tuple_json :: "('a \<Rightarrow> json) \<Rightarrow> 'a list \<Rightarrow> json" where
  "tuple_json f xs = JArr (map f xs)"

definition pair_json :: "('a \<Rightarrow> json) \<Rightarrow> ('b \<Rightarrow> json) \<Rightarrow> 'a \<times> 'b \<Rightarrow> json" where
  "pair_json f g p = JArr [f (fst p), g (snd p)]"

definition float_json :: "pyfloat \<Rightarrow> json" where
  "float_json x = JFloat (pf_text x)"

definition time_json :: "runtime \<Rightarrow> time \<Rightarrow> json" where
  "time_json rt t = JStr (isoformat rt t)"

fun host_kind_json :: "host_kind \<Rightarrow> json" where
  "host_kind_json HK_LOCAL = JStr (lit ''local'')"
| "host_kind_json HK_SSH = JStr (lit ''ssh'')"

fun probe_status_json :: "probe_status \<Rightarrow> json" where
  "probe_status_json PB_OK = JStr (lit ''ok'')"
| "probe_status_json PB_NOT_INSTALLED = JStr (lit ''not_installed'')"
| "probe_status_json PB_NOT_APPLICABLE = JStr (lit ''not_applicable'')"
| "probe_status_json PB_UNSUPPORTED = JStr (lit ''unsupported'')"
| "probe_status_json PB_PERMISSION_DENIED = JStr (lit ''permission_denied'')"
| "probe_status_json PB_UNAVAILABLE = JStr (lit ''unavailable'')"
| "probe_status_json PB_TIMEOUT = JStr (lit ''timeout'')"
| "probe_status_json PB_FAILED = JStr (lit ''failed'')"
| "probe_status_json PB_CANCELLED = JStr (lit ''cancelled'')"

fun report_status_json :: "report_status \<Rightarrow> json" where
  "report_status_json RS_COMPLETE = JStr (lit ''complete'')"
| "report_status_json RS_PARTIAL = JStr (lit ''partial'')"
| "report_status_json RS_FAILED = JStr (lit ''failed'')"

fun severity_json :: "severity \<Rightarrow> json" where
  "severity_json SV_INFO = JStr (lit ''info'')"
| "severity_json SV_LOW = JStr (lit ''low'')"
| "severity_json SV_MEDIUM = JStr (lit ''medium'')"
| "severity_json SV_HIGH = JStr (lit ''high'')"
| "severity_json SV_CRITICAL = JStr (lit ''critical'')"

fun confidence_json :: "confidence \<Rightarrow> json" where
  "confidence_json CF_LOW = JStr (lit ''low'')"
| "confidence_json CF_MEDIUM = JStr (lit ''medium'')"
| "confidence_json CF_HIGH = JStr (lit ''high'')"

fun plan_status_json :: "plan_status \<Rightarrow> json" where
  "plan_status_json DRAFT = JStr (lit ''draft'')"
| "plan_status_json REVIEWED = JStr (lit ''reviewed'')"
| "plan_status_json APPROVED = JStr (lit ''approved'')"
| "plan_status_json BACKED_UP = JStr (lit ''backed_up'')"
| "plan_status_json APPLYING = JStr (lit ''applying'')"
| "plan_status_json VALIDATING = JStr (lit ''validating'')"
| "plan_status_json COMMITTED = JStr (lit ''committed'')"
| "plan_status_json ROLLING_BACK = JStr (lit ''rolling_back'')"
| "plan_status_json ROLLED_BACK = JStr (lit ''rolled_back'')"
| "plan_status_json RECOVERY_REQUIRED = JStr (lit ''recovery_required'')"

fun validation_status_json :: "validation_status \<Rightarrow> json" where
  "validation_status_json VS_PASSED = JStr (lit ''passed'')"
| "validation_status_json VS_FAILED = JStr (lit ''failed'')"
| "validation_status_json VS_SKIPPED = JStr (lit ''skipped'')"

definition localized_message_json :: "localized_message \<Rightarrow> json" where
  "localized_message_json x = JObj
    [(lit ''message_key'', JStr (message_key x)),
     (lit ''arguments'', tuple_json (pair_json JStr (\<lambda>v. v)) (arguments x)),
     (lit ''fallback_text'', JStr (fallback_text x))]"

definition host_capabilities_json :: "host_capabilities \<Rightarrow> json" where
  "host_capabilities_json x = JObj
    [(lit ''can_execute'', JBool (can_execute x)), (lit ''can_read_files'', JBool (can_read_files x)),
     (lit ''can_stage_files'', JBool (can_stage_files x)),
     (lit ''can_elevate'', JBool (can_elevate x)),
     (lit ''service_manager'', jopt JStr (service_manager x)),
     (lit ''gpu_tools'', tuple_json JStr (gpu_tools x)),
     (lit ''limitations'', tuple_json JStr (limitations x))]"

definition host_info_json :: "runtime \<Rightarrow> host_info \<Rightarrow> json" where
  "host_info_json rt x = JObj
    [(lit ''host_id'', JStr (hi_host_id x)), (lit ''kind'', host_kind_json (hi_kind x)),
     (lit ''display_name'', JStr (hi_display_name x)),
     (lit ''capabilities'', host_capabilities_json (hi_capabilities x)),
     (lit ''hostname'', jopt JStr (hi_hostname x)), (lit ''user'', jopt JStr (hi_user x)),
     (lit ''ssh_alias'', jopt JStr (hi_ssh_alias x)),
     (lit ''fingerprint'', jopt JStr (hi_fingerprint x)),
     (lit ''observed_at'', time_json rt (hi_observed_at x))]"

definition disk_info_json :: "disk_info \<Rightarrow> json" where
  "disk_info_json x = JObj
    [(lit ''mount_point'', JStr (mount_point x)), (lit ''total_bytes'', JInt (total_bytes x)),
     (lit ''free_bytes'', JInt (free_bytes x)), (lit ''filesystem'', jopt JStr (filesystem x))]"

definition system_info_json :: "system_info \<Rightarrow> json" where
  "system_info_json x = JObj
    [(lit ''distribution'', JStr (distribution x)),
     (lit ''distribution_version'', JStr (distribution_version x)), (lit ''kernel'', JStr (kernel x)),
     (lit ''architecture'', JStr (architecture x)),
     (lit ''disks'', tuple_json disk_info_json (disks x))]"

definition gpu_info_json :: "gpu_info \<Rightarrow> json" where
  "gpu_info_json x = JObj
    [(lit ''gpu_id'', JStr (gpu_id x)), (lit ''vendor'', JStr (gpu_vendor x)),
     (lit ''name'', JStr (gpu_name x)), (lit ''vram_total_bytes'', jopt JInt (vram_total_bytes x)),
     (lit ''vram_used_bytes'', jopt JInt (vram_used_bytes x)),
     (lit ''utilization_pct'', jopt float_json (utilization_pct x)),
     (lit ''temperature_c'', jopt float_json (temperature_c x)),
     (lit ''driver_version'', jopt JStr (driver_version x)),
     (lit ''compute_stack'', jopt JStr (compute_stack x)),
     (lit ''compute_version'', jopt JStr (compute_version x)),
     (lit ''compute_architecture'', jopt JStr (compute_architecture x))]"

definition hardware_info_json :: "hardware_info \<Rightarrow> json" where
  "hardware_info_json x = JObj
    [(lit ''cpu'', JStr (cpu x)), (lit ''logical_cores'', JInt (logical_cores x)),
     (lit ''ram_total_bytes'', JInt (ram_total_bytes x)),
     (lit ''ram_available_bytes'', JInt (ram_available_bytes x)),
     (lit ''swap_total_bytes'', JInt (swap_total_bytes x)),
     (lit ''swap_free_bytes'', JInt (swap_free_bytes x)),
     (lit ''physical_cores'', jopt JInt (physical_cores x)),
     (lit ''gpus'', tuple_json gpu_info_json (gpus x))]"

definition service_info_json :: "service_info \<Rightarrow> json" where
  "service_info_json x = JObj
    [(lit ''unit'', JStr (unit_name x)), (lit ''load_state'', JStr (load_state x)),
     (lit ''active_state'', JStr (active_state x)), (lit ''sub_state'', JStr (sub_state x)),
     (lit ''enabled'', jopt JBool (svc_enabled x)),
     (lit ''fragment_path'', jopt JStr (fragment_path x)),
     (lit ''drop_in_paths'', tuple_json JStr (drop_in_paths x))]"

definition observed_setting_json :: "observed_setting \<Rightarrow> json" where
  "observed_setting_json x = JObj
    [(lit ''key'', JStr (os_key x)), (lit ''configured'', os_configured x),
     (lit ''runtime'', os_runtime x), (lit ''effective'', os_effective x),
     (lit ''sources'', tuple_json JStr (os_sources x)),
     (lit ''consistent'', jopt JBool (os_consistent x))]"

definition ollama_model_info_json :: "ollama_model_info \<Rightarrow> json" where
  "ollama_model_info_json x = JObj
    [(lit ''name'', JStr (om_name x)), (lit ''digest'', jopt JStr (om_digest x)),
     (lit ''size_bytes'', jopt JInt (size_bytes x)),
     (lit ''architecture'', jopt JStr (om_architecture x)),
     (lit ''parameter_size'', jopt JStr (parameter_size x)),
     (lit ''quantization'', jopt JStr (quantization x)),
     (lit ''configured_context'', jopt JInt (configured_context x)),
     (lit ''runtime_context'', jopt JInt (runtime_context x)), (lit ''loaded'', JBool (loaded x)),
     (lit ''processor'', jopt JStr (processor x)),
     (lit ''cpu_memory_bytes'', jopt JInt (cpu_memory_bytes x)),
     (lit ''gpu_memory_bytes'', jopt JInt (gpu_memory_bytes x))]"

definition ollama_info_json :: "ollama_info \<Rightarrow> json" where
  "ollama_info_json x = JObj
    [(lit ''installed'', JBool (ol_installed x)), (lit ''version'', jopt JStr (ol_version x)),
     (lit ''binary_path'', jopt JStr (ol_binary_path x)),
     (lit ''service'', jopt service_info_json (service x)),
     (lit ''environment'', tuple_json (pair_json JStr JStr) (environment x)),
     (lit ''api_endpoint'', jopt JStr (api_endpoint x)),
     (lit ''api_connectivity'', probe_status_json (api_connectivity x)),
     (lit ''models'', tuple_json ollama_model_info_json (models x)),
     (lit ''loaded_models'', tuple_json ollama_model_info_json (loaded_models x)),
     (lit ''settings'', tuple_json observed_setting_json (settings x))]"

definition opencode_info_json :: "opencode_info \<Rightarrow> json" where
  "opencode_info_json x = JObj
    [(lit ''installed'', JBool (oc_installed x)), (lit ''version'', jopt JStr (oc_version x)),
     (lit ''binary_path'', jopt JStr (oc_binary_path x)),
     (lit ''config_locations'', tuple_json JStr (config_locations x)),
     (lit ''active_config'', jopt JStr (active_config x)), (lit ''provider'', jopt JStr (provider x)),
     (lit ''model'', jopt JStr (model x)), (lit ''base_url'', jopt JStr (base_url x)),
     (lit ''available_providers'', tuple_json JStr (available_providers x)),
     (lit ''available_models'', tuple_json JStr (available_models x)),
     (lit ''base_urls'', tuple_json JStr (base_urls x)),
     (lit ''context_settings'', tuple_json (pair_json JStr (\<lambda>v. v)) (context_settings x)),
     (lit ''timeout_settings'', tuple_json (pair_json JStr (\<lambda>v. v)) (timeout_settings x)),
     (lit ''ollama_compatible'', jopt JBool (ollama_compatible x)),
     (lit ''parse_warnings'', tuple_json JStr (parse_warnings x))]"

definition probe_result_json :: "runtime \<Rightarrow> probe_result \<Rightarrow> json" where
  "probe_result_json rt x = JObj
    [(lit ''status'', probe_status_json (pr_status x)),
     (lit ''value'', jopt ((\<lambda>v. v)) (pr_value x)), (lit ''source'', jopt JStr (pr_source x)),
     (lit ''observed_at'', time_json rt (pr_observed_at x)),
     (lit ''duration_ms'', JInt (pr_duration_ms x)),
     (lit ''warnings'', tuple_json JStr (pr_warnings x)),
     (lit ''error_code'', jopt JStr (pr_error_code x)),
     (lit ''error_message'', jopt JStr (pr_error_message x))]"

definition diagnostic_finding_json :: "diagnostic_finding \<Rightarrow> json" where
  "diagnostic_finding_json x = JObj
    [(lit ''finding_id'', JStr (finding_id x)), (lit ''category'', JStr (category x)),
     (lit ''severity'', severity_json (df_severity x)),
     (lit ''summary'', localized_message_json (summary x)),
     (lit ''evidence'', tuple_json (pair_json JStr (\<lambda>v. v)) (df_evidence x)),
     (lit ''possible_causes'', tuple_json JStr (possible_causes x)),
     (lit ''affected_fields'', tuple_json JStr (affected_fields x))]"

definition diagnostic_report_json :: "runtime \<Rightarrow> diagnostic_report \<Rightarrow> json" where
  "diagnostic_report_json rt x = JObj
    [(lit ''report_id'', JStr (report_id x)), (lit ''schema_version'', JStr (dr_schema_version x)),
     (lit ''host'', host_info_json rt (host x)), (lit ''status'', report_status_json (dr_status x)),
     (lit ''system'', jopt system_info_json (dr_system x)),
     (lit ''hardware'', jopt hardware_info_json (dr_hardware x)),
     (lit ''ollama'', jopt ollama_info_json (ollama x)),
     (lit ''opencode'', jopt opencode_info_json (opencode x)),
     (lit ''probe_results'', tuple_json (pair_json JStr (probe_result_json rt)) (probe_results x)),
     (lit ''findings'', tuple_json diagnostic_finding_json (findings x)),
     (lit ''started_at'', time_json rt (started_at x)),
     (lit ''completed_at'', jopt (time_json rt) (completed_at x))]"


definition stable_hash :: "runtime \<Rightarrow> json \<Rightarrow> str res" where
  "stable_hash rt v = bindR (utf8_encode (dumps False v)) (\<lambda>b. Inr (sha256 rt b))"

end
