(* ===== verification/Rules.thy ===== *)
theory Rules
  imports Primitive OpenCodePlan "HOL-Library.Product_Lexorder"
begin

text \<open>
  The rule engine (\<open>optimization/rules.py\<close>, \<open>engine.py\<close>, \<open>catalog.py\<close>, \<open>profiles.py\<close>) and the use case that
  turns its recommendations into a plan (\<open>application/optimization.py\<close>).  A rule is a record of its
  attributes and its pure evaluation; \<open>repr\<close> of a recommended value is represented by the value.
\<close>

section \<open>Profiles\<close>

definition balanced_profile :: optimization_profile where
  "balanced_profile = \<lparr>profile_id = lit ''balanced'', pf_version = 1, profile_name = lit ''Balanced'',
     goals = [lit ''responsiveness'', lit ''quality'', lit ''resource_balance'', lit ''stability''],
     constraints = [lit ''avoid_unverified_maxima'', lit ''preserve_os_headroom'']\<rparr>"

definition coding_profile :: optimization_profile where
  "coding_profile = \<lparr>profile_id = lit ''coding'', pf_version = 1, profile_name = lit ''Coding'',
     goals = [lit ''code_quality'', lit ''interactive_latency'', lit ''editing_context''],
     constraints = [lit ''prefer_iteration_speed'', lit ''require_model_alignment'']\<rparr>"

definition agent_profile :: optimization_profile where
  "agent_profile = \<lparr>profile_id = lit ''agent'', pf_version = 1, profile_name = lit ''Agent'',
     goals = [lit ''long_running_stability'', lit ''tool_calls'', lit ''context_growth'', lit ''recovery''],
     constraints = [lit ''bounded_timeouts'', lit ''memory_headroom'', lit ''compaction_enabled'']\<rparr>"

definition profiles :: "optimization_profile list" where
  "profiles = [balanced_profile, coding_profile, agent_profile]"

section \<open>Rules\<close>

record rule =
  ru_id :: str
  ru_version :: int
  ru_priority :: int
  ru_profiles :: "str list"
  ru_evaluate :: "diagnostic_report \<Rightarrow> optimization_profile \<Rightarrow> recommendation option"

definition rule_message :: "string \<Rightarrow> (str \<times> json) list \<Rightarrow> localized_message" where
  "rule_message k args = \<lparr>message_key = lit k, arguments = args, fallback_text = lit k\<rparr>"

definition rule_recommendation_id :: "str \<Rightarrow> optimization_profile \<Rightarrow> str" where
  "rule_recommendation_id rid p = rid @ [58] @ profile_id p"

definition ollama_unavailable :: "str \<Rightarrow> int \<Rightarrow> str list \<Rightarrow> diagnostic_report \<Rightarrow> optimization_profile \<Rightarrow> recommendation option" where
  "ollama_unavailable rid v ps report p =
     (case opencode report of
        None \<Rightarrow> None
      | Some info \<Rightarrow>
          if profile_id p \<notin> set ps \<or> ollama_compatible info \<noteq> Some True then None
          else if (case ollama report of None \<Rightarrow> False | Some oi \<Rightarrow> api_connectivity oi = PB_OK) then None
          else Some
            \<lparr>recommendation_id = rule_recommendation_id rid p, rule_id = rid, rule_version = v, rc_target = lit ''ollama.api'',
             setting_key = lit ''connectivity'', current_value = JStr (lit ''unavailable''),
             recommended_value = JStr (lit ''manual_review''),
             reason = rule_message ''recommendation.ollama_unavailable.reason'' [], rc_severity = SV_HIGH, rc_confidence = CF_HIGH,
             impact = rule_message ''recommendation.ollama_unavailable.impact'' [],
             rc_risk = \<lparr>risk_severity = SV_LOW, risk_message = rule_message ''recommendation.manual_review.risk'' [], mitigations = []\<rparr>,
             rc_requires_restart = False, rc_requires_root = False,
             evidence = [(lit ''opencode_ollama_compatible'', JBool True), (lit ''ollama_api'', JStr (lit ''unavailable''))],
             actionable = False, conflicts_with = []\<rparr>)"

definition unsupported_opencode_version ::
  "str \<Rightarrow> str \<Rightarrow> int \<Rightarrow> str list \<Rightarrow> diagnostic_report \<Rightarrow> optimization_profile \<Rightarrow> recommendation option" where
  "unsupported_opencode_version supported rid v ps report p =
     (case opencode report of
        None \<Rightarrow> None
      | Some info \<Rightarrow>
          if profile_id p \<notin> set ps \<or> \<not> oc_installed info then None
          else if oc_version info = Some supported then None
          else Some
            \<lparr>recommendation_id = rule_recommendation_id rid p, rule_id = rid, rule_version = v, rc_target = lit ''opencode'',
             setting_key = lit ''version_compatibility'', current_value = jopt JStr (oc_version info),
             recommended_value = JStr supported,
             reason = rule_message ''recommendation.opencode_unsupported.reason''
               [(lit ''observed'', jopt JStr (oc_version info)), (lit ''baseline'', JStr supported)],
             rc_severity = SV_MEDIUM, rc_confidence = CF_HIGH,
             impact = rule_message ''recommendation.opencode_unsupported.impact'' [],
             rc_risk = \<lparr>risk_severity = SV_HIGH, risk_message = rule_message ''recommendation.unsupported_change.risk'' [], mitigations = []\<rparr>,
             rc_requires_restart = False, rc_requires_root = False,
             evidence = [(lit ''opencode_version'', jopt JStr (oc_version info))], actionable = False, conflicts_with = []\<rparr>)"

definition is_jbool :: "json \<Rightarrow> bool" where
  "is_jbool v = (case v of JBool _ \<Rightarrow> True | _ \<Rightarrow> False)"

text \<open>\<open>info.active_config or "opencode.config"\<close>\<close>

definition config_target :: "opencode_info \<Rightarrow> str" where
  "config_target info = (case active_config info of None \<Rightarrow> lit ''opencode.config''
     | Some p \<Rightarrow> if p = [] then lit ''opencode.config'' else p)"

definition agent_compaction ::
  "str \<Rightarrow> bool \<Rightarrow> str \<Rightarrow> int \<Rightarrow> str list \<Rightarrow> diagnostic_report \<Rightarrow> optimization_profile \<Rightarrow> recommendation option" where
  "agent_compaction key desired rid v ps report p =
     (case opencode report of
        None \<Rightarrow> None
      | Some info \<Rightarrow>
          if profile_id p \<notin> set ps \<or> \<not> oc_installed info then None
          else (case dict_of (context_settings info) key of
              None \<Rightarrow> None
            | Some current \<Rightarrow>
                if current = JBool desired then None
                else (let supported = oc_version info = Some (lit ''1.18.25'') \<and> active_config info \<noteq> None
                        \<and> parse_warnings info = [] \<and> is_jbool current
                  in Some
                  \<lparr>recommendation_id = rule_recommendation_id rid p, rule_id = rid, rule_version = v,
                   rc_target = config_target info, setting_key = key, current_value = current,
                   recommended_value = JBool desired,
                   reason = rule_message ''recommendation.agent_compaction.reason'' [(lit ''setting'', JStr key)],
                   rc_severity = SV_MEDIUM, rc_confidence = (if supported then CF_HIGH else CF_LOW),
                   impact = rule_message ''recommendation.agent_compaction.impact'' [],
                   rc_risk = \<lparr>risk_severity = SV_LOW, risk_message = rule_message ''recommendation.agent_compaction.risk'' [],
                     mitigations = [rule_message ''recommendation.backup_and_validate'' []]\<rparr>,
                   rc_requires_restart = False, rc_requires_root = False,
                   evidence = [(lit ''opencode_version'', jopt JStr (oc_version info)), (lit ''current'', current)],
                   actionable = supported, conflicts_with = []\<rparr>)))"

text \<open>The three rule classes with their default attributes.\<close>

definition all_profiles :: "str list" where
  "all_profiles = [lit ''balanced'', lit ''coding'', lit ''agent'']"

definition ollama_unavailable_rule :: rule where
  "ollama_unavailable_rule = (let rid = lit ''connectivity.ollama-unavailable'' in
     \<lparr>ru_id = rid, ru_version = 1, ru_priority = 100, ru_profiles = all_profiles,
      ru_evaluate = ollama_unavailable rid 1 all_profiles\<rparr>)"

definition unsupported_version_rule :: rule where
  "unsupported_version_rule = (let rid = lit ''compatibility.opencode-version'' in
     \<lparr>ru_id = rid, ru_version = 1, ru_priority = 1000, ru_profiles = all_profiles,
      ru_evaluate = unsupported_opencode_version (lit ''1.18.25'') rid 1 all_profiles\<rparr>)"

definition agent_compaction_rule :: "str \<Rightarrow> bool \<Rightarrow> str \<Rightarrow> int \<Rightarrow> rule" where
  "agent_compaction_rule key desired rid prio =
     \<lparr>ru_id = rid, ru_version = 1, ru_priority = prio, ru_profiles = [lit ''agent''],
      ru_evaluate = agent_compaction key desired rid 1 [lit ''agent'']\<rparr>"

definition catalog_version :: str where
  "catalog_version = lit ''1.0.0''"

definition default_catalog :: "rule list" where
  "default_catalog =
     [unsupported_version_rule, ollama_unavailable_rule,
      agent_compaction_rule (lit ''compaction.auto'') True (lit ''agent.compaction.auto'') 800,
      agent_compaction_rule (lit ''compaction.prune'') True (lit ''agent.compaction.prune'') 790]"

section \<open>The engine\<close>

definition candidates :: "rule list \<Rightarrow> diagnostic_report \<Rightarrow> optimization_profile \<Rightarrow> recommendation list" where
  "candidates rules report p = List.map_filter (\<lambda>r. ru_evaluate r report p) rules"

definition setting_of :: "recommendation \<Rightarrow> str \<times> str" where
  "setting_of r = (rc_target r, setting_key r)"

text \<open>\<open>max(group, key=...)\<close>: the first of the greatest.\<close>

fun max_by :: "('a \<Rightarrow> 'b :: linorder) \<Rightarrow> 'a \<Rightarrow> 'a list \<Rightarrow> 'a" where
  "max_by f best [] = best"
| "max_by f best (x # xs) = max_by f (if f best < f x then x else best) xs"

definition rule_priority :: "rule list \<Rightarrow> recommendation \<Rightarrow> int res" where
  "rule_priority rules r = (case dict_of (map (\<lambda>u. (ru_id u, ru_priority u)) rules) (rule_id r) of
      None \<Rightarrow> Inl KeyError | Some n \<Rightarrow> Inr n)"

definition mark_conflict :: "str list \<Rightarrow> recommendation \<Rightarrow> recommendation" where
  "mark_conflict ids r = r\<lparr>actionable := False, conflicts_with := filter (\<lambda>v. v \<noteq> recommendation_id r) ids\<rparr>"

text \<open>One group of recommendations for the same setting.\<close>

definition resolve_group :: "rule list \<Rightarrow> recommendation list \<Rightarrow> recommendation list res" where
  "resolve_group rules grp =
     (if length (remdups (map recommended_value grp)) = 1 then
        bindR (mapR (\<lambda>r. bindR (rule_priority rules r) (\<lambda>n. Inr ((n, rule_id r), r))) grp) (\<lambda>ranked.
          case ranked of
            [] \<Rightarrow> Inl ValueError
          | x # xs \<Rightarrow> Inr [snd (max_by fst x xs)])
      else Inr (map (mark_conflict (sort (map recommendation_id grp))) (sort_key recommendation_id grp)))"

definition resolve_conflicts :: "rule list \<Rightarrow> recommendation list \<Rightarrow> recommendation list res" where
  "resolve_conflicts rules rs =
     bindR (mapR (\<lambda>k. resolve_group rules (filter (\<lambda>r. setting_of r = k) rs)) (sort (remdups (map setting_of rs)))) (\<lambda>groups.
     Inr (sort_key recommendation_id (concat groups)))"

definition engine_evaluate :: "rule list \<Rightarrow> diagnostic_report \<Rightarrow> optimization_profile \<Rightarrow> recommendation list res" where
  "engine_evaluate rules report p = resolve_conflicts rules (candidates rules report p)"

section \<open>Generating a plan\<close>

definition generate_plan ::
  "runtime \<Rightarrow> str \<Rightarrow> rule list \<Rightarrow> time \<Rightarrow> str \<Rightarrow> diagnostic_report \<Rightarrow> optimization_profile \<Rightarrow> time \<Rightarrow> optimization_plan res" where
  "generate_plan rt catalog rules lifetime pid report p now =
     bindR (engine_evaluate rules report p) (\<lambda>rs.
     bindR (stable_hash rt (diagnostic_report_json rt report)) (\<lambda>h.
     Inr \<lparr>plan_id = pid, op_report_id = report_id report, report_hash = h, op_profile = p, rule_catalog_version = catalog,
          recommendations = rs, selected_ids = [], op_change_set = None, op_status = DRAFT, created_at = now,
          expires_at = Some (now + lifetime), backup_policy = no_encryption\<rparr>))"

end
