(* ===== verification/FileRender.thy ===== *)
theory FileRender
  imports Models "HOL-Library.Product_Lexorder"
begin

text \<open>
  \<open>render_file_changes\<close> of \<open>infrastructure/safe_apply.py\<close>: the new content of one file from its captured
  bytes and its changes.  The code cuts and pastes from the last span to the first so that earlier
  offsets stay valid; \<open>edit_ref\<close> is the left-to-right reading of the same edits.
\<close>

type_synonym edit = "int \<times> int \<times> str"

definition render_error :: "string \<Rightarrow> exn" where
  "render_error code = AdapterError code"

text \<open>The loop over the spans, latest first; \<open>prev\<close> is \<open>previous_start\<close>.\<close>

fun splice :: "str \<Rightarrow> int \<Rightarrow> edit list \<Rightarrow> str res" where
  "splice doc prev [] = Inr doc"
| "splice doc prev ((a, b, t) # es) =
     (if a < 0 \<or> int (length doc) < b \<or> prev < b then Inl (AdapterError ''overlapping_changes'')
      else splice (take (nat a) doc @ t @ drop (nat b) doc) a es)"

definition edit_of :: "str \<Rightarrow> change \<Rightarrow> edit res" where
  "edit_of doc c = (case replacement_text c of
      None \<Rightarrow> Inl (AdapterError ''missing_replacement'')
    | Some t \<Rightarrow> (case source_span c of
          Some (a, b) \<Rightarrow> Inr (a, b, t)
        | None \<Rightarrow> Inr (0, int (length doc), t)))"

definition file_write :: "change \<Rightarrow> bool" where
  "file_write c \<longleftrightarrow> \<not> requires_root c \<and> operation c \<in> {CREATE_FILE, REPLACE_FILE}"

definition render_text :: "str \<Rightarrow> change list \<Rightarrow> str res" where
  "render_text doc cs = bindR (mapR (edit_of doc) cs) (\<lambda>es.
     splice doc (int (length doc) + 1) (rev (sort es)))"

definition render_file_changes :: "bytes \<Rightarrow> change list \<Rightarrow> bytes res" where
  "render_file_changes content cs =
     (case cs of
        [] \<Rightarrow> Inl (AdapterError ''empty_change_set'')
      | c0 # _ \<Rightarrow>
          if \<exists>c\<in>set cs. ch_target c \<noteq> ch_target c0 \<or> \<not> file_write c
          then Inl (AdapterError ''unsupported_change'')
          else (case utf8_decode content of
                  Inl _ \<Rightarrow> Inl (AdapterError ''unsupported_encoding'')
                | Inr doc \<Rightarrow> bindR (render_text doc cs) utf8_encode))"

section \<open>The left-to-right reading\<close>

fun edit_ref :: "nat \<Rightarrow> str \<Rightarrow> edit list \<Rightarrow> str" where
  "edit_ref p rest [] = rest"
| "edit_ref p rest ((a, b, t) # es) =
     take (nat a - p) rest @ t @ edit_ref (nat b) (drop (nat b - p) rest) es"

definition apart :: "edit \<Rightarrow> edit \<Rightarrow> bool" where
  "apart x y \<longleftrightarrow> fst (snd x) \<le> fst y"

text \<open>Edits in ascending order that lie inside a text of length \<open>n\<close> and do not overlap.\<close>

definition well_spaced :: "nat \<Rightarrow> edit list \<Rightarrow> bool" where
  "well_spaced n es \<longleftrightarrow> (\<forall>(a, b, t)\<in>set es. 0 \<le> a \<and> a \<le> b \<and> b \<le> int n) \<and> sorted_wrt apart es"

lemma well_spaced_Nil [simp]: "well_spaced n []"
  by (simp add: well_spaced_def)

lemma well_spaced_snoc:
  "well_spaced n (es @ [(a, b, t)]) \<longleftrightarrow>
     well_spaced n es \<and> 0 \<le> a \<and> a \<le> b \<and> b \<le> int n \<and> (\<forall>e\<in>set es. fst (snd e) \<le> a)"
  by (auto simp: well_spaced_def sorted_wrt_append apart_def)

lemma edit_ref_snoc:
  assumes "well_spaced n (es @ [(a, b, t)])" and "\<forall>e\<in>set (es @ [(a, b, t)]). int p \<le> fst e"
    and "n = p + length rest"
  shows "edit_ref p rest (es @ [(a, b, t)]) =
    edit_ref p (take (nat a - p) rest @ t @ drop (nat b - p) rest) es"
  using assms
proof (induction es arbitrary: p rest)
  case Nil
  then show ?case by simp
next
  case (Cons e es)
  obtain a' b' t' where e: "e = (a', b', t')" by (cases e) auto
  from Cons.prems(1) e have o: "0 \<le> a'" "a' \<le> b'" "b' \<le> int n" "b' \<le> a" "0 \<le> a" "a \<le> b" "b \<le> int n"
    and ws: "well_spaced n (es @ [(a, b, t)])"
    and ge: "\<forall>x\<in>set (es @ [(a, b, t)]). b' \<le> fst x"
    by (auto simp: well_spaced_def apart_def)
  from Cons.prems(2) e have pa: "int p \<le> a'" by simp
  let ?r = "drop (nat b' - p) rest"
  have "edit_ref (nat b') ?r (es @ [(a, b, t)]) =
      edit_ref (nat b') (take (nat a - nat b') ?r @ t @ drop (nat b - nat b') ?r) es"
    by (rule Cons.IH [OF ws]) (use ge o pa Cons.prems(3) in auto)
  moreover have "drop (nat b' - p) (take (nat a - p) rest @ t @ drop (nat b - p) rest) =
      take (nat a - nat b') ?r @ t @ drop (nat b - nat b') ?r"
    using o pa Cons.prems(3) by (simp add: drop_take)
  moreover have "take (nat a' - p) (take (nat a - p) rest @ t @ drop (nat b - p) rest) = take (nat a' - p) rest"
  proof -
    have "nat a' \<le> nat a" "nat a - p \<le> length rest" using o pa Cons.prems(3) by linarith+
    then show ?thesis by (simp add: min_absorb1 diff_le_mono)
  qed
  ultimately show ?case by (simp add: e)
qed

text \<open>Cutting from the end is the same as reading from the start.\<close>

lemma splice_rev:
  assumes "well_spaced (length doc) es" and "\<forall>e\<in>set es. fst (snd e) \<le> prev"
  shows "splice doc prev (rev es) = Inr (edit_ref 0 doc es)"
  using assms
proof (induction es arbitrary: doc prev rule: rev_induct)
  case Nil
  then show ?case by simp
next
  case (snoc e es)
  obtain a b t where e: "e = (a, b, t)" by (cases e) auto
  let ?doc = "take (nat a) doc @ t @ drop (nat b) doc"
  from snoc.prems(1) e have o: "well_spaced (length doc) es" "0 \<le> a" "a \<le> b" "b \<le> int (length doc)"
      "\<forall>e\<in>set es. fst (snd e) \<le> a"
    by (simp_all add: well_spaced_snoc)
  have "well_spaced (length ?doc) es"
    using o by (fastforce simp: well_spaced_def)
  then have "splice ?doc a (rev es) = Inr (edit_ref 0 ?doc es)"
    using o(5) by (rule snoc.IH)
  moreover have "edit_ref 0 doc (es @ [(a, b, t)]) = edit_ref 0 ?doc es"
  proof -
    have "\<forall>x\<in>set (es @ [(a, b, t)]). int 0 \<le> fst x" using o(1,2) by (fastforce simp: well_spaced_def)
    from edit_ref_snoc [OF snoc.prems(1) [unfolded e] this] show ?thesis by simp
  qed
  ultimately show ?case using o snoc.prems(2) by (simp add: e)
qed

text \<open>Conversely, whatever the loop accepts is well spaced.\<close>

lemma splice_accepts:
  assumes "splice doc prev (rev es) = Inr r" and "\<forall>(a, b, t)\<in>set es. a \<le> b"
  shows "well_spaced (length doc) es \<and> (\<forall>e\<in>set es. fst (snd e) \<le> prev)"
  using assms
proof (induction es arbitrary: doc prev rule: rev_induct)
  case Nil
  then show ?case by simp
next
  case (snoc e es)
  obtain a b t where e: "e = (a, b, t)" by (cases e) auto
  from snoc.prems e have o: "0 \<le> a" "b \<le> int (length doc)" "b \<le> prev" "a \<le> b"
    and r: "splice (take (nat a) doc @ t @ drop (nat b) doc) a (rev es) = Inr r"
    by (auto split: if_splits)
  from snoc.IH [OF r] snoc.prems(2) have IH: "\<forall>e\<in>set es. fst (snd e) \<le> a"
      "well_spaced (length (take (nat a) doc @ t @ drop (nat b) doc)) es"
    by auto
  then have "well_spaced (length doc) es"
    using o by (fastforce simp: well_spaced_def)
  then show ?case using IH(1) o by (fastforce simp: e well_spaced_snoc)
qed

lemma splice_err: "splice doc prev es = Inl e \<Longrightarrow> e = AdapterError ''overlapping_changes''"
  by (induction doc prev es rule: splice.induct) (auto split: if_splits)

lemma render_text_cases:
  assumes es: "mapR (edit_of doc) cs = Inr es" and ordered: "\<forall>(a, b, t)\<in>set es. a \<le> b"
  shows "render_text doc cs = (if well_spaced (length doc) (sort es) then Inr (edit_ref 0 doc (sort es))
    else Inl (AdapterError ''overlapping_changes''))"
proof (cases "well_spaced (length doc) (sort es)")
  case True
  then have "\<forall>e\<in>set (sort es). fst (snd e) \<le> int (length doc) + 1"
    by (auto simp: well_spaced_def)
  from splice_rev [OF True this] es True show ?thesis by (simp add: render_text_def)
next
  case False
  have "\<forall>(a, b, t)\<in>set (sort es). a \<le> b" using ordered by simp
  then have "splice doc (int (length doc) + 1) (rev (sort es)) \<noteq> Inr r" for r
    using splice_accepts [of doc "int (length doc) + 1" "sort es" r] False by blast
  then obtain e where "splice doc (int (length doc) + 1) (rev (sort es)) = Inl e"
    by (cases "splice doc (int (length doc) + 1) (rev (sort es))") auto
  with splice_err [OF this] es False show ?thesis by (simp add: render_text_def)
qed

lemma checked_edits_ordered:
  assumes "mapR (edit_of doc) cs = Inr es" and "\<forall>c\<in>set cs. check_change c = Inr ()"
  shows "\<forall>(a, b, t)\<in>set es. a \<le> b"
proof -
  from mapR_Inr_list_all2 [OF assms(1)] have "list_all2 (\<lambda>c e. edit_of doc c = Inr e) cs es" .
  then show ?thesis using assms(2)
    by (fastforce simp: list_all2_conv_all_nth in_set_conv_nth edit_of_def check_change_Inr
        split: option.splits prod.splits)
qed

text \<open>
  Property C13. Rendering is exact: for changes that passed their constructor, \<open>render_text\<close> fails if
  some change has no replacement; otherwise it refuses edits that, in order, leave the text or overlap,
  and gives the left-to-right application of the edits in every other case.
\<close>

theorem render_text_exact:
  assumes "\<forall>c\<in>set cs. check_change c = Inr ()"
  shows "render_text doc cs = bindR (mapR (edit_of doc) cs) (\<lambda>es.
    if well_spaced (length doc) (sort es) then Inr (edit_ref 0 doc (sort es))
    else Inl (AdapterError ''overlapping_changes''))"
proof (cases "mapR (edit_of doc) cs")
  case (Inl e)
  then show ?thesis by (simp add: render_text_def)
next
  case (Inr es)
  from render_text_cases [OF this checked_edits_ordered [OF this assms]] Inr show ?thesis by simp
qed

definition sample_change :: "int \<Rightarrow> int \<Rightarrow> str \<Rightarrow> change" where
  "sample_change a b t = \<lparr>change_id = [99], ch_target = [47], operation = REPLACE_FILE, ch_before = JNull,
     ch_after = JNull, before_hash = None, diff = [], requires_root = False, requires_restart = False,
     rollback_operation = None, validation_checks = [], source_span = Some (a, b), replacement_text = Some t\<rparr>"

theorem render_text_exact_witness:
  "render_text [1, 2, 3, 4] [sample_change 3 4 [9], sample_change 0 2 [7, 7, 7]] = Inr [7, 7, 7, 3, 9]"
proof -
  have "\<forall>c\<in>set [sample_change 3 4 [9], sample_change 0 2 [7, 7, 7]]. check_change c = Inr ()"
    by (simp add: check_change_Inr sample_change_def blank_iff isspace_def)
  from render_text_exact [OF this, of "[1, 2, 3, 4]"] show ?thesis
    by (simp add: edit_of_def sample_change_def well_spaced_def apart_def)
qed

end
