(* ===== verification/OpenCodeEdit.thy ===== *)
theory OpenCodeEdit
  imports OpenCodePlan FileRender
begin

text \<open>
  From a recommendation to the edited file: what \<open>OpenCodeChangePlanner.plan\<close> plans and what
  \<open>render_file_changes\<close> makes of it.  The planner's spans come from the parser, so they delimit the
  scalars they name and do not overlap; its replacements denote the recommended values.
\<close>

section \<open>A replacement denotes the recommended value\<close>

text \<open>Every character of a Python string is a code point.\<close>

fun proper :: "json \<Rightarrow> bool" where
  "proper (JStr s) \<longleftrightarrow> (\<forall>c\<in>set s. 0 \<le> c)"
| "proper _ \<longleftrightarrow> True"

lemma validate_value_no_float: "validate_value path (JFloat t) \<noteq> Inr ()"
  by (simp add: validate_value_def check_if_def int_at_least_def)

lemma decode_encode_scalar:
  assumes "encode_scalar v = Inr t" and "proper v" and "\<And>x. v \<noteq> JFloat x"
  shows "decode_scalar t = Inr v"
proof (cases v)
  case (JInt i)
  then have l: "\<not> too_many_digits (dec_nat (nat \<bar>i\<bar>))" and t: "t = dec_int i"
    using assms(1) by (auto simp: encode_scalar_def split: if_splits)
  obtain d ds where "dec_int i = d # ds" "d = 45 \<or> isdigit d" by (rule dec_int_head)
  then have "\<not> startswith t [34]" using t by (auto simp: startswith_def isdigit_def)
  with loads_token_dec_int [OF l] JInt t show ?thesis by (simp add: decode_scalar_def)
next
  case (JStr s)
  with assms show ?thesis
    by (auto simp: encode_scalar_def decode_scalar_def json_string_def startswith_def json_unescape_escape butlast_append)
next
  case (JBool b)
  with assms show ?thesis
    by (cases b) (auto simp: encode_scalar_def decode_scalar_def loads_token_def startswith_def)
qed (use assms in \<open>auto simp: encode_scalar_def decode_scalar_def loads_token_def startswith_def\<close>)

section \<open>Inverting the planner\<close>

lemma plan_one_InrD:
  assumes "plan_one spans snap r = Inr c"
  obtains sp t where "allowed_path (setting_key r)" "spans (setting_key r) = Some sp"
    "same_scalar (span_value sp) (current_value r)"
    "validate_value (setting_key r) (recommended_value r) = Inr ()"
    "encode_scalar (recommended_value r) = Inr t"
    "change_id c = lit ''opencode:'' @ recommendation_id r" "ch_target c = snap_path snap"
    "operation c = REPLACE_FILE" "ch_before c = span_value sp" "ch_after c = recommended_value r"
    "before_hash c = Some (snap_sha256 snap)" "\<not> requires_root c" "\<not> requires_restart c"
    "rollback_operation c = Some REPLACE_FILE"
    "source_span c = Some (int (span_start sp), int (span_end sp))" "replacement_text c = Some t"
    "check_change c = Inr ()"
proof -
  note a = assms [unfolded plan_one_def Let_def]
  have p: "allowed_path (setting_key r)" using a by (auto split: if_splits)
  then obtain sp where sp: "spans (setting_key r) = Some sp" using a by (auto split: option.splits)
  have s: "same_scalar (span_value sp) (current_value r)" using a p sp by (auto split: if_splits)
  show ?thesis using a p sp s that by (fastforce simp: bindR_eq_Inr)
qed

lemma plan_opencode_InrD:
  assumes "plan_opencode rt supported report rs snap = Inr cset"
  obtains spans info where "opencode report = Some info" "oc_version info = Some supported"
    "active_config info = Some (snap_path snap)" "parse_warnings info = []"
    "locate_scalar_spans (snap_content snap) = Inr spans"
    "list_all2 (\<lambda>r c. plan_one spans snap r = Inr c) (selected_for snap rs) (changes cset)"
    "opencode_change_set_hash rt (cs_host_id cset) (changes cset) = Inr (content_hash cset)"
    "distinct (map change_id (changes cset))"
    "cs_host_id cset = hi_host_id (host report)" "cs_status cset = DRAFT"
proof -
  obtain info where i: "opencode report = Some info"
    using assms by (auto simp: plan_opencode_def split: option.splits)
  note a = assms [unfolded plan_opencode_def i option.case Let_def]
  have g: "oc_version info = Some supported" "active_config info = Some (snap_path snap)"
    "parse_warnings info = []" using a by (auto split: if_splits)
  from a g obtain spans cs where l: "locate_scalar_spans (snap_content snap) = Inr spans"
    and cs: "mapR (plan_one spans snap) (selected_for snap rs) = Inr cs"
    by (auto simp: bindR_eq_Inr)
  note m = mapR_Inr_list_all2 [OF cs]
  show ?thesis using a g l cs
    by (intro that [of info spans, OF i]) (auto simp: bindR_eq_Inr m)
qed

section \<open>The located spans\<close>

lemma located_span:
  assumes "locate_scalar_spans C = Inr spans" and "spans k = Some sp"
  shows "span_ok C sp"
proof -
  from assms(1) obtain m where m: "parse_log C = Inr m" "spans = dict_of m"
    by (auto simp: locate_scalar_spans_def bindR_eq_Inr)
  with assms(2) have "(k, sp) \<in> set m" by (auto dest: dict_of_SomeD)
  with parse_log_located [OF m(1)] show ?thesis by (force simp: located_def)
qed

lemma located_disjoint:
  assumes "locate_scalar_spans C = Inr spans" and "spans k = Some sp" and "spans k' = Some sp'" and "k \<noteq> k'"
  shows "span_end sp \<le> span_start sp' \<or> span_end sp' \<le> span_start sp"
proof -
  from assms(1) obtain m where m: "parse_log C = Inr m" "spans = dict_of m"
    by (auto simp: locate_scalar_spans_def bindR_eq_Inr)
  with assms have "(k, sp) \<in> set m" "(k', sp') \<in> set m" by (auto dest: dict_of_SomeD)
  moreover have "sorted_wrt before m" using parse_log_located [OF m(1)] by (simp add: located_def)
  moreover have "p \<in> set xs \<Longrightarrow> q \<in> set xs \<Longrightarrow> sorted_wrt before xs \<Longrightarrow> p = q \<or> before p q \<or> before q p"
    for p q :: "str \<times> scalar_span" and xs by (induction xs) auto
  ultimately show ?thesis using assms(4) by (fastforce simp: before_def)
qed

section \<open>Planned changes\<close>

lemma planned_change:
  assumes "plan_opencode rt supported report rs snap = Inr cset" and "c \<in> set (changes cset)"
  obtains r spans sp where "r \<in> set (selected_for snap rs)" "locate_scalar_spans (snap_content snap) = Inr spans"
    "plan_one spans snap r = Inr c"
proof -
  from assms(1) obtain spans where l: "locate_scalar_spans (snap_content snap) = Inr spans"
    and "list_all2 (\<lambda>r c. plan_one spans snap r = Inr c) (selected_for snap rs) (changes cset)"
    by (rule plan_opencode_InrD)
  with assms(2) show ?thesis using that by (fastforce simp: list_all2_conv_all_nth in_set_conv_nth)
qed


section \<open>Rendering a plan\<close>

lemma sort_well_spaced:
  assumes "distinct es" and "\<forall>(a, b, t)\<in>set es. 0 \<le> a \<and> a < b \<and> b \<le> int n"
    and "\<forall>x\<in>set es. \<forall>y\<in>set es. x = y \<or> apart x y \<or> apart y x"
  shows "well_spaced n (sort es)"
proof -
  have ap: "apart x y" if "x \<in> set es" "y \<in> set es" "x < y" for x y
  proof -
    obtain a b t a' b' t' where xy: "x = (a, b, t)" "y = (a', b', t')" by (metis prod_cases3)
    have "a' < b'" "a \<le> a'" using assms(2) that xy by (auto simp: less_prod_def)
    moreover have "apart x y \<or> apart y x" using assms(3) that by auto
    ultimately show ?thesis using xy by (auto simp: apart_def)
  qed
  have "sorted_wrt (<) (sort es)"
    using assms(1) by (simp add: strict_sorted_iff)
  then have "sorted_wrt apart (sort es)"
    by (rule sorted_wrt_mono_rel [rotated]) (simp add: ap)
  moreover have "\<forall>(a, b, t)\<in>set (sort es). 0 \<le> a \<and> a \<le> b \<and> b \<le> int n"
    using assms(2) by fastforce
  ultimately show ?thesis by (simp add: well_spaced_def)
qed

lemma overlap_rejected:
  assumes "well_spaced n (sort es)" and "\<forall>e\<in>set es. fst e < fst (snd e)" and "i < length es" and "j < length es"
    and "i \<noteq> j"
  shows "fst (es ! i) \<noteq> fst (es ! j)"
proof -
  have "sorted_wrt apart (sort es)" using assms(1) by (simp add: well_spaced_def)
  then have "sorted_wrt (\<lambda>x y. fst x < fst y) (sort es)"
    by (rule sorted_wrt_mono_rel [rotated]) (use assms(2) in \<open>force simp: apart_def\<close>)
  then have "distinct (map fst (sort es))" by (rule sorted_wrt_distinct_map)
  then have "distinct (map fst es)"
    by (metis distinct_map set_sort distinct_sort)
  with assms(3-5) show ?thesis by (simp add: distinct_conv_nth)
qed

text \<open>The edits of a plan, one per selected recommendation.\<close>

lemma planned_edits:
  assumes "plan_opencode rt supported report rs snap = Inr cset"
  obtains spans es where "locate_scalar_spans (snap_content snap) = Inr spans"
    "mapR (edit_of (snap_content snap)) (changes cset) = Inr es"
    "list_all2 (\<lambda>r e. \<exists>sp t. spans (setting_key r) = Some sp \<and> e = (int (span_start sp), int (span_end sp), t))
      (selected_for snap rs) es"
    "\<forall>c\<in>set (changes cset). check_change c = Inr () \<and> ch_target c = snap_path snap \<and> file_write c"
proof -
  from assms obtain spans where l: "locate_scalar_spans (snap_content snap) = Inr spans"
    and cs: "list_all2 (\<lambda>r c. plan_one spans snap r = Inr c) (selected_for snap rs) (changes cset)"
    by (rule plan_opencode_InrD)
  let ?e = "\<lambda>c. case (source_span c, replacement_text c) of (Some (a, b), Some t) \<Rightarrow> (a, b, t) | _ \<Rightarrow> (0, 0, [])"
  have one: "edit_of (snap_content snap) c = Inr (?e c) \<and>
      (\<exists>sp t. spans (setting_key r) = Some sp \<and> ?e c = (int (span_start sp), int (span_end sp), t)) \<and>
      check_change c = Inr () \<and> ch_target c = snap_path snap \<and> file_write c"
    if "plan_one spans snap r = Inr c" for r c
    using that by (rule plan_one_InrD) (auto simp: edit_of_def file_write_def)
  have m: "mapR (edit_of (snap_content snap)) (changes cset) = Inr (map ?e (changes cset))"
    using cs one by (intro mapR_total) (fastforce simp: list_all2_conv_all_nth in_set_conv_nth)
  show ?thesis
  proof (rule that [OF l m])
    show "list_all2 (\<lambda>r e. \<exists>sp t. spans (setting_key r) = Some sp \<and> e = (int (span_start sp), int (span_end sp), t))
      (selected_for snap rs) (map ?e (changes cset))"
      using cs unfolding list_all2_map2 by (rule list_all2_mono) (use one in blast)
    show "\<forall>c\<in>set (changes cset). check_change c = Inr () \<and> ch_target c = snap_path snap \<and> file_write c"
      using cs one by (fastforce simp: list_all2_conv_all_nth in_set_conv_nth)
  qed
qed


lemma edits_disjoint:
  assumes l: "locate_scalar_spans C = Inr spans"
    and e: "list_all2 (\<lambda>r e. \<exists>sp t. spans (setting_key r) = Some sp \<and> e = (int (span_start sp), int (span_end sp), t)) rs es"
  shows "\<forall>(a, b, t)\<in>set es. 0 \<le> a \<and> a < b \<and> b \<le> int (length C)"
    and "distinct (map setting_key rs) \<Longrightarrow> distinct es"
    and "distinct (map setting_key rs) \<Longrightarrow> \<forall>x\<in>set es. \<forall>y\<in>set es. x = y \<or> apart x y \<or> apart y x"
    and "\<not> distinct (map setting_key rs) \<Longrightarrow> \<exists>i j. i < length es \<and> j < length es \<and> i \<noteq> j \<and> fst (es ! i) = fst (es ! j)"
proof -
  have len: "length rs = length es" using e by (rule list_all2_lengthD)
  have nth: "\<exists>sp t. spans (setting_key (rs ! i)) = Some sp \<and> es ! i = (int (span_start sp), int (span_end sp), t)
      \<and> span_ok C sp" if "i < length es" for i
    using list_all2_nthD2 [OF e that] located_span [OF l] by blast
  then show box: "\<forall>(a, b, t)\<in>set es. 0 \<le> a \<and> a < b \<and> b \<le> int (length C)"
    by (fastforce simp: in_set_conv_nth span_ok_def)
  have ap: "apart (es ! i) (es ! j) \<or> apart (es ! j) (es ! i)"
    if d: "distinct (map setting_key rs)" and ij: "i < length es" "j < length es" "i \<noteq> j" for i j
  proof -
    have "setting_key (rs ! i) \<noteq> setting_key (rs ! j)"
      using d ij len by (simp add: distinct_conv_nth)
    then show ?thesis using nth [OF ij(1)] nth [OF ij(2)] located_disjoint [OF l]
      by (fastforce simp: apart_def)
  qed
  have irrefl: "\<not> apart (es ! i) (es ! i)" if "i < length es" for i
    using nth [OF that] by (auto simp: apart_def span_ok_def)
  show "distinct es" if "distinct (map setting_key rs)"
    unfolding distinct_conv_nth using ap [OF that] irrefl by metis
  show "\<forall>x\<in>set es. \<forall>y\<in>set es. x = y \<or> apart x y \<or> apart y x" if "distinct (map setting_key rs)"
    using ap [OF that] by (metis in_set_conv_nth)
  show "\<exists>i j. i < length es \<and> j < length es \<and> i \<noteq> j \<and> fst (es ! i) = fst (es ! j)"
    if "\<not> distinct (map setting_key rs)"
  proof -
    from that len obtain i j where ij: "i < length es" "j < length es" "i \<noteq> j"
      "setting_key (rs ! i) = setting_key (rs ! j)" by (auto simp: distinct_conv_nth)
    then show ?thesis using nth [OF ij(1)] nth [OF ij(2)] by fastforce
  qed
qed

lemma plan_rendering:
  assumes "plan_opencode rt supported report rs snap = Inr cset"
    and "utf8_encode (snap_content snap) = Inr content" and "changes cset \<noteq> []"
  shows "\<exists>es. mapR (edit_of (snap_content snap)) (changes cset) = Inr es \<and>
    render_file_changes content (changes cset) =
      (if distinct (map setting_key (selected_for snap rs))
       then utf8_encode (edit_ref 0 (snap_content snap) (sort es))
       else Inl (AdapterError ''overlapping_changes''))"
proof -
  let ?C = "snap_content snap"
  from assms(1) obtain spans es where l: "locate_scalar_spans ?C = Inr spans"
    and es: "mapR (edit_of ?C) (changes cset) = Inr es"
    and e: "list_all2 (\<lambda>r e. \<exists>sp t. spans (setting_key r) = Some sp \<and> e = (int (span_start sp), int (span_end sp), t))
      (selected_for snap rs) es"
    and c: "\<forall>c\<in>set (changes cset). check_change c = Inr () \<and> ch_target c = snap_path snap \<and> file_write c"
    by (rule planned_edits)
  note d = edits_disjoint [OF l e]
  have "render_file_changes content (changes cset) = bindR (render_text ?C (changes cset)) utf8_encode"
    using c assms(3) utf8_decode_encode [OF assms(2)]
    by (cases "changes cset") (auto simp: render_file_changes_def)
  moreover have "render_text ?C (changes cset) =
      (if distinct (map setting_key (selected_for snap rs)) then Inr (edit_ref 0 ?C (sort es))
       else Inl (AdapterError ''overlapping_changes''))"
  proof -
    have "\<forall>(a, b, t)\<in>set es. a \<le> b" using d(1) by fastforce
    moreover have "well_spaced (length ?C) (sort es) \<longleftrightarrow> distinct (map setting_key (selected_for snap rs))"
      using d sort_well_spaced [of es "length ?C"] overlap_rejected [of "length ?C" es] by fastforce
    ultimately show ?thesis using render_text_cases [OF es] by simp
  qed
  ultimately show ?thesis using es by auto
qed

text \<open>
  Property C9. Applying a planned change set: \<open>render_file_changes\<close> on the captured bytes rewrites the
  file exactly when no two selected recommendations share a setting, and then the new text is the old one
  with every planned span replaced, read from left to right; if two share a setting, the overlapping
  edits are refused.
\<close>

theorem plan_renders:
  assumes "plan_opencode rt supported report rs snap = Inr cset"
    and "utf8_encode (snap_content snap) = Inr content" and "changes cset \<noteq> []"
  shows "\<exists>es. mapR (edit_of (snap_content snap)) (changes cset) = Inr es \<and>
    render_file_changes content (changes cset) =
      (if distinct (map setting_key (selected_for snap rs))
       then utf8_encode (edit_ref 0 (snap_content snap) (sort es))
       else Inl (AdapterError ''overlapping_changes''))"
  using assms by (rule plan_rendering)

section \<open>A configuration, planned and rendered\<close>

definition sample_message :: localized_message where
  "sample_message = \<lparr>message_key = lit ''k'', arguments = [], fallback_text = []\<rparr>"

definition sample_host :: host_info where
  "sample_host = \<lparr>hi_host_id = lit ''local'', hi_kind = HK_LOCAL, hi_display_name = lit ''Local'',
     hi_capabilities = \<lparr>can_execute = True, can_read_files = True, can_stage_files = True, can_elevate = False,
       service_manager = None, gpu_tools = [], limitations = []\<rparr>,
     hi_hostname = None, hi_user = None, hi_ssh_alias = None, hi_fingerprint = None, hi_observed_at = 0\<rparr>"

definition sample_opencode :: opencode_info where
  "sample_opencode = \<lparr>oc_installed = True, oc_version = Some supported_opencode, oc_binary_path = None,
     config_locations = [], active_config = Some (lit ''/c''), provider = None, model = None, base_url = None,
     available_providers = [], available_models = [], base_urls = [], context_settings = [],
     timeout_settings = [], ollama_compatible = None, parse_warnings = []\<rparr>"

definition sample_report :: diagnostic_report where
  "sample_report = \<lparr>report_id = lit ''r'', dr_schema_version = lit ''1.0'', host = sample_host,
     dr_status = RS_COMPLETE, dr_system = None, dr_hardware = None, ollama = None,
     opencode = Some sample_opencode, probe_results = [], findings = [], started_at = 0, completed_at = None\<rparr>"

definition sample_recommendation :: "str \<Rightarrow> str \<Rightarrow> json \<Rightarrow> json \<Rightarrow> recommendation" where
  "sample_recommendation i key old new = \<lparr>recommendation_id = i, rule_id = lit ''rule'', rule_version = 1,
     rc_target = lit ''/c'', setting_key = key, current_value = old, recommended_value = new,
     reason = sample_message, rc_severity = SV_LOW, rc_confidence = CF_HIGH, impact = sample_message,
     rc_risk = \<lparr>risk_severity = SV_LOW, risk_message = sample_message, mitigations = []\<rparr>,
     rc_requires_restart = False, rc_requires_root = False, evidence = [], actionable = True,
     conflicts_with = []\<rparr>"

definition sample_runtime :: runtime where
  "sample_runtime = \<lparr>sha256 = (\<lambda>b. dec_nat (length b)), isoformat = dec_int, fromisoformat = (\<lambda>s. None),
     unicode_digit = (\<lambda>c. NoDigit)\<rparr>"

definition sample_content :: str where
  "sample_content = lit ''{ // c'' @ [10, 34] @ lit ''model'' @ [34, 58, 34] @ lit ''a/b'' @ [34, 44, 34] @ lit ''compaction''
     @ [34, 58, 123, 34] @ lit ''auto'' @ [34] @ lit '':true}}''"

definition sample_snapshot :: config_snapshot where
  "sample_snapshot = \<lparr>snap_path = lit ''/c'', snap_content = sample_content, snap_sha256 = lit ''0''\<rparr>"

definition sample_recommendations :: "recommendation list" where
  "sample_recommendations =
     [sample_recommendation (lit ''r1'') (lit ''model'') (JStr (lit ''a/b'')) (JStr (lit ''a/long'')),
      sample_recommendation (lit ''r0'') (lit ''compaction.auto'') (JBool True) (JBool False)]"

definition sample_plan :: "change_set res" where
  "sample_plan = plan_opencode sample_runtime supported_opencode sample_report sample_recommendations sample_snapshot"

lemma sample_plan_ok:
  "case sample_plan of Inl _ \<Rightarrow> False | Inr cs \<Rightarrow> length (changes cs) = 2 \<and>
     (case utf8_encode sample_content of Inl _ \<Rightarrow> False | Inr b \<Rightarrow>
       render_file_changes b (changes cs) = utf8_encode (lit ''{ // c'' @ [10, 34] @ lit ''model'' @ [34, 58, 34] @ lit ''a/long''
        @ [34, 44, 34] @ lit ''compaction'' @ [34, 58, 123, 34] @ lit ''auto'' @ [34] @ lit '':false}}''))"
  by code_simp

lemma sample_plan_Inr: "\<exists>cs. sample_plan = Inr cs \<and> length (changes cs) = 2"
  using sample_plan_ok by (auto split: sum.splits)

lemma sample_proper: "\<forall>r\<in>set sample_recommendations. proper (recommended_value r)"
  by (simp add: sample_recommendations_def sample_recommendation_def)


theorem plan_renders_witness:
  "\<exists>cs b es. sample_plan = Inr cs \<and> utf8_encode sample_content = Inr b \<and> length (changes cs) = 2 \<and>
    render_file_changes b (changes cs) = utf8_encode (edit_ref 0 sample_content (sort es))"
proof -
  obtain cs where cs: "sample_plan = Inr cs" "length (changes cs) = 2" using sample_plan_Inr by blast
  then have ne: "changes cs \<noteq> []" by auto
  obtain b where b: "utf8_encode sample_content = Inr b"
    using sample_plan_ok by (auto split: sum.splits)
  have d: "distinct (map setting_key (selected_for sample_snapshot sample_recommendations))" by code_simp
  have s: "snap_content sample_snapshot = sample_content" by (simp add: sample_snapshot_def)
  from plan_renders [OF cs(1) [unfolded sample_plan_def] b [folded s] ne] d cs b
  show ?thesis by (auto simp: s)
qed

section \<open>Aliased paths\<close>

text \<open>A configuration whose one key contains a dot; no nested object is there.\<close>

definition aliased_content :: str where
  "aliased_content = [123, 34] @ lit ''compaction.auto'' @ [34, 58] @ lit ''true'' @ [125]"

text \<open>
  \<open>_path\<close> is not injective: in a configuration whose only key is the text
  \<open>compaction.auto\<close>, the parser finds a scalar under the allowlisted path of the setting \<open>auto\<close> of an
  object \<open>compaction\<close> that does not exist.
\<close>

lemma path_alias:
  "map_option span_value (case locate_scalar_spans aliased_content of Inl _ \<Rightarrow> None
     | Inr spans \<Rightarrow> spans (dotted [lit ''compaction'', lit ''auto''])) = Some (JBool True)
   \<and> allowed_path (dotted [lit ''compaction'', lit ''auto''])"
  by code_simp

end
