(* ===== verification/Advice.thy ===== *)
theory Advice
  imports Rules OpenCodeEdit
begin

text \<open>
  What the rule engine promises: one answer per setting, no failure with the default catalog, and
  recommendations that the planner accepts and the executor can render.
\<close>

section \<open>What the engine does\<close>

lemma max_by_in: "max_by f x xs \<in> set (x # xs)"
  by (induction xs arbitrary: x) (auto split: if_splits)

lemma max_by_greatest: "y \<in> set (x # xs) \<Longrightarrow> f y \<le> f (max_by f x xs)"
proof (induction xs arbitrary: x y)
  case (Cons z xs)
  have "f (if f x < f z then z else x) \<le> f (max_by f (if f x < f z then z else x) xs)"
    by (rule Cons.IH) simp
  moreover have "f x \<le> f (if f x < f z then z else x)" "f z \<le> f (if f x < f z then z else x)" by auto
  ultimately show ?case using Cons by (auto intro: order_trans)
qed simp

lemma mapR_Inr_set: "mapR f xs = Inr ys \<Longrightarrow> y \<in> set ys \<Longrightarrow> \<exists>x\<in>set xs. f x = Inr y"
  by (induction xs arbitrary: ys) (auto simp: bindR_eq_Inr)

lemma mapR_Inr_set2: "mapR f xs = Inr ys \<Longrightarrow> x \<in> set xs \<Longrightarrow> \<exists>y\<in>set ys. f x = Inr y"
  by (induction xs arbitrary: ys) (auto simp: bindR_eq_Inr)

definition agree :: "recommendation list \<Rightarrow> bool" where
  "agree grp \<longleftrightarrow> (\<forall>a\<in>set grp. \<forall>b\<in>set grp. recommended_value a = recommended_value b)"

lemma one_value: "grp \<noteq> [] \<Longrightarrow> length (remdups (map recommended_value grp)) = 1 \<longleftrightarrow> agree grp"
proof -
  assume ne: "grp \<noteq> []"
  have "length (remdups (map recommended_value grp)) = card (recommended_value ` set grp)"
    by (simp add: length_remdups_card_conv)
  moreover have "card (recommended_value ` set grp) = 1 \<longleftrightarrow> agree grp"
  proof
    assume "card (recommended_value ` set grp) = 1"
    then obtain v where v: "recommended_value ` set grp = {v}" using card_1_singletonE by metis
    then have "recommended_value a = v" if "a \<in> set grp" for a using that by blast
    then show "agree grp" unfolding agree_def by metis
  next
    assume a: "agree grp"
    obtain x where x: "x \<in> set grp" using ne by (cases grp) auto
    then have "recommended_value ` set grp = {recommended_value x}" using a unfolding agree_def by blast
    then show "card (recommended_value ` set grp) = 1" by simp
  qed
  ultimately show ?thesis by simp
qed

text \<open>The answer for one group: one of its members if they agree, otherwise all of them, disarmed.\<close>

lemma resolve_group_Inr:
  assumes "resolve_group rules grp = Inr rs" and "grp \<noteq> []"
  shows "if agree grp then \<exists>r\<in>set grp. rs = [r]
    else rs = map (mark_conflict (sort (map recommendation_id grp))) (sort_key recommendation_id grp)"
proof (cases "agree grp")
  case True
  then obtain ranked where m: "mapR (\<lambda>r. bindR (rule_priority rules r) (\<lambda>n. Inr ((n, rule_id r), r))) grp = Inr ranked"
    and k: "(case ranked of [] \<Rightarrow> Inl ValueError | x # xs \<Rightarrow> Inr [snd (max_by fst x xs)]) = Inr rs"
    using assms one_value [OF assms(2)] unfolding resolve_group_def by (auto simp: bindR_eq_Inr)
  then obtain x xs where r: "ranked = x # xs" "rs = [snd (max_by fst x xs)]" by (cases ranked) auto
  have "max_by fst x xs \<in> set ranked" using max_by_in r(1) by metis
  then obtain g where "g \<in> set grp" "bindR (rule_priority rules g) (\<lambda>n. Inr ((n, rule_id g), g)) = Inr (max_by fst x xs)"
    using mapR_Inr_set [OF m] by blast
  then have "snd (max_by fst x xs) \<in> set grp" by (auto simp: bindR_eq_Inr) (metis snd_conv)
  then show ?thesis using True r by simp
next
  case False
  then show ?thesis using assms one_value by (auto simp: resolve_group_def)
qed

lemma setting_of_mark [simp]: "setting_of (mark_conflict ids r) = setting_of r"
  by (simp add: setting_of_def mark_conflict_def)

lemma not_actionable_mark [simp]: "\<not> actionable (mark_conflict ids r)"
  by (simp add: mark_conflict_def)

lemma resolve_group_settings:
  assumes "resolve_group rules grp = Inr rs" and "grp \<noteq> []" and "\<forall>r\<in>set grp. setting_of r = k"
  shows "setting_of ` set rs = {k}" and "length (filter actionable rs) \<le> 1"
proof -
  note g = resolve_group_Inr [OF assms(1,2)]
  show "setting_of ` set rs = {k}"
  proof (cases "agree grp")
    case True
    then show ?thesis using g assms(3) by auto
  next
    case False
    then have "setting_of ` set rs = setting_of ` set grp" using g by (simp add: image_image)
    also have "\<dots> = {k}" using assms(2,3) by (cases grp) auto
    finally show ?thesis .
  qed
  show "length (filter actionable rs) \<le> 1"
    using g by (auto split: if_splits simp: filter_empty_conv)
qed

lemma distinct_concat_keys:
  assumes "list_all2 (\<lambda>k rs. (\<forall>r\<in>set rs. f r = k) \<and> length (filter P rs) \<le> 1) ks rss" and "distinct ks"
  shows "distinct (map f (filter P (concat rss)))"
  using assms
proof (induction rule: list_all2_induct)
  case (Cons k ks rs rss)
  have one: "distinct (map f (filter P rs))" using Cons.hyps(1) by (cases "filter P rs") auto
  have "\<forall>r\<in>set (concat rss). f r \<in> set ks"
    using Cons.hyps(2) by (induction rule: list_all2_induct) auto
  then have "f ` set (filter P rs) \<inter> f ` set (filter P (concat rss)) = {}"
    using Cons.prems Cons.hyps(1) by auto
  then show ?case using one Cons by simp
qed simp

lemma resolve_conflicts_groups:
  assumes "resolve_conflicts rules cs = Inr rs"
  obtains groups where
    "list_all2 (\<lambda>k g. resolve_group rules (filter (\<lambda>r. setting_of r = k) cs) = Inr g) (sort (remdups (map setting_of cs))) groups"
    "rs = sort_key recommendation_id (concat groups)"
  using assms by (auto simp: resolve_conflicts_def bindR_eq_Inr dest!: mapR_Inr_list_all2)

lemma group_nonempty: "k \<in> set (sort (remdups (map setting_of cs))) \<Longrightarrow> filter (\<lambda>r. setting_of r = k) cs \<noteq> []"
  by (auto simp: filter_empty_conv)

lemma resolve_conflicts_distinct:
  assumes "resolve_conflicts rules cs = Inr rs"
  shows "distinct (map setting_of (filter actionable rs))" and "setting_of ` set rs = setting_of ` set cs"
proof -
  let ?ks = "sort (remdups (map setting_of cs))"
  obtain groups where g: "list_all2 (\<lambda>k g. resolve_group rules (filter (\<lambda>r. setting_of r = k) cs) = Inr g) ?ks groups"
    and rs: "rs = sort_key recommendation_id (concat groups)"
    by (rule resolve_conflicts_groups [OF assms])
  have g': "list_all2 (\<lambda>k g. setting_of ` set g = {k} \<and> length (filter actionable g) \<le> 1) ?ks groups"
  proof (rule list_all2_all_nthI)
    show "length ?ks = length groups" by (rule list_all2_lengthD [OF g])
    fix n assume n: "n < length ?ks"
    have ne: "filter (\<lambda>r. setting_of r = ?ks ! n) cs \<noteq> []" by (rule group_nonempty) (rule nth_mem [OF n])
    have "\<forall>r\<in>set (filter (\<lambda>r. setting_of r = ?ks ! n) cs). setting_of r = ?ks ! n" by simp
    from resolve_group_settings [OF list_all2_nthD [OF g n] ne this]
    show "setting_of ` set (groups ! n) = {?ks ! n} \<and> length (filter actionable (groups ! n)) \<le> 1" by (rule conjI)
  qed
  have "list_all2 (\<lambda>k g. (\<forall>r\<in>set g. setting_of r = k) \<and> length (filter actionable g) \<le> 1) ?ks groups"
    by (rule list_all2_mono [OF g']) blast
  from distinct_concat_keys [OF this] have d: "distinct (map setting_of (filter actionable (concat groups)))" by simp
  show "distinct (map setting_of (filter actionable rs))"
    using d unfolding rs by (simp add: filter_sort distinct_map)
  have "setting_of ` set (concat groups) = set ?ks"
    using g' by (induction rule: list_all2_induct) (auto simp: image_Un)
  then show "setting_of ` set rs = setting_of ` set cs" unfolding rs by simp
qed

lemma resolve_conflicts_member:
  assumes "resolve_conflicts rules cs = Inr rs" and "r \<in> set rs"
  shows "(r \<in> set cs \<and> (\<forall>c\<in>set cs. setting_of c = setting_of r \<longrightarrow> recommended_value c = recommended_value r))
    \<or> (\<exists>c\<in>set cs. \<exists>d\<in>set cs. \<exists>ids. r = mark_conflict ids c \<and> setting_of d = setting_of c \<and> recommended_value d \<noteq> recommended_value c)"
proof -
  obtain groups where g: "list_all2 (\<lambda>k g. resolve_group rules (filter (\<lambda>r. setting_of r = k) cs) = Inr g)
      (sort (remdups (map setting_of cs))) groups" and rs: "rs = sort_key recommendation_id (concat groups)"
    by (rule resolve_conflicts_groups [OF assms(1)])
  obtain G where G: "G \<in> set groups" "r \<in> set G" using assms(2) rs by auto
  then obtain n where n: "n < length groups" "groups ! n = G" by (auto simp: in_set_conv_nth)
  define k where "k = sort (remdups (map setting_of cs)) ! n"
  have len: "length (sort (remdups (map setting_of cs))) = length groups" by (rule list_all2_lengthD [OF g])
  have k: "k \<in> set (sort (remdups (map setting_of cs)))" unfolding k_def using n(1) len by (metis nth_mem)
  have "resolve_group rules (filter (\<lambda>r. setting_of r = k) cs) = Inr G"
    using list_all2_nthD2 [OF g n(1)] n(2) k_def by simp
  note R = resolve_group_Inr [OF this group_nonempty [OF k]]
  show ?thesis
  proof (cases "agree (filter (\<lambda>r. setting_of r = k) cs)")
    case True
    then obtain r0 where "r0 \<in> set (filter (\<lambda>r. setting_of r = k) cs)" "G = [r0]" using R by auto
    then have r: "r \<in> set cs" "setting_of r = k" using G(2) by simp_all
    have "\<forall>c\<in>set cs. setting_of c = k \<longrightarrow> recommended_value c = recommended_value r"
    proof (intro ballI impI)
      fix c assume "c \<in> set cs" "setting_of c = k"
      then have "c \<in> set (filter (\<lambda>r. setting_of r = k) cs)" by simp
      moreover have "r \<in> set (filter (\<lambda>r. setting_of r = k) cs)" using r by simp
      ultimately show "recommended_value c = recommended_value r" using True unfolding agree_def by blast
    qed
    then show ?thesis using r(1) unfolding r(2) by blast
  next
    case False
    then obtain c where c: "c \<in> set cs" "setting_of c = k" "r = mark_conflict (sort (map recommendation_id (filter (\<lambda>r. setting_of r = k) cs))) c"
      using R G(2) by auto
    obtain a b where "a \<in> set cs" "b \<in> set cs" "setting_of a = k" "setting_of b = k" "recommended_value a \<noteq> recommended_value b"
      using False by (auto simp: agree_def)
    then obtain d where "d \<in> set cs" "setting_of d = k" "recommended_value d \<noteq> recommended_value c"
      by (cases "recommended_value a = recommended_value c") auto
    then have "setting_of d = setting_of c" using c(2) by simp
    then show ?thesis using c(1,3) \<open>d \<in> set cs\<close> \<open>recommended_value d \<noteq> recommended_value c\<close> by (intro disjI2) blast
  qed
qed

lemma resolve_conflicts_sorted: "resolve_conflicts rules cs = Inr rs \<Longrightarrow> sorted (map recommendation_id rs)"
  by (auto simp: resolve_conflicts_def bindR_eq_Inr)

text \<open>
  Property C18. Whatever the rules recommend, the engine answers every setting that was recommended, keeps
  at most one actionable recommendation for a setting, and each of its answers either is a candidate that
  every other candidate for the setting agrees with, or is a candidate that another one contradicts and is
  then not actionable.  The answers are ordered by their ids.
\<close>

theorem engine_settles:
  assumes "engine_evaluate rules report p = Inr rs"
  shows "distinct (map setting_of (filter actionable rs))
    \<and> setting_of ` set rs = setting_of ` set (candidates rules report p)
    \<and> sorted (map recommendation_id rs)
    \<and> (\<forall>r\<in>set rs.
        (r \<in> set (candidates rules report p) \<and>
          (\<forall>c\<in>set (candidates rules report p). setting_of c = setting_of r \<longrightarrow> recommended_value c = recommended_value r))
      \<or> (\<exists>c\<in>set (candidates rules report p). \<exists>d\<in>set (candidates rules report p). \<exists>ids. r = mark_conflict ids c
          \<and> setting_of d = setting_of c \<and> recommended_value d \<noteq> recommended_value c))"
  using assms resolve_conflicts_distinct resolve_conflicts_sorted resolve_conflicts_member
  unfolding engine_evaluate_def by blast

section \<open>The default catalog\<close>

lemma candidatesD: "r \<in> set (candidates rules report p) \<Longrightarrow> \<exists>u\<in>set rules. ru_evaluate u report p = Some r"
  by (induction rules) (auto simp: candidates_def map_filter_simps split: option.splits)

lemma ollama_unavailable_rule_id: "ollama_unavailable rid v ps report p = Some r \<Longrightarrow> rule_id r = rid \<and> \<not> actionable r"
  by (auto simp: ollama_unavailable_def split: option.splits if_splits)

lemma unsupported_version_rule_id:
  "unsupported_opencode_version s rid v ps report p = Some r \<Longrightarrow> rule_id r = rid \<and> \<not> actionable r"
  by (auto simp: unsupported_opencode_version_def split: option.splits if_splits)

lemma agent_compaction_SomeD:
  assumes "agent_compaction key desired rid v ps report p = Some r"
  obtains info cur where "opencode report = Some info" "dict_of (context_settings info) key = Some cur" "cur \<noteq> JBool desired"
    "rule_id r = rid" "rc_target r = config_target info" "setting_key r = key" "current_value r = cur"
    "recommended_value r = JBool desired"
    "actionable r \<longleftrightarrow> oc_version info = Some (lit ''1.18.25'') \<and> active_config info \<noteq> None \<and> parse_warnings info = [] \<and> is_jbool cur"
  using assms unfolding agent_compaction_def by (auto simp: Let_def split: option.splits if_splits)

lemmas catalog_rules = unsupported_version_rule_def ollama_unavailable_rule_def agent_compaction_rule_def Let_def

lemma rule_ids:
  assumes "r \<in> set (candidates default_catalog report p)"
  shows "rule_id r \<in> ru_id ` set default_catalog"
proof -
  obtain u where u: "u \<in> set default_catalog" "ru_evaluate u report p = Some r" using candidatesD [OF assms] by blast
  then consider "u = unsupported_version_rule" | "u = ollama_unavailable_rule"
    | key d i n where "u = agent_compaction_rule key d i n" unfolding default_catalog_def by auto
  then have "rule_id r = ru_id u"
    by cases (use u(2) in \<open>auto simp: catalog_rules dest: ollama_unavailable_rule_id unsupported_version_rule_id
      elim!: agent_compaction_SomeD\<close>)
  then show ?thesis using u(1) by blast
qed

lemma resolve_group_total:
  assumes "\<forall>r\<in>set grp. rule_id r \<in> ru_id ` set rules" and "grp \<noteq> []"
  shows "\<exists>rs. resolve_group rules grp = Inr rs"
proof -
  have "\<exists>n. rule_priority rules r = Inr n" if "r \<in> set grp" for r
  proof -
    have "rule_id r \<in> dom (dict_of (map (\<lambda>u. (ru_id u, ru_priority u)) rules))"
      unfolding dom_dict_of using assms(1) that by (simp add: image_image)
    then show ?thesis by (auto simp: rule_priority_def)
  qed
  then obtain n where "\<And>r. r \<in> set grp \<Longrightarrow> rule_priority rules r = Inr (n r)" by metis
  then have "bindR (rule_priority rules r) (\<lambda>n. Inr ((n, rule_id r), r)) = Inr ((n r, rule_id r), r)" if "r \<in> set grp" for r
    using that by simp
  then have m: "mapR (\<lambda>r. bindR (rule_priority rules r) (\<lambda>n. Inr ((n, rule_id r), r))) grp = Inr (map (\<lambda>r. ((n r, rule_id r), r)) grp)"
    by (rule mapR_total)
  show ?thesis using assms(2) unfolding resolve_group_def m by (cases grp) simp_all
qed

text \<open>
  Property C19. The default catalog never fails: for every report and every profile the engine answers;
  no priority is missing.
\<close>

theorem default_catalog_total: "\<exists>rs. engine_evaluate default_catalog report p = Inr rs"
proof -
  let ?cs = "candidates default_catalog report p"
  have "\<exists>rs. resolve_group default_catalog (filter (\<lambda>r. setting_of r = k) ?cs) = Inr rs"
    if "k \<in> set (sort (remdups (map setting_of ?cs)))" for k
    by (rule resolve_group_total [OF _ group_nonempty [OF that]]) (use rule_ids in auto)
  then obtain g where "\<And>k. k \<in> set (sort (remdups (map setting_of ?cs))) \<Longrightarrow>
      resolve_group default_catalog (filter (\<lambda>r. setting_of r = k) ?cs) = Inr (g k)" by metis
  then have m: "mapR (\<lambda>k. resolve_group default_catalog (filter (\<lambda>r. setting_of r = k) ?cs))
      (sort (remdups (map setting_of ?cs))) = Inr (map g (sort (remdups (map setting_of ?cs))))"
    by (rule mapR_total)
  show ?thesis by (simp add: engine_evaluate_def resolve_conflicts_def m)
qed

lemma engine_member:
  assumes "engine_evaluate default_catalog report p = Inr rs" and "r \<in> set rs" and "actionable r"
  obtains key d i n where "agent_compaction key d i 1 [lit ''agent''] report p = Some r" and "d = True"
    and "key = lit ''compaction.auto'' \<or> key = lit ''compaction.prune''"
proof -
  have "r \<in> set (candidates default_catalog report p)"
    using resolve_conflicts_member [OF assms(1) [unfolded engine_evaluate_def] assms(2)] assms(3) by auto
  then obtain u where u: "u \<in> set default_catalog" "ru_evaluate u report p = Some r" using candidatesD by blast
  have "\<not> actionable r" if "u = unsupported_version_rule \<or> u = ollama_unavailable_rule"
    using that u(2) by (auto simp: catalog_rules dest: ollama_unavailable_rule_id unsupported_version_rule_id)
  then show ?thesis using u assms(3) that unfolding default_catalog_def by (auto simp: agent_compaction_rule_def)
qed

text \<open>
  Every actionable recommendation of the default catalog is one the OpenCode planner can
  turn into a change: it concerns a report of the supported version without parse warnings, its setting is on the allowlist,
  its value is valid and has a JSON text, and it replaces \<open>false\<close> by \<open>true\<close> in the active configuration.
\<close>

theorem catalog_plannable:
  assumes "engine_evaluate default_catalog report p = Inr rs" and "r \<in> set rs" and "actionable r"
  shows "\<exists>info. opencode report = Some info \<and> oc_version info = Some supported_opencode \<and> parse_warnings info = []
    \<and> active_config info \<noteq> None \<and> rc_target r = config_target info
    \<and> allowed_path (setting_key r) \<and> validate_value (setting_key r) (recommended_value r) = Inr ()
    \<and> encode_scalar (recommended_value r) = Inr (lit ''true'')
    \<and> current_value r = JBool False \<and> recommended_value r = JBool True"
proof -
  obtain key d i where a: "agent_compaction key d i 1 [lit ''agent''] report p = Some r" "d = True"
    and k: "key = lit ''compaction.auto'' \<or> key = lit ''compaction.prune''"
    using engine_member [OF assms] by blast
  from k have "allowed_path key" "validate_value key (JBool True) = Inr ()"
    by (elim disjE; simp, code_simp)+
  moreover have "encode_scalar (JBool True) = Inr (lit ''true'')" by code_simp
  ultimately show ?thesis
    using a assms(3) by (elim agent_compaction_SomeD) (auto simp: supported_opencode_def is_jbool_def split: json.splits)
qed

section \<open>A report and its recommendations\<close>

definition advised_report :: diagnostic_report where
  "advised_report = sample_report\<lparr>opencode := Some (sample_opencode\<lparr>context_settings := [(lit ''compaction.auto'', JBool False)]\<rparr>)\<rparr>"

definition advised_snapshot :: config_snapshot where
  "advised_snapshot = \<lparr>snap_path = lit ''/c'', snap_content =
     [123, 34] @ lit ''compaction'' @ [34, 58, 123, 34] @ lit ''auto'' @ [34, 58] @ lit ''false}}'', snap_sha256 = lit ''0''\<rparr>"

definition advised :: "recommendation list res" where
  "advised = engine_evaluate default_catalog advised_report agent_profile"

lemma advised_ok: "case advised of Inl _ \<Rightarrow> False | Inr rs \<Rightarrow> map actionable rs = [True] \<and> map setting_key rs = [lit ''compaction.auto'']"
  by code_simp

theorem engine_settles_witness:
  "\<exists>rs. advised = Inr rs \<and> length rs = 1 \<and> distinct (map setting_of (filter actionable rs)) \<and> sorted (map recommendation_id rs)"
proof -
  obtain rs where "advised = Inr rs" "map actionable rs = [True]" using advised_ok by (auto split: sum.splits)
  moreover have "length rs = 1" using \<open>map actionable rs = [True]\<close> by auto
  ultimately show ?thesis using engine_settles [of default_catalog advised_report agent_profile rs]
    by (simp add: advised_def)
qed

end
