(* ===== verification/World.thy ===== *)
theory World
  imports Models OpenCodePlan "HOL-Library.AList"
begin

text \<open>
  The effects of the infrastructure layer.  An operation is a function from a \<open>world\<close> to a result and
  the world it leaves behind; an exception keeps what happened before it.  The world holds the files, a
  schedule of operating system faults (every fallible system call consumes one entry, \<open>True\<close> raising
  \<open>OSError\<close>; an exhausted schedule means no more faults), a countdown to cancellation (every check of
  the token consumes one unit; once cancelled, always cancelled), the readings of the clock still to come,
  the manifests a backup store has registered (a dictionary, in the order of insertion) and the events an
  audit log has accepted.

  A file is addressed by its resolved path.  Directories (\<open>dirs\<close>) are looked at by the privileged helper, the
  listings of backups and the store of restores;
  everywhere else they are not tracked (\<open>mkdir(parents=True)\<close> only appears as a fault).  Nothing else changes
  the files while an operation runs, and paths hold no NUL.
\<close>

section \<open>Paths\<close>

text \<open>
  \<open>pathlib\<close> on POSIX paths: the components of a path, its parent and its name.  \<open>realpath\<close>, the result of
  \<open>Path.resolve\<close>, depends on the symbolic links of the machine and is a field of \<open>system\<close>.
\<close>

definition comps :: "str \<Rightarrow> str list" where
  "comps p = filter (\<lambda>c. c \<noteq> [] \<and> c \<noteq> [46]) (split_on 47 p)"

definition is_absolute :: "str \<Rightarrow> bool" where
  "is_absolute p \<longleftrightarrow> startswith p [47]"

definition abs_path :: "str list \<Rightarrow> str" where
  "abs_path cs = 47 # join [47] cs"

definition path_name :: "str \<Rightarrow> str" where
  "path_name p = (if comps p = [] then [] else last (comps p))"

definition path_parent :: "str \<Rightarrow> str" where
  "path_parent p = abs_path (butlast (comps p))"

text \<open>\<open>a / b\<close> for an absolute \<open>a\<close> and a relative \<open>b\<close>.\<close>

definition path_join :: "str \<Rightarrow> str \<Rightarrow> str" where
  "path_join a b = abs_path (comps a @ comps b)"

text \<open>\<open>_within(path, root)\<close>: \<open>path.relative_to(root)\<close> does not raise.\<close>

definition within :: "str \<Rightarrow> str \<Rightarrow> bool" where
  "within p root \<longleftrightarrow> take (length (comps root)) (comps p) = comps root"

record system = runtime +
  realpath :: "str \<Rightarrow> str"
  euid :: int
  egid :: int

text \<open>\<open>path.parent.resolve() / path.name\<close>.\<close>

definition resolved_target :: "system \<Rightarrow> str \<Rightarrow> str" where
  "resolved_target sys p = path_join (realpath sys (path_parent p)) (path_name p)"

section \<open>The world\<close>

datatype node =
    RegFile (node_content: bytes) (node_mode: int) (node_uid: int) (node_gid: int)
  | SymLink
  | NotRegular

type_synonym files = "str \<rightharpoonup> node"

record audit_event =
  ev_type :: str
  ev_correlation :: str
  ev_fields :: "(str \<times> json) list"

text \<open>A directory is a node that is \<open>NotRegular\<close> and has its metadata in \<open>dirs\<close>.\<close>

record dir_info =
  dr_mode :: int
  dr_uid :: int
  dr_gid :: int

record world =
  fs :: files
  dirs :: "str \<rightharpoonup> dir_info"
  faults :: "bool list"
  cancel_in :: "nat option"
  clock :: "time list"
  registry :: "((str \<times> str) \<times> backup_manifest) list"
  events :: "audit_event list"

text \<open>An operation, with the type of what it may raise; most raise \<open>exn\<close>.\<close>

type_synonym ('e, 'a) run = "world \<Rightarrow> ('e + 'a) \<times> world"

type_synonym 'a io = "(exn, 'a) run"

definition retW :: "'a \<Rightarrow> ('e, 'a) run" where
  "retW x w = (Inr x, w)"

definition liftR :: "('e + 'a) \<Rightarrow> ('e, 'a) run" where
  "liftR r w = (r, w)"

definition raiseW :: "'e \<Rightarrow> ('e, 'a) run" where
  "raiseW e w = (Inl e, w)"

definition guardW :: "bool \<Rightarrow> 'e \<Rightarrow> ('e, unit) run" where
  "guardW b e = (if b then retW () else raiseW e)"

definition bindW :: "('e, 'a) run \<Rightarrow> ('a \<Rightarrow> ('e, 'b) run) \<Rightarrow> ('e, 'b) run" where
  "bindW m f w = (case m w of (Inl e, w1) \<Rightarrow> (Inl e, w1) | (Inr x, w1) \<Rightarrow> f x w1)"

text \<open>\<open>try: m except error: h(error)\<close>; a handler re-raises what it does not catch.\<close>

definition tryW :: "('d, 'a) run \<Rightarrow> ('d \<Rightarrow> ('e, 'a) run) \<Rightarrow> ('e, 'a) run" where
  "tryW m h w = (case m w of (Inl e, w1) \<Rightarrow> h e w1 | (Inr x, w1) \<Rightarrow> (Inr x, w1))"

definition getW :: "(world \<Rightarrow> 'a) \<Rightarrow> ('e, 'a) run" where
  "getW f w = (Inr (f w), w)"

definition modifyW :: "(world \<Rightarrow> world) \<Rightarrow> unit io" where
  "modifyW f w = (Inr (), f w)"

fun mapW :: "('a \<Rightarrow> ('e, 'b) run) \<Rightarrow> 'a list \<Rightarrow> ('e, 'b list) run" where
  "mapW f [] = retW []"
| "mapW f (x # xs) = bindW (f x) (\<lambda>y. bindW (mapW f xs) (\<lambda>ys. retW (y # ys)))"

fun eachW :: "('a \<Rightarrow> unit io) \<Rightarrow> 'a list \<Rightarrow> unit io" where
  "eachW f [] = retW ()"
| "eachW f (x # xs) = bindW (f x) (\<lambda>_. eachW f xs)"

section \<open>System calls\<close>

definition os_step :: "unit io" where
  "os_step w = (case faults w of
      [] \<Rightarrow> (Inr (), w)
    | b # bs \<Rightarrow> ((if b then Inl OSError else Inr ()), w\<lparr>faults := bs\<rparr>))"

text \<open>\<open>_cancel(cancellation)\<close>.\<close>

definition check_cancel :: "unit io" where
  "check_cancel w = (case cancel_in w of
      None \<Rightarrow> (Inr (), w)
    | Some 0 \<Rightarrow> (Inl OperationCancelled, w)
    | Some (Suc n) \<Rightarrow> (Inr (), w\<lparr>cancel_in := Some n\<rparr>))"

definition utc_now :: "time io" where
  "utc_now w = (case clock w of [] \<Rightarrow> (Inr 0, w) | t # ts \<Rightarrow> (Inr t, w\<lparr>clock := ts\<rparr>))"

definition node_at :: "str \<Rightarrow> node option io" where
  "node_at p = getW (\<lambda>w. fs w p)"

definition exists_node :: "node option \<Rightarrow> bool" where
  "exists_node n \<longleftrightarrow> n \<noteq> None"

definition is_file_node :: "node option \<Rightarrow> bool" where
  "is_file_node n \<longleftrightarrow> (case n of Some (RegFile _ _ _ _) \<Rightarrow> True | _ \<Rightarrow> False)"

text \<open>\<open>path.read_bytes()\<close>\<close>

definition read_bytes :: "str \<Rightarrow> bytes io" where
  "read_bytes p = bindW os_step (\<lambda>_. bindW (node_at p) (\<lambda>n.
     case n of Some (RegFile c _ _ _) \<Rightarrow> retW c | _ \<Rightarrow> raiseW OSError))"

definition put_node :: "str \<Rightarrow> node option \<Rightarrow> unit io" where
  "put_node p n = modifyW (\<lambda>w. w\<lparr>fs := (fs w)(p := n)\<rparr>)"

text \<open>
  \<open>_atomic_write\<close>: everything up to \<open>os.replace\<close> works on a temporary file that is removed on failure, so
  one fault stands for it; \<open>os.replace\<close> fails on a directory; a fault of the final directory sync is
  raised although the file has been replaced.
\<close>

definition atomic_write :: "system \<Rightarrow> str \<Rightarrow> bytes \<Rightarrow> int \<Rightarrow> unit io" where
  "atomic_write sys p content m =
     bindW os_step (\<lambda>_. bindW (node_at p) (\<lambda>n.
       if n = Some NotRegular then raiseW OSError
       else bindW (put_node p (Some (RegFile content m (euid sys) (egid sys)))) (\<lambda>_. os_step)))"

text \<open>\<open>target.unlink()\<close> followed by \<open>_fsync_directory(target.parent)\<close>.\<close>

definition unlink_synced :: "str \<Rightarrow> unit io" where
  "unlink_synced p =
     bindW os_step (\<lambda>_. bindW (node_at p) (\<lambda>n.
       if n = None \<or> n = Some NotRegular then raiseW OSError
       else bindW (put_node p None) (\<lambda>_. os_step)))"

text \<open>\<open>os.chown(target, uid, gid, follow_symlinks=False)\<close>\<close>

definition chown_file :: "str \<Rightarrow> int \<Rightarrow> int \<Rightarrow> unit io" where
  "chown_file p u g =
     bindW os_step (\<lambda>_. bindW (node_at p) (\<lambda>n. case n of
         Some (RegFile c m _ _) \<Rightarrow> put_node p (Some (RegFile c m u g))
       | Some _ \<Rightarrow> retW ()
       | None \<Rightarrow> raiseW OSError))"

text \<open>The universal newlines of a file opened as text, and \<open>path.read_text(encoding="utf-8")\<close>.\<close>

fun universal_newlines :: "str \<Rightarrow> str" where
  "universal_newlines [] = []"
| "universal_newlines (c # cs) =
     (if c = 13 then 10 # universal_newlines (if startswith cs [10] then tl cs else cs)
      else c # universal_newlines cs)"

definition read_text :: "str \<Rightarrow> str io" where
  "read_text p = bindW (read_bytes p) (\<lambda>b. bindW (liftR (utf8_decode b)) (\<lambda>t. retW (universal_newlines t)))"

section \<open>Running operations\<close>

lemma io_simps [simp]:
  "retW x w = (Inr x, w)" "liftR r w = (r, w)" "raiseW e w = (Inl e, w)" "getW f w = (Inr (f w), w)"
  "modifyW g w = (Inr (), g w)" "node_at p w = (Inr (fs w p), w)"
  by (simp_all add: retW_def liftR_def raiseW_def getW_def modifyW_def node_at_def)

lemma bindW_Inr: "bindW m f w = (Inr y, w') \<longleftrightarrow> (\<exists>x w1. m w = (Inr x, w1) \<and> f x w1 = (Inr y, w'))"
  by (auto simp: bindW_def split: prod.splits sum.splits)

lemma bindW_Inl: "bindW m f w = (Inl e, w') \<longleftrightarrow>
    m w = (Inl e, w') \<or> (\<exists>x w1. m w = (Inr x, w1) \<and> f x w1 = (Inl e, w'))"
  by (auto simp: bindW_def split: prod.splits sum.splits)

lemma bindW_run:
  "m w = (Inr x, w1) \<Longrightarrow> bindW m f w = f x w1"
  "m w = (Inl e, w1) \<Longrightarrow> bindW m f w = (Inl e, w1)"
  by (simp_all add: bindW_def)

lemma tryW_run:
  "m w = (Inr x, w1) \<Longrightarrow> tryW m h w = (Inr x, w1)"
  "m w = (Inl e, w1) \<Longrightarrow> tryW m h w = h e w1"
  by (simp_all add: tryW_def)

lemma guardW_Inr [simp]: "guardW b e w = (Inr u, w') \<longleftrightarrow> b \<and> w' = w"
  by (auto simp: guardW_def)

lemma guardW_Inl [simp]: "guardW b e w = (Inl e', w') \<longleftrightarrow> \<not> b \<and> e' = e \<and> w' = w"
  by (auto simp: guardW_def)

section \<open>What an operation leaves alone\<close>

text \<open>\<open>keeps S m\<close>: whatever happens, \<open>m\<close> changes no file whose path is in \<open>S\<close>.\<close>

definition keeps :: "(str \<Rightarrow> bool) \<Rightarrow> ('e, 'a) run \<Rightarrow> bool" where
  "keeps S m \<longleftrightarrow> (\<forall>w p. S p \<longrightarrow> fs (snd (m w)) p = fs w p)"

named_theorems keeping

lemma keepsD: "keeps S m \<Longrightarrow> m w = (r, w') \<Longrightarrow> S p \<Longrightarrow> fs w' p = fs w p"
  by (metis keeps_def snd_conv)

lemma keeps_mono: "keeps S m \<Longrightarrow> (\<And>p. T p \<Longrightarrow> S p) \<Longrightarrow> keeps T m"
  by (simp add: keeps_def)

lemma keeps_pure [keeping]:
  "keeps S (retW x)" "keeps S (liftR r)" "keeps S (raiseW e)" "keeps S (getW f)" "keeps S (node_at p)"
  "keeps S (guardW b e)"
  by (simp_all add: keeps_def guardW_def)

lemma keeps_bind [keeping]: "keeps S m \<Longrightarrow> (\<And>x. keeps S (f x)) \<Longrightarrow> keeps S (bindW m f)"
  by (auto simp: keeps_def bindW_def split: prod.splits sum.splits) (metis snd_conv)+

lemma keeps_try [keeping]: "keeps S m \<Longrightarrow> (\<And>e. keeps S (h e)) \<Longrightarrow> keeps S (tryW m h)"
  by (auto simp: keeps_def tryW_def split: prod.splits sum.splits) (metis snd_conv)+

lemma keeps_if [keeping]: "keeps S a \<Longrightarrow> keeps S b \<Longrightarrow> keeps S (if c then a else b)"
  by simp

lemma keeps_steps [keeping]: "keeps S os_step" "keeps S check_cancel" "keeps S utc_now"
  by (auto simp: keeps_def os_step_def check_cancel_def utc_now_def split: list.splits option.splits nat.splits)

lemma keeps_mapW [keeping]: "(\<And>x. x \<in> set xs \<Longrightarrow> keeps S (f x)) \<Longrightarrow> keeps S (mapW f xs)"
  by (induction xs) (auto intro!: keeping)

lemma keeps_eachW [keeping]: "(\<And>x. x \<in> set xs \<Longrightarrow> keeps S (f x)) \<Longrightarrow> keeps S (eachW f xs)"
  by (induction xs) (auto intro!: keeping)

lemma keeps_option [keeping]: "(x = None \<Longrightarrow> keeps S a) \<Longrightarrow> (\<And>y. keeps S (f y)) \<Longrightarrow> keeps S (case x of None \<Rightarrow> a | Some y \<Rightarrow> f y)"
  by (cases x) auto

lemma keeps_put_node [keeping]: "\<not> S p \<Longrightarrow> keeps S (put_node p n)"
  by (auto simp: keeps_def put_node_def)

lemma keeps_node [keeping]:
  "(\<And>c m u g. keeps S (f c m u g)) \<Longrightarrow> keeps S a \<Longrightarrow> keeps S b \<Longrightarrow>
    keeps S (case n of RegFile c m u g \<Rightarrow> f c m u g | SymLink \<Rightarrow> a | NotRegular \<Rightarrow> b)"
  by (cases n) auto

lemma keeps_calls [keeping]:
  "keeps S (read_bytes p)"
  "keeps S (read_text p)"
  "\<not> S p \<Longrightarrow> keeps S (atomic_write sys p c m)"
  "\<not> S p \<Longrightarrow> keeps S (unlink_synced p)"
  "\<not> S p \<Longrightarrow> keeps S (chown_file p u g)"
  unfolding read_text_def read_bytes_def atomic_write_def unlink_synced_def chown_file_def
  by (auto intro!: keeping split: option.splits node.splits)

lemma keeps_liftR_bind:
  assumes "\<And>x. r = Inr x \<Longrightarrow> keeps S (f x)"
  shows "keeps S (bindW (liftR r) f)"
  using assms by (cases r) (auto simp: keeps_def bindW_def)

lemma keeps_let [keeping]: "keeps S (f x) \<Longrightarrow> keeps S (let y = x in f y)"
  by (simp add: Let_def)

lemma keeps_case_prod [keeping]: "(\<And>a b. keeps S (f a b)) \<Longrightarrow> keeps S (case x of (a, b) \<Rightarrow> f a b)"
  by (cases x) auto

lemma keeps_bind_result:
  assumes "keeps S m" and "\<And>w x w'. m w = (Inr x, w') \<Longrightarrow> keeps S (f x)"
  shows "keeps S (bindW m f)"
  unfolding keeps_def
proof (intro allI impI)
  fix w p assume p: "S p"
  obtain y w1 where m: "m w = (y, w1)" by (cases "m w")
  have "fs w1 p = fs w p" using assms(1) m p by (metis keeps_def snd_conv)
  then show "fs (snd (bindW m f w)) p = fs w p"
    using assms(2) [of w] m p by (cases y) (auto simp: bindW_def keeps_def)
qed

text \<open>\<open>stays p m\<close>: \<open>m\<close> does not remove what is at \<open>p\<close>.\<close>

definition stays :: "str \<Rightarrow> ('e, 'a) run \<Rightarrow> bool" where
  "stays p m \<longleftrightarrow> (\<forall>w. fs w p \<noteq> None \<longrightarrow> fs (snd (m w)) p \<noteq> None)"

lemma stays_keeps: "keeps (\<lambda>q. q = p) m \<Longrightarrow> stays p m"
  by (simp add: stays_def keeps_def)

lemma stays_bind: "stays p m \<Longrightarrow> (\<And>x. stays p (f x)) \<Longrightarrow> stays p (bindW m f)"
  unfolding stays_def bindW_def by (fastforce split: prod.splits sum.splits)

lemma stays_atomic_write: "stays p (atomic_write sys q c m)"
  by (auto simp: stays_def atomic_write_def bindW_def put_node_def os_step_def split: prod.splits sum.splits list.splits if_splits)

section \<open>System calls, run\<close>

lemma os_step_fs: "os_step w = (r, w') \<Longrightarrow> fs w' = fs w"
  by (auto simp: os_step_def split: list.splits)

lemma check_cancel_fs: "check_cancel w = (r, w') \<Longrightarrow> fs w' = fs w"
  by (auto simp: check_cancel_def split: option.splits nat.splits)

lemma utc_now_fs: "utc_now w = (r, w') \<Longrightarrow> fs w' = fs w"
  by (auto simp: utc_now_def split: list.splits)

lemma read_bytes_Inr:
  assumes "read_bytes p w = (Inr c, w')"
  shows "fs w' = fs w \<and> (\<exists>m u g. fs w p = Some (RegFile c m u g))"
proof -
  obtain w1 where s: "os_step w = (Inr (), w1)"
    and r: "(case fs w1 p of Some (RegFile c m u g) \<Rightarrow> retW c | _ \<Rightarrow> raiseW OSError) w1 = (Inr c, w')"
    using assms by (auto simp: read_bytes_def bindW_Inr)
  then show ?thesis using os_step_fs [OF s] by (cases "fs w1 p") (auto split: node.splits)
qed

lemma atomic_write_Inr:
  "atomic_write sys p c m w = (Inr u, w') \<Longrightarrow> fs w' = (fs w)(p \<mapsto> RegFile c m (euid sys) (egid sys))"
  by (auto simp: atomic_write_def bindW_Inr put_node_def dest!: os_step_fs split: if_splits)

lemma unlink_synced_Inr: "unlink_synced p w = (Inr u, w') \<Longrightarrow> fs w' = (fs w)(p := None)"
  by (auto simp: unlink_synced_def bindW_Inr put_node_def dest!: os_step_fs split: if_splits)

lemma chown_file_Inr:
  assumes "chown_file p u g w = (Inr x, w')" and "fs w p = Some (RegFile c m u0 g0)"
  shows "fs w' = (fs w)(p \<mapsto> RegFile c m u g)"
proof -
  obtain w1 where s: "os_step w = (Inr (), w1)" and "fs w1 = fs w"
    using assms by (auto simp: chown_file_def bindW_Inr dest: os_step_fs)
  then show ?thesis using assms by (auto simp: chown_file_def bindW_Inr put_node_def)
qed


section \<open>Components of joined paths\<close>

definition clean :: "str list \<Rightarrow> bool" where
  "clean cs \<longleftrightarrow> (\<forall>c\<in>set cs. c \<noteq> [] \<and> c \<noteq> [46] \<and> 47 \<notin> set c)"

lemma split_on_parts: "c \<in> set (split_on x s) \<Longrightarrow> x \<notin> set c"
  by (induction s arbitrary: c) (auto split: if_splits list.splits)

lemma clean_comps [simp]: "clean (comps p)"
  by (auto simp: clean_def comps_def dest: split_on_parts)

lemma split_on_no_sep: "x \<notin> set c \<Longrightarrow> split_on x c = [c]"
  by (induction c) auto

lemma split_on_append: "x \<notin> set c \<Longrightarrow> split_on x (c @ x # s) = c # split_on x s"
  by (induction c) auto

lemma split_on_join:
  "clean cs \<Longrightarrow> cs \<noteq> [] \<Longrightarrow> split_on 47 (join [47] cs) = cs"
proof (induction cs rule: induct_list012)
  case (2 c)
  then show ?case by (simp add: join_def clean_def split_on_no_sep)
next
  case (3 c d cs)
  then have "split_on 47 (c @ 47 # join [47] (d # cs)) = c # d # cs"
    by (subst split_on_append) (auto simp: clean_def)
  then show ?case by (simp add: join_def)
qed simp

lemma comps_abs_path [simp]: "clean cs \<Longrightarrow> comps (abs_path cs) = cs"
proof (cases "cs = []")
  case True
  then show ?thesis by (simp add: comps_def abs_path_def join_def)
next
  case False
  assume c: "clean cs"
  then have "filter (\<lambda>c. c \<noteq> [] \<and> c \<noteq> [46]) cs = cs"
    by (intro filter_True) (auto simp: clean_def)
  then show ?thesis using split_on_join [OF c False] by (simp add: comps_def abs_path_def)
qed

lemma clean_append [simp]: "clean (a @ b) \<longleftrightarrow> clean a \<and> clean b"
  by (auto simp: clean_def)

lemma comps_path_join [simp]: "comps (path_join a b) = comps a @ comps b"
  by (simp add: path_join_def)

lemma within_iff: "within p r \<longleftrightarrow> (\<exists>t. comps p = comps r @ t)"
  by (metis append_eq_conv_conj append_take_drop_id within_def)

lemma within_join: "within a r \<Longrightarrow> within (path_join a b) r"
  by (auto simp: within_iff)

text \<open>Two directories neither of which contains the other.\<close>

definition separate :: "str \<Rightarrow> str \<Rightarrow> bool" where
  "separate a b \<longleftrightarrow> \<not> within a b \<and> \<not> within b a"

lemma separate_not_within:
  assumes "separate a b" and "within p a"
  shows "\<not> within p b"
proof
  assume "within p b"
  then obtain t where "comps p = comps b @ t" by (auto simp: within_iff)
  moreover obtain s where "comps p = comps a @ s" using assms(2) by (auto simp: within_iff)
  ultimately have "comps a @ s = comps b @ t" by simp
  then have "(\<exists>u. comps a = comps b @ u) \<or> (\<exists>u. comps b = comps a @ u)"
    by (simp add: append_eq_append_conv2) metis
  with assms(1) show False by (simp add: separate_def within_iff)
qed

section \<open>A small machine\<close>

text \<open>A concrete machine for the examples: a toy digest of 64 hexadecimal digits, times as decimals.\<close>

definition hex8 :: "int \<Rightarrow> str" where
  "hex8 n = map hexdigit [n div 268435456 mod 16, n div 16777216 mod 16, n div 1048576 mod 16, n div 65536 mod 16,
     n div 4096 mod 16, n div 256 mod 16, n div 16 mod 16, n mod 16]"

fun checksum :: "int \<Rightarrow> bytes \<Rightarrow> int" where
  "checksum a [] = a"
| "checksum a (c # cs) = checksum ((7 * a + c + 1) mod 65536) cs"

definition toy_digest :: "bytes \<Rightarrow> str" where
  "toy_digest b = replicate 56 48 @ hex8 (checksum 5 b)"

definition toy_system :: system where
  "toy_system = \<lparr>sha256 = toy_digest, isoformat = dec_int, fromisoformat = (\<lambda>s. Some (Aware (dec_val s))),
     unicode_digit = (\<lambda>c. NoDigit), realpath = (\<lambda>p. p), euid = 1000, egid = 1000\<rparr>"

definition toy_world :: "files \<Rightarrow> world" where
  "toy_world f = \<lparr>fs = f, dirs = Map.empty, faults = [], cancel_in = None, clock = [10, 20, 30, 40, 50, 60, 70, 80],
     registry = [], events = []\<rparr>"

end
