(* ===== verification/ChangePlanning.thy ===== *)
theory ChangePlanning
  imports DropIn Advice World
begin

text \<open>
  The use cases between a diagnosis and an approved plan: selecting recommendations
  (\<open>ui/recommendations.py\<close>) and building the change set for the selection from a fresh look at the host
  (\<open>application/change_planning.py\<close>).  The host and the probe of the privileged helper are interfaces of
  the code (\<open>HostPort\<close>, \<open>PrivilegedHelperProbePort\<close>); a \<open>host_port\<close> gives their answers.
\<close>

section \<open>Ports\<close>

record file_stat =
  st_path :: str
  st_exists :: bool
  st_sha256 :: "str option"
  st_mode :: "int option"
  st_uid :: "int option"
  st_gid :: "int option"
  is_symlink :: bool

record host_port =
  identify :: "host_info io"
  stat_file :: "str \<Rightarrow> file_stat io"
  read_file :: "str \<Rightarrow> int \<Rightarrow> bytes io"
  root_apply_allowed :: "bool io"

section \<open>Selecting recommendations\<close>

definition selectable :: "recommendation \<Rightarrow> bool" where
  "selectable r \<longleftrightarrow> actionable r \<and> conflicts_with r = []"

definition select_recommendations :: "optimization_plan \<Rightarrow> str list \<Rightarrow> optimization_plan res" where
  "select_recommendations plan ids =
     (if \<not> distinct ids then Inl ValueError
      else if \<not> set ids \<subseteq> recommendation_id ` set (filter selectable (recommendations plan)) then Inl ValueError
      else Inr (plan\<lparr>selected_ids := sort ids, op_change_set := None\<rparr>))"

definition profile_by_id :: "str \<Rightarrow> optimization_profile res" where
  "profile_by_id i = (case filter (\<lambda>p. profile_id p = i) profiles of [] \<Rightarrow> Inl ValueError | p # _ \<Rightarrow> Inr p)"

section \<open>What both planners check first\<close>

text \<open>\<open>plan.report_id != report.report_id or plan.report_hash != stable_hash(report)\<close>\<close>

definition bound_to_report :: "runtime \<Rightarrow> optimization_plan \<Rightarrow> diagnostic_report \<Rightarrow> bool res" where
  "bound_to_report rt plan report =
     (if op_report_id plan \<noteq> report_id report then Inr False
      else bindR (stable_hash rt (diagnostic_report_json rt report)) (\<lambda>h. Inr (report_hash plan = h)))"

definition expiry_check :: "time option \<Rightarrow> unit io" where
  "expiry_check e = (case e of None \<Rightarrow> retW () | Some t \<Rightarrow> bindW utc_now (\<lambda>now. guardW (now < t) (AdapterError ''stale_plan'')))"

definition plan_guards :: "runtime \<Rightarrow> optimization_plan \<Rightarrow> diagnostic_report \<Rightarrow> unit io" where
  "plan_guards rt plan report =
     bindW check_cancel (\<lambda>_.
     bindW (guardW (op_change_set plan = None) (AdapterError ''change_set_already_generated'')) (\<lambda>_.
     bindW (liftR (bound_to_report rt plan report)) (\<lambda>b.
     bindW (guardW b (AdapterError ''stale_report'')) (\<lambda>_.
     bindW (expiry_check (expires_at plan)) (\<lambda>_.
     guardW (selected_ids plan \<noteq> []) (AdapterError ''selection_required''))))))"

definition selected_of :: "optimization_plan \<Rightarrow> recommendation list res" where
  "selected_of plan = mapR (\<lambda>i. case dict_of (map (\<lambda>r. (recommendation_id r, r)) (recommendations plan)) i of
     None \<Rightarrow> Inl (AdapterError ''selection_invalid'') | Some r \<Rightarrow> Inr r) (selected_ids plan)"

definition identity_guard :: "host_port \<Rightarrow> diagnostic_report \<Rightarrow> unit io" where
  "identity_guard hp report = bindW (identify hp) (\<lambda>observed.
     guardW (hi_host_id observed = hi_host_id (host report) \<and> hi_kind observed = hi_kind (host report)
       \<and> hi_fingerprint observed = hi_fingerprint (host report)) (AdapterError ''host_identity_changed''))"

text \<open>A file read and decoded, a decoding error becoming an adapter error.\<close>

definition read_config :: "host_port \<Rightarrow> str \<Rightarrow> int \<Rightarrow> str io" where
  "read_config hp path limit =
     tryW (bindW (read_file hp path limit) (\<lambda>b. liftR (utf8_decode b)))
       (\<lambda>e. if e = UnicodeError then raiseW (AdapterError ''config_encoding_invalid'') else raiseW e)"

definition attach :: "optimization_plan \<Rightarrow> change_set \<Rightarrow> optimization_plan io" where
  "attach plan cset = bindW (guardW (changes cset \<noteq> []) (AdapterError ''empty_change_set'')) (\<lambda>_.
     retW (plan\<lparr>op_change_set := Some cset\<rparr>))"

section \<open>Building a change set\<close>

text \<open>The selected recommendations and the file they target.\<close>

definition chosen_opencode :: "optimization_plan \<Rightarrow> diagnostic_report \<Rightarrow> (recommendation list \<times> str) res" where
  "chosen_opencode plan report =
     bindR (selected_of plan) (\<lambda>selected.
     bindR (guardR (\<forall>r\<in>set selected. selectable r) (AdapterError ''selection_invalid'')) (\<lambda>_.
     case (case opencode report of None \<Rightarrow> None | Some info \<Rightarrow> active_config info) of
       None \<Rightarrow> Inl (AdapterError ''source_unavailable'')
     | Some path \<Rightarrow>
         bindR (guardR (\<forall>r\<in>set selected. rc_target r = path) (AdapterError ''unsupported_target'')) (\<lambda>_.
         Inr (selected, path))))"

definition build_opencode ::
  "runtime \<Rightarrow> str \<Rightarrow> int \<Rightarrow> host_port \<Rightarrow> optimization_plan \<Rightarrow> diagnostic_report \<Rightarrow> optimization_plan io" where
  "build_opencode rt supported limit hp plan report =
     bindW (plan_guards rt plan report) (\<lambda>_.
     bindW (liftR (chosen_opencode plan report)) (\<lambda>(selected, path).
     bindW (identity_guard hp report) (\<lambda>_.
     bindW (read_config hp path limit) (\<lambda>content.
     bindW (liftR (bindR (capture rt path content) (plan_opencode rt supported report selected))) (attach plan)))))"

definition ollama_selectable :: "recommendation \<Rightarrow> bool" where
  "ollama_selectable r \<longleftrightarrow> selectable r \<and> rc_target r = lit ''ollama.systemd'' \<and> rc_requires_root r"

definition current_drop_in :: "host_port \<Rightarrow> int \<Rightarrow> str option io" where
  "current_drop_in hp limit =
     bindW (stat_file hp drop_in_path) (\<lambda>st.
     bindW (guardW (st_path st = drop_in_path \<and> \<not> is_symlink st) (AdapterError ''unsafe_target'')) (\<lambda>_.
     if st_exists st then bindW (read_config hp drop_in_path limit) (\<lambda>c. retW (Some c)) else retW None))"

definition build_ollama ::
  "runtime \<Rightarrow> policy \<Rightarrow> str \<Rightarrow> int \<Rightarrow> host_port \<Rightarrow> optimization_plan \<Rightarrow> diagnostic_report \<Rightarrow> optimization_plan io" where
  "build_ollama rt pol supported limit hp plan report =
     bindW (plan_guards rt plan report) (\<lambda>_.
     bindW (liftR (selected_of plan)) (\<lambda>selected.
     bindW (guardW (\<forall>r\<in>set selected. ollama_selectable r) (AdapterError ''selection_invalid'')) (\<lambda>_.
     bindW (identity_guard hp report) (\<lambda>_.
     bindW (root_apply_allowed hp) (\<lambda>allowed.
     bindW (guardW allowed (AdapterError ''privileged_helper_unavailable'')) (\<lambda>_.
     bindW (current_drop_in hp limit) (\<lambda>content.
     bindW (liftR (plan_ollama rt pol supported report selected content)) (attach plan))))))))"

section \<open>What a plan was built on\<close>

lemma bindW_keep_Inr:
  "bindW m f w = (Inr y, w') \<Longrightarrow> (\<And>x w1. m w = (Inr x, w1) \<Longrightarrow> f x w1 = (Inr y, w') \<Longrightarrow> P) \<Longrightarrow> P"
  by (auto simp: bindW_Inr)

lemma plan_guards_Inr:
  "plan_guards rt plan report w = (Inr u, w') \<Longrightarrow> op_change_set plan = None \<and> op_report_id plan = report_id report
    \<and> stable_hash rt (diagnostic_report_json rt report) = Inr (report_hash plan) \<and> selected_ids plan \<noteq> []"
  by (auto simp: plan_guards_def bindW_Inr bound_to_report_def bindR_eq_Inr split: if_splits)

lemma selected_of_Inr:
  assumes "selected_of plan = Inr rs"
  shows "map recommendation_id rs = selected_ids plan" and "set rs \<subseteq> set (recommendations plan)"
proof -
  let ?d = "dict_of (map (\<lambda>r. (recommendation_id r, r)) (recommendations plan))"
  have a: "list_all2 (\<lambda>i r. ?d i = Some r) (selected_ids plan) rs"
    using mapR_Inr_list_all2 [OF assms [unfolded selected_of_def]] by (rule list_all2_mono) (auto split: option.splits)
  have d: "?d i = Some r \<Longrightarrow> r \<in> set (recommendations plan) \<and> recommendation_id r = i" for i r
    by (auto dest!: dict_of_SomeD)
  show "map recommendation_id rs = selected_ids plan"
    using a by (induction rule: list_all2_induct) (use d in auto)
  show "set rs \<subseteq> set (recommendations plan)"
    using a by (induction rule: list_all2_induct) (use d in auto)
qed

lemma read_config_Inr:
  "read_config hp p n w = (Inr t, w') \<Longrightarrow> \<exists>b w0. read_file hp p n w0 = (Inr b, w') \<and> utf8_encode t = Inr b"
  by (auto simp: read_config_def tryW_def bindW_Inr dest: utf8_encode_decode split: prod.splits sum.splits if_splits)

lemma identity_guard_Inr:
  "identity_guard hp report w = (Inr u, w') \<Longrightarrow> \<exists>o0. identify hp w = (Inr o0, w') \<and> hi_host_id o0 = hi_host_id (host report)
    \<and> hi_kind o0 = hi_kind (host report) \<and> hi_fingerprint o0 = hi_fingerprint (host report)"
  by (auto simp: identity_guard_def bindW_Inr)

lemma attach_Inr: "attach plan cs w = (Inr plan', w') \<Longrightarrow> plan' = plan\<lparr>op_change_set := Some cs\<rparr> \<and> changes cs \<noteq> []"
  by (auto simp: attach_def bindW_Inr)

lemma map_sort_key: "map f (sort_key f xs) = sort (map f xs)"
proof -
  have "map f (insort_key f x ys) = insort (f x) (map f ys)" for x ys by (induction ys) auto
  then show ?thesis by (induction xs) auto
qed

text \<open>What a successful \<open>build_opencode\<close> went through, in the order of the code.\<close>

lemma build_opencode_InrD:
  assumes "build_opencode rt supported limit hp plan report w = (Inr plan', w')"
  obtains selected info path w1 w2 content b snap cs where
    "op_change_set plan = None" "stable_hash rt (diagnostic_report_json rt report) = Inr (report_hash plan)"
    "selected_ids plan \<noteq> []"
    "selected_of plan = Inr selected" "\<forall>r\<in>set selected. selectable r \<and> rc_target r = path"
    "opencode report = Some info" "active_config info = Some path"
    "\<exists>h. identify hp w1 = (Inr h, w2) \<and> hi_host_id h = hi_host_id (host report) \<and> hi_kind h = hi_kind (host report)
      \<and> hi_fingerprint h = hi_fingerprint (host report)"
    "\<exists>w0 w3. read_file hp path limit w0 = (Inr b, w3)" "utf8_encode content = Inr b"
    "snap = \<lparr>snap_path = path, snap_content = content, snap_sha256 = sha256 rt b\<rparr>"
    "plan_opencode rt supported report selected snap = Inr cs"
    "plan' = plan\<lparr>op_change_set := Some cs\<rparr>" "changes cs \<noteq> []"
proof -
  from assms [unfolded build_opencode_def] obtain u w1 where g: "plan_guards rt plan report w = (Inr u, w1)"
    and k1: "bindW (liftR (chosen_opencode plan report)) (\<lambda>(selected, path).
     bindW (identity_guard hp report) (\<lambda>_.
     bindW (read_config hp path limit) (\<lambda>content.
     bindW (liftR (bindR (capture rt path content) (plan_opencode rt supported report selected))) (attach plan)))) w1
     = (Inr plan', w')"
    by (rule bindW_keep_Inr) (rule that)
  from k1 obtain selected path where ch: "chosen_opencode plan report = Inr (selected, path)"
    and k: "bindW (identity_guard hp report) (\<lambda>_. bindW (read_config hp path limit) (\<lambda>content.
     bindW (liftR (bindR (capture rt path content) (plan_opencode rt supported report selected))) (attach plan))) w1
     = (Inr plan', w')"
    by (rule bindW_keep_Inr) (auto intro: that split: prod.splits)
  have s: "selected_of plan = Inr selected" and e: "\<forall>r\<in>set selected. selectable r" and t: "\<forall>r\<in>set selected. rc_target r = path"
    and "(case opencode report of None \<Rightarrow> None | Some info \<Rightarrow> active_config info) = Some path"
    using ch by (auto simp: chosen_opencode_def bindR_eq_Inr split: option.splits)
  then obtain info where i: "opencode report = Some info" "active_config info = Some path"
    by (auto split: option.splits)
  from k obtain u2 w2 where w2: "identity_guard hp report w1 = (Inr u2, w2)" and k2: "bindW (read_config hp path limit) (\<lambda>content.
     bindW (liftR (bindR (capture rt path content) (plan_opencode rt supported report selected))) (attach plan)) w2
     = (Inr plan', w')"
    by (rule bindW_keep_Inr) (rule that)
  from k2 obtain content w3 where c: "read_config hp path limit w2 = (Inr content, w3)"
    and k3: "bindW (liftR (bindR (capture rt path content) (plan_opencode rt supported report selected))) (attach plan) w3
     = (Inr plan', w')"
    by (rule bindW_keep_Inr) (rule that)
  obtain b w0 where b: "read_file hp path limit w0 = (Inr b, w3)" "utf8_encode content = Inr b"
    using read_config_Inr [OF c] by blast
  have snap: "capture rt path content = Inr \<lparr>snap_path = path, snap_content = content, snap_sha256 = sha256 rt b\<rparr>"
    using b(2) by (simp add: capture_def)
  obtain cs where cs: "plan_opencode rt supported report selected \<lparr>snap_path = path, snap_content = content, snap_sha256 = sha256 rt b\<rparr> = Inr cs"
    "plan' = plan\<lparr>op_change_set := Some cs\<rparr>" "changes cs \<noteq> []"
    using k3 by (auto simp: snap bindW_Inr dest!: attach_Inr)
  show ?thesis
    using that [OF _ _ _ s _ i _ _ b(2) refl cs] plan_guards_Inr [OF g] e t identity_guard_Inr [OF w2] b(1) by blast
qed

text \<open>
  Property C16. A change set built for the selection of an OpenCode plan is made of exactly one change per
  selected recommendation, in the order of their ids; each is a recommendation of the plan that is
  actionable and free of conflicts, and replaces a value in the active configuration.  Every change is
  bound to the bytes the host has just served, the host is the one that was diagnosed, and the plan is
  otherwise the one that came in, bound to this report.
\<close>

theorem build_opencode_sound:
  assumes "build_opencode rt supported limit hp plan report w = (Inr plan', w')"
  shows "\<exists>cs path b. plan' = plan\<lparr>op_change_set := Some cs\<rparr>
    \<and> stable_hash rt (diagnostic_report_json rt report) = Inr (report_hash plan)
    \<and> (\<exists>info. opencode report = Some info \<and> active_config info = Some path)
    \<and> (\<exists>w1 h w2. identify hp w1 = (Inr h, w2) \<and> hi_host_id h = cs_host_id cs \<and> hi_fingerprint h = hi_fingerprint (host report))
    \<and> (\<exists>w3 w4. read_file hp path limit w3 = (Inr b, w4))
    \<and> selected_ids plan \<noteq> []
    \<and> map change_id (changes cs) = map (\<lambda>i. lit ''opencode:'' @ i) (sort (selected_ids plan))
    \<and> (\<forall>c\<in>set (changes cs). ch_target c = path \<and> before_hash c = Some (sha256 rt b) \<and> file_write c
        \<and> (\<exists>r\<in>set (recommendations plan). selectable r \<and> change_id c = lit ''opencode:'' @ recommendation_id r
            \<and> ch_after c = recommended_value r))"
  using assms
proof (rule build_opencode_InrD)
  fix selected info path w1 w2 content b snap cs
  assume s: "selected_of plan = Inr selected" and t: "\<forall>r\<in>set selected. selectable r \<and> rc_target r = path"
    and snap: "snap = \<lparr>snap_path = path, snap_content = content, snap_sha256 = sha256 rt b\<rparr>"
    and p: "plan_opencode rt supported report selected snap = Inr cs"
    and *: "stable_hash rt (diagnostic_report_json rt report) = Inr (report_hash plan)" "selected_ids plan \<noteq> []"
      "opencode report = Some info" "active_config info = Some path"
      "\<exists>h. identify hp w1 = (Inr h, w2) \<and> hi_host_id h = hi_host_id (host report) \<and> hi_kind h = hi_kind (host report)
        \<and> hi_fingerprint h = hi_fingerprint (host report)"
      "\<exists>w0 w3. read_file hp path limit w0 = (Inr b, w3)" "plan' = plan\<lparr>op_change_set := Some cs\<rparr>"
  obtain spans where l: "list_all2 (\<lambda>r c. plan_one spans snap r = Inr c) (selected_for snap selected) (changes cs)"
    and h: "cs_host_id cs = hi_host_id (host report)" using p by (rule plan_opencode_InrD)
  have all: "selected_for snap selected = sort_key recommendation_id selected"
    using t unfolding selected_for_def snap by (intro filter_True) (auto simp: selectable_def)
  have one: "change_id c = lit ''opencode:'' @ recommendation_id r \<and> ch_target c = path \<and> before_hash c = Some (sha256 rt b)
      \<and> file_write c \<and> ch_after c = recommended_value r" if "plan_one spans snap r = Inr c" for r c
    using that by (rule plan_one_InrD) (auto simp: snap file_write_def)
  have ids: "map change_id (changes cs) = map (\<lambda>r. lit ''opencode:'' @ recommendation_id r) (sort_key recommendation_id selected)"
    using l unfolding all by (induction rule: list_all2_induct) (use one in auto)
  have m: "map change_id (changes cs) = map (\<lambda>i. lit ''opencode:'' @ i) (sort (selected_ids plan))"
    unfolding selected_of_Inr(1) [OF s, symmetric] map_sort_key [symmetric] ids by simp
  have "\<exists>r\<in>set (recommendations plan). selectable r \<and> change_id c = lit ''opencode:'' @ recommendation_id r
      \<and> ch_after c = recommended_value r \<and> ch_target c = path \<and> before_hash c = Some (sha256 rt b) \<and> file_write c"
    if c: "c \<in> set (changes cs)" for c
  proof -
    obtain i where i: "i < length (changes cs)" "changes cs ! i = c" using c by (auto simp: in_set_conv_nth)
    let ?r = "sort_key recommendation_id selected ! i"
    have "plan_one spans snap ?r = Inr c" using list_all2_nthD2 [OF l i(1)] i(2) by (simp add: all)
    moreover have "?r \<in> set selected" using i(1) list_all2_lengthD [OF l] by (simp add: all) (metis nth_mem set_sort length_sort)
    ultimately obtain r where "r \<in> set selected" "plan_one spans snap r = Inr c" by blast
    then show ?thesis using one t selected_of_Inr(2) [OF s] by blast
  qed
  then show ?thesis using * h m by (intro exI [of _ cs] exI [of _ path] exI [of _ b]) (simp add: h, blast)
qed

section \<open>From the engine to the file\<close>

lemma select_recommendations_Inr:
  assumes "select_recommendations plan ids = Inr plan'"
  shows "plan' = plan\<lparr>selected_ids := sort ids, op_change_set := None\<rparr>" and "distinct ids"
    and "set ids \<subseteq> recommendation_id ` set (filter selectable (recommendations plan))"
  using assms by (auto simp: select_recommendations_def split: if_splits)

lemma generate_plan_Inr:
  "generate_plan rt v rules life pid report p now = Inr plan \<Longrightarrow> engine_evaluate rules report p = Inr (recommendations plan)"
  by (auto simp: generate_plan_def bindR_eq_Inr)

text \<open>
  Property C15. From diagnosis to file: when the engine's plan, restricted to any selection the user is
  allowed to make, is built into a change set, its edits never overlap.  Rendering them on the bytes the host served yields
  these bytes' text with every planned span replaced, one for each selected id.
\<close>

theorem selection_renders:
  assumes "generate_plan rt v rules life pid report p now = Inr plan0" and "select_recommendations plan0 ids = Inr plan"
    and "build_opencode rt supported limit hp plan report w = (Inr plan', w')"
  shows "\<exists>cs path b content es w3 w4. plan' = plan\<lparr>op_change_set := Some cs\<rparr> \<and> read_file hp path limit w3 = (Inr b, w4)
    \<and> utf8_decode b = Inr content \<and> mapR (edit_of content) (changes cs) = Inr es \<and> length es = length ids
    \<and> render_file_changes b (changes cs) = utf8_encode (edit_ref 0 content (sort es))"
  using assms(3)
proof (rule build_opencode_InrD)
  fix selected info path w1 w2 content b snap cs
  assume s: "selected_of plan = Inr selected" and t: "\<forall>r\<in>set selected. selectable r \<and> rc_target r = path"
    and snap: "snap = \<lparr>snap_path = path, snap_content = content, snap_sha256 = sha256 rt b\<rparr>"
    and p: "plan_opencode rt supported report selected snap = Inr cs" "changes cs \<noteq> []"
    and *: "plan' = plan\<lparr>op_change_set := Some cs\<rparr>" "\<exists>w0 w3. read_file hp path limit w0 = (Inr b, w3)" "utf8_encode content = Inr b"
  note sel = select_recommendations_Inr [OF assms(2)]
  have ids: "map recommendation_id selected = sort ids" using selected_of_Inr(1) [OF s] sel(1) by simp
  then have d: "distinct selected" "length selected = length ids"
    using sel(2) by (metis distinct_map distinct_sort, metis length_map length_sort)
  have sub: "set selected \<subseteq> set (filter actionable (recommendations plan0))"
    using selected_of_Inr(2) [OF s] sel(1) t by (auto simp: selectable_def)
  have "distinct (map setting_of (filter actionable (recommendations plan0)))"
    using resolve_conflicts_distinct(1) generate_plan_Inr [OF assms(1)] unfolding engine_evaluate_def by blast
  then have "inj_on setting_of (set selected)" using sub by (simp add: distinct_map) (blast intro: inj_on_subset)
  then have "inj_on setting_key (set selected)" using t by (auto simp: inj_on_def setting_of_def)
  moreover have all: "selected_for snap selected = sort_key recommendation_id selected"
    using t unfolding selected_for_def snap by (intro filter_True) (auto simp: selectable_def)
  ultimately have dk: "distinct (map setting_key (selected_for snap selected))" using d(1) by (simp add: distinct_map)
  have c: "snap_content snap = content" by (simp add: snap)
  have "utf8_encode (snap_content snap) = Inr b" using *(3) by (simp add: c)
  from plan_rendering [OF p(1) this p(2)] dk obtain es where es: "mapR (edit_of content) (changes cs) = Inr es"
    "render_file_changes b (changes cs) = utf8_encode (edit_ref 0 content (sort es))" by (auto simp: c)
  have "length (changes cs) = length ids" using p(1) all d(2) by (auto elim!: plan_opencode_InrD dest: list_all2_lengthD)
  then have "length es = length ids" using mapR_Inr_length [OF es(1)] by simp
  then show ?thesis using * es utf8_decode_encode by blast
qed

section \<open>The Ollama change plan\<close>

lemma build_ollama_InrD:
  assumes "build_ollama rt pol supported limit hp plan report w = (Inr plan', w')"
  obtains selected existing w1 w2 cs where
    "stable_hash rt (diagnostic_report_json rt report) = Inr (report_hash plan)" "selected_ids plan \<noteq> []"
    "selected_of plan = Inr selected" "\<forall>r\<in>set selected. ollama_selectable r"
    "\<exists>w1 w2. root_apply_allowed hp w1 = (Inr True, w2)" "current_drop_in hp limit w1 = (Inr existing, w2)"
    "plan_ollama rt pol supported report selected existing = Inr cs"
    "plan' = plan\<lparr>op_change_set := Some cs\<rparr>" "changes cs \<noteq> []"
proof -
  from assms [unfolded build_ollama_def] obtain u w1 where g: "plan_guards rt plan report w = (Inr u, w1)"
    and k1: "bindW (liftR (selected_of plan)) (\<lambda>selected.
     bindW (guardW (\<forall>r\<in>set selected. ollama_selectable r) (AdapterError ''selection_invalid'')) (\<lambda>_.
     bindW (identity_guard hp report) (\<lambda>_.
     bindW (root_apply_allowed hp) (\<lambda>allowed.
     bindW (guardW allowed (AdapterError ''privileged_helper_unavailable'')) (\<lambda>_.
     bindW (current_drop_in hp limit) (\<lambda>content.
     bindW (liftR (plan_ollama rt pol supported report selected content)) (attach plan))))))) w1 = (Inr plan', w')"
    by (rule bindW_keep_Inr) (rule that)
  from k1 obtain selected where s: "selected_of plan = Inr selected"
    and k2: "bindW (guardW (\<forall>r\<in>set selected. ollama_selectable r) (AdapterError ''selection_invalid'')) (\<lambda>_.
     bindW (identity_guard hp report) (\<lambda>_.
     bindW (root_apply_allowed hp) (\<lambda>allowed.
     bindW (guardW allowed (AdapterError ''privileged_helper_unavailable'')) (\<lambda>_.
     bindW (current_drop_in hp limit) (\<lambda>content.
     bindW (liftR (plan_ollama rt pol supported report selected content)) (attach plan)))))) w1 = (Inr plan', w')"
    by (rule bindW_keep_Inr) (simp add: that)
  from k2 have o: "\<forall>r\<in>set selected. ollama_selectable r"
    and k3: "bindW (identity_guard hp report) (\<lambda>_.
     bindW (root_apply_allowed hp) (\<lambda>allowed.
     bindW (guardW allowed (AdapterError ''privileged_helper_unavailable'')) (\<lambda>_.
     bindW (current_drop_in hp limit) (\<lambda>content.
     bindW (liftR (plan_ollama rt pol supported report selected content)) (attach plan))))) w1 = (Inr plan', w')"
    by (rule bindW_keep_Inr, simp)+
  from k3 obtain u2 w2 where k4: "bindW (root_apply_allowed hp) (\<lambda>allowed.
     bindW (guardW allowed (AdapterError ''privileged_helper_unavailable'')) (\<lambda>_.
     bindW (current_drop_in hp limit) (\<lambda>content.
     bindW (liftR (plan_ollama rt pol supported report selected content)) (attach plan)))) w2 = (Inr plan', w')"
    by (rule bindW_keep_Inr) (rule that)
  then obtain al w3 where al: "root_apply_allowed hp w2 = (Inr al, w3)"
    and k5: "bindW (guardW al (AdapterError ''privileged_helper_unavailable'')) (\<lambda>_.
     bindW (current_drop_in hp limit) (\<lambda>content.
     bindW (liftR (plan_ollama rt pol supported report selected content)) (attach plan))) w3 = (Inr plan', w')"
    by (rule bindW_keep_Inr) (rule that)
  from k5 have al2: al and k2: "bindW (current_drop_in hp limit) (\<lambda>content.
     bindW (liftR (plan_ollama rt pol supported report selected content)) (attach plan)) w3 = (Inr plan', w')"
    by (rule bindW_keep_Inr, simp)+
  have r: "root_apply_allowed hp w2 = (Inr True, w3)" using al al2 by simp
  from k2 obtain existing w4 where cur: "current_drop_in hp limit w3 = (Inr existing, w4)"
    and k6: "bindW (liftR (plan_ollama rt pol supported report selected existing)) (attach plan) w4 = (Inr plan', w')"
    by (rule bindW_keep_Inr) (rule that)
  from k6 obtain cs where cs: "plan_ollama rt pol supported report selected existing = Inr cs"
    "plan' = plan\<lparr>op_change_set := Some cs\<rparr>" "changes cs \<noteq> []" by (auto simp: bindW_Inr dest!: attach_Inr)
  show ?thesis by (rule that [OF _ _ s o _ cur cs]) (use plan_guards_Inr [OF g] r in blast)+
qed

lemma current_drop_in_Inr:
  assumes "current_drop_in hp limit w = (Inr existing, w')"
  shows "\<exists>st w1. stat_file hp drop_in_path w = (Inr st, w1) \<and> \<not> is_symlink st \<and> st_path st = drop_in_path
    \<and> (existing = None \<longleftrightarrow> \<not> st_exists st)
    \<and> (\<forall>t. existing = Some t \<longrightarrow> (\<exists>b w2 w3. read_file hp drop_in_path limit w2 = (Inr b, w3) \<and> utf8_encode t = Inr b))"
  using assms by (auto simp: current_drop_in_def bindW_Inr dest!: read_config_Inr split: if_splits) blast+

text \<open>
  Property C17. A change set built for an Ollama selection is one root change of the program's own drop-in,
  which is no symbolic link: it creates the file if the host reported none and otherwise replaces the text that the host has
  just served, to whose bytes it is bound.  It is built only while the privileged helper allows it.
\<close>

theorem build_ollama_sound:
  assumes "build_ollama rt pol supported limit hp plan report w = (Inr plan', w')"
  shows "\<exists>cs c st w1 w2. plan' = plan\<lparr>op_change_set := Some cs\<rparr> \<and> changes cs = [c] \<and> requires_root c \<and> ch_target c = drop_in_path
    \<and> stat_file hp drop_in_path w1 = (Inr st, w2) \<and> \<not> is_symlink st
    \<and> (\<exists>w3 w4. root_apply_allowed hp w3 = (Inr True, w4))
    \<and> (if st_exists st
       then operation c = REPLACE_FILE \<and> (\<exists>b w5 w6. read_file hp drop_in_path limit w5 = (Inr b, w6) \<and> before_hash c = Some (sha256 rt b))
       else operation c = CREATE_FILE \<and> before_hash c = None)"
  using assms
proof (rule build_ollama_InrD)
  fix selected existing w1 w2 cs
  assume p: "plan_ollama rt pol supported report selected existing = Inr cs" "changes cs \<noteq> []"
    and cur: "current_drop_in hp limit w1 = (Inr existing, w2)"
    and *: "plan' = plan\<lparr>op_change_set := Some cs\<rparr>" "\<exists>w1 w2. root_apply_allowed hp w1 = (Inr True, w2)"
  obtain kvs c where d: "drop_in_change rt (report_id report) kvs existing = Inr c" and c: "changes cs = [c]"
    using plan_ollama_InrD [OF p(1)] p(2) by metis
  obtain st w3 where st: "stat_file hp drop_in_path w1 = (Inr st, w3)" "\<not> is_symlink st" "existing = None \<longleftrightarrow> \<not> st_exists st"
    and rd: "\<And>t. existing = Some t \<Longrightarrow> \<exists>b w2 w3. read_file hp drop_in_path limit w2 = (Inr b, w3) \<and> utf8_encode t = Inr b"
    using current_drop_in_Inr [OF cur] by (elim exE conjE) (rule that; blast)
  note f = drop_in_change_InrD [OF d]
  have "\<exists>b w5 w6. read_file hp drop_in_path limit w5 = (Inr b, w6) \<and> before_hash c = Some (sha256 rt b)" if z: "st_exists st"
  proof -
    obtain t where t: "existing = Some t" using st(3) z by (cases existing) auto
    then show ?thesis using rd [OF t] d by (fastforce simp: drop_in_change_def bindR_eq_Inr Let_def)
  qed
  then show ?thesis using * c st f
    by (intro exI [of _ cs] exI [of _ c] exI [of _ st] exI [of _ w1] exI [of _ w3]) auto
qed

section \<open>A selection, built\<close>

definition advised_host :: host_port where
  "advised_host = \<lparr>identify = retW sample_host,
     stat_file = (\<lambda>p. retW \<lparr>st_path = p, st_exists = False, st_sha256 = None, st_mode = None, st_uid = None, st_gid = None,
       is_symlink = False\<rparr>),
     read_file = (\<lambda>p n. liftR (if p = lit ''/c'' then utf8_encode (snap_content advised_snapshot) else Inl OSError)),
     root_apply_allowed = retW True\<rparr>"

definition advised_draft :: "optimization_plan res" where
  "advised_draft = generate_plan sample_runtime catalog_version default_catalog 30 (lit ''plan'') advised_report agent_profile 0"

definition advised_selection :: "optimization_plan res" where
  "advised_selection = bindR advised_draft (\<lambda>p. select_recommendations p [lit ''agent.compaction.auto:agent''])"

definition advised_build :: "exn + optimization_plan" where
  "advised_build = (case advised_selection of Inl e \<Rightarrow> Inl e | Inr p \<Rightarrow>
     fst (build_opencode sample_runtime supported_opencode 1048576 advised_host p advised_report (toy_world Map.empty)))"

lemma advised_build_ok: "case advised_build of Inl _ \<Rightarrow> False | Inr p \<Rightarrow> True"
  by code_simp

lemma advised_chain:
  obtains p0 p p' w' where "generate_plan sample_runtime catalog_version default_catalog 30 (lit ''plan'') advised_report agent_profile 0 = Inr p0"
    "select_recommendations p0 [lit ''agent.compaction.auto:agent''] = Inr p"
    "build_opencode sample_runtime supported_opencode 1048576 advised_host p advised_report (toy_world Map.empty) = (Inr p', w')"
    "advised_selection = Inr p" "advised_build = Inr p'"
proof -
  obtain p' where b: "advised_build = Inr p'" using advised_build_ok by (auto split: sum.splits)
  then obtain p where s: "advised_selection = Inr p" by (auto simp: advised_build_def split: sum.splits)
  then obtain p0 where d: "advised_draft = Inr p0" "select_recommendations p0 [lit ''agent.compaction.auto:agent''] = Inr p"
    unfolding advised_selection_def bindR_eq_Inr by blast
  obtain r w' where r: "build_opencode sample_runtime supported_opencode 1048576 advised_host p advised_report (toy_world Map.empty) = (r, w')"
    by fastforce
  then have "r = Inr p'" using b [unfolded advised_build_def s] by simp
  with that [OF d(1) [unfolded advised_draft_def] d(2) _ s b] r show ?thesis by simp
qed

theorem build_opencode_sound_witness:
  "\<exists>p p' cs. advised_selection = Inr p \<and> advised_build = Inr p' \<and> p' = p\<lparr>op_change_set := Some cs\<rparr>
    \<and> map change_id (changes cs) = map (\<lambda>i. lit ''opencode:'' @ i) (sort (selected_ids p))"
proof -
  obtain p0 p p' w' where "build_opencode sample_runtime supported_opencode 1048576 advised_host p advised_report (toy_world Map.empty) = (Inr p', w')"
    "advised_selection = Inr p" "advised_build = Inr p'" by (rule advised_chain)
  then show ?thesis using build_opencode_sound by blast
qed

theorem selection_renders_witness:
  "\<exists>p' cs es. advised_build = Inr p' \<and> op_change_set p' = Some cs \<and> length (es :: (int \<times> int \<times> str) list) = 1
    \<and> (\<exists>b content. mapR (edit_of content) (changes cs) = Inr es
      \<and> render_file_changes b (changes cs) = utf8_encode (edit_ref 0 content (sort es)))"
proof -
  obtain p0 p p' w' where c: "generate_plan sample_runtime catalog_version default_catalog 30 (lit ''plan'') advised_report agent_profile 0 = Inr p0"
    "select_recommendations p0 [lit ''agent.compaction.auto:agent''] = Inr p"
    "build_opencode sample_runtime supported_opencode 1048576 advised_host p advised_report (toy_world Map.empty) = (Inr p', w')"
    and "advised_build = Inr p'" by (rule advised_chain)
  then show ?thesis using selection_renders [OF c] by fastforce
qed

definition ollama_draft :: optimization_plan where
  "ollama_draft = \<lparr>plan_id = lit ''p'', op_report_id = lit ''r'',
     report_hash = (case stable_hash sample_runtime (diagnostic_report_json sample_runtime sample_ollama_report) of Inl _ \<Rightarrow> [] | Inr h \<Rightarrow> h),
     op_profile = agent_profile, rule_catalog_version = catalog_version, recommendations = sample_ollama_recommendations,
     selected_ids = [lit ''r1''], op_change_set = None, op_status = DRAFT, created_at = 0, expires_at = Some 30,
     backup_policy = no_encryption\<rparr>"

definition ollama_host :: host_port where
  "ollama_host = advised_host\<lparr>identify := retW (host sample_ollama_report)\<rparr>"

definition ollama_build :: "exn + optimization_plan" where
  "ollama_build = fst (build_ollama sample_runtime [(lit ''OLLAMA_MAX_QUEUE'', 1, 512)] supported_ollama 1048576 ollama_host
     ollama_draft sample_ollama_report (toy_world Map.empty))"

lemma ollama_build_ok: "case ollama_build of Inl _ \<Rightarrow> False | Inr p \<Rightarrow> True"
  by code_simp

theorem build_ollama_sound_witness:
  "\<exists>p' cs c. ollama_build = Inr p' \<and> op_change_set p' = Some cs \<and> changes cs = [c] \<and> operation c = CREATE_FILE"
proof -
  obtain p' where b: "ollama_build = Inr p'" using ollama_build_ok by (auto split: sum.splits)
  obtain r w' where r: "build_ollama sample_runtime [(lit ''OLLAMA_MAX_QUEUE'', 1, 512)] supported_ollama 1048576 ollama_host
     ollama_draft sample_ollama_report (toy_world Map.empty) = (r, w')" by fastforce
  then have "r = Inr p'" using b by (simp add: ollama_build_def)
  with r have "build_ollama sample_runtime [(lit ''OLLAMA_MAX_QUEUE'', 1, 512)] supported_ollama 1048576 ollama_host
     ollama_draft sample_ollama_report (toy_world Map.empty) = (Inr p', w')" by simp
  from build_ollama_sound [OF this] obtain cs c st w1 w2 where "p' = ollama_draft\<lparr>op_change_set := Some cs\<rparr>" "changes cs = [c]"
    "stat_file ollama_host drop_in_path w1 = (Inr st, w2)" "\<not> st_exists st \<longrightarrow> operation c = CREATE_FILE" by auto
  then show ?thesis using b by (auto simp: ollama_host_def advised_host_def)
qed

end
