(* ===== verification/JsonDoc.thy ===== *)
theory JsonDoc
  imports Json "HOL-Library.Multiset"
begin

text \<open>
  \<open>json.loads\<close> on a whole document, as CPython's scanner reads it.  Objects become Python dictionaries: a
  repeated key keeps its first position and its last value.  The three functions carry fuel; twice the
  length of the text is always enough (\<open>jloads_total\<close>).
\<close>

definition jws :: "str \<Rightarrow> str" where
  "jws s = dropWhile (\<lambda>c. c \<in> {32, 9, 10, 13}) s"

text \<open>The string literal behind its opening quote.\<close>

fun jstring_end :: "bool \<Rightarrow> str \<Rightarrow> (str \<times> str) option" where
  "jstring_end esc [] = None"
| "jstring_end esc (c # cs) =
     (if \<not> esc \<and> c = 34 then Some ([], cs)
      else map_option (\<lambda>(b, r). (c # b, r)) (jstring_end (\<not> esc \<and> c = 92) cs))"

definition jstring :: "str \<Rightarrow> (str \<times> str) res" where
  "jstring s = (case jstring_end False s of
      None \<Rightarrow> Inl JSONDecodeError
    | Some (b, r) \<Rightarrow> (case json_unescape b of None \<Rightarrow> Inl JSONDecodeError | Some v \<Rightarrow> Inr (v, r)))"

text \<open>The longest number at the front of the text.\<close>

definition jnumber :: "str \<Rightarrow> (json \<times> str) res" where
  "jnumber t =
     (let sg = (if startswith t [45] then [45] else []) in
      case scan_int (drop (length sg) t) of
        None \<Rightarrow> Inl JSONDecodeError
      | Some (ds, r) \<Rightarrow>
          (let (fr, r1) = scan_frac r; (ex, r2) = scan_exp r1 in
           if fr = [] \<and> ex = [] then
             (if too_many_digits ds then Inl ValueError
              else Inr (JInt (if sg = [] then dec_val ds else - dec_val ds), r2))
           else Inr (JFloat (sg @ ds @ fr @ ex), r2)))"

definition jword :: "str \<Rightarrow> (json \<times> str) option" where
  "jword s =
     (if startswith s (lit ''null'') then Some (JNull, drop 4 s)
      else if startswith s (lit ''true'') then Some (JBool True, drop 4 s)
      else if startswith s (lit ''false'') then Some (JBool False, drop 5 s)
      else if startswith s (lit ''NaN'') then Some (JFloat (lit ''NaN''), drop 3 s)
      else if startswith s (lit ''Infinity'') then Some (JFloat (lit ''Infinity''), drop 8 s)
      else if startswith s (lit ''-Infinity'') then Some (JFloat (lit ''-Infinity''), drop 9 s)
      else None)"

definition dict_items :: "('k \<times> 'v) list \<Rightarrow> ('k \<times> 'v) list" where
  "dict_items kvs = map (\<lambda>k. (k, the (dict_of kvs k))) (dict_keys (map fst kvs))"

text \<open>A key and its colon.\<close>

definition jkey :: "str \<Rightarrow> (str \<times> str) res" where
  "jkey s = (if \<not> startswith s [34] then Inl JSONDecodeError
     else bindR (jstring (tl s)) (\<lambda>(k, r).
       if startswith (jws r) [58] then Inr (k, jws (tl (jws r))) else Inl JSONDecodeError))"

text \<open>After a member or an element: the end of the group, or a comma and the next one.\<close>

definition jnext :: "int \<Rightarrow> str \<Rightarrow> (str + str) res" where
  "jnext close s = (if startswith (jws s) [close] then Inr (Inl (tl (jws s)))
     else if startswith (jws s) [44] then Inr (Inr (jws (tl (jws s))))
     else Inl JSONDecodeError)"

fun jvalue :: "nat \<Rightarrow> str \<Rightarrow> (json \<times> str) res"
  and jmembers :: "nat \<Rightarrow> str \<Rightarrow> ((str \<times> json) list \<times> str) res"
  and jelements :: "nat \<Rightarrow> str \<Rightarrow> (json list \<times> str) res" where
  "jvalue 0 s = Inl Diverges"
| "jvalue (Suc n) s =
     (if startswith s [34] then bindR (jstring (tl s)) (\<lambda>(v, r). Inr (JStr v, r))
      else if startswith s [123] then
        (if startswith (jws (tl s)) [125] then Inr (JObj [], tl (jws (tl s)))
         else bindR (jmembers n (jws (tl s))) (\<lambda>(kvs, r). Inr (JObj (dict_items kvs), r)))
      else if startswith s [91] then
        (if startswith (jws (tl s)) [93] then Inr (JArr [], tl (jws (tl s)))
         else bindR (jelements n (jws (tl s))) (\<lambda>(vs, r). Inr (JArr vs, r)))
      else (case jword s of Some x \<Rightarrow> Inr x | None \<Rightarrow> jnumber s))"
| "jmembers 0 s = Inl Diverges"
| "jmembers (Suc n) s =
     bindR (jkey s) (\<lambda>(k, r). bindR (jvalue n r) (\<lambda>(v, r). bindR (jnext 125 r) (\<lambda>x.
       case x of Inl r \<Rightarrow> Inr ([(k, v)], r)
       | Inr r \<Rightarrow> bindR (jmembers n r) (\<lambda>(kvs, r). Inr ((k, v) # kvs, r)))))"
| "jelements 0 s = Inl Diverges"
| "jelements (Suc n) s =
     bindR (jvalue n s) (\<lambda>(v, r). bindR (jnext 93 r) (\<lambda>x.
       case x of Inl r \<Rightarrow> Inr ([v], r)
       | Inr r \<Rightarrow> bindR (jelements n r) (\<lambda>(vs, r). Inr (v # vs, r))))"

definition jloads :: "str \<Rightarrow> json res" where
  "jloads s = (if startswith s [65279] then Inl JSONDecodeError
     else bindR (jvalue (2 * length s + 2) (jws s)) (\<lambda>(v, r).
       if jws r \<noteq> [] then Inl JSONDecodeError else Inr v))"

section \<open>Consumption and totality\<close>

lemma jws_length: "length (jws s) \<le> length s"
  by (simp add: jws_def length_dropWhile_le)

lemma jstring_end_length: "jstring_end esc s = Some (b, r) \<Longrightarrow> length r < length s"
  by (induction esc s arbitrary: b rule: jstring_end.induct) (auto split: if_splits simp: less_Suc_eq)

lemma jstring_length: "jstring s = Inr (v, r) \<Longrightarrow> length r < length s"
  by (auto simp: jstring_def dest: jstring_end_length split: option.splits)

lemma jstring_err: "jstring s = Inl e \<Longrightarrow> e = JSONDecodeError"
  by (auto simp: jstring_def split: option.splits)

lemma scan_lengths:
  "scan_int s = Some (ds, r) \<Longrightarrow> length r < length s"
  "length (snd (scan_frac s)) \<le> length s"
  "length (snd (scan_exp s)) \<le> length s"
proof -
  have d: "length (dropWhile isdigit t) \<le> length t" for t by (rule length_dropWhile_le)
  show "scan_int s = Some (ds, r) \<Longrightarrow> length r < length s"
    using d by (cases s) (auto simp: scan_int_def scan_digits_def isdigit_def less_Suc_eq_le split: if_splits)
  show "length (snd (scan_frac s)) \<le> length s"
    using d by (cases s) (auto simp: scan_frac_def scan_digits_def le_SucI)
  have e: "length (dropWhile isdigit (drop k t)) \<le> length t" for k t
    using d [of "drop k t"] by simp
  show "length (snd (scan_exp s)) \<le> length s"
    using e by (cases s) (auto simp: scan_exp_def scan_digits_def Let_def le_SucI)
qed

lemma jnumber_length:
  assumes "jnumber s = Inr (v, r)"
  shows "length r < length s"
proof -
  let ?sg = "if startswith s [45] then [45] else [] :: str"
  obtain ds r0 where i: "scan_int (drop (length ?sg) s) = Some (ds, r0)"
    using assms by (auto simp: jnumber_def Let_def split: option.splits)
  have "r = snd (scan_exp (snd (scan_frac r0)))"
    using assms i by (auto simp: jnumber_def Let_def split: prod.splits if_splits)
  then have "length r \<le> length r0"
    using scan_lengths(2) [of r0] scan_lengths(3) [of "snd (scan_frac r0)"] by simp
  then show ?thesis using scan_lengths(1) [OF i] by simp
qed

lemma jnumber_err: "jnumber s = Inl e \<Longrightarrow> e = JSONDecodeError \<or> e = ValueError"
  by (auto simp: jnumber_def Let_def split: option.splits prod.splits if_splits)

lemma jword_length: "jword s = Some (v, r) \<Longrightarrow> length r < length s"
  by (cases s) (auto simp: jword_def startswith_def split: if_splits)

lemma startswith_Cons: "startswith s [c] \<Longrightarrow> length (tl s) < length s"
  by (cases s) (auto simp: startswith_def)

lemma jkey_length: "jkey s = Inr (k, r) \<Longrightarrow> length r < length s"
proof -
  assume "jkey s = Inr (k, r)"
  then obtain t where s: "startswith s [34]" "jstring (tl s) = Inr (k, t)" "r = jws (tl (jws t))"
    by (auto simp: jkey_def bindR_eq_Inr split: if_splits)
  have "length r \<le> length t" using s(3) jws_length [of "tl (jws t)"] jws_length [of t] by simp
  then show ?thesis using startswith_Cons [OF s(1)] jstring_length [OF s(2)] by simp
qed

lemma jkey_err: "jkey s = Inl e \<Longrightarrow> e = JSONDecodeError"
  by (auto simp: jkey_def bindR_eq_Inl dest: jstring_err split: if_splits)

lemma jnext_length: "jnext c s = Inr x \<Longrightarrow> length (case x of Inl r \<Rightarrow> r | Inr r \<Rightarrow> r) < length s"
proof -
  assume x: "jnext c s = Inr x"
  then have "startswith (jws s) [c] \<or> startswith (jws s) [44]" by (auto simp: jnext_def split: if_splits)
  then have "length (tl (jws s)) < length (jws s)" by (auto dest: startswith_Cons)
  with jws_length [of s] have "length (tl (jws s)) < length s" by simp
  then show ?thesis using x jws_length [of "tl (jws s)"]
    by (auto simp: jnext_def split: if_splits)
qed

lemma jnext_err: "jnext c s = Inl e \<Longrightarrow> e = JSONDecodeError"
  by (auto simp: jnext_def split: if_splits)

text \<open>A step of a group: nothing to do, or the rest of the group.\<close>

lemma bindR_next_Inl:
  "bindR g (\<lambda>x. case x of Inl r \<Rightarrow> Inr (k r) | Inr s \<Rightarrow> h s) = Inl e \<longleftrightarrow>
     g = Inl e \<or> (\<exists>t. g = Inr (Inr t) \<and> h t = Inl e)"
proof (cases g)
  case (Inr x)
  then show ?thesis by (cases x) auto
qed simp

lemma jparse_length:
  "jvalue n s = Inr (v, r) \<Longrightarrow> length r < length s"
  "jmembers n s = Inr (kvs, r) \<Longrightarrow> length r < length s"
  "jelements n s = Inr (vs, r) \<Longrightarrow> length r < length s"
proof (induction n s and n s and n s arbitrary: v r and kvs r and vs r rule: jvalue_jmembers_jelements.induct)
  case (2 n s)
  have l: "length (jws (tl s)) < length s" if "startswith s [c]" for c
    using startswith_Cons [OF that] jws_length [of "tl s"] by simp
  have l': "length (tl (jws (tl s))) < length s" if "startswith s [c]" for c using l [OF that] by simp
  show ?case using 2 l [of 123] l [of 91] l' [of 123] l' [of 91]
    by (auto simp: bindR_eq_Inr split: if_splits option.splits dest!: jstring_length jnumber_length jword_length)
next
  case (4 n s)
  then obtain k t v u x where k: "jkey s = Inr (k, t)" and v: "jvalue n t = Inr (v, u)" and x: "jnext 125 u = Inr x"
    and r: "(case x of Inl r \<Rightarrow> Inr ([(k, v)], r) | Inr r \<Rightarrow> bindR (jmembers n r) (\<lambda>(kvs, r). Inr ((k, v) # kvs, r))) = Inr (kvs, r)"
    by (auto simp: bindR_eq_Inr)
  have "length u < length s" using jkey_length [OF k] "4.IH"(1) [OF v] by simp
  then show ?case using r jnext_length [OF x] "4.IH"(2)
    by (cases x) (fastforce simp: bindR_eq_Inr)+
next
  case (6 n s)
  then obtain v u x where v: "jvalue n s = Inr (v, u)" and x: "jnext 93 u = Inr x"
    and r: "(case x of Inl r \<Rightarrow> Inr ([v], r) | Inr r \<Rightarrow> bindR (jelements n r) (\<lambda>(vs, r). Inr (v # vs, r))) = Inr (vs, r)"
    by (auto simp: bindR_eq_Inr)
  have "length u < length s" using "6.IH"(1) [OF v] .
  then show ?case using r jnext_length [OF x] "6.IH"(2)
    by (cases x) (fastforce simp: bindR_eq_Inr)+
qed auto


lemma jparse_total:
  "2 * length s < n \<Longrightarrow> jvalue n s \<noteq> Inl Diverges"
  "2 * length s + 1 < n \<Longrightarrow> jmembers n s \<noteq> Inl Diverges"
  "2 * length s + 1 < n \<Longrightarrow> jelements n s \<noteq> Inl Diverges"
proof (induction n s and n s and n s rule: jvalue_jmembers_jelements.induct)
  case (2 n s)
  have l: "2 * length (jws (tl s)) + 1 < n" if "startswith s [c]" for c
    using startswith_Cons [OF that] jws_length [of "tl s"] 2 by simp
  show ?case using 2 l [of 123] l [of 91]
    by (auto simp: bindR_eq_Inl split: if_splits option.splits dest: jstring_err jnumber_err)
next
  case (4 n s)
  show ?case
  proof
    assume d: "jmembers (Suc n) s = Inl Diverges"
    have "jkey s \<noteq> Inl Diverges" by (auto dest: jkey_err)
    then obtain k t where k: "jkey s = Inr (k, t)" using d by (auto simp: bindR_eq_Inl)
    then have t: "length t < length s" by (rule jkey_length)
    then have "jvalue n t \<noteq> Inl Diverges" using "4.IH"(1) "4.prems" by simp
    then obtain v u where v: "jvalue n t = Inr (v, u)" using d k by (auto simp: bindR_eq_Inl)
    have "jnext 125 u \<noteq> Inl Diverges" by (auto dest: jnext_err)
    then obtain r where x: "jnext 125 u = Inr (Inr r)" and m: "jmembers n r = Inl Diverges"
      using d k v by (auto simp: bindR_next_Inl bindR_eq_Inl [of "jmembers _ _"])
    have "length r < length u" using jnext_length [OF x] by simp
    then show False using m "4.IH"(2) "4.prems" t jparse_length(1) [OF v] by simp
  qed
next
  case (6 n s)
  show ?case
  proof
    assume d: "jelements (Suc n) s = Inl Diverges"
    have "jvalue n s \<noteq> Inl Diverges" using "6.IH"(1) "6.prems" by simp
    then obtain v u where v: "jvalue n s = Inr (v, u)" using d by (auto simp: bindR_eq_Inl)
    have "jnext 93 u \<noteq> Inl Diverges" by (auto dest: jnext_err)
    then obtain r where x: "jnext 93 u = Inr (Inr r)" and m: "jelements n r = Inl Diverges"
      using d v by (auto simp: bindR_next_Inl bindR_eq_Inl [of "jelements _ _"])
    have "length r < length u" using jnext_length [OF x] by simp
    then show False using m "6.IH"(2) "6.prems" jparse_length(1) [OF v] by simp
  qed
qed auto

lemma jloads_total: "jloads s \<noteq> Inl Diverges"
proof -
  have "jvalue (2 * length s + 2) (jws s) \<noteq> Inl Diverges"
    using jws_length [of s] by (intro jparse_total(1)) simp
  then show ?thesis by (auto simp: jloads_def bindR_eq_Inl split: if_splits)
qed


section \<open>More fuel changes nothing\<close>

lemma bindR_defined: "bindR a k \<noteq> Inl Diverges \<Longrightarrow> a \<noteq> Inl Diverges"
  by auto

lemma jparse_more:
  "n \<le> m \<Longrightarrow> jvalue n s \<noteq> Inl Diverges \<Longrightarrow> jvalue m s = jvalue n s"
  "n \<le> m \<Longrightarrow> jmembers n s \<noteq> Inl Diverges \<Longrightarrow> jmembers m s = jmembers n s"
  "n \<le> m \<Longrightarrow> jelements n s \<noteq> Inl Diverges \<Longrightarrow> jelements m s = jelements n s"
proof (induction n s and n s and n s arbitrary: m and m and m rule: jvalue_jmembers_jelements.induct)
  case (2 n s)
  then obtain k where m: "m = Suc k" "n \<le> k" by (cases m) auto
  show ?case
  proof (cases "startswith s [123] \<and> \<not> startswith s [34] \<and> \<not> startswith (jws (tl s)) [125]")
    case True
    then have "jmembers n (jws (tl s)) \<noteq> Inl Diverges" using "2.prems" by auto
    with True "2.IH"(1) [OF _ _ _ m(2)] show ?thesis by (simp add: m)
  next
    case o: False
    show ?thesis
    proof (cases "startswith s [91] \<and> \<not> startswith s [34] \<and> \<not> startswith s [123] \<and> \<not> startswith (jws (tl s)) [93]")
      case True
      then have "jelements n (jws (tl s)) \<noteq> Inl Diverges" using "2.prems" by auto
      with True "2.IH"(2) [OF _ _ _ _ m(2)] show ?thesis by (simp add: m)
    next
      case False
      with o show ?thesis by (auto simp: m)
    qed
  qed
next
  case (4 n s)
  then obtain k where m: "m = Suc k" "n \<le> k" by (cases m) auto
  show ?case
  proof (cases "jkey s")
    case (Inl e)
    then show ?thesis by (simp add: m)
  next
    case (Inr x)
    obtain key t where x: "x = (key, t)" by fastforce
    have v: "jvalue k t = jvalue n t" using "4.prems" Inr x by (intro "4.IH"(1) [OF m(2)]) auto
    have g: "jmembers k r = jmembers n r" if "jvalue n t = Inr (w, u)" "jnext 125 u = Inr (Inr r)" for w u r
      using "4.prems" Inr x that by (intro "4.IH"(2) [OF m(2)]) auto
    show ?thesis using Inr x v g
      by (auto simp: m bindR_def split: sum.splits)
  qed
next
  case (6 n s)
  then obtain k where m: "m = Suc k" "n \<le> k" by (cases m) auto
  have v: "jvalue k s = jvalue n s" using "6.prems" by (intro "6.IH"(1) [OF m(2)]) auto
  have g: "jelements k r = jelements n r" if "jvalue n s = Inr (w, u)" "jnext 93 u = Inr (Inr r)" for w u r
    using "6.prems" that by (intro "6.IH"(2) [OF m(2)]) auto
  show ?case using v g by (auto simp: m bindR_def split: sum.splits)
qed auto

text \<open>
  For evaluation: a document that is not nested deeply parses with little fuel, and the fuel that is always
  enough is only computed when that fails.
\<close>

definition shallow_fuel :: nat where
  "shallow_fuel = 40"

lemma jloads_code [code]:
  "jloads s = (if startswith s [65279] then Inl JSONDecodeError
     else bindR (case jvalue shallow_fuel (jws s) of
         Inr x \<Rightarrow> Inr x
       | Inl e \<Rightarrow> if e = Diverges then jvalue (2 * length s + 2) (jws s) else Inl e) (\<lambda>(v, r).
       if jws r \<noteq> [] then Inl JSONDecodeError else Inr v))"
proof -
  have t: "jvalue (2 * length s + 2) (jws s) \<noteq> Inl Diverges"
    using jws_length [of s] by (intro jparse_total(1)) simp
  have "jvalue (2 * length s + 2) (jws s) = jvalue shallow_fuel (jws s)" if "jvalue shallow_fuel (jws s) \<noteq> Inl Diverges"
    using jparse_more(1) [of shallow_fuel "2 * length s + 2"] jparse_more(1) [of "2 * length s + 2" shallow_fuel "jws s"] that t
    by (cases "shallow_fuel \<le> 2 * length s + 2") auto
  then show ?thesis by (auto simp: jloads_def split: sum.splits)
qed

section \<open>Printing and reading back\<close>

text \<open>The values the program stores: no floats, distinct keys, texts of code points.\<close>

fun storable :: "json \<Rightarrow> bool" where
  "storable JNull \<longleftrightarrow> True"
| "storable (JBool b) \<longleftrightarrow> True"
| "storable (JInt i) \<longleftrightarrow> \<not> too_many_digits (dec_nat (nat \<bar>i\<bar>))"
| "storable (JFloat t) \<longleftrightarrow> False"
| "storable (JStr s) \<longleftrightarrow> (\<forall>c\<in>set s. 0 \<le> c)"
| "storable (JArr vs) \<longleftrightarrow> (\<forall>v\<in>set vs. storable v)"
| "storable (JObj kvs) \<longleftrightarrow> distinct (map fst kvs) \<and> (\<forall>(k, v)\<in>set kvs. (\<forall>c\<in>set k. 0 \<le> c) \<and> storable v)"

text \<open>What comes back: keys in sorted order.\<close>

fun canon :: "json \<Rightarrow> json" where
  "canon (JArr vs) = JArr (map canon vs)"
| "canon (JObj kvs) = JObj (map (\<lambda>(k, v). (k, canon v)) (sort_key fst kvs))"
| "canon v = v"

lemma jstring_end_escape:
  assumes "0 \<le> c"
  shows "jstring_end False (escape_char c @ s) = map_option (\<lambda>(b, r). (escape_char c @ b, r)) (jstring_end False s)"
proof (cases "short_escape c")
  case (Some e)
  then show ?thesis
    by (cases "jstring_end False s") (auto simp: escape_char_def short_escape_def split: if_splits)
next
  case None
  have h: "hexdigit k \<noteq> 34 \<and> hexdigit k \<noteq> 92" if "0 \<le> k" "k < 16" for k using that by (auto simp: hexdigit_def)
  have "hexdigit (c div 4096 mod 16) \<noteq> 34 \<and> hexdigit (c div 4096 mod 16) \<noteq> 92"
    "hexdigit (c div 256 mod 16) \<noteq> 34 \<and> hexdigit (c div 256 mod 16) \<noteq> 92"
    "hexdigit (c div 16 mod 16) \<noteq> 34 \<and> hexdigit (c div 16 mod 16) \<noteq> 92"
    "hexdigit (c mod 16) \<noteq> 34 \<and> hexdigit (c mod 16) \<noteq> 92" by (auto intro!: h)
  moreover have "c \<noteq> 34 \<and> c \<noteq> 92" using None by (auto simp: short_escape_def split: if_splits)
  ultimately show ?thesis using None
    by (cases "jstring_end False s") (auto simp: escape_char_def u_escape_def)
qed

lemma jstring_escape:
  assumes "\<forall>c\<in>set s. 0 \<le> c"
  shows "jstring (concat (map escape_char s) @ 34 # r) = Inr (s, r)"
proof -
  have "jstring_end False (concat (map escape_char s) @ 34 # r) = Some (concat (map escape_char s), r)"
    using assms by (induction s) (simp_all add: jstring_end_escape)
  then show ?thesis using json_unescape_escape [OF assms] by (simp add: jstring_def)
qed

definition delimited :: "str \<Rightarrow> bool" where
  "delimited r \<longleftrightarrow> r = [] \<or> hd r \<in> {44, 93, 125}"

lemma delimited_Cons [simp]: "delimited (c # r) \<longleftrightarrow> c \<in> {44, 93, 125}"
  by (simp add: delimited_def)

definition value_head :: "int \<Rightarrow> bool" where
  "value_head c \<longleftrightarrow> c \<in> {34, 123, 91, 45, 110, 116, 102} \<or> isdigit c"

lemma dumps_head: "storable v \<Longrightarrow> \<exists>c cs. dumps False v = c # cs \<and> value_head c"
  by (cases v) (auto simp: value_head_def json_string_def intro: dec_int_head)

lemma jws_head: "value_head c \<Longrightarrow> jws (c # s) = c # s"
  by (auto simp: jws_def value_head_def isdigit_def)

lemma jws_dumps [simp]: "storable v \<Longrightarrow> jws (dumps False v @ r) = dumps False v @ r"
  using dumps_head [of v] jws_head by auto

lemma scan_int_append:
  assumes "delimited r"
  shows "scan_int (dec_nat n @ r) = Some (dec_nat n, r)"
proof (cases "n = 0")
  case True
  then show ?thesis by (simp add: scan_int_def)
next
  case False
  obtain d ds where d: "dec_nat n = d # ds" by (cases "dec_nat n") auto
  have r: "takeWhile isdigit r = []" "dropWhile isdigit r = r"
    using assms by (cases r; auto simp: isdigit_def)+
  have "list_all isdigit (dec_nat n)" by (rule dec_nat_isdigit)
  then have "takeWhile isdigit (dec_nat n @ r) = dec_nat n" "dropWhile isdigit (dec_nat n @ r) = r"
    using r by (auto simp: takeWhile_append dropWhile_append list_all_iff)
  then show ?thesis using hd_dec_nat [OF False] d
    by (simp add: scan_int_def scan_digits_def)
qed

lemma jnumber_dec_int:
  assumes "\<not> too_many_digits (dec_nat (nat \<bar>i\<bar>))" and "delimited r"
  shows "jnumber (dec_int i @ r) = Inr (JInt i, r)"
proof -
  have e: "scan_frac r = ([], r)" "scan_exp r = ([], r)"
    using assms(2) by (auto simp: scan_frac_def scan_exp_def split: list.splits)
  show ?thesis
  proof (cases "i < 0")
    case True
    then show ?thesis using assms e
      by (simp add: jnumber_def dec_int_def startswith_def scan_int_append)
  next
    case False
    have "\<not> startswith (dec_nat (nat i) @ r) [45]"
      using dec_nat_isdigit [of "nat i"] by (cases "dec_nat (nat i)") (auto simp: startswith_def isdigit_def)
    with False assms e show ?thesis
      by (simp add: jnumber_def dec_int_def scan_int_append)
  qed
qed

lemma jword_dec_int: "jword (dec_int i @ r) = None"
proof -
  obtain d ds where "dec_int i = d # ds" "d = 45 \<or> isdigit d" by (rule dec_int_head)
  moreover have "\<not> startswith (dec_int i @ r) (lit ''-Infinity'')"
  proof (cases "i < 0")
    case True
    then obtain e es where "dec_nat (nat (- i)) = e # es" "isdigit e"
      using dec_nat_isdigit [of "nat (- i)"] by (cases "dec_nat (nat (- i))") auto
    with True show ?thesis by (simp add: dec_int_def startswith_def isdigit_def)
  next
    case False
    then obtain e es where "dec_nat (nat i) = e # es" "isdigit e"
      using dec_nat_isdigit [of "nat i"] by (cases "dec_nat (nat i)") auto
    with False show ?thesis by (auto simp: dec_int_def startswith_def isdigit_def)
  qed
  ultimately show ?thesis by (auto simp: jword_def startswith_def isdigit_def)
qed

lemma sort_key_map_snd:
  "sort_key fst (map (\<lambda>(k, v). (k, f v)) xs) = map (\<lambda>(k, v). (k, f v)) (sort_key fst (xs :: (str \<times> 'a) list))"
proof -
  have "insort_key fst (k, f v) (map (\<lambda>(k, v). (k, f v)) ys) = map (\<lambda>(k, v). (k, f v)) (insort_key fst (k, v) ys)"
    for k v and ys :: "(str \<times> 'a) list"
    by (induction ys) auto
  then show ?thesis by (induction xs) auto
qed

lemma distinct_map_fst_sort: "distinct (map fst (sort_key fst (xs :: (str \<times> 'a) list))) \<longleftrightarrow> distinct (map fst xs)"
proof -
  have "mset (map fst (sort_key fst xs)) = mset (map fst xs)" by simp
  then show ?thesis by (metis mset_eq_imp_distinct_iff)
qed

lemma dict_items_distinct: "distinct (map fst kvs) \<Longrightarrow> dict_items kvs = kvs"
  by (auto simp: dict_items_def dict_of_distinct intro!: map_idI)


text \<open>A value parses back wherever it stands.\<close>

definition reads_back :: "json \<Rightarrow> bool" where
  "reads_back v \<longleftrightarrow> (\<forall>r. delimited r \<longrightarrow> (\<exists>n. jvalue n (dumps False v @ r) = Inr (canon v, r)))"

lemma reads_backD:
  assumes "reads_back v"
  shows "\<exists>n. jvalue n (dumps False v @ 44 # r) = Inr (canon v, 44 # r)"
    and "\<exists>n. jvalue n (dumps False v @ 93 # r) = Inr (canon v, 93 # r)"
    and "\<exists>n. jvalue n (dumps False v @ 125 # r) = Inr (canon v, 125 # r)"
proof -
  have "delimited (44 # r)" "delimited (93 # r)" "delimited (125 # r)" by simp_all
  then show "\<exists>n. jvalue n (dumps False v @ 44 # r) = Inr (canon v, 44 # r)"
    "\<exists>n. jvalue n (dumps False v @ 93 # r) = Inr (canon v, 93 # r)"
    "\<exists>n. jvalue n (dumps False v @ 125 # r) = Inr (canon v, 125 # r)"
    using assms unfolding reads_back_def by blast+
qed

lemma jvalue_Suc: "jvalue n s = Inr x \<Longrightarrow> n \<le> m \<Longrightarrow> jvalue m s = Inr x"
  using jparse_more(1) [of n m s] by simp

lemma jmembers_Suc: "jmembers n s = Inr x \<Longrightarrow> n \<le> m \<Longrightarrow> jmembers m s = Inr x"
  using jparse_more(2) [of n m s] by simp

lemma jelements_Suc: "jelements n s = Inr x \<Longrightarrow> n \<le> m \<Longrightarrow> jelements m s = Inr x"
  using jparse_more(3) [of n m s] by simp

lemma join_Cons2: "join sep (x # y # xs) = x @ sep @ join sep (y # xs)"
  by (simp add: join_def)

lemma join_single: "join sep [x] = x"
  by (simp add: join_def)

lemma jws_bracket [simp]: "jws (93 # r) = 93 # r" "jws (125 # r) = 125 # r" "jws (44 # r) = 44 # r" "jws (58 # r) = 58 # r"
  "jws (34 # r) = 34 # r"
  by (simp_all add: jws_def)

lemma elements_back:
  assumes "vs \<noteq> []" and "\<forall>v\<in>set vs. storable v \<and> reads_back v"
  shows "\<exists>n. jelements n (join [44] (map (dumps False) vs) @ 93 # r) = Inr (map canon vs, r)"
  using assms
proof (induction vs rule: list_nonempty_induct)
  case (single v)
  then have "reads_back v" by simp
  then obtain n where "jvalue n (dumps False v @ 93 # r) = Inr (canon v, 93 # r)"
    using reads_backD by blast
  then have "jelements (Suc n) (join [44] (map (dumps False) [v]) @ 93 # r) = Inr (map canon [v], r)"
    by (simp add: join_single jnext_def startswith_def)
  then show ?case by blast
next
  case (cons v vs)
  then obtain w ws where vs: "vs = w # ws" by (cases vs) auto
  let ?t = "join [44] (map (dumps False) vs) @ 93 # r"
  from cons obtain n where n: "jelements n ?t = Inr (map canon vs, r)" by auto
  have "reads_back v" using cons.prems by simp
  then obtain k where k: "jvalue k (dumps False v @ 44 # ?t) = Inr (canon v, 44 # ?t)"
    using reads_backD by blast
  have "jws ?t = ?t" using cons.prems by (cases ws) (simp_all add: vs join_single join_Cons2)
  then have "jelements (Suc (max n k)) (join [44] (map (dumps False) (v # vs)) @ 93 # r) = Inr (map canon (v # vs), r)"
    using jvalue_Suc [OF k, of "max n k"] jelements_Suc [OF n, of "max n k"]
    by (simp add: vs join_Cons2 jnext_def startswith_def)
  then show ?case by blast
qed

definition member_text :: "str \<times> json \<Rightarrow> str" where
  "member_text kv = json_string False (fst kv) @ 58 # dumps False (snd kv)"

lemma jkey_member:
  "\<forall>c\<in>set k. 0 \<le> c \<Longrightarrow> storable v \<Longrightarrow> jkey (member_text (k, v) @ r) = Inr (k, dumps False v @ r)"
  by (simp add: member_text_def json_string_def jkey_def startswith_def jstring_escape)

lemma jws_member [simp]: "jws (member_text kv @ r) = member_text kv @ r"
  by (simp add: member_text_def json_string_def)

lemma members_back:
  assumes "kvs \<noteq> []" and "\<forall>(k, v)\<in>set kvs. (\<forall>c\<in>set k. 0 \<le> c) \<and> storable v \<and> reads_back v"
  shows "\<exists>n. jmembers n (join [44] (map member_text kvs) @ 125 # r) = Inr (map (\<lambda>(k, v). (k, canon v)) kvs, r)"
  using assms
proof (induction kvs rule: list_nonempty_induct)
  case (single kv)
  obtain k v where kv: "kv = (k, v)" by fastforce
  with single have "reads_back v" by simp
  then obtain n where "jvalue n (dumps False v @ 125 # r) = Inr (canon v, 125 # r)"
    using reads_backD by blast
  then have "jmembers (Suc n) (join [44] (map member_text [kv]) @ 125 # r) = Inr (map (\<lambda>(k, v). (k, canon v)) [kv], r)"
    using single by (simp add: kv join_single jkey_member jnext_def startswith_def)
  then show ?case by blast
next
  case (cons kv kvs)
  obtain k v where kv: "kv = (k, v)" by fastforce
  from cons obtain kv' kvs' where vs: "kvs = kv' # kvs'" by (cases kvs) auto
  let ?t = "join [44] (map member_text kvs) @ 125 # r"
  from cons obtain n where n: "jmembers n ?t = Inr (map (\<lambda>(k, v). (k, canon v)) kvs, r)" by auto
  have "reads_back v" using cons.prems kv by simp
  then obtain i where i: "jvalue i (dumps False v @ 44 # ?t) = Inr (canon v, 44 # ?t)"
    using reads_backD by blast
  have "jws ?t = ?t" by (cases kvs') (simp_all add: vs join_single join_Cons2)
  then have "jmembers (Suc (max n i)) (join [44] (map member_text (kv # kvs)) @ 125 # r) =
      Inr (map (\<lambda>(k, v). (k, canon v)) (kv # kvs), r)"
    using jvalue_Suc [OF i, of "max n i"] jmembers_Suc [OF n, of "max n i"] cons.prems
    by (simp add: kv vs join_Cons2 jkey_member jnext_def startswith_def)
  then show ?case by blast
qed

lemma dumps_obj: "dumps False (JObj kvs) = 123 # join [44] (map member_text (sort_key fst kvs)) @ [125]"
  by (simp add: sort_key_map_snd comp_def case_prod_beta member_text_def [abs_def])

lemma storable_reads_back: "storable v \<Longrightarrow> reads_back v"
proof (induction v)
  case (JArr vs)
  show ?case unfolding reads_back_def
  proof (intro allI impI)
    fix r assume "delimited r"
    show "\<exists>n. jvalue n (dumps False (JArr vs) @ r) = Inr (canon (JArr vs), r)"
    proof (cases "vs = []")
      case True
      then have "jvalue (Suc 0) (dumps False (JArr vs) @ r) = Inr (canon (JArr vs), r)"
        by (simp add: startswith_def join_def)
      then show ?thesis by blast
    next
      case False
      let ?t = "join [44] (map (dumps False) vs) @ 93 # r"
      have "\<forall>v\<in>set vs. storable v \<and> reads_back v" using JArr by simp
      from elements_back [OF False this] obtain n where n: "jelements n ?t = Inr (map canon vs, r)" by blast
      obtain w ws where vs: "vs = w # ws" using False by (cases vs) auto
      obtain c cs where c: "dumps False w = c # cs" "value_head c" using dumps_head [of w] JArr.prems vs by auto
      have t: "jws ?t = ?t" using JArr.prems by (cases ws) (simp_all add: vs join_single join_Cons2)
      have "\<not> startswith ?t [93]"
        using c by (cases ws) (auto simp: vs join_single join_Cons2 startswith_def value_head_def isdigit_def)
      with n t have "jvalue (Suc n) (dumps False (JArr vs) @ r) = Inr (canon (JArr vs), r)"
        by (simp add: startswith_def)
      then show ?thesis by blast
    qed
  qed
next
  case (JObj kvs)
  show ?case unfolding reads_back_def
  proof (intro allI impI)
    fix r assume "delimited r"
    show "\<exists>n. jvalue n (dumps False (JObj kvs) @ r) = Inr (canon (JObj kvs), r)"
    proof (cases "kvs = []")
      case True
      then have "jvalue (Suc 0) (dumps False (JObj kvs) @ r) = Inr (canon (JObj kvs), r)"
        by (simp add: startswith_def join_def)
      then show ?thesis by blast
    next
      case False
      let ?k = "sort_key fst kvs"
      let ?t = "join [44] (map member_text ?k) @ 125 # r"
      have "set ?k = set kvs" by simp
      then have ne: "?k \<noteq> []" using False by (metis set_empty)
      have "\<forall>(k, v)\<in>set ?k. (\<forall>c\<in>set k. 0 \<le> c) \<and> storable v \<and> reads_back v"
        using JObj by fastforce
      from members_back [OF ne this] obtain n where n: "jmembers n ?t = Inr (map (\<lambda>(k, v). (k, canon v)) ?k, r)"
        by blast
      obtain w ws where ws: "?k = w # ws" using ne by (cases ?k) auto
      have t: "jws ?t = ?t" "\<not> startswith ?t [125]"
        by (cases ws; simp add: ws join_single join_Cons2 member_text_def json_string_def startswith_def)+
      have "distinct (map fst ?k)" using JObj.prems by (simp add: distinct_map_fst_sort)
      then have "dict_items (map (\<lambda>(k, v). (k, canon v)) ?k) = map (\<lambda>(k, v). (k, canon v)) ?k"
        by (intro dict_items_distinct) (simp add: comp_def case_prod_beta)
      with n t have "jvalue (Suc n) (dumps False (JObj kvs) @ r) = Inr (canon (JObj kvs), r)"
        unfolding dumps_obj by (simp add: startswith_def)
      then show ?thesis by blast
    qed
  qed
next
  case (JInt i)
  have "jvalue (Suc 0) (dec_int i @ r) = Inr (JInt i, r)" if "delimited r" for r
  proof -
    obtain d ds where d: "dec_int i = d # ds" "d = 45 \<or> isdigit d" by (rule dec_int_head)
    then have "\<not> startswith (dec_int i @ r) [c]" if "c \<in> {34, 123, 91}" for c
      using that by (auto simp: startswith_def isdigit_def)
    then show ?thesis using JInt that jnumber_dec_int jword_dec_int by simp
  qed
  then show ?case unfolding reads_back_def by (auto intro!: exI [of _ "Suc 0"] simp del: jvalue.simps)
next
  case (JStr s)
  then have "jvalue (Suc 0) (dumps False (JStr s) @ r) = Inr (canon (JStr s), r)" for r
    by (simp add: json_string_def startswith_def jstring_escape)
  then show ?case unfolding reads_back_def by blast
next
  case (JBool b)
  have "jvalue (Suc 0) (dumps False (JBool b) @ r) = Inr (canon (JBool b), r)" for r
    by (simp add: startswith_def jword_def)
  then show ?case unfolding reads_back_def by blast
next
  case JNull
  have "jvalue (Suc 0) (dumps False JNull @ r) = Inr (canon JNull, r)" for r
    by (simp add: startswith_def jword_def)
  then show ?case unfolding reads_back_def by blast
qed simp

lemma jloads_dumps:
  assumes "storable v"
  shows "jloads (dumps False v) = Inr (canon v)"
proof -
  obtain n where n: "jvalue n (dumps False v) = Inr (canon v, [])"
    using storable_reads_back [OF assms] by (force simp: reads_back_def delimited_def)
  let ?s = "dumps False v"
  have w: "jws ?s = ?s" using jws_dumps [OF assms, of "[]"] by simp
  have t: "jvalue (2 * length ?s + 2) ?s \<noteq> Inl Diverges" by (rule jparse_total(1)) simp
  have "jvalue (2 * length ?s + 2) ?s = Inr (canon v, [])"
    using jparse_more(1) [of n "2 * length ?s + 2" ?s] jparse_more(1) [of "2 * length ?s + 2" n ?s] n t
    by (cases "n \<le> 2 * length ?s + 2") auto
  moreover have "\<not> startswith ?s [65279]"
    using dumps_head [OF assms] by (auto simp: startswith_def value_head_def isdigit_def)
  ultimately show ?thesis by (simp add: jloads_def w) (simp add: jws_def)
qed

end
