(* ===== verification/Journal.thy ===== *)
theory Journal
  imports World JsonDoc
begin

text \<open>
  \<open>infrastructure/journal.py\<close>: the crash journal of an apply operation, one canonical JSON file per
  operation, bound by a hash and moved along a fixed state machine.
\<close>

section \<open>Data\<close>

datatype journal_status = JS_APPLYING | JS_VALIDATING | JS_COMMITTED | JS_ROLLING_BACK | JS_ROLLED_BACK
  | JS_RECOVERY_REQUIRED

datatype reconciliation_state = UNAPPLIED | APPLIED | UNKNOWN

fun journal_transitions :: "journal_status \<Rightarrow> journal_status list" where
  "journal_transitions JS_APPLYING = [JS_VALIDATING, JS_ROLLING_BACK]"
| "journal_transitions JS_VALIDATING = [JS_COMMITTED, JS_ROLLING_BACK]"
| "journal_transitions JS_ROLLING_BACK = [JS_ROLLED_BACK, JS_RECOVERY_REQUIRED]"
| "journal_transitions JS_COMMITTED = []"
| "journal_transitions JS_ROLLED_BACK = []"
| "journal_transitions JS_RECOVERY_REQUIRED = []"

fun journal_status_value :: "journal_status \<Rightarrow> str" where
  "journal_status_value JS_APPLYING = lit ''applying''"
| "journal_status_value JS_VALIDATING = lit ''validating''"
| "journal_status_value JS_COMMITTED = lit ''committed''"
| "journal_status_value JS_ROLLING_BACK = lit ''rolling_back''"
| "journal_status_value JS_ROLLED_BACK = lit ''rolled_back''"
| "journal_status_value JS_RECOVERY_REQUIRED = lit ''recovery_required''"

definition journal_statuses :: "journal_status list" where
  "journal_statuses = [JS_APPLYING, JS_VALIDATING, JS_COMMITTED, JS_ROLLING_BACK, JS_ROLLED_BACK, JS_RECOVERY_REQUIRED]"

text \<open>\<open>JournalStatus(text)\<close>\<close>

definition parse_journal_status :: "str \<Rightarrow> journal_status res" where
  "parse_journal_status t = (case filter (\<lambda>s. journal_status_value s = t) journal_statuses of
      s # _ \<Rightarrow> Inr s | [] \<Rightarrow> Inl ValueError)"

record journal_target =
  jt_target :: str
  jt_before :: "str option"
  jt_after :: str

record operation_journal =
  oj_operation_id :: str
  oj_schema_version :: str
  oj_plan_id :: str
  oj_host_id :: str
  oj_change_set_hash :: str
  oj_approval_id :: "str option"
  oj_backup_id :: "str option"
  oj_manifest_hash :: "str option"
  oj_request_hash :: "str option"
  oj_rollback_request_hash :: "str option"
  oj_status :: journal_status
  oj_targets :: "journal_target list"
  oj_created_at :: time
  oj_updated_at :: time
  oj_journal_hash :: str

record reconciliation_result =
  rr_target :: str
  rr_state :: reconciliation_state
  rr_actual_hash :: "str option"

section \<open>Bytes\<close>

definition journal_target_json :: "journal_target \<Rightarrow> json" where
  "journal_target_json t = JObj [(lit ''target'', JStr (jt_target t)), (lit ''before_hash'', jopt JStr (jt_before t)),
     (lit ''after_hash'', JStr (jt_after t))]"

definition journal_json :: "runtime \<Rightarrow> operation_journal \<Rightarrow> json" where
  "journal_json rt j = JObj
     [(lit ''operation_id'', JStr (oj_operation_id j)),
      (lit ''schema_version'', JStr (oj_schema_version j)),
      (lit ''plan_id'', JStr (oj_plan_id j)),
      (lit ''host_id'', JStr (oj_host_id j)),
      (lit ''change_set_hash'', JStr (oj_change_set_hash j)),
      (lit ''approval_id'', jopt JStr (oj_approval_id j)),
      (lit ''backup_id'', jopt JStr (oj_backup_id j)),
      (lit ''manifest_hash'', jopt JStr (oj_manifest_hash j)),
      (lit ''request_hash'', jopt JStr (oj_request_hash j)),
      (lit ''rollback_request_hash'', jopt JStr (oj_rollback_request_hash j)),
      (lit ''status'', JStr (journal_status_value (oj_status j))),
      (lit ''targets'', JArr (map journal_target_json (oj_targets j))),
      (lit ''created_at'', JStr (isoformat rt (oj_created_at j))),
      (lit ''updated_at'', JStr (isoformat rt (oj_updated_at j))),
      (lit ''journal_hash'', JStr (oj_journal_hash j))]"

definition journal_bytes :: "runtime \<Rightarrow> operation_journal \<Rightarrow> bytes res" where
  "journal_bytes rt j = utf8_encode (dumps False (journal_json rt j))"

definition journal_hash :: "runtime \<Rightarrow> operation_journal \<Rightarrow> str res" where
  "journal_hash rt j = bindR (journal_bytes rt (j\<lparr>oj_journal_hash := []\<rparr>)) (\<lambda>b. Inr (sha256 rt b))"

section \<open>Decoding\<close>

text \<open>\<open>_digest\<close>\<close>

definition is_digest :: "str \<Rightarrow> bool" where
  "is_digest v \<longleftrightarrow> length v = 64 \<and> list_all (\<lambda>c. isdigit c \<or> (97 \<le> c \<and> c \<le> 102)) v"

definition check_digest :: "str \<Rightarrow> str res" where
  "check_digest v = (if is_digest v then Inr v else Inl ValueError)"

definition obj_get :: "json \<Rightarrow> str \<Rightarrow> json option" where
  "obj_get v k = (case v of JObj kvs \<Rightarrow> map_of kvs k | _ \<Rightarrow> None)"

definition text_field :: "json \<Rightarrow> str \<Rightarrow> str res" where
  "text_field v k = (case obj_get v k of
      Some (JStr s) \<Rightarrow> if s = [] then Inl ValueError else Inr s
    | _ \<Rightarrow> Inl ValueError)"

definition digest_field :: "json \<Rightarrow> str \<Rightarrow> str res" where
  "digest_field v k = bindR (text_field v k) check_digest"

text \<open>The optional fields: absent and \<open>null\<close> are both \<open>None\<close>.\<close>

definition optional_digest :: "json \<Rightarrow> str \<Rightarrow> str option res" where
  "optional_digest v k = (case v of
      JObj _ \<Rightarrow> (case obj_get v k of
          None \<Rightarrow> Inr None
        | Some JNull \<Rightarrow> Inr None
        | Some (JStr s) \<Rightarrow> bindR (check_digest s) (\<lambda>d. Inr (Some d))
        | Some _ \<Rightarrow> Inl ValueError)
    | _ \<Rightarrow> Inl ValueError)"

definition optional_text :: "json \<Rightarrow> str \<Rightarrow> str option res" where
  "optional_text v k = (case v of
      JObj _ \<Rightarrow> (case obj_get v k of
          None \<Rightarrow> Inr None
        | Some JNull \<Rightarrow> Inr None
        | Some (JStr s) \<Rightarrow> if s = [] then Inl ValueError else Inr (Some s)
        | Some _ \<Rightarrow> Inl ValueError)
    | _ \<Rightarrow> Inl ValueError)"

definition time_field :: "runtime \<Rightarrow> json \<Rightarrow> str \<Rightarrow> time res" where
  "time_field rt v k = bindR (text_field v k) (\<lambda>t. case fromisoformat rt t of
      Some (Aware i) \<Rightarrow> Inr i | _ \<Rightarrow> Inl ValueError)"

definition decode_target :: "json \<Rightarrow> journal_target res" where
  "decode_target v =
     bindR (text_field v (lit ''target'')) (\<lambda>t.
     bindR (optional_digest v (lit ''before_hash'')) (\<lambda>b.
     bindR (digest_field v (lit ''after_hash'')) (\<lambda>a.
     Inr \<lparr>jt_target = t, jt_before = b, jt_after = a\<rparr>)))"

definition complete_binding :: "str option list \<Rightarrow> bool" where
  "complete_binding bs \<longleftrightarrow> (\<exists>b\<in>set bs. b \<noteq> None) \<longrightarrow> (\<forall>b\<in>set bs. b \<noteq> None)"

definition decode_journal :: "runtime \<Rightarrow> json \<Rightarrow> operation_journal res" where
  "decode_journal rt v =
     (if obj_get v (lit ''schema_version'') \<noteq> Some (JStr (lit ''1.1'')) then Inl ValueError
      else (case obj_get v (lit ''targets'') of
        None \<Rightarrow> Inl KeyError
      | Some (JArr ts) \<Rightarrow>
          bindR (mapR decode_target ts) (\<lambda>targets.
          bindR (text_field v (lit ''operation_id'')) (\<lambda>oid.
          bindR (text_field v (lit ''plan_id'')) (\<lambda>pid.
          bindR (text_field v (lit ''host_id'')) (\<lambda>hid.
          bindR (text_field v (lit ''change_set_hash'')) (\<lambda>csh.
          bindR (optional_text v (lit ''approval_id'')) (\<lambda>aid.
          bindR (optional_text v (lit ''backup_id'')) (\<lambda>bid.
          bindR (optional_digest v (lit ''manifest_hash'')) (\<lambda>mh.
          bindR (optional_digest v (lit ''request_hash'')) (\<lambda>rh.
          bindR (optional_digest v (lit ''rollback_request_hash'')) (\<lambda>rrh.
          bindR (bindR (text_field v (lit ''status'')) parse_journal_status) (\<lambda>st.
          bindR (time_field rt v (lit ''created_at'')) (\<lambda>ca.
          bindR (time_field rt v (lit ''updated_at'')) (\<lambda>ua.
          bindR (digest_field v (lit ''journal_hash'')) (\<lambda>jh.
          bindR (guardR (complete_binding [aid, bid, mh, rh]) ValueError) (\<lambda>_.
          Inr \<lparr>oj_operation_id = oid, oj_schema_version = lit ''1.1'', oj_plan_id = pid, oj_host_id = hid,
               oj_change_set_hash = csh, oj_approval_id = aid, oj_backup_id = bid, oj_manifest_hash = mh,
               oj_request_hash = rh, oj_rollback_request_hash = rrh, oj_status = st, oj_targets = targets,
               oj_created_at = ca, oj_updated_at = ua, oj_journal_hash = jh\<rparr>)))))))))))))))
      | Some _ \<Rightarrow> Inl ValueError))"

section \<open>Operations\<close>

record journal_store =
  jr_root :: str
  jr_allowed :: "str list"

definition single_component :: "str \<Rightarrow> bool" where
  "single_component v \<longleftrightarrow> v \<noteq> [] \<and> path_name v = v \<and> v \<noteq> [46] \<and> v \<noteq> [46, 46]"

definition journal_path :: "journal_store \<Rightarrow> str \<Rightarrow> str res" where
  "journal_path js oid = (if single_component oid then Inr (path_join (jr_root js) (oid @ lit ''.json''))
     else Inl (AdapterError ''invalid_operation_id''))"

text \<open>\<open>_target\<close>, shared by the stores: an absolute path whose resolved parent lies under an allowed root.\<close>

definition checked_target :: "system \<Rightarrow> str list \<Rightarrow> str \<Rightarrow> str res" where
  "checked_target sys roots t =
     (if \<not> is_absolute t then Inl (AdapterError ''invalid_target'')
      else if \<not> (\<exists>r\<in>set roots. within (realpath sys (path_parent t)) r) then Inl (AdapterError ''target_not_allowed'')
      else Inr (resolved_target sys t))"

definition journal_write :: "system \<Rightarrow> journal_store \<Rightarrow> operation_journal \<Rightarrow> operation_journal io" where
  "journal_write sys js j =
     bindW os_step (\<lambda>_. bindW os_step (\<lambda>_.
     bindW (liftR (journal_path js (oj_operation_id j))) (\<lambda>p.
     bindW (liftR (journal_bytes (runtime.truncate sys) j)) (\<lambda>b.
     bindW (atomic_write sys p b 384) (\<lambda>_. retW j)))))"

definition journal_sealed :: "system \<Rightarrow> journal_store \<Rightarrow> operation_journal \<Rightarrow> operation_journal io" where
  "journal_sealed sys js j =
     bindW (liftR (journal_hash (runtime.truncate sys) j)) (\<lambda>h. journal_write sys js (j\<lparr>oj_journal_hash := h\<rparr>))"

definition check_journal_targets :: "system \<Rightarrow> journal_store \<Rightarrow> journal_target list \<Rightarrow> unit res" where
  "check_journal_targets sys js ts =
     (if ts = [] \<or> \<not> distinct (map jt_target ts) then Inl (AdapterError ''invalid_journal'')
      else eachR (\<lambda>t. bindR (checked_target sys (jr_allowed js) (jt_target t)) (\<lambda>_.
             bindR (check_digest (jt_after t)) (\<lambda>_.
             case jt_before t of None \<Rightarrow> Inr () | Some b \<Rightarrow> bindR (check_digest b) (\<lambda>_. Inr ())))) ts)"

definition check_binding :: "str option \<Rightarrow> str option \<Rightarrow> str option \<Rightarrow> str option \<Rightarrow> unit res" where
  "check_binding aid bid mh rh =
     (if \<not> complete_binding [aid, bid, mh, rh] then Inl (AdapterError ''invalid_journal_binding'')
      else (case (mh, rh) of
          (Some m, Some r) \<Rightarrow> bindR (check_digest m) (\<lambda>_. bindR (check_digest r) (\<lambda>_. Inr ()))
        | _ \<Rightarrow> Inr ()))"

definition journal_create :: "system \<Rightarrow> journal_store \<Rightarrow> str \<Rightarrow> str \<Rightarrow> str \<Rightarrow> str \<Rightarrow> journal_target list \<Rightarrow>
    str option \<Rightarrow> str option \<Rightarrow> str option \<Rightarrow> str option \<Rightarrow> operation_journal io" where
  "journal_create sys js oid pid hid csh ts aid bid mh rh =
     bindW (guardW (single_component oid) (AdapterError ''invalid_operation_id'')) (\<lambda>_.
     bindW (liftR (check_journal_targets sys js ts)) (\<lambda>_.
     bindW (liftR (check_binding aid bid mh rh)) (\<lambda>_.
     bindW (liftR (journal_path js oid)) (\<lambda>p.
     bindW (node_at p) (\<lambda>n.
       if exists_node n then raiseW (AdapterError ''operation_exists'')
       else bindW utc_now (\<lambda>now.
         journal_sealed sys js
           \<lparr>oj_operation_id = oid, oj_schema_version = lit ''1.1'', oj_plan_id = pid, oj_host_id = hid,
            oj_change_set_hash = csh, oj_approval_id = aid, oj_backup_id = bid, oj_manifest_hash = mh,
            oj_request_hash = rh, oj_rollback_request_hash = None, oj_status = JS_APPLYING, oj_targets = ts,
            oj_created_at = now, oj_updated_at = now, oj_journal_hash = []\<rparr>))))))"

text \<open>The exceptions \<open>load\<close> turns into \<open>invalid_journal\<close>.\<close>

definition malformed :: "exn \<Rightarrow> bool" where
  "malformed e \<longleftrightarrow> e \<in> {OSError, UnicodeError, JSONDecodeError, KeyError, TypeError, ValueError}"

definition journal_load :: "system \<Rightarrow> journal_store \<Rightarrow> str \<Rightarrow> operation_journal io" where
  "journal_load sys js oid =
     bindW (liftR (journal_path js oid)) (\<lambda>p. bindW (node_at p) (\<lambda>n.
       case n of
         Some (RegFile content _ _ _) \<Rightarrow>
           if 1048576 < int (length content) then raiseW (AdapterError ''journal_not_found'')
           else bindW (tryW
               (bindW (read_text p) (\<lambda>t. bindW (liftR (jloads t)) (\<lambda>v.
                 liftR (decode_journal (runtime.truncate sys) v))))
               (\<lambda>e. raiseW (if malformed e then AdapterError ''invalid_journal'' else e))) (\<lambda>j.
             bindW (liftR (journal_hash (runtime.truncate sys) j)) (\<lambda>h.
             bindW (guardW (oj_operation_id j = oid \<and> h = oj_journal_hash j) (AdapterError ''invalid_journal'')) (\<lambda>_.
             bindW (liftR (journal_bytes (runtime.truncate sys) j)) (\<lambda>b.
             bindW (read_bytes p) (\<lambda>disk.
             bindW (guardW (b = disk) (AdapterError ''invalid_journal'')) (\<lambda>_. retW j))))))
       | _ \<Rightarrow> raiseW (AdapterError ''journal_not_found'')))"

definition journal_update :: "system \<Rightarrow> journal_store \<Rightarrow> str \<Rightarrow> journal_status \<Rightarrow> operation_journal io" where
  "journal_update sys js oid st =
     bindW (journal_load sys js oid) (\<lambda>j.
     bindW (guardW (st \<in> set (journal_transitions (oj_status j))) (AdapterError ''invalid_journal_transition'')) (\<lambda>_.
     bindW utc_now (\<lambda>now.
     journal_sealed sys js (j\<lparr>oj_status := st, oj_updated_at := now, oj_journal_hash := []\<rparr>))))"

definition journal_bind_rollback :: "system \<Rightarrow> journal_store \<Rightarrow> str \<Rightarrow> str \<Rightarrow> operation_journal io" where
  "journal_bind_rollback sys js oid rh =
     bindW (journal_load sys js oid) (\<lambda>j.
     bindW (guardW (oj_status j = JS_ROLLING_BACK \<and> oj_rollback_request_hash j = None)
       (AdapterError ''invalid_journal_transition'')) (\<lambda>_.
     bindW (liftR (check_digest rh)) (\<lambda>_.
     bindW utc_now (\<lambda>now.
     journal_sealed sys js (j\<lparr>oj_rollback_request_hash := Some rh, oj_updated_at := now, oj_journal_hash := []\<rparr>)))))"

definition reconcile_state :: "journal_target \<Rightarrow> str option \<Rightarrow> reconciliation_state" where
  "reconcile_state t found = (if found = jt_before t then UNAPPLIED
     else if found = Some (jt_after t) then APPLIED else UNKNOWN)"

definition reconcile_target :: "system \<Rightarrow> journal_store \<Rightarrow> journal_target \<Rightarrow> reconciliation_result io" where
  "reconcile_target sys js t =
     bindW (liftR (checked_target sys (jr_allowed js) (jt_target t))) (\<lambda>p. bindW (node_at p) (\<lambda>n.
       if exists_node n \<and> \<not> is_file_node n then
         retW \<lparr>rr_target = jt_target t, rr_state = UNKNOWN, rr_actual_hash = None\<rparr>
       else bindW (if exists_node n then bindW (read_bytes p) (\<lambda>c. retW (Some (sha256 sys c))) else retW None) (\<lambda>found.
         retW \<lparr>rr_target = jt_target t, rr_state = reconcile_state t found, rr_actual_hash = found\<rparr>)))"

definition journal_reconcile :: "system \<Rightarrow> journal_store \<Rightarrow> str \<Rightarrow> reconciliation_result list io" where
  "journal_reconcile sys js oid =
     bindW (journal_load sys js oid) (\<lambda>j. mapW (reconcile_target sys js) (oj_targets j))"


section \<open>What the operations do to the files\<close>

lemma journal_write_keeps [keeping]:
  assumes "\<And>p. journal_path js (oj_operation_id j) = Inr p \<Longrightarrow> \<not> S p"
  shows "keeps S (journal_write sys js j)"
proof (cases "journal_path js (oj_operation_id j)")
  case (Inl e)
  have "liftR (Inl e) = (raiseW e :: 'a io)" for e by (rule ext) simp
  then have "journal_write sys js j = bindW os_step (\<lambda>_. bindW os_step (\<lambda>_. raiseW e))"
    by (auto simp: journal_write_def Inl bindW_def fun_eq_iff split: prod.splits sum.splits)
  then show ?thesis by (auto intro!: keeping)
next
  case (Inr p)
  have "bindW (liftR (Inr p)) f = f p" for f :: "str \<Rightarrow> operation_journal io"
    by (rule ext) (simp add: bindW_def)
  then show ?thesis unfolding journal_write_def Inr using assms [OF Inr] by (auto intro!: keeping)
qed

lemma journal_sealed_keeps [keeping]:
  "(\<And>p. journal_path js (oj_operation_id j) = Inr p \<Longrightarrow> \<not> S p) \<Longrightarrow> keeps S (journal_sealed sys js j)"
  unfolding journal_sealed_def by (auto intro!: keeping)

lemma journal_load_keeps [keeping]: "keeps S (journal_load sys js oid)"
  unfolding journal_load_def by (auto intro!: keeping split: option.split node.split)

lemma journal_load_Inr:
  assumes "journal_load sys js oid w = (Inr j, w')"
  shows "fs w' = fs w \<and> oj_operation_id j = oid \<and> (\<exists>p b. journal_path js oid = Inr p \<and>
    journal_bytes (runtime.truncate sys) j = Inr b \<and> (\<exists>m u g. fs w p = Some (RegFile b m u g)) \<and>
    journal_hash (runtime.truncate sys) j = Inr (oj_journal_hash j))"
proof -
  have f: "fs w' = fs w" using journal_load_keeps [of "\<lambda>_. True" sys js oid] assms
    by (auto simp: keeps_def fun_eq_iff) (metis snd_conv)
  obtain p where p: "journal_path js oid = Inr p" using assms by (auto simp: journal_load_def bindW_Inr)
  then obtain c m u g where n: "fs w p = Some (RegFile c m u g)" using assms
    by (auto simp: journal_load_def bindW_Inr split: option.splits node.splits)
  from assms p n obtain w1 w2 h b where t: "tryW (bindW (read_text p) (\<lambda>t. bindW (liftR (jloads t)) (\<lambda>v.
        liftR (decode_journal (runtime.truncate sys) v)))) (\<lambda>e. raiseW (if malformed e then AdapterError ''invalid_journal'' else e)) w = (Inr j, w1)"
    and h: "journal_hash (runtime.truncate sys) j = Inr h" "oj_operation_id j = oid" "h = oj_journal_hash j"
    and b: "journal_bytes (runtime.truncate sys) j = Inr b" and r: "read_bytes p w1 = (Inr b, w2)"
    by (auto simp: journal_load_def bindW_Inr split: if_splits)
  have "keeps (\<lambda>_. True) (tryW (bindW (read_text p) (\<lambda>t. bindW (liftR (jloads t)) (\<lambda>v.
        liftR (decode_journal (runtime.truncate sys) v)))) (\<lambda>e. raiseW (if malformed e then AdapterError ''invalid_journal'' else e)))"
    by (intro keeping)
  from keepsD [OF this t] have "fs w1 p = fs w p" by simp
  then have "c = b" using read_bytes_Inr [OF r] n by auto
  then show ?thesis using f p n h b by auto
qed

lemma journal_sealed_Inr:
  assumes "journal_sealed sys js j w = (Inr j', w')"
  shows "\<exists>h p b. j' = j\<lparr>oj_journal_hash := h\<rparr> \<and> journal_hash (runtime.truncate sys) j' = Inr h
    \<and> journal_path js (oj_operation_id j) = Inr p \<and> journal_bytes (runtime.truncate sys) j' = Inr b
    \<and> fs w' = (fs w)(p \<mapsto> RegFile b 384 (euid sys) (egid sys))"
proof -
  from assms obtain h where h: "journal_hash (runtime.truncate sys) j = Inr h"
    and w: "journal_write sys js (j\<lparr>oj_journal_hash := h\<rparr>) w = (Inr j', w')"
    by (auto simp: journal_sealed_def bindW_Inr)
  from w obtain w1 w2 p b where "os_step w = (Inr (), w1)" "os_step w1 = (Inr (), w2)"
    "journal_path js (oj_operation_id j) = Inr p"
    "journal_bytes (runtime.truncate sys) (j\<lparr>oj_journal_hash := h\<rparr>) = Inr b"
    "atomic_write sys p b 384 w2 = (Inr (), w')" "j' = j\<lparr>oj_journal_hash := h\<rparr>"
    by (auto simp: journal_write_def bindW_Inr)
  with h show ?thesis by (auto simp: journal_hash_def dest!: os_step_fs atomic_write_Inr)
qed

lemma journal_keeps [keeping]:
  assumes "\<And>p. journal_path js oid = Inr p \<Longrightarrow> \<not> S p"
  shows "keeps S (journal_create sys js oid pid hid csh ts aid bid mh rh)"
  unfolding journal_create_def using assms by (auto intro!: keeping)

text \<open>What follows a successful \<open>load\<close> works on a journal of that operation.\<close>

lemma load_then_keeps:
  assumes "\<And>j. oj_operation_id j = oid \<Longrightarrow> keeps S (k j)"
  shows "keeps S (bindW (journal_load sys js oid) k)"
  unfolding keeps_def
proof (intro allI impI)
  fix w p assume "S p"
  show "fs (snd (bindW (journal_load sys js oid) k w)) p = fs w p"
  proof (cases "journal_load sys js oid w")
    case (Pair r w1)
    have l: "fs w1 = fs w" using journal_load_keeps [of "\<lambda>_. True" sys js oid] Pair
      by (auto simp: keeps_def fun_eq_iff) (metis snd_conv)
    show ?thesis
    proof (cases r)
      case (Inl e)
      then show ?thesis using Pair l by (simp add: bindW_def)
    next
      case (Inr j)
      have "oj_operation_id j = oid" using journal_load_Inr Pair Inr by blast
      then show ?thesis using Pair Inr l \<open>S p\<close> assms by (simp add: bindW_def keeps_def)
    qed
  qed
qed

lemma journal_update_keeps [keeping]:
  "(\<And>p. journal_path js oid = Inr p \<Longrightarrow> \<not> S p) \<Longrightarrow> keeps S (journal_update sys js oid st)"
  unfolding journal_update_def by (rule load_then_keeps) (auto intro!: keeping)

lemma journal_bind_rollback_keeps [keeping]:
  "(\<And>p. journal_path js oid = Inr p \<Longrightarrow> \<not> S p) \<Longrightarrow> keeps S (journal_bind_rollback sys js oid rh)"
  unfolding journal_bind_rollback_def by (rule load_then_keeps) (auto intro!: keeping)


section \<open>A written journal can be loaded\<close>

lemma obj_get_canon:
  assumes "distinct (map fst kvs)"
  shows "obj_get (canon (JObj kvs)) k = map_option canon (map_of kvs k)"
proof -
  have d: "distinct (map fst (sort_key fst kvs))" using assms by (simp add: distinct_map_fst_sort)
  have "map_of (sort_key fst kvs) k = map_of kvs k"
  proof (cases "map_of kvs k")
    case None
    moreover have "map_of (sort_key fst kvs) k = None" using None by (simp add: map_of_eq_None_iff)
    ultimately show ?thesis by simp
  next
    case (Some v)
    then show ?thesis using d map_of_SomeD [OF Some] by simp
  qed
  then show ?thesis by (simp add: obj_get_def map_of_map)
qed

definition code_points :: "str \<Rightarrow> bool" where
  "code_points s \<longleftrightarrow> (\<forall>c\<in>set s. 0 \<le> c)"

definition text_ok :: "str \<Rightarrow> bool" where
  "text_ok s \<longleftrightarrow> s \<noteq> [] \<and> code_points s"

definition opt_ok :: "(str \<Rightarrow> bool) \<Rightarrow> str option \<Rightarrow> bool" where
  "opt_ok P x \<longleftrightarrow> (case x of None \<Rightarrow> True | Some s \<Rightarrow> P s)"

lemma code_points_simps [simp]: "code_points []" "code_points (c # s) \<longleftrightarrow> 0 \<le> c \<and> code_points s"
  by (auto simp: code_points_def)

lemma digest_code_points: "is_digest d \<Longrightarrow> code_points d \<and> d \<noteq> []"
  by (auto simp: is_digest_def code_points_def list_all_iff isdigit_def)

text \<open>The clock's timestamps print and parse back.\<close>

definition stamp_ok :: "runtime \<Rightarrow> time \<Rightarrow> bool" where
  "stamp_ok rt t \<longleftrightarrow> text_ok (isoformat rt t) \<and> fromisoformat rt (isoformat rt t) = Some (Aware t)"

definition target_ok :: "journal_target \<Rightarrow> bool" where
  "target_ok t \<longleftrightarrow> text_ok (jt_target t) \<and> opt_ok is_digest (jt_before t) \<and> is_digest (jt_after t)"

definition journal_ok :: "runtime \<Rightarrow> operation_journal \<Rightarrow> bool" where
  "journal_ok rt j \<longleftrightarrow> oj_schema_version j = lit ''1.1''
     \<and> text_ok (oj_operation_id j) \<and> text_ok (oj_plan_id j) \<and> text_ok (oj_host_id j) \<and> text_ok (oj_change_set_hash j)
     \<and> opt_ok text_ok (oj_approval_id j) \<and> opt_ok text_ok (oj_backup_id j) \<and> opt_ok is_digest (oj_manifest_hash j)
     \<and> opt_ok is_digest (oj_request_hash j) \<and> opt_ok is_digest (oj_rollback_request_hash j)
     \<and> complete_binding [oj_approval_id j, oj_backup_id j, oj_manifest_hash j, oj_request_hash j]
     \<and> (\<forall>t\<in>set (oj_targets j). target_ok t)
     \<and> stamp_ok rt (oj_created_at j) \<and> stamp_ok rt (oj_updated_at j) \<and> is_digest (oj_journal_hash j)"

lemma storable_jopt: "opt_ok code_points x \<Longrightarrow> storable (jopt JStr x)"
  by (auto simp: jopt_def opt_ok_def code_points_def split: option.splits)

lemma canon_jopt [simp]: "canon (jopt JStr x) = jopt JStr x"
  by (simp add: jopt_def split: option.splits)

lemma opt_ok_mono: "opt_ok P x \<Longrightarrow> (\<And>s. P s \<Longrightarrow> Q s) \<Longrightarrow> opt_ok Q x"
  by (auto simp: opt_ok_def split: option.splits)

lemma lit_code_points [simp]: "code_points (lit s)"
  unfolding code_points_def lit_def by (auto) (metis of_nat_of_char of_nat_0_le_iff)

lemma text_field_canon:
  "distinct (map fst kvs) \<Longrightarrow> map_of kvs k = Some (JStr s) \<Longrightarrow> s \<noteq> [] \<Longrightarrow> text_field (canon (JObj kvs)) k = Inr s"
  by (simp add: text_field_def obj_get_canon del: canon.simps(2))

lemma digest_field_canon:
  "distinct (map fst kvs) \<Longrightarrow> map_of kvs k = Some (JStr s) \<Longrightarrow> is_digest s \<Longrightarrow> digest_field (canon (JObj kvs)) k = Inr s"
  using digest_code_points [of s] by (simp add: digest_field_def text_field_canon check_digest_def del: canon.simps(2))

lemma is_obj_canon: "(case canon (JObj kvs) of JObj _ \<Rightarrow> a | _ \<Rightarrow> b) = a"
  by simp

lemma optional_digest_canon:
  assumes "distinct (map fst kvs)" and "map_of kvs k = Some (jopt JStr x)" and "opt_ok is_digest x"
  shows "optional_digest (canon (JObj kvs)) k = Inr x"
  unfolding optional_digest_def is_obj_canon obj_get_canon [OF assms(1)]
  using assms(2,3) by (auto simp: jopt_def opt_ok_def check_digest_def split: option.splits)

lemma optional_text_canon:
  assumes "distinct (map fst kvs)" and "map_of kvs k = Some (jopt JStr x)" and "opt_ok text_ok x"
  shows "optional_text (canon (JObj kvs)) k = Inr x"
  unfolding optional_text_def is_obj_canon obj_get_canon [OF assms(1)]
  using assms(2,3) by (auto simp: jopt_def opt_ok_def text_ok_def split: option.splits)

lemma time_field_canon:
  "distinct (map fst kvs) \<Longrightarrow> map_of kvs k = Some (JStr (isoformat rt t)) \<Longrightarrow> stamp_ok rt t \<Longrightarrow>
    time_field rt (canon (JObj kvs)) k = Inr t"
  by (simp add: time_field_def text_field_canon stamp_ok_def text_ok_def del: canon.simps(2))

lemma parse_status_value [simp]: "parse_journal_status (journal_status_value s) = Inr s"
  by (cases s) (simp_all add: parse_journal_status_def journal_statuses_def)

lemma status_value_ok [simp]: "journal_status_value s \<noteq> []" "code_points (journal_status_value s)"
  by (cases s; simp add: code_points_def)+

lemma decode_target_canon: "target_ok t \<Longrightarrow> decode_target (canon (journal_target_json t)) = Inr t"
  unfolding decode_target_def journal_target_json_def
  by (simp add: text_field_canon optional_digest_canon digest_field_canon target_ok_def text_ok_def del: canon.simps(2))

lemma decode_targets_canon:
  "\<forall>t\<in>set ts. target_ok t \<Longrightarrow> mapR decode_target (map canon (map journal_target_json ts)) = Inr ts"
  by (induction ts) (simp_all add: decode_target_canon)

lemma journal_keys: "distinct (map fst (case journal_json rt j of JObj kvs \<Rightarrow> kvs))"
  by (simp add: journal_json_def)

lemma decode_journal_canon:
  assumes "journal_ok rt j"
  shows "decode_journal rt (canon (journal_json rt j)) = Inr j"
proof -
  have t: "mapR decode_target (map canon (map journal_target_json (oj_targets j))) = Inr (oj_targets j)"
    using assms by (intro decode_targets_canon) (simp add: journal_ok_def)
  show ?thesis
    using assms t unfolding journal_ok_def journal_json_def decode_journal_def
    by (simp add: obj_get_canon text_field_canon digest_field_canon optional_digest_canon optional_text_canon
        time_field_canon text_ok_def del: canon.simps(2))
qed


lemma escape_printable: "0 \<le> c \<Longrightarrow> d \<in> set (escape_char c) \<Longrightarrow> 32 \<le> d"
proof -
  assume c: "0 \<le> c" and d: "d \<in> set (escape_char c)"
  have "32 \<le> hexdigit (k mod 16)" for k by (simp add: hexdigit_def)
  then show ?thesis using d
    by (auto simp: escape_char_def short_escape_def u_escape_def split: if_splits)
qed

lemma join_printable: "\<forall>t\<in>set ts. \<forall>c\<in>set t. 32 \<le> c \<Longrightarrow> c \<in> set (join [44] ts) \<Longrightarrow> (32 :: int) \<le> c"
  by (cases ts) (auto simp: join_def split: if_splits)

lemma dumps_printable: "storable v \<Longrightarrow> c \<in> set (dumps False v) \<Longrightarrow> 32 \<le> c"
proof (induction v arbitrary: c)
  case (JInt i)
  then show ?case using dec_nat_isdigit [of "nat i"] dec_nat_isdigit [of "nat (- i)"]
    by (auto simp: dec_int_def list_all_iff isdigit_def split: if_splits)
next
  case (JStr s)
  then show ?case using escape_printable by (auto simp: json_string_def)
next
  case (JArr vs)
  then show ?case using join_printable [of "map (dumps False) vs" c] by auto
next
  case (JObj kvs)
  have "\<forall>c\<in>set (member_text (k, v)). 32 \<le> c" if "(k, v) \<in> set kvs" for k v
    using JObj that escape_printable by (fastforce simp: member_text_def json_string_def)
  then have "\<forall>t\<in>set (map member_text (sort_key fst kvs)). \<forall>c\<in>set t. 32 \<le> c" by auto
  from join_printable [OF this] JObj.prems(2) show ?case unfolding dumps_obj by auto
next
  case (JBool b)
  then show ?case by (cases b) auto
qed auto

lemma universal_newlines_id: "13 \<notin> set s \<Longrightarrow> universal_newlines s = s"
  by (induction s rule: universal_newlines.induct) auto

lemma storable_journal: "journal_ok rt j \<Longrightarrow> storable (journal_json rt j)"
  by (auto simp: journal_json_def journal_ok_def journal_target_json_def target_ok_def text_ok_def stamp_ok_def
      code_points_def [symmetric] digest_code_points intro!: storable_jopt elim!: opt_ok_mono)

lemma journal_load_disk:
  assumes "journal_ok (runtime.truncate sys) j"
    and "journal_path js (oj_operation_id j) = Inr p"
    and "journal_hash (runtime.truncate sys) j = Inr (oj_journal_hash j)"
    and "journal_bytes (runtime.truncate sys) j = Inr b" and "int (length b) \<le> 1048576"
    and "fs w p = Some (RegFile b m u g)" and "faults w = []"
  shows "journal_load sys js (oj_operation_id j) w = (Inr j, w)"
proof -
  let ?rt = "runtime.truncate sys"
  have st: "storable (journal_json ?rt j)" by (rule storable_journal [OF assms(1)])
  have u: "utf8_decode b = Inr (dumps False (journal_json ?rt j))"
    using assms(4) utf8_decode_encode by (simp add: journal_bytes_def)
  have "13 \<notin> set (dumps False (journal_json ?rt j))" using dumps_printable [OF st] by force
  then have n: "universal_newlines (dumps False (journal_json ?rt j)) = dumps False (journal_json ?rt j)"
    by (rule universal_newlines_id)
  have o: "os_step w = (Inr (), w)" using assms(7) by (simp add: os_step_def)
  have r: "read_bytes p w = (Inr b, w)" using assms(6) o by (simp add: read_bytes_def bindW_def)
  have t: "read_text p w = (Inr (dumps False (journal_json ?rt j)), w)"
    using r u n by (simp add: read_text_def bindW_def)
  have d: "tryW (bindW (read_text p) (\<lambda>t. bindW (liftR (jloads t)) (\<lambda>v. liftR (decode_journal ?rt v))))
      (\<lambda>e. raiseW (if malformed e then AdapterError ''invalid_journal'' else e)) w = (Inr j, w)"
    using t jloads_dumps [OF st] decode_journal_canon [OF assms(1)] by (simp add: tryW_def bindW_def)
  show ?thesis using assms d r
    by (simp add: journal_load_def bindW_run bindW_def guardW_def)
qed


text \<open>
  Property C12. What the journal writes it can load: on a machine without faults, a file that holds the bytes
  of a well-formed, hash-bound journal of the operation, within the size limit, loads as exactly that
  journal and nothing is changed.
\<close>

theorem journal_load_written:
  assumes "journal_ok (runtime.truncate sys) j"
    and "journal_path js (oj_operation_id j) = Inr p"
    and "journal_hash (runtime.truncate sys) j = Inr (oj_journal_hash j)"
    and "journal_bytes (runtime.truncate sys) j = Inr b" and "int (length b) \<le> 1048576"
    and "fs w p = Some (RegFile b m u g)" and "faults w = []"
  shows "journal_load sys js (oj_operation_id j) w = (Inr j, w)"
  using assms by (rule journal_load_disk)

section \<open>A journal of the small machine\<close>

definition toy_journals :: journal_store where
  "toy_journals = \<lparr>jr_root = lit ''/j'', jr_allowed = [lit ''/c'']\<rparr>"

definition toy_target :: journal_target where
  "toy_target = \<lparr>jt_target = lit ''/c/a'', jt_before = None, jt_after = toy_digest []\<rparr>"

definition toy_journal :: "str \<Rightarrow> operation_journal" where
  "toy_journal h = \<lparr>oj_operation_id = lit ''op'', oj_schema_version = lit ''1.1'', oj_plan_id = lit ''p'',
     oj_host_id = lit ''h'', oj_change_set_hash = lit ''c'', oj_approval_id = None, oj_backup_id = None,
     oj_manifest_hash = None, oj_request_hash = None, oj_rollback_request_hash = None, oj_status = JS_APPLYING,
     oj_targets = [toy_target], oj_created_at = 10, oj_updated_at = 10, oj_journal_hash = h\<rparr>"

abbreviation toy_runtime :: runtime where
  "toy_runtime \<equiv> runtime.truncate toy_system"

definition toy_hash :: str where
  "toy_hash = (case journal_hash toy_runtime (toy_journal []) of Inr h \<Rightarrow> h | Inl _ \<Rightarrow> [])"

lemma toy_journal_path: "journal_path toy_journals (lit ''op'') = Inr (lit ''/j/op.json'')"
  by code_simp

lemma toy_journal_sealed:
  "is_digest toy_hash \<and> journal_hash toy_runtime (toy_journal toy_hash) = Inr toy_hash"
proof -
  have "case journal_hash toy_runtime (toy_journal []) of Inl _ \<Rightarrow> False | Inr h \<Rightarrow> is_digest h" by code_simp
  then obtain h where h: "journal_hash toy_runtime (toy_journal []) = Inr h" "is_digest h"
    by (auto split: sum.splits)
  have "(toy_journal h)\<lparr>oj_journal_hash := []\<rparr> = (toy_journal [])\<lparr>oj_journal_hash := []\<rparr>" by (simp add: toy_journal_def)
  then have "journal_hash toy_runtime (toy_journal h) = Inr h" using h(1) unfolding journal_hash_def by metis
  then show ?thesis using h by (simp add: toy_hash_def)
qed

lemma toy_journal_ok: "journal_ok toy_runtime (toy_journal toy_hash)"
proof -
  have "stamp_ok toy_runtime 10" "is_digest (toy_digest [])" by code_simp+
  then show ?thesis using toy_journal_sealed
    by (simp add: journal_ok_def toy_journal_def toy_target_def target_ok_def text_ok_def opt_ok_def complete_binding_def)
qed

lemma toy_journal_bytes:
  "case journal_bytes toy_runtime (toy_journal toy_hash) of Inl _ \<Rightarrow> False | Inr b \<Rightarrow> int (length b) \<le> 1048576"
  by code_simp

theorem journal_load_written_witness:
  "\<exists>b. journal_load toy_system toy_journals (lit ''op'') (toy_world [lit ''/j/op.json'' \<mapsto> RegFile b 384 1000 1000]) =
    (Inr (toy_journal toy_hash), toy_world [lit ''/j/op.json'' \<mapsto> RegFile b 384 1000 1000])"
proof -
  obtain b where b: "journal_bytes toy_runtime (toy_journal toy_hash) = Inr b" "int (length b) \<le> 1048576"
    using toy_journal_bytes by (auto split: sum.splits)
  have i: "oj_operation_id (toy_journal toy_hash) = lit ''op''" by (simp add: toy_journal_def)
  have h: "oj_journal_hash (toy_journal toy_hash) = toy_hash" by (simp add: toy_journal_def)
  from journal_load_written [of toy_system "toy_journal toy_hash" toy_journals "lit ''/j/op.json''" b
      "toy_world [lit ''/j/op.json'' \<mapsto> RegFile b 384 1000 1000]" 384 1000 1000]
  show ?thesis using toy_journal_ok toy_journal_path toy_journal_sealed b unfolding i h
    by (auto simp: toy_world_def simp del: lit_simps)
qed

section \<open>Progress\<close>

text \<open>Texts without lone surrogates can be encoded.\<close>

fun encodable :: "json \<Rightarrow> bool" where
  "encodable (JStr s) \<longleftrightarrow> (\<forall>c\<in>set s. valid_cp c)"
| "encodable (JArr vs) \<longleftrightarrow> (\<forall>v\<in>set vs. encodable v)"
| "encodable (JObj kvs) \<longleftrightarrow> (\<forall>(k, v)\<in>set kvs. (\<forall>c\<in>set k. valid_cp c) \<and> encodable v)"
| "encodable (JFloat t) \<longleftrightarrow> (\<forall>c\<in>set t. valid_cp c)"
| "encodable _ \<longleftrightarrow> True"

lemma ascii_valid [simp]: "0 \<le> c \<Longrightarrow> c < 128 \<Longrightarrow> valid_cp c"
  by (simp add: valid_cp_def)

lemma escape_valid: "valid_cp c \<Longrightarrow> d \<in> set (escape_char c) \<Longrightarrow> valid_cp d"
proof -
  assume c: "valid_cp c" and d: "d \<in> set (escape_char c)"
  have "valid_cp (hexdigit (k mod 16))" for k
  proof -
    have "0 \<le> k mod 16 \<and> k mod 16 < 16" by simp
    then have "0 \<le> hexdigit (k mod 16) \<and> hexdigit (k mod 16) < 128" unfolding hexdigit_def by auto
    then show ?thesis by simp
  qed
  then show ?thesis using c d
    by (auto simp: escape_char_def short_escape_def u_escape_def split: if_splits)
qed

lemma join_valid: "\<forall>t\<in>set ts. \<forall>c\<in>set t. valid_cp c \<Longrightarrow> c \<in> set (join [44] ts) \<Longrightarrow> valid_cp c"
  by (cases ts) (auto simp: join_def split: if_splits)

lemma digits_valid: "c \<in> set (dec_nat n) \<Longrightarrow> valid_cp c"
  using dec_nat_isdigit [of n] by (auto simp: list_all_iff isdigit_def)

lemma dumps_valid: "encodable v \<Longrightarrow> c \<in> set (dumps False v) \<Longrightarrow> valid_cp c"
proof (induction v arbitrary: c)
  case (JStr s)
  then show ?case using escape_valid by (auto simp: json_string_def)
next
  case (JArr vs)
  then show ?case using join_valid [of "map (dumps False) vs" c] by auto
next
  case (JObj kvs)
  have "\<forall>c\<in>set (member_text (k, v)). valid_cp c" if "(k, v) \<in> set kvs" for k v
    using JObj that escape_valid by (fastforce simp: member_text_def json_string_def)
  then have "\<forall>t\<in>set (map member_text (sort_key fst kvs)). \<forall>c\<in>set t. valid_cp c" by auto
  from join_valid [OF this] JObj.prems(2) show ?case unfolding dumps_obj by auto
next
  case (JBool b)
  then show ?case by (cases b) auto
next
  case (JInt i)
  then show ?case using digits_valid by (auto simp: dec_int_def split: if_splits)
qed auto

lemma utf8_dumps: "encodable v \<Longrightarrow> \<exists>b. utf8_encode (dumps False v) = Inr b"
  using dumps_valid by (auto simp: utf8_encode_def)

lemma status_valid: "\<forall>c\<in>set (journal_status_value s). valid_cp c"
  by (cases s) (simp_all add: valid_cp_def)

lemma journal_update_succeeds:
  assumes "journal_ok (runtime.truncate sys) j"
    and "journal_path js (oj_operation_id j) = Inr p"
    and "journal_hash (runtime.truncate sys) j = Inr (oj_journal_hash j)"
    and "journal_bytes (runtime.truncate sys) j = Inr b" and "int (length b) \<le> 1048576"
    and "fs w p = Some (RegFile b m u g)" and "faults w = []"
    and "encodable (journal_json (runtime.truncate sys) j)"
    and "\<forall>t. \<forall>c\<in>set (isoformat sys t). valid_cp c" and "\<forall>x. is_digest (sha256 sys x)"
    and "st \<in> set (journal_transitions (oj_status j))"
  shows "\<exists>j' w'. journal_update sys js (oj_operation_id j) st w = (Inr j', w') \<and> oj_status j' = st"
proof -
  let ?rt = "runtime.truncate sys"
  have l: "journal_load sys js (oj_operation_id j) w = (Inr j, w)"
    using assms(1-7) by (rule journal_load_disk)
  obtain now w1 where n: "utc_now w = (Inr now, w1)" "faults w1 = []" "fs w1 = fs w"
    using assms(7) by (cases "clock w") (auto simp: utc_now_def)
  define j1 where "j1 = j\<lparr>oj_status := st, oj_updated_at := now, oj_journal_hash := []\<rparr>"
  have e: "encodable (journal_json ?rt (j1\<lparr>oj_journal_hash := h\<rparr>))" if "\<forall>c\<in>set h. valid_cp c" for h
    using assms(8,9) that status_valid [of st]
    by (simp add: journal_json_def j1_def) (simp add: runtime.truncate_def)
  have dv: "\<forall>c\<in>set d. valid_cp c" if "is_digest d" for d
    using that by (auto simp: is_digest_def list_all_iff isdigit_def valid_cp_def)
  from utf8_dumps [OF e [of "[]"]] obtain b0 where
    b0: "journal_bytes ?rt (j1\<lparr>oj_journal_hash := []\<rparr>) = Inr b0" by (auto simp: journal_bytes_def)
  define h where "h = sha256 ?rt b0"
  have "\<forall>c\<in>set h. valid_cp c"
    using dv [OF assms(10) [rule_format, of b0]] by (simp add: h_def runtime.truncate_def)
  from utf8_dumps [OF e [OF this]] obtain b1 where
    b1: "journal_bytes ?rt (j1\<lparr>oj_journal_hash := h\<rparr>) = Inr b1" by (auto simp: journal_bytes_def)
  have i: "oj_operation_id j1 = oj_operation_id j" by (simp add: j1_def)
  have s: "\<exists>w2. journal_sealed sys js j1 w1 = (Inr (j1\<lparr>oj_journal_hash := h\<rparr>), w2)"
    using b0 b1 n assms(2,6) i
    by (simp add: journal_sealed_def journal_hash_def journal_write_def atomic_write_def bindW_def os_step_def
        put_node_def h_def)
  then show ?thesis using l n assms(11)
    by (auto simp: journal_update_def bindW_def guardW_def j1_def)
qed

text \<open>
  Property C15. The journal makes progress: on a machine without faults whose digest is a digest and whose
  clock prints parsable, encodable times, a well-formed journal on disk moves to any status its state
  machine allows.
\<close>

theorem journal_update_progress:
  assumes "journal_ok (runtime.truncate sys) j"
    and "journal_path js (oj_operation_id j) = Inr p"
    and "journal_hash (runtime.truncate sys) j = Inr (oj_journal_hash j)"
    and "journal_bytes (runtime.truncate sys) j = Inr b" and "int (length b) \<le> 1048576"
    and "fs w p = Some (RegFile b m u g)" and "faults w = []"
    and "encodable (journal_json (runtime.truncate sys) j)"
    and "\<forall>t. \<forall>c\<in>set (isoformat sys t). valid_cp c" and "\<forall>x. is_digest (sha256 sys x)"
    and "st \<in> set (journal_transitions (oj_status j))"
  shows "\<exists>j' w'. journal_update sys js (oj_operation_id j) st w = (Inr j', w') \<and> oj_status j' = st"
  using assms by (rule journal_update_succeeds)

lemma toy_system_digest: "is_digest (sha256 toy_system x)"
proof -
  have "isdigit (hexdigit (k mod 16)) \<or> (97 \<le> hexdigit (k mod 16) \<and> hexdigit (k mod 16) \<le> 102)" for k
  proof -
    have "0 \<le> k mod 16 \<and> k mod 16 < 16" by simp
    then show ?thesis unfolding hexdigit_def isdigit_def by auto
  qed
  then show ?thesis
    by (simp add: toy_system_def toy_digest_def hex8_def is_digest_def list_all_iff) (simp add: isdigit_def)
qed

lemma toy_system_clock: "\<forall>c\<in>set (isoformat toy_system t). valid_cp c"
  using digits_valid by (auto simp: toy_system_def dec_int_def)

lemma toy_journal_encodable: "encodable (journal_json toy_runtime (toy_journal toy_hash))"
proof -
  have d: "\<forall>c\<in>set d. valid_cp c" if "is_digest d" for d
    using that by (auto simp: is_digest_def list_all_iff isdigit_def valid_cp_def)
  have "sha256 toy_system = toy_digest" by (simp add: toy_system_def)
  then have "\<forall>c\<in>set (toy_digest []). valid_cp c" using d toy_system_digest [of "[]"] by simp
  moreover have "\<forall>c\<in>set toy_hash. valid_cp c" using d toy_journal_sealed by blast
  ultimately show ?thesis using toy_system_clock [of 10]
    by (simp add: journal_json_def toy_journal_def toy_target_def journal_target_json_def jopt_def runtime.truncate_def)
qed

definition toy_journal_world :: "bytes \<Rightarrow> world" where
  "toy_journal_world b = toy_world [lit ''/j/op.json'' \<mapsto> RegFile b 384 1000 1000]"

lemma toy_journal_facts:
  obtains b where "journal_path toy_journals (oj_operation_id (toy_journal toy_hash)) = Inr (lit ''/j/op.json'')"
    "journal_hash toy_runtime (toy_journal toy_hash) = Inr (oj_journal_hash (toy_journal toy_hash))"
    "journal_bytes toy_runtime (toy_journal toy_hash) = Inr b" "int (length b) \<le> 1048576"
    "fs (toy_journal_world b) (lit ''/j/op.json'') = Some (RegFile b 384 1000 1000)" "faults (toy_journal_world b) = []"
    "JS_VALIDATING \<in> set (journal_transitions (oj_status (toy_journal toy_hash)))"
proof -
  obtain b where b: "journal_bytes toy_runtime (toy_journal toy_hash) = Inr b" "int (length b) \<le> 1048576"
    using toy_journal_bytes by (auto split: sum.splits)
  have "oj_operation_id (toy_journal toy_hash) = lit ''op''" "oj_journal_hash (toy_journal toy_hash) = toy_hash"
    "oj_status (toy_journal toy_hash) = JS_APPLYING"
    by (simp_all add: toy_journal_def)
  then show ?thesis using that b toy_journal_path toy_journal_sealed
    by (simp add: toy_journal_world_def toy_world_def)
qed

theorem journal_update_progress_witness:
  "\<exists>b j' w'. journal_update toy_system toy_journals (oj_operation_id (toy_journal toy_hash)) JS_VALIDATING (toy_journal_world b)
    = (Inr j', w') \<and> oj_status j' = JS_VALIDATING"
proof -
  obtain b where *: "journal_path toy_journals (oj_operation_id (toy_journal toy_hash)) = Inr (lit ''/j/op.json'')"
    "journal_hash toy_runtime (toy_journal toy_hash) = Inr (oj_journal_hash (toy_journal toy_hash))"
    "journal_bytes toy_runtime (toy_journal toy_hash) = Inr b" "int (length b) \<le> 1048576"
    "fs (toy_journal_world b) (lit ''/j/op.json'') = Some (RegFile b 384 1000 1000)" "faults (toy_journal_world b) = []"
    "JS_VALIDATING \<in> set (journal_transitions (oj_status (toy_journal toy_hash)))"
    by (rule toy_journal_facts)
  have c: "\<forall>t. \<forall>c\<in>set (isoformat toy_system t). valid_cp c" "\<forall>x. is_digest (sha256 toy_system x)"
    using toy_system_clock toy_system_digest by blast+
  from journal_update_progress [OF toy_journal_ok *(1-6) toy_journal_encodable c *(7)] show ?thesis by blast
qed


end
