(* ===== verification/Backup.thy ===== *)
theory Backup
  imports Journal
begin

text \<open>
  \<open>infrastructure/backup.py\<close>: the local backup store.  \<open>create\<close> captures every target of a change set
  before it writes anything, \<open>verify\<close> rehashes what is stored, \<open>restore\<close> puts the captured files back in
  reverse order after a successful \<open>verify\<close>.  The cipher of encrypted backups is a parameter of the store,
  as in the code; error messages carried in results are not modelled (\<open>error_text\<close>).
\<close>

section \<open>Data\<close>

record backup_request =
  rq_backup_id :: str
  rq_plan_id :: str
  rq_host_id :: str
  rq_host_fingerprint :: "str option"
  rq_change_set :: change_set
  rq_encryption :: encryption_info

record backup_restore_item =
  ri_target :: str
  ri_existed :: bool
  ri_content :: "bytes option"
  ri_sha256 :: "str option"
  ri_mode :: "int option"
  ri_uid :: "int option"
  ri_gid :: "int option"

text \<open>Content, backup id, host fingerprint, target, key reference, key scope.\<close>

record cipher =
  encrypt :: "bytes \<Rightarrow> str \<Rightarrow> str option \<Rightarrow> str \<Rightarrow> str \<Rightarrow> str \<Rightarrow> bytes res"
  decrypt :: "bytes \<Rightarrow> str \<Rightarrow> str option \<Rightarrow> str \<Rightarrow> str \<Rightarrow> str \<Rightarrow> bytes res"

record backup_store =
  bs_root :: str
  bs_allowed :: "str list"
  bs_cipher :: "cipher option"

definition max_item_bytes :: int where
  "max_item_bytes = 16777216"

definition max_envelope_bytes :: int where
  "max_envelope_bytes = (max_item_bytes + 16 + 2) div 3 * 4 + 4096"

definition error_text :: json where
  "error_text = JStr (lit ''error'')"

definition backup_result :: "str \<Rightarrow> bool \<Rightarrow> json \<Rightarrow> json \<Rightarrow> validation_result" where
  "backup_result c passed want got =
     \<lparr>validation_id = c, vr_scope = lit ''backup'', check = c, vr_status = (if passed then VS_PASSED else VS_FAILED),
      expected = want, actual = got, vr_severity = (if passed then SV_INFO else SV_HIGH),
      vr_message = Some \<lparr>message_key = lit ''validation.'' @ c @ (if passed then lit ''.passed'' else lit ''.failed''),
        arguments = [], fallback_text = []\<rparr>,
      vr_duration_ms = 0\<rparr>"

definition passed_result :: "validation_result \<Rightarrow> bool" where
  "passed_result r \<longleftrightarrow> vr_status r = VS_PASSED"

section \<open>Manifest bytes\<close>

definition backup_item_json :: "backup_item \<Rightarrow> json" where
  "backup_item_json i = JObj
     [(lit ''target'', JStr (bi_target i)), (lit ''existed'', JBool (existed i)),
      (lit ''content_ref'', jopt JStr (content_ref i)), (lit ''sha256'', jopt JStr (bi_sha256 i)),
      (lit ''mode'', jopt JInt (mode i)), (lit ''uid'', jopt JInt (uid i)), (lit ''gid'', jopt JInt (gid i)),
      (lit ''selinux_context'', jopt JStr (selinux_context i)), (lit ''service_state'', jopt JStr (service_state i)),
      (lit ''storage_location'', jopt JStr (bi_storage_location i))]"

definition encryption_json :: "encryption_info \<Rightarrow> json" where
  "encryption_json e = JObj
     [(lit ''enabled'', JBool (enc_enabled e)), (lit ''scheme'', jopt JStr (scheme e)),
      (lit ''envelope_version'', jopt JInt (envelope_version e)), (lit ''key_reference'', jopt JStr (key_reference e)),
      (lit ''key_scope'', jopt JStr (key_scope e))]"

definition manifest_json :: "runtime \<Rightarrow> backup_manifest \<Rightarrow> json" where
  "manifest_json rt m = JObj
     [(lit ''backup_id'', JStr (backup_id m)), (lit ''schema_version'', JStr (bm_schema_version m)),
      (lit ''plan_id'', JStr (bm_plan_id m)), (lit ''change_set_hash'', JStr (bm_change_set_hash m)),
      (lit ''host_id'', JStr (bm_host_id m)), (lit ''host_fingerprint'', jopt JStr (host_fingerprint m)),
      (lit ''items'', JArr (map backup_item_json (items m))), (lit ''manifest_hash'', JStr (manifest_hash m)),
      (lit ''storage_location'', JStr (storage_location m)), (lit ''encryption'', encryption_json (encryption m)),
      (lit ''protected'', JBool (protected m)), (lit ''created_at'', JStr (isoformat rt (bm_created_at m))),
      (lit ''retention_expires_at'', jopt (\<lambda>t. JStr (isoformat rt t)) (retention_expires_at m)),
      (lit ''complete'', JBool (complete m))]"

definition manifest_bytes :: "runtime \<Rightarrow> backup_manifest \<Rightarrow> bytes res" where
  "manifest_bytes rt m = utf8_encode (dumps False (manifest_json rt m))"

definition manifest_digest :: "runtime \<Rightarrow> backup_manifest \<Rightarrow> str res" where
  "manifest_digest rt m = bindR (manifest_bytes rt (m\<lparr>manifest_hash := []\<rparr>)) (\<lambda>b. Inr (sha256 rt b))"

text \<open>\<open>_safe_component\<close>\<close>

definition safe_component :: "runtime \<Rightarrow> str \<Rightarrow> str res" where
  "safe_component rt v = bindR (utf8_encode v) (\<lambda>b. Inr (take 24 (sha256 rt b)))"

section \<open>Creating\<close>

definition backup_targets :: "change_set \<Rightarrow> str list" where
  "backup_targets cs = dict_keys (map ch_target (changes cs))"

definition check_request :: "backup_request \<Rightarrow> unit res" where
  "check_request rq =
     (if rq_host_id rq \<noteq> cs_host_id (rq_change_set rq) then Inl (AdapterError ''host_mismatch'')
      else if rq_backup_id rq = [] \<or> path_name (rq_backup_id rq) \<noteq> rq_backup_id rq
      then Inl (AdapterError ''invalid_backup_id'') else Inr ())"

text \<open>The capture of one target; \<open>stat\<close> and \<open>read_bytes\<close> may fail.\<close>

definition capture_target :: "system \<Rightarrow> backup_store \<Rightarrow> str \<Rightarrow> backup_restore_item io" where
  "capture_target sys bs t =
     bindW check_cancel (\<lambda>_.
     bindW (liftR (checked_target sys (bs_allowed bs) t)) (\<lambda>p.
     bindW (node_at p) (\<lambda>n.
     if n = Some SymLink then raiseW (AdapterError ''symlink_rejected'')
     else bindW os_step (\<lambda>_. case n of
         None \<Rightarrow> retW \<lparr>ri_target = p, ri_existed = False, ri_content = None, ri_sha256 = None, ri_mode = None,
                      ri_uid = None, ri_gid = None\<rparr>
       | Some (RegFile c m u g) \<Rightarrow>
           if max_item_bytes < int (length c) then raiseW (AdapterError ''item_too_large'')
           else bindW (read_bytes p) (\<lambda>content.
             retW \<lparr>ri_target = p, ri_existed = True, ri_content = Some content, ri_sha256 = Some (sha256 sys content),
                   ri_mode = Some m, ri_uid = Some u, ri_gid = Some g\<rparr>)
       | Some _ \<Rightarrow> raiseW (AdapterError ''unsupported_target'')))))"

text \<open>The checks of \<open>_persist_captured\<close> on one captured item.\<close>

definition before_hashes :: "change_set \<Rightarrow> str \<Rightarrow> str option list" where
  "before_hashes cs t = remdups (map before_hash (filter (\<lambda>c. ch_target c = t) (changes cs)))"

definition check_captured :: "system \<Rightarrow> backup_store \<Rightarrow> change_set \<Rightarrow> bool \<Rightarrow> backup_restore_item \<Rightarrow> unit res" where
  "check_captured sys bs cs precondition i =
     bindR (checked_target sys (bs_allowed bs) (ri_target i)) (\<lambda>_.
     let expected = before_hashes cs (ri_target i) in
     if length expected \<noteq> 1 \<or> (precondition \<and> expected \<noteq> [ri_sha256 i]) then Inl (AdapterError ''captured_backup_mismatch'')
     else if ri_existed i then
       (case (ri_content i, ri_sha256 i) of
          (Some c, Some h) \<Rightarrow> if max_item_bytes < int (length c) \<or> sha256 sys c \<noteq> h
             then Inl (AdapterError ''captured_backup_mismatch'') else Inr ()
        | _ \<Rightarrow> Inl (AdapterError ''captured_backup_mismatch''))
     else if ri_content i \<noteq> None \<or> ri_sha256 i \<noteq> None then Inl (AdapterError ''captured_backup_mismatch'')
     else Inr ())"

definition text_or_empty :: "str option \<Rightarrow> str" where
  "text_or_empty x = (case x of None \<Rightarrow> [] | Some s \<Rightarrow> s)"

definition encode_content :: "backup_store \<Rightarrow> bytes \<Rightarrow> encryption_info \<Rightarrow> str \<Rightarrow> str option \<Rightarrow> str \<Rightarrow> bytes res" where
  "encode_content bs content e bid fp t =
     (if \<not> enc_enabled e then Inr content
      else (case bs_cipher bs of
          None \<Rightarrow> Inl (AdapterError ''encryption_unavailable'')
        | Some c \<Rightarrow> encrypt c content bid fp t (text_or_empty (key_reference e)) (text_or_empty (key_scope e))))"

definition decode_content :: "backup_store \<Rightarrow> bytes \<Rightarrow> encryption_info \<Rightarrow> str \<Rightarrow> str option \<Rightarrow> str \<Rightarrow> bytes res" where
  "decode_content bs content e bid fp t =
     (if \<not> enc_enabled e then Inr content
      else (case bs_cipher bs of
          None \<Rightarrow> Inl (AdapterError ''encryption_unavailable'')
        | Some c \<Rightarrow> decrypt c content bid fp t (text_or_empty (key_reference e)) (text_or_empty (key_scope e))))"

text \<open>\<open>mkdir(parents=True, exist_ok=False)\<close>\<close>

definition mkdir_new :: "str \<Rightarrow> unit io" where
  "mkdir_new p = bindW os_step (\<lambda>_. bindW (node_at p) (\<lambda>n.
     if exists_node n then raiseW OSError else put_node p (Some NotRegular)))"

definition pad4 :: "nat \<Rightarrow> str" where
  "pad4 n = replicate (4 - length (dec_nat n)) 48 @ dec_nat n"

definition store_item :: "system \<Rightarrow> backup_store \<Rightarrow> backup_request \<Rightarrow> str \<Rightarrow> nat \<times> backup_restore_item \<Rightarrow> backup_item io" where
  "store_item sys bs rq dir = (\<lambda>(index, i).
     bindW check_cancel (\<lambda>_.
     bindW (case (ri_existed i, ri_content i, ri_sha256 i) of
         (True, Some content, Some h) \<Rightarrow>
           bindW (liftR (encode_content bs content (rq_encryption rq) (rq_backup_id rq) (rq_host_fingerprint rq) (ri_target i))) (\<lambda>stored.
           let nm = pad4 index @ [45] @ h @ (if enc_enabled (rq_encryption rq) then lit ''.enc'' else lit ''.bin'')
           in bindW (atomic_write sys (path_join (path_join dir (lit ''items'')) nm) stored 384) (\<lambda>_.
              retW (Some (lit ''items/'' @ nm))))
       | _ \<Rightarrow> retW None) (\<lambda>ref.
     retW \<lparr>bi_target = ri_target i, existed = ri_existed i, content_ref = ref, bi_sha256 = ri_sha256 i, mode = ri_mode i,
           uid = ri_uid i, gid = ri_gid i, selinux_context = None, service_state = None,
           bi_storage_location = Some dir\<rparr>)))"

definition backup_dir :: "system \<Rightarrow> backup_store \<Rightarrow> backup_request \<Rightarrow> str res" where
  "backup_dir sys bs rq = bindR (safe_component (runtime.truncate sys) (rq_host_id rq)) (\<lambda>h.
     Inr (path_join (path_join (bs_root bs) h) (rq_backup_id rq)))"

definition retention_period :: time where
  "retention_period = 30 * 24 * 3600 * 1000000"

definition seal_manifest :: "runtime \<Rightarrow> backup_manifest \<Rightarrow> backup_manifest res" where
  "seal_manifest rt m = bindR (manifest_digest rt m) (\<lambda>h. Inr (m\<lparr>manifest_hash := h\<rparr>))"

definition register :: "backup_manifest \<Rightarrow> unit io" where
  "register m = modifyW (\<lambda>w. w\<lparr>registry := AList.update (bm_host_id m, backup_id m) m (registry w)\<rparr>)"

definition persist_captured :: "system \<Rightarrow> backup_store \<Rightarrow> backup_request \<Rightarrow> backup_restore_item list \<Rightarrow> bool \<Rightarrow> backup_manifest io" where
  "persist_captured sys bs rq captured precondition =
     bindW check_cancel (\<lambda>_.
     bindW (liftR (check_request rq)) (\<lambda>_.
     bindW (guardW (map ri_target captured = backup_targets (rq_change_set rq)) (AdapterError ''captured_backup_mismatch'')) (\<lambda>_.
     bindW (liftR (eachR (check_captured sys bs (rq_change_set rq) precondition) captured)) (\<lambda>_.
     bindW (liftR (backup_dir sys bs rq)) (\<lambda>dir.
     bindW (mkdir_new (path_join dir (lit ''items''))) (\<lambda>_.
     bindW os_step (\<lambda>_. bindW os_step (\<lambda>_. bindW os_step (\<lambda>_.
     bindW (mapW (store_item sys bs rq dir) (enumerate 0 captured)) (\<lambda>its.
     bindW utc_now (\<lambda>created.
     bindW (liftR (seal_manifest (runtime.truncate sys)
        \<lparr>backup_id = rq_backup_id rq, bm_schema_version = lit ''1.0'', bm_plan_id = rq_plan_id rq,
         bm_change_set_hash = content_hash (rq_change_set rq), bm_host_id = rq_host_id rq,
         host_fingerprint = rq_host_fingerprint rq, items = its, manifest_hash = [], storage_location = dir,
         encryption = rq_encryption rq, protected = False, bm_created_at = created,
         retention_expires_at = Some (created + retention_period), complete = True\<rparr>)) (\<lambda>m.
     bindW (liftR (manifest_bytes (runtime.truncate sys) m)) (\<lambda>b.
     bindW (atomic_write sys (path_join dir (lit ''manifest.json'')) b 384) (\<lambda>_.
     bindW (register m) (\<lambda>_. retW m)))))))))))))))"

definition backup_create :: "system \<Rightarrow> backup_store \<Rightarrow> backup_request \<Rightarrow> backup_manifest io" where
  "backup_create sys bs rq =
     bindW check_cancel (\<lambda>_.
     bindW (liftR (check_request rq)) (\<lambda>_.
     bindW (mapW (capture_target sys bs) (backup_targets (rq_change_set rq))) (\<lambda>captured.
     persist_captured sys bs rq captured False)))"

definition backup_create_captured :: "system \<Rightarrow> backup_store \<Rightarrow> backup_request \<Rightarrow> backup_restore_item list \<Rightarrow> backup_manifest io" where
  "backup_create_captured sys bs rq captured = persist_captured sys bs rq captured True"

section \<open>Verifying\<close>

text \<open>Reading a path follows symbolic links.\<close>

definition read_through :: "system \<Rightarrow> str \<Rightarrow> bytes io" where
  "read_through sys p = read_bytes (realpath sys p)"

definition manifest_check :: "system \<Rightarrow> backup_manifest \<Rightarrow> str \<Rightarrow> validation_result io" where
  "manifest_check sys m base =
     bindW (liftR (manifest_digest (runtime.truncate sys) m)) (\<lambda>want.
     bindW (liftR (manifest_bytes (runtime.truncate sys) m)) (\<lambda>b.
     bindW (tryW (bindW (read_through sys (path_join base (lit ''manifest.json''))) (\<lambda>c. retW (Some c)))
        (\<lambda>e. if e = OSError then retW None else raiseW e)) (\<lambda>disk.
     bindW (node_at (path_join base (lit ''manifest.json''))) (\<lambda>n.
     retW (backup_result (lit ''backup.manifest'')
       (complete m \<and> manifest_hash m = want \<and> disk = Some b \<and> is_file_node n)
       (JStr want) (JStr (manifest_hash m)))))))"

definition item_check_name :: "string \<Rightarrow> nat \<Rightarrow> str" where
  "item_check_name pre index = lit pre @ dec_nat index"

text \<open>The content of one stored item, hashed: \<open>None\<close> where the code leaves \<open>actual\<close> at \<open>None\<close>.\<close>

definition stored_digest :: "system \<Rightarrow> backup_store \<Rightarrow> backup_manifest \<Rightarrow> str \<Rightarrow> backup_item \<Rightarrow> str option io" where
  "stored_digest sys bs m base i =
     (case content_ref i of
        None \<Rightarrow> retW None
      | Some ref \<Rightarrow>
          if ref = [] \<or> is_absolute ref then retW None
          else (let p = realpath sys (path_join base ref) in
            bindW (node_at p) (\<lambda>n. case n of
                Some (RegFile c _ _ _) \<Rightarrow>
                  if \<not> within p base then retW None
                  else if (if enc_enabled (encryption m) then max_envelope_bytes else max_item_bytes) < int (length c) then retW None
                  else bindW (read_bytes p) (\<lambda>c.
                    tryW (bindW (liftR (decode_content bs c (encryption m) (backup_id m) (host_fingerprint m) (bi_target i))) (\<lambda>t.
                        retW (Some (sha256 sys t))))
                      (\<lambda>e. case e of AdapterError _ \<Rightarrow> retW None | _ \<Rightarrow> raiseW e))
              | _ \<Rightarrow> retW None)))"

definition verify_item :: "system \<Rightarrow> backup_store \<Rightarrow> backup_manifest \<Rightarrow> str \<Rightarrow> nat \<times> backup_item \<Rightarrow> validation_result io" where
  "verify_item sys bs m base = (\<lambda>(index, i).
     bindW check_cancel (\<lambda>_.
     if \<not> existed i then
       retW (backup_result (item_check_name ''backup.item.'' index) (content_ref i = None) JNull (jopt JStr (content_ref i)))
     else bindW (stored_digest sys bs m base i) (\<lambda>got.
       retW (backup_result (item_check_name ''backup.item.'' index) (got \<noteq> None \<and> got = bi_sha256 i)
         (jopt JStr (bi_sha256 i)) (jopt JStr got)))))"

definition backup_verify :: "system \<Rightarrow> backup_store \<Rightarrow> backup_manifest \<Rightarrow> validation_result list io" where
  "backup_verify sys bs m =
     bindW check_cancel (\<lambda>_.
     let base = realpath sys (storage_location m) in
     bindW (manifest_check sys m base) (\<lambda>r.
     if \<not> within base (bs_root bs) then
       retW [r, backup_result (lit ''backup.location'') False (JStr (bs_root bs)) (JStr base)]
     else bindW (mapW (verify_item sys bs m base) (enumerate 0 (items m))) (\<lambda>rs. retW (r # rs))))"

section \<open>Restoring\<close>

definition mode_or_default :: "int option \<Rightarrow> int" where
  "mode_or_default m = (case m of None \<Rightarrow> 384 | Some i \<Rightarrow> if i = 0 then 384 else i)"

definition put_back :: "system \<Rightarrow> backup_store \<Rightarrow> backup_manifest \<Rightarrow> str \<Rightarrow> backup_item \<Rightarrow> unit io" where
  "put_back sys bs m base i =
     bindW (liftR (checked_target sys (bs_allowed bs) (bi_target i))) (\<lambda>p.
     bindW (node_at p) (\<lambda>n.
     if n = Some SymLink then raiseW (AdapterError ''symlink_rejected'')
     else if existed i then
       (case content_ref i of
          None \<Rightarrow> raiseW (AdapterError ''invalid_manifest'')
        | Some ref \<Rightarrow>
            bindW (read_through sys (path_join base ref)) (\<lambda>stored.
            bindW (liftR (decode_content bs stored (encryption m) (backup_id m) (host_fingerprint m) (bi_target i))) (\<lambda>content.
            bindW (atomic_write sys p content (mode_or_default (mode i))) (\<lambda>_.
            case (uid i, gid i) of (Some u, Some g) \<Rightarrow> chown_file p u g | _ \<Rightarrow> retW ()))))
     else if exists_node n then unlink_synced p
     else retW ()))"

definition restore_item :: "system \<Rightarrow> backup_store \<Rightarrow> backup_manifest \<Rightarrow> str \<Rightarrow> nat \<times> backup_item \<Rightarrow> validation_result io" where
  "restore_item sys bs m base = (\<lambda>(index, i).
     bindW check_cancel (\<lambda>_.
     tryW (bindW (put_back sys bs m base i) (\<lambda>_.
         retW (backup_result (item_check_name ''restore.item.'' index) True (jopt JStr (bi_sha256 i)) (jopt JStr (bi_sha256 i)))))
       (\<lambda>e. if e = OSError \<or> adapter_error e
         then retW (backup_result (item_check_name ''restore.item.'' index) False (JStr (lit ''restored'')) error_text)
         else raiseW e)))"

definition backup_restore :: "system \<Rightarrow> backup_store \<Rightarrow> backup_manifest \<Rightarrow> validation_result list io" where
  "backup_restore sys bs m =
     bindW (backup_verify sys bs m) (\<lambda>rs.
     if \<exists>r\<in>set rs. \<not> passed_result r then retW rs
     else mapW (restore_item sys bs m (realpath sys (storage_location m))) (rev (enumerate 0 (items m))))"

text \<open>\<open>restore_items\<close>: the verified plaintext for a privileged rollback.\<close>

definition restored_plaintext :: "system \<Rightarrow> backup_store \<Rightarrow> backup_manifest \<Rightarrow> str \<Rightarrow> backup_item \<Rightarrow> backup_restore_item io" where
  "restored_plaintext sys bs m base i =
     bindW check_cancel (\<lambda>_.
     bindW (if \<not> existed i then retW None
       else (case content_ref i of
           None \<Rightarrow> raiseW (AdapterError ''invalid_manifest'')
         | Some ref \<Rightarrow>
             bindW (read_through sys (path_join base ref)) (\<lambda>stored.
             bindW (liftR (decode_content bs stored (encryption m) (backup_id m) (host_fingerprint m) (bi_target i))) (\<lambda>content.
             bindW (guardW (Some (sha256 sys content) = bi_sha256 i) (AdapterError ''invalid_backup'')) (\<lambda>_.
             retW (Some content)))))) (\<lambda>content.
     retW \<lparr>ri_target = bi_target i, ri_existed = existed i, ri_content = content, ri_sha256 = bi_sha256 i,
           ri_mode = mode i, ri_uid = uid i, ri_gid = gid i\<rparr>))"

definition backup_restore_items :: "system \<Rightarrow> backup_store \<Rightarrow> backup_manifest \<Rightarrow> backup_restore_item list io" where
  "backup_restore_items sys bs m =
     bindW (backup_verify sys bs m) (\<lambda>rs.
     bindW (guardW (rs \<noteq> [] \<and> (\<forall>r\<in>set rs. passed_result r)) (AdapterError ''invalid_backup'')) (\<lambda>_.
     mapW (restored_plaintext sys bs m (realpath sys (storage_location m))) (rev (items m))))"

lemma checked_target_Inr:
  "checked_target sys roots t = Inr p \<longleftrightarrow>
     is_absolute t \<and> (\<exists>r\<in>set roots. within (realpath sys (path_parent t)) r) \<and> p = resolved_target sys t"
  by (auto simp: checked_target_def)

lemma checked_target_within: "checked_target sys roots t = Inr p \<Longrightarrow> \<exists>r\<in>set roots. within p r"
  by (auto simp: checked_target_Inr resolved_target_def intro: within_join)

lemma checked_target_separate:
  assumes "checked_target sys roots t = Inr p" and "\<forall>r\<in>set roots. separate r root"
  shows "\<not> within p root"
  using checked_target_within [OF assms(1)] assms(2) separate_not_within by blast

section \<open>What the store touches\<close>

text \<open>\<open>create\<close> writes below the store's root only.\<close>

lemma backup_dir_within: "backup_dir sys bs rq = Inr d \<Longrightarrow> within d (bs_root bs)"
  by (auto simp: backup_dir_def bindR_eq_Inr within_iff)

lemma store_item_keeps:
  assumes "within dir root" and "\<And>p. S p \<Longrightarrow> \<not> within p root"
  shows "keeps S (store_item sys bs rq dir x)"
  unfolding store_item_def using assms
  by (auto intro!: keeping keeps_liftR_bind split: prod.splits option.splits bool.splits dest: within_join)

lemma capture_target_keeps [keeping]: "keeps S (capture_target sys bs t)"
  unfolding capture_target_def by (auto intro!: keeping split: option.splits node.splits)

lemma register_keeps [keeping]: "keeps S (register m)"
  by (simp add: keeps_def register_def)

lemma mkdir_new_keeps [keeping]: "\<not> S p \<Longrightarrow> keeps S (mkdir_new p)"
  unfolding mkdir_new_def by (auto intro!: keeping)

lemma persist_captured_keeps [keeping]:
  assumes "\<And>p. S p \<Longrightarrow> \<not> within p (bs_root bs)"
  shows "keeps S (persist_captured sys bs rq captured pre)"
  unfolding persist_captured_def using assms backup_dir_within [of sys bs rq]
  by (auto intro!: keeping keeps_liftR_bind [of "backup_dir sys bs rq"] intro: store_item_keeps dest: within_join)

lemma backup_create_keeps [keeping]:
  assumes "\<And>p. S p \<Longrightarrow> \<not> within p (bs_root bs)"
  shows "keeps S (backup_create sys bs rq)"
  unfolding backup_create_def using assms by (auto intro!: keeping)

lemma stored_digest_keeps [keeping]: "keeps S (stored_digest sys bs m base i)"
  unfolding stored_digest_def read_through_def by (auto intro!: keeping split: option.splits node.splits exn.splits)

lemma verify_item_keeps [keeping]: "keeps S (verify_item sys bs m base x)"
  unfolding verify_item_def by (auto intro!: keeping split: prod.splits)

lemma manifest_check_keeps [keeping]: "keeps S (manifest_check sys m base)"
  unfolding manifest_check_def read_through_def by (auto intro!: keeping)

lemma backup_verify_keeps [keeping]: "keeps S (backup_verify sys bs m)"
  unfolding backup_verify_def Let_def by (auto intro!: keeping)

section \<open>What a manifest records\<close>

text \<open>The item describes the file at its target.\<close>

definition describes :: "system \<Rightarrow> files \<Rightarrow> backup_item \<Rightarrow> bool" where
  "describes sys f i \<longleftrightarrow> (case f (bi_target i) of
      None \<Rightarrow> \<not> existed i \<and> bi_sha256 i = None
    | Some (RegFile c m u g) \<Rightarrow> existed i \<and> bi_sha256 i = Some (sha256 sys c) \<and> mode i = Some m
        \<and> uid i = Some u \<and> gid i = Some g
    | Some _ \<Rightarrow> False)"

text \<open>The file at the target is the recorded one: content by its digest, mode (zero reads as 0600), owner.\<close>

definition restored_as :: "system \<Rightarrow> files \<Rightarrow> backup_item \<Rightarrow> bool" where
  "restored_as sys f i \<longleftrightarrow> (if existed i
     then \<exists>c u g. f (bi_target i) = Some (RegFile c (mode_or_default (mode i)) u g) \<and> bi_sha256 i = Some (sha256 sys c)
       \<and> (uid i \<noteq> None \<and> gid i \<noteq> None \<longrightarrow> uid i = Some u \<and> gid i = Some g)
     else f (bi_target i) = None)"

lemma mapW_keeping:
  assumes "\<And>x. x \<in> set xs \<Longrightarrow> keeps (\<lambda>_. True) (f x)" and "mapW f xs w = (Inr ys, w')"
  shows "fs w' = fs w \<and> list_all2 (\<lambda>x y. \<exists>w1 w2. fs w1 = fs w \<and> f x w1 = (Inr y, w2)) xs ys"
  using assms
proof (induction xs arbitrary: w ys)
  case Nil
  then show ?case by simp
next
  case (Cons x xs)
  then obtain y w1 ys1 where y: "f x w = (Inr y, w1)" and ys: "mapW f xs w1 = (Inr ys1, w')" and e: "ys = y # ys1"
    by (auto simp: bindW_Inr)
  have "fs w1 = fs w" using keepsD [OF Cons.prems(1) [of x] y] by auto
  with Cons.IH [OF Cons.prems(1) ys] y e show ?case by auto
qed

lemma list_all2_enumerate:
  "list_all2 (\<lambda>x y. P (snd x) y) (enumerate n xs) ys \<longleftrightarrow> list_all2 P xs ys"
  by (induction xs arbitrary: n ys) (auto simp: list_all2_Cons1)

lemma capture_target_Inr:
  assumes "capture_target sys bs t w = (Inr i, w')"
  shows "checked_target sys (bs_allowed bs) t = Inr (ri_target i) \<and> (case fs w (ri_target i) of
      None \<Rightarrow> \<not> ri_existed i \<and> ri_content i = None \<and> ri_sha256 i = None
    | Some (RegFile c m u g) \<Rightarrow> ri_existed i \<and> ri_content i = Some c \<and> ri_sha256 i = Some (sha256 sys c)
        \<and> ri_mode i = Some m \<and> ri_uid i = Some u \<and> ri_gid i = Some g
    | Some _ \<Rightarrow> False)"
proof -
  from assms obtain p w1 w2 where p: "checked_target sys (bs_allowed bs) t = Inr p"
    and w1: "check_cancel w = (Inr (), w1)" and n: "fs w1 p \<noteq> Some SymLink" and w2: "os_step w1 = (Inr (), w2)"
    by (auto simp: capture_target_def bindW_Inr split: if_splits)
  have f: "fs w1 = fs w" "fs w2 = fs w" using check_cancel_fs [OF w1] os_step_fs [OF w2] by auto
  show ?thesis
  proof (cases "fs w p")
    case None
    then show ?thesis using assms p w1 w2 f by (auto simp: capture_target_def bindW_Inr)
  next
    case (Some nd)
    show ?thesis
    proof (cases nd)
      case (RegFile c m u g)
      then show ?thesis using assms p w1 w2 f Some
        by (auto simp: capture_target_def bindW_Inr split: if_splits dest!: read_bytes_Inr)
    qed (use assms p w1 w2 f Some n in \<open>auto simp: capture_target_def bindW_Inr\<close>)
  qed
qed

definition same_item :: "backup_restore_item \<Rightarrow> backup_item \<Rightarrow> bool" where
  "same_item i b \<longleftrightarrow> bi_target b = ri_target i \<and> existed b = ri_existed i \<and> bi_sha256 b = ri_sha256 i \<and> mode b = ri_mode i
    \<and> uid b = ri_uid i \<and> gid b = ri_gid i"

lemma store_item_Inr:
  assumes "store_item sys bs rq dir (n, i) w = (Inr b, w')"
  shows "same_item i b"
  using assms by (auto simp: same_item_def store_item_def bindW_Inr)

lemma mapW_Inr_list_all2:
  "mapW f xs w = (Inr ys, w') \<Longrightarrow> list_all2 (\<lambda>x y. \<exists>w1 w2. f x w1 = (Inr y, w2)) xs ys"
  by (induction xs arbitrary: w ys) (fastforce simp: bindW_Inr)+

lemma backup_create_Inr:
  assumes "backup_create sys bs rq w = (Inr m, w')"
  shows "map bi_target (items m) = backup_targets (rq_change_set rq)"
    and "\<forall>i\<in>set (items m). describes sys (fs w) i \<and> checked_target sys (bs_allowed bs) (bi_target i) = Inr (bi_target i)"
    and "bm_host_id m = rq_host_id rq" and "bm_plan_id m = rq_plan_id rq"
    and "bm_change_set_hash m = content_hash (rq_change_set rq)"
proof -
  from assms obtain w1 w2 captured where c1: "check_cancel w = (Inr (), w1)"
    and cap: "mapW (capture_target sys bs) (backup_targets (rq_change_set rq)) w1 = (Inr captured, w2)"
    and p: "persist_captured sys bs rq captured False w2 = (Inr m, w')"
    by (auto simp: backup_create_def bindW_Inr)
  have f1: "fs w1 = fs w" by (rule check_cancel_fs [OF c1])
  have capt: "list_all2 (\<lambda>t i. \<exists>w3 w4. fs w3 = fs w1 \<and> capture_target sys bs t w3 = (Inr i, w4)) (backup_targets (rq_change_set rq)) captured"
    using mapW_keeping [OF _ cap] by (auto intro: keeping)
  from p have t: "map ri_target captured = backup_targets (rq_change_set rq)"
    by (auto simp: persist_captured_def bindW_Inr)
  from p obtain dir w3 w4 its where st: "mapW (store_item sys bs rq dir) (enumerate 0 captured) w3 = (Inr its, w4)"
    and mi: "items m = its" and mo: "bm_host_id m = rq_host_id rq" "bm_plan_id m = rq_plan_id rq"
      "bm_change_set_hash m = content_hash (rq_change_set rq)"
    by (auto simp: persist_captured_def bindW_Inr seal_manifest_def bindR_eq_Inr)
  from mo show "bm_host_id m = rq_host_id rq" "bm_plan_id m = rq_plan_id rq"
    "bm_change_set_hash m = content_hash (rq_change_set rq)" by simp_all
  have "list_all2 (\<lambda>x b. \<exists>w1 w2. store_item sys bs rq dir x w1 = (Inr b, w2)) (enumerate 0 captured) its"
    by (rule mapW_Inr_list_all2 [OF st])
  then have "list_all2 (\<lambda>x b. same_item (snd x) b) (enumerate 0 captured) its"
    by (rule list_all2_mono) (metis store_item_Inr surjective_pairing)
  then have s: "list_all2 same_item captured its"
    by (rule list_all2_enumerate [THEN iffD1])
  then show "map bi_target (items m) = backup_targets (rq_change_set rq)"
    unfolding mi t [symmetric] by (induction rule: list_all2_induct) (auto simp: same_item_def)
  show "\<forall>i\<in>set (items m). describes sys (fs w) i \<and> checked_target sys (bs_allowed bs) (bi_target i) = Inr (bi_target i)"
  proof
    fix b assume "b \<in> set (items m)"
    then obtain k where k: "k < length its" "b = its ! k" unfolding mi by (auto simp: in_set_conv_nth)
    have kc: "k < length captured" using k(1) list_all2_lengthD [OF s] by simp
    note sk = list_all2_nthD2 [OF s k(1)]
    obtain w3 w4 where f3: "fs w3 = fs w1"
      and c: "capture_target sys bs (backup_targets (rq_change_set rq) ! k) w3 = (Inr (captured ! k), w4)"
      using list_all2_nthD2 [OF capt kc] by blast
    have e: "backup_targets (rq_change_set rq) ! k = ri_target (captured ! k)" using t kc by (metis nth_map)
    note q = capture_target_Inr [OF c, unfolded e f3 f1]
    show "describes sys (fs w) b \<and> checked_target sys (bs_allowed bs) (bi_target b) = Inr (bi_target b)"
      using q sk k(2) by (auto simp: same_item_def describes_def split: option.splits node.splits)
  qed
qed

section \<open>What a verified backup holds\<close>

definition stored_ok :: "system \<Rightarrow> backup_store \<Rightarrow> backup_manifest \<Rightarrow> str \<Rightarrow> files \<Rightarrow> backup_item \<Rightarrow> bool" where
  "stored_ok sys bs m base f i \<longleftrightarrow> (if existed i
     then \<exists>ref c md u g t. content_ref i = Some ref \<and> within (realpath sys (path_join base ref)) base
       \<and> f (realpath sys (path_join base ref)) = Some (RegFile c md u g)
       \<and> decode_content bs c (encryption m) (backup_id m) (host_fingerprint m) (bi_target i) = Inr t
       \<and> bi_sha256 i = Some (sha256 sys t)
     else content_ref i = None)"

lemma passed_backup_result [simp]: "passed_result (backup_result c b x y) \<longleftrightarrow> b"
  by (simp add: passed_result_def backup_result_def)

lemma stored_digest_Inr:
  assumes "stored_digest sys bs m base i w = (Inr (Some h), w')"
  shows "\<exists>ref c md u g t. content_ref i = Some ref \<and> within (realpath sys (path_join base ref)) base
    \<and> fs w (realpath sys (path_join base ref)) = Some (RegFile c md u g)
    \<and> decode_content bs c (encryption m) (backup_id m) (host_fingerprint m) (bi_target i) = Inr t \<and> h = sha256 sys t"
proof -
  obtain ref where ref: "content_ref i = Some ref" "ref \<noteq> []" "\<not> is_absolute ref"
    using assms by (auto simp: stored_digest_def split: option.splits if_splits)
  let ?p = "realpath sys (path_join base ref)"
  obtain c md u g where n: "fs w ?p = Some (RegFile c md u g)"
    using assms ref by (auto simp: stored_digest_def Let_def bindW_Inr split: option.splits node.splits)
  have within: "within ?p base"
    using assms ref n by (auto simp: stored_digest_def Let_def bindW_Inr split: if_splits)
  obtain c' w1 where r: "read_bytes ?p w = (Inr c', w1)"
    and t: "tryW (bindW (liftR (decode_content bs c' (encryption m) (backup_id m) (host_fingerprint m) (bi_target i))) (\<lambda>t.
        retW (Some (sha256 sys t)))) (\<lambda>e. case e of AdapterError _ \<Rightarrow> retW None | _ \<Rightarrow> raiseW e) w1 = (Inr (Some h), w')"
    using assms ref n within by (auto simp: stored_digest_def Let_def bindW_Inr split: if_splits)
  have c: "c' = c" using read_bytes_Inr [OF r] n by auto
  show ?thesis
  proof (cases "decode_content bs c (encryption m) (backup_id m) (host_fingerprint m) (bi_target i)")
    case (Inl e)
    then show ?thesis using t c by (auto simp: tryW_def bindW_def split: exn.splits)
  next
    case (Inr x)
    then show ?thesis using t c ref n within by (auto simp: tryW_def bindW_def)
  qed
qed

lemma verify_item_Inr:
  assumes "verify_item sys bs m base (n, i) w = (Inr r, w')" and "passed_result r"
  shows "stored_ok sys bs m base (fs w) i"
proof -
  from assms(1) obtain w1 where c: "check_cancel w = (Inr (), w1)" by (auto simp: verify_item_def bindW_Inr)
  note f = check_cancel_fs [OF c]
  show ?thesis
  proof (cases "existed i")
    case False
    then show ?thesis using assms c by (auto simp: verify_item_def bindW_Inr stored_ok_def)
  next
    case True
    then obtain got w2 where "stored_digest sys bs m base i w1 = (Inr got, w2)" "got \<noteq> None" "got = bi_sha256 i"
      using assms c by (auto simp: verify_item_def bindW_Inr)
    then obtain h where s: "stored_digest sys bs m base i w1 = (Inr (Some h), w2)" "bi_sha256 i = Some h" by auto
    from stored_digest_Inr [OF s(1)] s(2) True f show ?thesis by (auto simp: stored_ok_def)
  qed
qed

lemma backup_verify_Inr:
  assumes "backup_verify sys bs m w = (Inr rs, w')" and "\<forall>r\<in>set rs. passed_result r"
  shows "fs w' = fs w \<and> rs \<noteq> [] \<and> complete m \<and> within (realpath sys (storage_location m)) (bs_root bs)
    \<and> (\<forall>i\<in>set (items m). stored_ok sys bs m (realpath sys (storage_location m)) (fs w) i)"
proof -
  let ?base = "realpath sys (storage_location m)"
  have fw: "fs w' = fs w" using keepsD [OF backup_verify_keeps [of "\<lambda>_. True"] assms(1)] by auto
  from assms(1) obtain w1 w2 r where c: "check_cancel w = (Inr (), w1)"
    and r: "manifest_check sys m ?base w1 = (Inr r, w2)"
    and k: "(if \<not> within ?base (bs_root bs) then retW [r, backup_result (lit ''backup.location'') False (JStr (bs_root bs)) (JStr ?base)]
      else bindW (mapW (verify_item sys bs m ?base) (enumerate 0 (items m))) (\<lambda>rs. retW (r # rs))) w2 = (Inr rs, w')"
    by (auto simp: backup_verify_def Let_def bindW_Inr)
  have within: "within ?base (bs_root bs)" using k assms(2) by (auto split: if_splits)
  then obtain vs w3 where v: "mapW (verify_item sys bs m ?base) (enumerate 0 (items m)) w2 = (Inr vs, w3)" and rs: "rs = r # vs"
    using k by (auto simp: bindW_Inr)
  have f: "fs w2 = fs w"
    using keepsD [OF manifest_check_keeps [of "\<lambda>_. True"] r] check_cancel_fs [OF c] by auto
  have "complete m" using r assms(2) rs by (auto simp: manifest_check_def bindW_Inr)
  have "list_all2 (\<lambda>x y. \<exists>w1 w3. fs w1 = fs w2 \<and> verify_item sys bs m ?base x w1 = (Inr y, w3)) (enumerate 0 (items m)) vs"
    using mapW_keeping [OF _ v] by (auto intro: keeping)
  then have "list_all2 (\<lambda>x y. passed_result y \<longrightarrow> stored_ok sys bs m ?base (fs w) (snd x)) (enumerate 0 (items m)) vs"
    by (rule list_all2_mono) (metis verify_item_Inr f surjective_pairing)
  then have "list_all2 (\<lambda>i y. passed_result y \<longrightarrow> stored_ok sys bs m ?base (fs w) i) (items m) vs"
    by (rule list_all2_enumerate [THEN iffD1])
  then have "\<forall>i\<in>set (items m). stored_ok sys bs m ?base (fs w) i"
    using assms(2) rs by (fastforce simp: list_all2_conv_all_nth in_set_conv_nth)
  then show ?thesis using fw within rs \<open>complete m\<close> by simp
qed

section \<open>What a restore leaves\<close>

lemma put_back_keeps:
  assumes "checked_target sys (bs_allowed bs) (bi_target i) = Inr p" and "\<not> S p"
  shows "keeps S (put_back sys bs m base i)"
  unfolding put_back_def read_through_def assms(1) using assms(2)
  by (auto intro!: keeping keeps_liftR_bind split: option.splits)

lemma put_back_Inr:
  assumes "put_back sys bs m base i w = (Inr u, w')"
    and "checked_target sys (bs_allowed bs) (bi_target i) = Inr (bi_target i)"
    and "stored_ok sys bs m base (fs w) i"
  shows "restored_as sys (fs w') i"
proof (cases "existed i")
  case False
  then show ?thesis using assms
    by (auto simp: put_back_def bindW_Inr restored_as_def exists_node_def dest!: unlink_synced_Inr split: if_splits)
next
  case True
  then obtain ref c md us g t where s: "content_ref i = Some ref"
      "fs w (realpath sys (path_join base ref)) = Some (RegFile c md us g)"
      "decode_content bs c (encryption m) (backup_id m) (host_fingerprint m) (bi_target i) = Inr t"
      "bi_sha256 i = Some (sha256 sys t)"
    using assms(3) by (auto simp: stored_ok_def)
  obtain c' w1 where r: "read_bytes (realpath sys (path_join base ref)) w = (Inr c', w1)"
    and k: "bindW (liftR (decode_content bs c' (encryption m) (backup_id m) (host_fingerprint m) (bi_target i))) (\<lambda>content.
            bindW (atomic_write sys (bi_target i) content (mode_or_default (mode i))) (\<lambda>_.
            case (uid i, gid i) of (Some u, Some g) \<Rightarrow> chown_file (bi_target i) u g | _ \<Rightarrow> retW ())) w1 = (Inr u, w')"
    using assms(1,2) True s(1)
    by (auto simp: put_back_def bindW_Inr read_through_def split: if_splits)
  have "c' = c" using read_bytes_Inr [OF r] s(2) by auto
  with k s(3) obtain w2 where a: "atomic_write sys (bi_target i) t (mode_or_default (mode i)) w1 = (Inr (), w2)"
    and o: "(case (uid i, gid i) of (Some u, Some g) \<Rightarrow> chown_file (bi_target i) u g | _ \<Rightarrow> retW ()) w2 = (Inr u, w')"
    by (auto simp: bindW_Inr)
  have f: "fs w2 (bi_target i) = Some (RegFile t (mode_or_default (mode i)) (euid sys) (egid sys))"
    using atomic_write_Inr [OF a] by simp
  show ?thesis
  proof (cases "uid i \<noteq> None \<and> gid i \<noteq> None")
    case True
    then obtain a b where ab: "uid i = Some a" "gid i = Some b" by auto
    then have "chown_file (bi_target i) a b w2 = (Inr u, w')" using o by simp
    from chown_file_Inr [OF this f] show ?thesis using ab s(4) \<open>existed i\<close> by (simp add: restored_as_def)
  next
    case False
    then have "w' = w2" using o by (auto split: option.splits)
    then show ?thesis using False f s(4) \<open>existed i\<close> by (auto simp: restored_as_def)
  qed
qed


text \<open>A restored file is where it was, whatever is restored after it.\<close>

lemma put_back_others:
  assumes "put_back sys bs m base i w = (r, w')" and "checked_target sys (bs_allowed bs) (bi_target i) = Inr (bi_target i)"
    and "p \<noteq> bi_target i"
  shows "fs w' p = fs w p"
  by (rule keepsD [OF put_back_keeps [OF assms(2), of "\<lambda>q. q = p"] assms(1)]) (use assms(3) in auto)

lemma restore_item_others:
  assumes "restore_item sys bs m base (n, i) w = (r, w')" and "checked_target sys (bs_allowed bs) (bi_target i) = Inr (bi_target i)"
    and "p \<noteq> bi_target i"
  shows "fs w' p = fs w p"
proof -
  have "keeps (\<lambda>q. q \<noteq> bi_target i) (restore_item sys bs m base (n, i))"
    unfolding restore_item_def by (auto intro!: keeping put_back_keeps [OF assms(2)])
  from keepsD [OF this assms(1)] assms(3) show ?thesis by simp
qed

lemma restore_item_Inr:
  assumes "restore_item sys bs m base (n, i) w = (Inr r, w')" and "passed_result r"
    and "checked_target sys (bs_allowed bs) (bi_target i) = Inr (bi_target i)"
    and "stored_ok sys bs m base (fs w) i"
  shows "restored_as sys (fs w') i"
proof -
  from assms(1,2) obtain w1 u where c: "check_cancel w = (Inr (), w1)" and p: "put_back sys bs m base i w1 = (Inr u, w')"
    by (auto simp: restore_item_def bindW_Inr tryW_def bindW_def split: prod.splits sum.splits if_splits)
  from put_back_Inr [OF p assms(3)] assms(4) check_cancel_fs [OF c] show ?thesis by simp
qed

lemma stored_ok_cong:
  assumes "stored_ok sys bs m base f i" and "\<And>p. within p base \<Longrightarrow> f' p = f p"
  shows "stored_ok sys bs m base f' i"
  using assms by (auto simp: stored_ok_def split: if_splits)

lemma restored_as_cong: "f' (bi_target i) = f (bi_target i) \<Longrightarrow> restored_as sys f' i = restored_as sys f i"
  by (simp add: restored_as_def)

text \<open>The loop over the items: each is restored, and no file but the targets changes.\<close>

lemma restore_items_Inr:
  assumes "mapW (restore_item sys bs m base) nis w = (Inr rs, w')" and "\<forall>r\<in>set rs. passed_result r"
    and "\<forall>i\<in>snd ` set nis. checked_target sys (bs_allowed bs) (bi_target i) = Inr (bi_target i)
      \<and> \<not> within (bi_target i) base \<and> stored_ok sys bs m base (fs w) i"
    and "distinct (map (\<lambda>x. bi_target (snd x)) nis)"
  shows "(\<forall>i\<in>snd ` set nis. restored_as sys (fs w') i)
    \<and> (\<forall>p. p \<notin> (\<lambda>x. bi_target (snd x)) ` set nis \<longrightarrow> fs w' p = fs w p)"
  using assms
proof (induction nis arbitrary: w rs)
  case Nil
  then show ?case by simp
next
  case (Cons x nis)
  obtain n i where x: "x = (n, i)" by (cases x)
  from Cons.prems(1) obtain r w1 rs1 where r: "restore_item sys bs m base (n, i) w = (Inr r, w1)"
    and rs: "mapW (restore_item sys bs m base) nis w1 = (Inr rs1, w')" and e: "rs = r # rs1"
    by (auto simp: bindW_Inr x)
  have t: "checked_target sys (bs_allowed bs) (bi_target i) = Inr (bi_target i)" "\<not> within (bi_target i) base"
    "stored_ok sys bs m base (fs w) i"
    using Cons.prems(3) x by auto
  have o: "\<And>p. p \<noteq> bi_target i \<Longrightarrow> fs w1 p = fs w p" using restore_item_others [OF r t(1)] by simp
  have i: "restored_as sys (fs w1) i" using restore_item_Inr [OF r _ t(1,3)] Cons.prems(2) e by simp
  have ok: "stored_ok sys bs m base (fs w1) j" if "stored_ok sys bs m base (fs w) j" for j
    using stored_ok_cong [OF that, of "fs w1"] o t(2) by metis
  have ih: "(\<forall>i\<in>snd ` set nis. restored_as sys (fs w') i)
    \<and> (\<forall>p. p \<notin> (\<lambda>x. bi_target (snd x)) ` set nis \<longrightarrow> fs w' p = fs w1 p)"
    using Cons.IH [OF rs] Cons.prems(2,3,4) e ok by auto
  have ni: "bi_target i \<notin> (\<lambda>x. bi_target (snd x)) ` set nis" using Cons.prems(4) x by auto
  then have "restored_as sys (fs w') i" using i ih restored_as_cong [of "fs w'" i "fs w1"] by blast
  then show ?case using ih o x ni by auto
qed

lemma separate_within_not: "separate a b \<Longrightarrow> within p b \<Longrightarrow> \<not> within p a"
  using separate_not_within by blast

lemma within_trans: "within a b \<Longrightarrow> within b c \<Longrightarrow> within a c"
  by (auto simp: within_iff)

lemma backup_restore_Inr:
  assumes run: "backup_restore sys bs m w = (Inr rs, w')" and passed: "\<forall>r\<in>set rs. passed_result r"
    and outside: "\<forall>i\<in>set (items m). \<not> within (bi_target i) (bs_root bs)"
    and targets: "\<forall>i\<in>set (items m). checked_target sys (bs_allowed bs) (bi_target i) = Inr (bi_target i)"
    and distinct: "distinct (map bi_target (items m))"
  shows "(\<forall>i\<in>set (items m). restored_as sys (fs w') i) \<and> (\<forall>p. p \<notin> bi_target ` set (items m) \<longrightarrow> fs w' p = fs w p)"
proof -
  let ?base = "realpath sys (storage_location m)"
  obtain vs w1 where v: "backup_verify sys bs m w = (Inr vs, w1)"
    and k: "(if \<exists>r\<in>set vs. \<not> passed_result r then retW vs
      else mapW (restore_item sys bs m ?base) (rev (enumerate 0 (items m)))) w1 = (Inr rs, w')"
    using run by (auto simp: backup_restore_def bindW_Inr)
  have vp: "\<forall>r\<in>set vs. passed_result r" using k passed by (auto split: if_splits)
  note ver = backup_verify_Inr [OF v vp]
  have l: "mapW (restore_item sys bs m ?base) (rev (enumerate 0 (items m))) w1 = (Inr rs, w')" using k vp by auto
  have nb: "\<not> within (bi_target i) ?base" if "i \<in> set (items m)" for i
    using outside that ver within_trans by blast
  have s: "snd ` set (rev (enumerate 0 (items m))) = set (items m)"
    by (metis set_map set_rev map_snd_enumerate)
  have b: "(\<lambda>x. bi_target (snd x)) ` set (rev (enumerate 0 (items m))) = bi_target ` set (items m)"
    using arg_cong [OF s, of "image bi_target"] by (simp only: image_image)
  have "map (\<lambda>x. bi_target (snd x)) (enumerate 0 (items m)) = map bi_target (items m)"
    using arg_cong [OF map_snd_enumerate [of 0 "items m"], of "map bi_target"] by (simp only: map_map comp_def)
  then have d: "distinct (map (\<lambda>x. bi_target (snd x)) (rev (enumerate 0 (items m))))"
    using distinct by (simp add: rev_map[symmetric])
  have "\<forall>i\<in>set (items m). stored_ok sys bs m ?base (fs w1) i" using ver by simp
  then have "\<forall>i\<in>snd ` set (rev (enumerate 0 (items m))). checked_target sys (bs_allowed bs) (bi_target i) = Inr (bi_target i)
      \<and> \<not> within (bi_target i) ?base \<and> stored_ok sys bs m ?base (fs w1) i"
    unfolding s using targets nb by blast
  from restore_items_Inr [OF l passed this d] show ?thesis unfolding s b using ver by simp
qed

lemma restore_item_keeps:
  assumes "checked_target sys (bs_allowed bs) (bi_target i) = Inr (bi_target i)" and "\<not> S (bi_target i)"
  shows "keeps S (restore_item sys bs m base (n, i))"
  unfolding restore_item_def using assms by (auto intro!: keeping put_back_keeps [OF assms(1)])

text \<open>A manifest this store may restore: its targets are resolved, allowed and listed once.\<close>

definition issued_by :: "system \<Rightarrow> backup_store \<Rightarrow> backup_manifest \<Rightarrow> bool" where
  "issued_by sys bs m \<longleftrightarrow> list_all (\<lambda>i. checked_target sys (bs_allowed bs) (bi_target i) = Inr (bi_target i)) (items m)
     \<and> distinct (map bi_target (items m))"

lemma backup_restore_keeps:
  assumes "issued_by sys bs m" and "\<And>i. i \<in> set (items m) \<Longrightarrow> \<not> S (bi_target i)"
  shows "keeps S (backup_restore sys bs m)"
proof -
  have "keeps S (restore_item sys bs m base x)" if "x \<in> set (rev (enumerate 0 (items m)))" for base x
  proof -
    from that have "snd x \<in> set (items m)" by (auto simp: in_set_enumerate_eq) (metis nth_mem)
    then show ?thesis using assms restore_item_keeps [of sys bs "snd x" S m base "fst x"]
      by (simp add: issued_by_def list_all_iff)
  qed
  then show ?thesis unfolding backup_restore_def by (auto intro!: keeping)
qed

section \<open>The contract of a backup store\<close>

text \<open>
  What \<open>BackupStorePort\<close> promises a client: \<open>store\<close> are the paths the store itself writes, \<open>issued\<close> the
  manifests it may restore.
\<close>

locale backup_contract =
  fixes sys :: system
    and create :: "backup_request \<Rightarrow> backup_manifest io"
    and verify :: "backup_manifest \<Rightarrow> validation_result list io"
    and restore :: "backup_manifest \<Rightarrow> validation_result list io"
    and store :: "str \<Rightarrow> bool"
    and issued :: "backup_manifest \<Rightarrow> bool"
  assumes create_keeps: "keeps (\<lambda>p. \<not> store p) (create rq)"
    and create_Inr: "create rq w = (Inr m, w') \<Longrightarrow> issued m \<and> map bi_target (items m) = backup_targets (rq_change_set rq)
      \<and> (\<forall>i\<in>set (items m). describes sys (fs w) i)"
    and verify_keeps: "keeps (\<lambda>_. True) (verify m)"
    and restore_keeps: "issued m \<Longrightarrow> keeps (\<lambda>p. p \<notin> bi_target ` set (items m)) (restore m)"
    and restore_Inr: "issued m \<Longrightarrow> \<forall>i\<in>set (items m). \<not> store (bi_target i) \<Longrightarrow> restore m w = (Inr rs, w') \<Longrightarrow>
      \<forall>r\<in>set rs. passed_result r \<Longrightarrow> \<forall>i\<in>set (items m). restored_as sys (fs w') i"
    and issued_target: "issued m \<Longrightarrow> i \<in> set (items m) \<Longrightarrow> resolved_target sys (bi_target i) = bi_target i"

interpretation local_backups: backup_contract sys "backup_create sys bs" "backup_verify sys bs" "backup_restore sys bs"
  "\<lambda>p. within p (bs_root bs)" "issued_by sys bs" for sys bs
proof unfold_locales
  show "keeps (\<lambda>p. \<not> within p (bs_root bs)) (backup_create sys bs rq)" for rq
    by (rule backup_create_keeps)
  show "issued_by sys bs m \<and> map bi_target (items m) = backup_targets (rq_change_set rq)
      \<and> (\<forall>i\<in>set (items m). describes sys (fs w) i)"
    if "backup_create sys bs rq w = (Inr m, w')" for rq w m w'
    using backup_create_Inr(1,2) [OF that] by (simp add: issued_by_def list_all_iff backup_targets_def)
  show "keeps (\<lambda>_. True) (backup_verify sys bs m)" for m by (rule backup_verify_keeps)
  show "keeps (\<lambda>p. p \<notin> bi_target ` set (items m)) (backup_restore sys bs m)" if "issued_by sys bs m" for m
    by (rule backup_restore_keeps [OF that]) auto
  show "\<forall>i\<in>set (items m). restored_as sys (fs w') i"
    if "issued_by sys bs m" "\<forall>i\<in>set (items m). \<not> within (bi_target i) (bs_root bs)"
      "backup_restore sys bs m w = (Inr rs, w')" "\<forall>r\<in>set rs. passed_result r" for m w rs w'
    using backup_restore_Inr [OF that(3,4,2)] that(1) by (simp add: issued_by_def list_all_iff)
  show "resolved_target sys (bi_target i) = bi_target i" if "issued_by sys bs m" "i \<in> set (items m)" for m i
    using that by (auto simp: issued_by_def list_all_iff checked_target_Inr)
qed

section \<open>A restored machine\<close>

text \<open>
  A target that held \<open>n0\<close> holds \<open>n\<close>, the same file again: same content by its digest, mode (zero reads as
  0600) and owner.
\<close>

definition back_as_before :: "system \<Rightarrow> node option \<Rightarrow> node option \<Rightarrow> bool" where
  "back_as_before sys n0 n \<longleftrightarrow> (case n0 of
      None \<Rightarrow> n = None
    | Some (RegFile c m u g) \<Rightarrow> (\<exists>c'. n = Some (RegFile c' (mode_or_default (Some m)) u g) \<and> sha256 sys c' = sha256 sys c)
    | Some _ \<Rightarrow> False)"

lemma back_as_beforeI: "describes sys f0 i \<Longrightarrow> restored_as sys f i \<Longrightarrow> back_as_before sys (f0 (bi_target i)) (f (bi_target i))"
  by (auto simp: describes_def restored_as_def back_as_before_def split: option.splits node.splits)

section \<open>A small store\<close>

text \<open>A concrete store for the examples; the digest is the start of the text.\<close>

definition mini_system :: system where
  "mini_system = \<lparr>sha256 = take 6, isoformat = (\<lambda>t. []), fromisoformat = (\<lambda>s. None),
     unicode_digit = (\<lambda>c. NoDigit), realpath = (\<lambda>p. p), euid = 1000, egid = 1000\<rparr>"

definition mini_store :: backup_store where
  "mini_store = \<lparr>bs_root = lit ''/b'', bs_allowed = [lit ''/c''], bs_cipher = None\<rparr>"

definition mini_change :: change where
  "mini_change = \<lparr>change_id = lit ''c'', ch_target = lit ''/c/a'', operation = REPLACE_FILE, ch_before = JNull, ch_after = JNull,
     before_hash = Some (lit ''old''), diff = [], requires_root = False, requires_restart = False, rollback_operation = None,
     validation_checks = [], source_span = Some (0, 3), replacement_text = Some (lit ''new!'')\<rparr>"

definition mini_changes :: change_set where
  "mini_changes = \<lparr>change_set_id = lit ''s'', cs_host_id = lit ''h'', changes = [mini_change],
     content_hash = lit ''x'', cs_status = DRAFT, affected_services = []\<rparr>"


definition mini_files :: files where
  "mini_files = [lit ''/c/a'' \<mapsto> RegFile (lit ''old'') 420 7 8]"

definition mini_request :: backup_request where
  "mini_request = \<lparr>rq_backup_id = lit ''k'', rq_plan_id = lit ''p'', rq_host_id = lit ''h'', rq_host_fingerprint = None,
     rq_change_set = mini_changes, rq_encryption = no_encryption\<rparr>"

definition mini_created :: "backup_manifest res \<times> world" where
  "mini_created = backup_create mini_system mini_store mini_request (toy_world mini_files)"

text \<open>The target is overwritten after the backup.\<close>

definition overwritten :: "world \<Rightarrow> world" where
  "overwritten w = w\<lparr>fs := (fs w)(lit ''/c/a'' \<mapsto> RegFile (lit ''new!'') 384 1000 1000)\<rparr>"

text \<open>The restore after an operation that succeeds.\<close>

definition then_restore :: "backup_manifest res \<times> world \<Rightarrow> validation_result list res \<times> world" where
  "then_restore x = (case x of (Inl e, w) \<Rightarrow> (Inl e, w)
     | (Inr m, w) \<Rightarrow> backup_restore mini_system mini_store m (overwritten w))"

definition succeeded :: "('a \<Rightarrow> bool) \<Rightarrow> 'a res \<times> world \<Rightarrow> bool" where
  "succeeded P x \<longleftrightarrow> (case fst x of Inl _ \<Rightarrow> False | Inr y \<Rightarrow> P y)"

lemma succeededE:
  assumes "succeeded P x"
  obtains y w where "x = (Inr y, w)" and "P y"
  using assms by (cases x) (auto simp: succeeded_def split: sum.splits)

lemma mini_created_ok: "succeeded (\<lambda>m. True) mini_created"
  by code_simp

lemma mini_restored_ok: "succeeded (list_all passed_result) (then_restore mini_created)"
  by code_simp

lemma then_restore_run:
  assumes "x = (Inr m, w)" and "succeeded P (then_restore x)"
  shows "\<exists>rs w3. backup_restore mini_system mini_store m (overwritten w) = (Inr rs, w3) \<and> P rs"
  using assms by (auto simp: then_restore_def elim: succeededE)

lemma mini_targets: "backup_targets mini_changes = [lit ''/c/a'']"
  by code_simp

section \<open>What the store promises\<close>

text \<open>
  Property C6. A backup that was created describes every target of the change set, once and in order, as it was
  at the start: absent, or with its digest, mode and owner. It carries the hash of the change set, and no file
  outside the store was changed.
\<close>

theorem backup_records:
  assumes "backup_create sys bs rq w = (Inr m, w')"
  shows "map bi_target (items m) = backup_targets (rq_change_set rq) \<and> (\<forall>i\<in>set (items m). describes sys (fs w) i)
    \<and> bm_change_set_hash m = content_hash (rq_change_set rq) \<and> (\<forall>q. within q (bs_root bs) \<or> fs w' q = fs w q)"
proof -
  have "keeps (\<lambda>p. \<not> within p (bs_root bs)) (backup_create sys bs rq)" by (rule backup_create_keeps)
  from keepsD [OF this assms] backup_create_Inr [OF assms] show ?thesis by blast
qed

theorem backup_records_witness:
  "\<exists>m w'. mini_created = (Inr m, w') \<and> map bi_target (items m) = [lit ''/c/a''] \<and> (\<forall>i\<in>set (items m). describes mini_system mini_files i)"
proof -
  obtain m w' where r: "mini_created = (Inr m, w')" by (rule succeededE [OF mini_created_ok])
  from backup_records [OF r [unfolded mini_created_def]]
  have "map bi_target (items m) = [lit ''/c/a''] \<and> (\<forall>i\<in>set (items m). describes mini_system mini_files i)"
    by (simp add: mini_request_def mini_targets toy_world_def del: lit_simps)
  with r show ?thesis by metis
qed

text \<open>
  Property C4. From backup to restore: when a backup was created and later, on whatever became of the machine,
  a restore of it reports success throughout, every target is as it was when the backup was made (content by its
  digest, mode, owner, or absence), and no other file was changed.
\<close>

theorem backup_restores:
  assumes "backup_create sys bs rq w = (Inr m, w1)" and "backup_restore sys bs m w2 = (Inr rs, w3)"
    and "\<forall>r\<in>set rs. passed_result r" and "\<forall>t\<in>set (backup_targets (rq_change_set rq)). \<not> within t (bs_root bs)"
  shows "(\<forall>t\<in>set (backup_targets (rq_change_set rq)). back_as_before sys (fs w t) (fs w3 t))
    \<and> (\<forall>q. q \<in> set (backup_targets (rq_change_set rq)) \<or> fs w3 q = fs w2 q)"
proof -
  note c = backup_create_Inr [OF assms(1)]
  have s: "bi_target ` set (items m) = set (backup_targets (rq_change_set rq))" using c(1) by (metis list.set_map)
  have o: "\<forall>i\<in>set (items m). \<not> within (bi_target i) (bs_root bs)" using assms(4) s by blast
  have d: "distinct (map bi_target (items m))" unfolding c(1) by (simp add: backup_targets_def)
  have k: "\<forall>i\<in>set (items m). checked_target sys (bs_allowed bs) (bi_target i) = Inr (bi_target i)" using c(2) by blast
  from backup_restore_Inr [OF assms(2,3) o k d] c(2) show ?thesis unfolding s [symmetric]
    by (auto intro: back_as_beforeI)
qed

theorem backup_restores_witness:
  "\<exists>m w1 rs w3. mini_created = (Inr m, w1) \<and> backup_restore mini_system mini_store m (overwritten w1) = (Inr rs, w3)
    \<and> back_as_before mini_system (mini_files (lit ''/c/a'')) (fs w3 (lit ''/c/a''))"
proof -
  obtain m w1 where r: "mini_created = (Inr m, w1)" by (rule succeededE [OF mini_created_ok])
  obtain rs w3 where q: "backup_restore mini_system mini_store m (overwritten w1) = (Inr rs, w3)" "\<forall>r\<in>set rs. passed_result r"
    using then_restore_run [OF r mini_restored_ok] by (auto simp: list_all_iff)
  have "\<not> within (lit ''/c/a'') (bs_root mini_store)" by code_simp
  then have o: "\<forall>t\<in>set (backup_targets (rq_change_set mini_request)). \<not> within t (bs_root mini_store)"
    by (simp add: mini_request_def mini_targets del: lit_simps)
  from backup_restores [OF r [unfolded mini_created_def] q o]
  have "back_as_before mini_system (mini_files (lit ''/c/a'')) (fs w3 (lit ''/c/a''))"
    by (simp add: mini_request_def mini_targets toy_world_def del: lit_simps)
  with r q(1) show ?thesis by blast
qed

text \<open>
  Property C5. A damaged backup is never restored: unless the manifest is complete and below the store's root and
  the content of every item decodes to its recorded digest, a restore changes no file, whatever else it answers.
\<close>

theorem damaged_backup_refused:
  assumes "\<not> (complete m \<and> within (realpath sys (storage_location m)) (bs_root bs)
    \<and> (\<forall>i\<in>set (items m). stored_ok sys bs m (realpath sys (storage_location m)) (fs w) i))"
  shows "fs (snd (backup_restore sys bs m w)) = fs w"
proof -
  obtain r w1 where v: "backup_verify sys bs m w = (r, w1)" by fastforce
  have f: "fs w1 = fs w" using keepsD [OF backup_verify_keeps [of "\<lambda>_. True"] v] by auto
  show ?thesis
  proof (cases r)
    case (Inl e)
    then show ?thesis using v f by (simp add: backup_restore_def bindW_def)
  next
    case (Inr rs)
    have "\<exists>r\<in>set rs. \<not> passed_result r" using backup_verify_Inr v Inr assms by blast
    then show ?thesis using v f Inr by (simp add: backup_restore_def bindW_def)
  qed
qed

theorem damaged_backup_refused_witness:
  "fs (snd (backup_restore mini_system mini_store
     \<lparr>backup_id = lit ''k'', bm_schema_version = lit ''1.0'', bm_plan_id = lit ''p'', bm_change_set_hash = lit ''x'',
      bm_host_id = lit ''h'', host_fingerprint = None, items = [], manifest_hash = [], storage_location = lit ''/b/h/k'',
      encryption = no_encryption, protected = False, bm_created_at = 1, retention_expires_at = None, complete = False\<rparr>
     (toy_world mini_files))) = mini_files"
  using damaged_backup_refused [of "\<lparr>backup_id = lit ''k'', bm_schema_version = lit ''1.0'', bm_plan_id = lit ''p'', bm_change_set_hash = lit ''x'',
      bm_host_id = lit ''h'', host_fingerprint = None, items = [], manifest_hash = [], storage_location = lit ''/b/h/k'',
      encryption = no_encryption, protected = False, bm_created_at = 1, retention_expires_at = None, complete = False\<rparr>"
      mini_system mini_store "toy_world mini_files"] by (simp add: toy_world_def)

end
