(* ===== verification/Triples.thy ===== *)
theory Triples
  imports World
begin

text \<open>
  Hoare triples for operations that may raise: from a world with \<open>P\<close>, a result satisfies \<open>Q\<close> and an
  exception \<open>E\<close>.  The rules are collected in \<open>triple\<close>.
\<close>

definition valid :: "(world \<Rightarrow> bool) \<Rightarrow> ('e, 'a) run \<Rightarrow> ('a \<Rightarrow> world \<Rightarrow> bool) \<Rightarrow> ('e \<Rightarrow> world \<Rightarrow> bool) \<Rightarrow> bool" where
  "valid P m Q E \<longleftrightarrow> (\<forall>w. P w \<longrightarrow> (case m w of (Inr x, w') \<Rightarrow> Q x w' | (Inl e, w') \<Rightarrow> E e w'))"

named_theorems triple

lemma validI:
  assumes "\<And>w x w'. P w \<Longrightarrow> m w = (Inr x, w') \<Longrightarrow> Q x w'" and "\<And>w e w'. P w \<Longrightarrow> m w = (Inl e, w') \<Longrightarrow> E e w'"
  shows "valid P m Q E"
  unfolding valid_def using assms by (auto split: prod.split sum.split)

lemma validD:
  assumes "valid P m Q E" and "P w"
  shows "m w = (Inr x, w') \<Longrightarrow> Q x w'" and "m w = (Inl e, w') \<Longrightarrow> E e w'"
  using assms unfolding valid_def by (auto split: prod.splits sum.splits)

lemma valid_weaken:
  assumes "valid P m Q E" and "\<And>w. P' w \<Longrightarrow> P w" and "\<And>x w. Q x w \<Longrightarrow> Q' x w" and "\<And>e w. E e w \<Longrightarrow> E' e w"
  shows "valid P' m Q' E'"
  using assms unfolding valid_def by (fastforce split: prod.splits sum.splits)

lemma valid_bind [triple]:
  assumes "valid P m R E" and "\<And>x. valid (R x) (f x) Q E"
  shows "valid P (bindW m f) Q E"
  using assms unfolding valid_def bindW_def by (fastforce split: prod.splits sum.splits)

lemma valid_try:
  assumes "valid P m Q R" and "\<And>e. valid (R e) (h e) Q E"
  shows "valid P (tryW m h) Q E"
  using assms unfolding valid_def tryW_def by (fastforce split: prod.splits sum.splits)

lemma valid_ret: "(\<And>w. P w \<Longrightarrow> Q x w) \<Longrightarrow> valid P (retW x) Q E"
  by (simp add: valid_def)

lemma valid_raise: "(\<And>w. P w \<Longrightarrow> E e w) \<Longrightarrow> valid P (raiseW e) Q E"
  by (simp add: valid_def)

lemma valid_lift:
  "(\<And>x w. r = Inr x \<Longrightarrow> P w \<Longrightarrow> Q x w) \<Longrightarrow> (\<And>e w. r = Inl e \<Longrightarrow> P w \<Longrightarrow> E e w) \<Longrightarrow> valid P (liftR r) Q E"
  by (cases r) (simp_all add: valid_def)

lemma valid_guard:
  "(\<And>w. b \<Longrightarrow> P w \<Longrightarrow> Q () w) \<Longrightarrow> (\<And>w. \<not> b \<Longrightarrow> P w \<Longrightarrow> E e w) \<Longrightarrow> valid P (guardW b e) Q E"
  by (cases b) (simp_all add: valid_def guardW_def)

lemma valid_if: "(b \<Longrightarrow> valid P m Q E) \<Longrightarrow> (\<not> b \<Longrightarrow> valid P n Q E) \<Longrightarrow> valid P (if b then m else n) Q E"
  by simp

lemma valid_pre: "(C \<Longrightarrow> valid P m Q E) \<Longrightarrow> valid (\<lambda>w. C \<and> P w) m Q E"
  by (auto simp: valid_def)

lemma valid_pre2: "(C \<Longrightarrow> valid P m Q E) \<Longrightarrow> valid (\<lambda>w. P w \<and> C) m Q E"
  by (auto simp: valid_def)

lemma valid_conj:
  "valid P m Q E \<Longrightarrow> valid P m Q' E' \<Longrightarrow> valid P m (\<lambda>x w. Q x w \<and> Q' x w) (\<lambda>e w. E e w \<and> E' e w)"
  unfolding valid_def by (fastforce split: prod.splits sum.splits)

section \<open>Unchanged files\<close>

text \<open>The files of \<open>S\<close> are those of \<open>f\<close>.\<close>

definition same_files :: "(str \<Rightarrow> bool) \<Rightarrow> files \<Rightarrow> world \<Rightarrow> bool" where
  "same_files S f w \<longleftrightarrow> (\<forall>p. S p \<longrightarrow> fs w p = f p)"

lemma same_files_refl [simp]: "same_files S (fs w) w"
  by (simp add: same_files_def)

lemma valid_keeps: "keeps S m \<Longrightarrow> valid (same_files S f) m (\<lambda>_. same_files S f) (\<lambda>_. same_files S f)"
  by (auto simp: valid_def keeps_def same_files_def split: prod.splits sum.splits) (metis snd_conv)+

lemma valid_keeps_to:
  assumes "keeps S m" and "\<And>w. P w \<Longrightarrow> same_files S f w"
  shows "valid P m (\<lambda>_. same_files S f) (\<lambda>_. same_files S f)"
  by (rule valid_weaken [OF valid_keeps [OF assms(1)]]) (auto intro: assms(2))

lemma valid_keeps_inv:
  assumes "keeps S m" and "\<And>w w'. (\<And>p. S p \<Longrightarrow> fs w' p = fs w p) \<Longrightarrow> I w \<Longrightarrow> I w'"
  shows "valid I m (\<lambda>_. I) (\<lambda>_. I)"
  by (rule validI) (use assms keepsD [OF assms(1)] in blast)+

end
