(* ===== verification/SafeApply.thy ===== *)
theory SafeApply
  imports Backup FileRender Triples
begin

text \<open>
  \<open>infrastructure/safe_apply.py\<close>: applying an approved user-level change set.  The executor writes the
  rendered files, the validator reads them back, and the coordinator runs backup, apply and validation in
  order, keeps the journal, and rolls back what it applied when a later step fails.  Backups, audit and the
  validator of the running services are ports of the coordinator; journal, executor and file validator are
  the code's own.  Message texts are not modelled (\<open>apply_error\<close> keeps what an error text is made of), so
  neither is their redaction.
\<close>

section \<open>The executor\<close>

record applied_file =
  af_target :: str
  af_sha256 :: str
  af_checks :: "str list"

text \<open>\<open>AtomicFileExecutor._target\<close>\<close>

definition executor_target :: "system \<Rightarrow> str list \<Rightarrow> str \<Rightarrow> str io" where
  "executor_target sys roots t =
     bindW (guardW (is_absolute t) (AdapterError ''invalid_target'')) (\<lambda>_.
     bindW (node_at (resolved_target sys t)) (\<lambda>n.
     bindW (guardW (n \<noteq> Some SymLink) (AdapterError ''invalid_target'')) (\<lambda>_.
     liftR (checked_target sys roots t))))"

text \<open>The changes of one target, in order.\<close>

definition changes_of :: "change_set \<Rightarrow> str \<Rightarrow> change list" where
  "changes_of cs t = filter (\<lambda>c. ch_target c = t) (changes cs)"

text \<open>\<open>AtomicFileExecutor._current\<close>: the content the changes were planned on, or an error.\<close>

definition current_content :: "system \<Rightarrow> str \<Rightarrow> change list \<Rightarrow> bytes io" where
  "current_content sys p chs =
     (case remdups (map before_hash chs) of
        [want] \<Rightarrow> bindW (node_at p) (\<lambda>n.
          if exists_node n then
            (if \<not> is_file_node n then raiseW (AdapterError ''unsupported_target'')
             else bindW (read_bytes p) (\<lambda>content.
               if want = None \<or> Some (sha256 sys content) \<noteq> want then raiseW (AdapterError ''stale_plan'')
               else retW content))
          else if want \<noteq> None \<or> (\<exists>c\<in>set chs. operation c \<noteq> CREATE_FILE) then raiseW (AdapterError ''stale_plan'')
          else retW [])
      | _ \<Rightarrow> raiseW (AdapterError ''inconsistent_precondition''))"

text \<open>The body of the second loop of \<open>prepare\<close>.\<close>

definition prepare_target :: "system \<Rightarrow> str list \<Rightarrow> change_set \<Rightarrow> str \<Rightarrow> applied_file io" where
  "prepare_target sys roots cs t =
     bindW check_cancel (\<lambda>_.
     bindW (executor_target sys roots t) (\<lambda>p.
     bindW (current_content sys p (changes_of cs t)) (\<lambda>content.
     bindW (liftR (render_file_changes content (changes_of cs t))) (\<lambda>rendered.
     bindW (guardW (int (length rendered) \<le> max_item_bytes) (AdapterError ''item_too_large'')) (\<lambda>_.
     retW \<lparr>af_target = p, af_sha256 = sha256 sys rendered,
           af_checks = dict_keys (concat (map validation_checks (changes_of cs t)))\<rparr>)))))"

definition executor_prepare :: "system \<Rightarrow> str list \<Rightarrow> change_set \<Rightarrow> applied_file list io" where
  "executor_prepare sys roots cs =
     bindW (guardW (\<forall>c\<in>set (changes cs). file_write c) (AdapterError ''unsupported_change'')) (\<lambda>_.
     mapW (prepare_target sys roots cs) (backup_targets cs))"

text \<open>The body of the loop of \<open>apply\<close>.\<close>

definition apply_target :: "system \<Rightarrow> str list \<Rightarrow> change_set \<Rightarrow> applied_file \<Rightarrow> unit io" where
  "apply_target sys roots cs item =
     bindW check_cancel (\<lambda>_.
     bindW (executor_target sys roots (af_target item)) (\<lambda>p.
     bindW (current_content sys p (changes_of cs (af_target item))) (\<lambda>content.
     bindW (liftR (render_file_changes content (changes_of cs (af_target item)))) (\<lambda>rendered.
     bindW (node_at p) (\<lambda>n.
     bindW (case n of Some (RegFile c m u g) \<Rightarrow> bindW os_step (\<lambda>_. retW m) | _ \<Rightarrow> retW 384) (\<lambda>m.
     atomic_write sys p rendered m))))))"

definition executor_apply :: "system \<Rightarrow> str list \<Rightarrow> change_set \<Rightarrow> applied_file list io" where
  "executor_apply sys roots cs =
     bindW (executor_prepare sys roots cs) (\<lambda>planned.
     bindW (eachW (apply_target sys roots cs) planned) (\<lambda>_. retW planned))"

section \<open>The file validator\<close>

definition file_result :: "str \<Rightarrow> bool \<Rightarrow> json \<Rightarrow> json \<Rightarrow> validation_result" where
  "file_result c passed want got =
     \<lparr>validation_id = c, vr_scope = lit ''file'', check = c, vr_status = (if passed then VS_PASSED else VS_FAILED),
      expected = want, actual = got, vr_severity = (if passed then SV_INFO else SV_HIGH),
      vr_message = Some \<lparr>message_key = lit ''validation.'' @ c, arguments = [], fallback_text = []\<rparr>, vr_duration_ms = 0\<rparr>"

text \<open>\<open>_validate_systemd_drop_in\<close>: the lines still to read, and whether the section header was seen.\<close>

definition environment_prefix :: str where
  "environment_prefix = lit ''Environment='' @ [34]"

fun drop_in_scan :: "bool \<Rightarrow> str list \<Rightarrow> bool \<times> string" where
  "drop_in_scan header [] = (header, if header then ''valid dedicated drop-in'' else ''missing [Service]'')"
| "drop_in_scan header (raw # raws) =
     (let line = strip raw in
      if line = [] \<or> startswith line [35] \<or> startswith line [59] then drop_in_scan header raws
      else if line = lit ''[Service]'' \<and> \<not> header then drop_in_scan True raws
      else if \<not> header \<or> \<not> startswith line environment_prefix \<or> \<not> endswith line [34] then (False, ''unsupported directive'')
      else (let value = slice (length environment_prefix) (length line - 1) line in
        if 61 \<notin> set value \<or> (\<exists>c\<in>set value. c \<in> {10, 13, 0, 34}) then (False, ''invalid environment assignment'')
        else drop_in_scan header raws))"

definition validate_systemd_drop_in :: "str \<Rightarrow> bool \<times> string" where
  "validate_systemd_drop_in content = drop_in_scan False (splitlines content)"

definition opencode_result :: "str \<Rightarrow> str \<Rightarrow> validation_result res" where
  "opencode_result t content = (case locate_scalar_spans content of
      Inr _ \<Rightarrow> Inr (file_result (lit ''opencode.parse:'' @ t) True (JStr (lit ''valid JSONC'')) (JStr (lit ''valid JSONC'')))
    | Inl (AdapterError code) \<Rightarrow> Inr (file_result (lit ''opencode.parse:'' @ t) False (JStr (lit ''valid JSONC'')) (JStr (lit code)))
    | Inl e \<Rightarrow> Inl e)"

definition drop_in_result :: "str \<Rightarrow> str \<Rightarrow> validation_result" where
  "drop_in_result t content = (let (valid, detail) = validate_systemd_drop_in content in
     file_result (lit ''systemd.drop_in:'' @ t) valid (JStr (lit ''valid dedicated drop-in'')) (JStr (lit detail)))"

text \<open>What the validator says of one applied file.\<close>

definition content_results :: "applied_file \<Rightarrow> str \<Rightarrow> validation_result list res" where
  "content_results item content =
     bindR (if \<exists>c\<in>set (af_checks item). startswith c (lit ''opencode.'')
            then bindR (opencode_result (af_target item) content) (\<lambda>r. Inr [r]) else Inr []) (\<lambda>rs.
     Inr (rs @ (if \<exists>c\<in>set (af_checks item). startswith c (lit ''systemd.'') \<or> startswith c (lit ''ollama.'')
            then [drop_in_result (af_target item) content] else [])))"

definition validate_file :: "system \<Rightarrow> applied_file \<Rightarrow> validation_result list io" where
  "validate_file sys item =
     bindW check_cancel (\<lambda>_.
     bindW (node_at (af_target item)) (\<lambda>n.
     bindW (if is_file_node n then bindW (read_bytes (af_target item)) (\<lambda>c. retW (Some (sha256 sys c))) else retW None) (\<lambda>got.
     let r = file_result (lit ''file:'' @ af_target item) (got = Some (af_sha256 item)) (JStr (af_sha256 item)) (jopt JStr got) in
     if got = None then retW [r]
     else bindW (tryW (bindW (read_text (af_target item)) (\<lambda>t. retW (Some t)))
            (\<lambda>e. if e = OSError \<or> e = UnicodeError then retW None else raiseW e)) (\<lambda>text.
       case text of
         None \<Rightarrow> retW [r, file_result (lit ''file.utf8:'' @ af_target item) False (JStr (lit ''UTF-8'')) error_text]
       | Some t \<Rightarrow> bindW (liftR (content_results item t)) (\<lambda>rs. retW (r # rs))))))"

definition validate_files :: "system \<Rightarrow> applied_file list \<Rightarrow> validation_result list io" where
  "validate_files sys applied = bindW (mapW (validate_file sys) applied) (\<lambda>rss. retW (concat rss))"

section \<open>The coordinator\<close>

record coordinator =
  co_create :: "backup_request \<Rightarrow> backup_manifest io"
  co_verify :: "backup_manifest \<Rightarrow> validation_result list io"
  co_restore :: "backup_manifest \<Rightarrow> validation_result list io"
  co_roots :: "str list"
  co_audit :: "(str \<Rightarrow> str \<Rightarrow> (str \<times> json) list \<Rightarrow> unit io) option"
  co_journal :: "journal_store option"
  co_runtime :: "(change_set \<Rightarrow> validation_result list io) option"

text \<open>An error text, by where it comes from.\<close>

datatype apply_error = Reported string | Raised exn

record apply_outcome =
  ao_status :: plan_status
  ao_manifest :: "backup_manifest option"
  ao_validations :: "validation_result list"
  ao_error :: "apply_error option"

text \<open>\<open>_passed\<close>\<close>

definition all_passed :: "validation_result list \<Rightarrow> bool" where
  "all_passed rs \<longleftrightarrow> rs \<noteq> [] \<and> list_all passed_result rs"

definition os_or_adapter :: "exn \<Rightarrow> bool" where
  "os_or_adapter e \<longleftrightarrow> e = OSError \<or> adapter_error e"

text \<open>The exceptions \<open>execute\<close> answers with an outcome.\<close>

definition caught :: "exn \<Rightarrow> bool" where
  "caught e \<longleftrightarrow> os_or_adapter e \<or> e = OperationCancelled"

text \<open>\<open>getattr(error, "code", type(error).__name__)\<close>; the class of an operating system error is not modelled.\<close>

definition error_code :: "exn \<Rightarrow> json" where
  "error_code e = (case e of
      AdapterError c \<Rightarrow> JStr (lit c)
    | OperationCancelled \<Rightarrow> JStr (lit ''OperationCancelled'')
    | _ \<Rightarrow> error_text)"

definition plan_host :: "optimization_plan \<Rightarrow> json" where
  "plan_host p = jopt (\<lambda>cs. JStr (cs_host_id cs)) (op_change_set p)"

definition audit :: "coordinator \<Rightarrow> string \<Rightarrow> optimization_plan \<Rightarrow> (str \<times> json) list \<Rightarrow> unit io" where
  "audit co ev p facts = (case co_audit co of
      None \<Rightarrow> retW ()
    | Some write \<Rightarrow> write (lit ev) (plan_id p)
        ([(lit ''plan_id'', JStr (plan_id p)), (lit ''host_id'', plan_host p)] @ facts))"

definition succeeds :: "'a io \<Rightarrow> bool io" where
  "succeeds m = tryW (bindW m (\<lambda>_. retW True)) (\<lambda>e. if os_or_adapter e then retW False else raiseW e)"

text \<open>\<open>_journal_update\<close>\<close>

definition journal_mark :: "system \<Rightarrow> coordinator \<Rightarrow> str \<Rightarrow> journal_status \<Rightarrow> bool io" where
  "journal_mark sys co oid st = (case co_journal co of
      None \<Rightarrow> retW True
    | Some js \<Rightarrow> succeeds (journal_update sys js oid st))"

definition backup_field :: "str \<Rightarrow> (str \<times> json) list" where
  "backup_field b = [(lit ''backup_id'', JStr b)]"

text \<open>The restore of a rollback: its results, and the status they lead to.\<close>

definition restore_all :: "coordinator \<Rightarrow> backup_manifest \<Rightarrow> bool \<Rightarrow> (validation_result list \<times> plan_status) io" where
  "restore_all co m logged =
     tryW (bindW (co_restore co m) (\<lambda>rs. retW (rs, if all_passed rs \<and> logged then ROLLED_BACK else RECOVERY_REQUIRED)))
       (\<lambda>e. if caught e
         then retW ([file_result (lit ''rollback.exception'') False (JStr (lit ''restored'')) (error_code e)], RECOVERY_REQUIRED)
         else raiseW e)"

definition roll_back :: "system \<Rightarrow> coordinator \<Rightarrow> plan_machine \<Rightarrow> backup_manifest \<Rightarrow> validation_result list \<Rightarrow> apply_error \<Rightarrow>
    optimization_plan \<Rightarrow> str \<Rightarrow> apply_outcome io" where
  "roll_back sys co machine m validations err p oid =
     bindW (liftR (if pm_status machine = VALIDATING \<or> pm_status machine = APPLYING
       then transition_to machine ROLLING_BACK else Inr machine)) (\<lambda>machine.
     bindW (journal_mark sys co oid JS_ROLLING_BACK) (\<lambda>logged.
     bindW (restore_all co m logged) (\<lambda>(restored, status).
     bindW (succeeds (audit co (if status = ROLLED_BACK then ''rollback.completed'' else ''rollback.recovery_required'') p
        (backup_field (backup_id m)))) (\<lambda>audited.
     let status = (if audited then status else RECOVERY_REQUIRED) in
     bindW (journal_mark sys co oid (if status = ROLLED_BACK then JS_ROLLED_BACK else JS_RECOVERY_REQUIRED)) (\<lambda>_.
     bindW (liftR (transition_to machine status)) (\<lambda>machine.
     retW \<lparr>ao_status = pm_status machine, ao_manifest = Some m, ao_validations = validations @ restored,
           ao_error = Some err\<rparr>))))))"

text \<open>
  The local variables of \<open>execute\<close> its exception handler reads.  \<open>tagged l m\<close> runs \<open>m\<close> while they are \<open>l\<close>.
\<close>

record locals =
  lv_manifest :: "backup_manifest option"
  lv_machine :: plan_machine

definition tagged :: "locals \<Rightarrow> 'a io \<Rightarrow> (exn \<times> locals, 'a) run" where
  "tagged l m = tryW m (\<lambda>e. raiseW (e, l))"

text \<open>The journal of the operation, created when the coordinator has one.\<close>

definition journal_items :: "change_set \<Rightarrow> applied_file list \<Rightarrow> journal_target list res" where
  "journal_items cs prepared = mapR (\<lambda>item.
     case dict_of (map (\<lambda>c. (ch_target c, before_hash c)) (changes cs)) (af_target item) of
       None \<Rightarrow> Inl KeyError
     | Some b \<Rightarrow> Inr \<lparr>jt_target = af_target item, jt_before = b, jt_after = af_sha256 item\<rparr>) prepared"

definition open_journal :: "system \<Rightarrow> coordinator \<Rightarrow> str \<Rightarrow> optimization_plan \<Rightarrow> change_set \<Rightarrow> applied_file list \<Rightarrow> unit io" where
  "open_journal sys co oid p cs prepared = (case co_journal co of
      None \<Rightarrow> retW ()
    | Some js \<Rightarrow> bindW (liftR (journal_items cs prepared)) (\<lambda>ts.
        bindW (journal_create sys js oid (plan_id p) (cs_host_id cs) (content_hash cs) ts None None None None) (\<lambda>_. retW ())))"

definition request_of :: "optimization_plan \<Rightarrow> change_set \<Rightarrow> str \<Rightarrow> backup_request" where
  "request_of p cs b = \<lparr>rq_backup_id = b, rq_plan_id = plan_id p, rq_host_id = cs_host_id cs, rq_host_fingerprint = None,
     rq_change_set = cs, rq_encryption = backup_policy p\<rparr>"

definition run_validators :: "system \<Rightarrow> coordinator \<Rightarrow> change_set \<Rightarrow> applied_file list \<Rightarrow> validation_result list io" where
  "run_validators sys co cs applied =
     bindW (validate_files sys applied) (\<lambda>rs.
     case co_runtime co of None \<Rightarrow> retW rs | Some validate \<Rightarrow> bindW (validate cs) (\<lambda>ss. retW (rs @ ss)))"

text \<open>The last part of the \<open>try\<close> block: from the validated files to the outcome.\<close>

definition finish :: "system \<Rightarrow> coordinator \<Rightarrow> plan_machine \<Rightarrow> backup_manifest \<Rightarrow> validation_result list \<Rightarrow> optimization_plan \<Rightarrow>
    str \<Rightarrow> apply_outcome io" where
  "finish sys co machine m validations p b =
     (if all_passed validations then
        bindW (audit co ''apply.committed'' p (backup_field b)) (\<lambda>_.
        bindW (journal_mark sys co b JS_COMMITTED) (\<lambda>ok.
        if \<not> ok then roll_back sys co machine m validations (Reported ''journal commit failed'') p b
        else bindW (liftR (transition_to machine COMMITTED)) (\<lambda>machine.
          retW \<lparr>ao_status = pm_status machine, ao_manifest = Some m, ao_validations = validations, ao_error = None\<rparr>)))
      else roll_back sys co machine m validations (Reported ''validation failed'') p b)"

text \<open>The middle part: applying, with a journal and a verified backup in place.\<close>

definition apply_phase :: "system \<Rightarrow> coordinator \<Rightarrow> optimization_plan \<Rightarrow> change_set \<Rightarrow> str \<Rightarrow> plan_machine \<Rightarrow> backup_manifest \<Rightarrow>
    (exn \<times> locals, apply_outcome) run" where
  "apply_phase sys co p cs b machine m =
     (let l = \<lparr>lv_manifest = Some m, lv_machine = machine\<rparr> in
     bindW (tagged l (executor_apply sys (co_roots co) cs)) (\<lambda>applied.
     bindW (tagged l (journal_mark sys co b JS_VALIDATING)) (\<lambda>ok.
     if \<not> ok then tagged l (roll_back sys co machine m [] (Reported ''journal update failed'') p b)
     else bindW (tagged l (liftR (transition_to machine VALIDATING))) (\<lambda>machine.
       let l = \<lparr>lv_manifest = Some m, lv_machine = machine\<rparr> in
       bindW (tagged l (run_validators sys co cs applied)) (\<lambda>validations.
       tagged l (finish sys co machine m validations p b))))))"

definition failed_backup :: "coordinator \<Rightarrow> optimization_plan \<Rightarrow> (str \<times> json) list \<Rightarrow> apply_outcome \<Rightarrow> apply_outcome io" where
  "failed_backup co p facts outcome = bindW (audit co ''backup.failed'' p facts) (\<lambda>_. retW outcome)"

text \<open>The \<open>try\<close> block of \<open>execute\<close>.\<close>

definition execute_body :: "system \<Rightarrow> coordinator \<Rightarrow> optimization_plan \<Rightarrow> change_set \<Rightarrow> str \<Rightarrow> (exn \<times> locals, apply_outcome) run" where
  "execute_body sys co p cs b =
     (let machine = \<lparr>pm_plan_id = plan_id p, pm_status = APPROVED\<rparr> in
     bindW (tagged \<lparr>lv_manifest = None, lv_machine = machine\<rparr> (co_create co (request_of p cs b))) (\<lambda>m.
     let l = \<lparr>lv_manifest = Some m, lv_machine = machine\<rparr> in
     bindW (tagged l (co_verify co m)) (\<lambda>checks.
     if \<not> all_passed checks then
       tagged l (failed_backup co p (backup_field b)
         \<lparr>ao_status = APPROVED, ao_manifest = Some m, ao_validations = checks, ao_error = Some (Reported ''backup verification failed'')\<rparr>)
     else
       bindW (tagged l (audit co ''backup.verified'' p (backup_field b))) (\<lambda>_.
       bindW (tagged l (executor_prepare sys (co_roots co) cs)) (\<lambda>prepared.
       bindW (tagged l (open_journal sys co b p cs prepared)) (\<lambda>_.
       bindW (tagged l (liftR (bindR (transition_to machine BACKED_UP) (\<lambda>machine. transition_to machine APPLYING)))) (\<lambda>machine.
       apply_phase sys co p cs b machine m)))))))"

text \<open>The \<open>except\<close> block.\<close>

definition execute_handler :: "system \<Rightarrow> coordinator \<Rightarrow> optimization_plan \<Rightarrow> str \<Rightarrow> exn \<times> locals \<Rightarrow> apply_outcome io" where
  "execute_handler sys co p b = (\<lambda>(e, l).
     if \<not> caught e then raiseW e
     else (case lv_manifest l of
         Some m \<Rightarrow>
           if pm_status (lv_machine l) = APPROVED then
             failed_backup co p [(lit ''error_code'', error_code e)]
               \<lparr>ao_status = pm_status (lv_machine l), ao_manifest = Some m, ao_validations = [], ao_error = Some (Raised e)\<rparr>
           else roll_back sys co (lv_machine l) m [] (Raised e) p b
       | None \<Rightarrow>
           failed_backup co p [(lit ''error_code'', error_code e)]
             \<lparr>ao_status = pm_status (lv_machine l), ao_manifest = None, ao_validations = [], ao_error = Some (Raised e)\<rparr>))"

definition execute :: "system \<Rightarrow> coordinator \<Rightarrow> optimization_plan \<Rightarrow> approval_record \<Rightarrow> str \<Rightarrow> apply_outcome io" where
  "execute sys co p a b =
     (case op_change_set p of
        None \<Rightarrow> raiseW (AdapterError ''invalid_approval'')
      | Some cs \<Rightarrow>
          bindW utc_now (\<lambda>now.
          bindW (guardW (is_valid_for (runtime.truncate sys) a p now) (AdapterError ''invalid_approval'')) (\<lambda>_.
          bindW (audit co ''apply.approved'' p [(lit ''approval_id'', JStr (approval_id a))]) (\<lambda>_.
          tryW (execute_body sys co p cs b) (execute_handler sys co p b)))))"

end
