(* ===== verification/ApplySafety.thy ===== *)
theory ApplySafety
  imports SafeApply
begin

text \<open>
  What a safe apply leaves on disk, whatever happens in between: the frame of every step, what the executor
  and the validator establish, and the outcomes of the coordinator over any backup store that keeps the
  contract of \<open>Backup\<close>.
\<close>

section \<open>Which files an operation leaves alone\<close>

definition ports_quiet :: "(str \<Rightarrow> bool) \<Rightarrow> coordinator \<Rightarrow> bool" where
  "ports_quiet S co \<longleftrightarrow> (\<forall>write ev c k. co_audit co = Some write \<longrightarrow> keeps S (write ev c k))
     \<and> (\<forall>check_services cs. co_runtime co = Some check_services \<longrightarrow> keeps S (check_services cs))"

definition journal_apart :: "(str \<Rightarrow> bool) \<Rightarrow> coordinator \<Rightarrow> str \<Rightarrow> bool" where
  "journal_apart S co oid \<longleftrightarrow> (\<forall>js p. co_journal co = Some js \<longrightarrow> journal_path js oid = Inr p \<longrightarrow> \<not> S p)"

lemma ports_quiet_mono: "ports_quiet S co \<Longrightarrow> (\<And>p. T p \<Longrightarrow> S p) \<Longrightarrow> ports_quiet T co"
  unfolding ports_quiet_def by (meson keeps_mono)

lemma journal_apart_mono: "journal_apart S co oid \<Longrightarrow> (\<And>p. T p \<Longrightarrow> S p) \<Longrightarrow> journal_apart T co oid"
  unfolding journal_apart_def by blast

lemma audit_keeps: "ports_quiet S co \<Longrightarrow> keeps S (audit co ev p k)"
  unfolding audit_def ports_quiet_def by (auto intro: keeping split: option.split)

lemma succeeds_keeps [keeping]: "keeps S m \<Longrightarrow> keeps S (succeeds m)"
  unfolding succeeds_def by (auto intro!: keeping)

lemma journal_mark_keeps: "journal_apart S co oid \<Longrightarrow> keeps S (journal_mark sys co oid st)"
  unfolding journal_mark_def journal_apart_def by (auto intro!: keeping split: option.split)

lemma open_journal_keeps: "journal_apart S co oid \<Longrightarrow> keeps S (open_journal sys co oid p cs prepared)"
  unfolding open_journal_def journal_apart_def by (auto intro!: keeping split: option.split)

lemma executor_target_keeps [keeping]: "keeps S (executor_target sys roots t)"
  unfolding executor_target_def by (intro keeping)

lemma current_content_keeps [keeping]: "keeps S (current_content sys p chs)"
  unfolding current_content_def by (auto intro!: keeping split: list.split)

lemma prepare_target_keeps [keeping]: "keeps S (prepare_target sys roots cs t)"
  unfolding prepare_target_def by (intro keeping)

lemma executor_prepare_keeps [keeping]: "keeps S (executor_prepare sys roots cs)"
  unfolding executor_prepare_def by (intro keeping)

lemma validate_file_keeps [keeping]: "keeps S (validate_file sys item)"
  unfolding validate_file_def Let_def by (auto intro!: keeping)

lemma validate_files_keeps [keeping]: "keeps S (validate_files sys applied)"
  unfolding validate_files_def by (intro keeping)

lemma run_validators_keeps: "ports_quiet S co \<Longrightarrow> keeps S (run_validators sys co cs applied)"
  unfolding run_validators_def ports_quiet_def by (cases "co_runtime co") (auto intro!: keeping)

lemma tagged_keeps [keeping]: "keeps S m \<Longrightarrow> keeps S (tagged l m)"
  unfolding tagged_def by (auto intro!: keeping)

lemma executor_target_Inr:
  assumes "executor_target sys roots t w = (Inr p, w')"
  shows "p = resolved_target sys t \<and> fs w p \<noteq> Some SymLink \<and> w' = w"
  using assms by (auto simp: executor_target_def bindW_Inr checked_target_Inr)

lemma keeps_bind_Inr:
  assumes "keeps S m" and "\<And>x w w'. m w = (Inr x, w') \<Longrightarrow> keeps S (f x)"
  shows "keeps S (bindW m f)"
  unfolding keeps_def
proof (intro allI impI)
  fix w p assume p: "S p"
  obtain r w1 where m: "m w = (r, w1)" by fastforce
  have k: "fs w1 p = fs w p" using keepsD [OF assms(1) m p] .
  show "fs (snd (bindW m f w)) p = fs w p"
  proof (cases r)
    case (Inr x)
    with m have "keeps S (f x)" using assms(2) by blast
    then show ?thesis using m Inr k p by (simp add: bindW_def keeps_def)
  qed (use m k in \<open>simp add: bindW_def\<close>)
qed

lemma apply_target_keeps:
  assumes "\<not> S (resolved_target sys (af_target item))"
  shows "keeps S (apply_target sys roots cs item)"
  unfolding apply_target_def using assms
  by (auto intro!: keeping keeps_bind_Inr [of S "executor_target sys roots (af_target item)"] dest: executor_target_Inr)

section \<open>What the executor does\<close>

text \<open>The content a change set was planned on, at a target.\<close>

definition planned_on :: "system \<Rightarrow> files \<Rightarrow> change_set \<Rightarrow> str \<Rightarrow> bytes \<Rightarrow> bool" where
  "planned_on sys f cs t content \<longleftrightarrow> (case f t of
      None \<Rightarrow> content = [] \<and> (\<forall>c\<in>set (changes_of cs t). before_hash c = None \<and> operation c = CREATE_FILE)
    | Some (RegFile c m u g) \<Rightarrow> content = c \<and> (\<forall>ch\<in>set (changes_of cs t). before_hash ch = Some (sha256 sys c))
    | Some _ \<Rightarrow> False)"

definition planned_item :: "system \<Rightarrow> files \<Rightarrow> change_set \<Rightarrow> applied_file \<Rightarrow> bool" where
  "planned_item sys f cs item \<longleftrightarrow> (\<exists>content rendered. planned_on sys f cs (af_target item) content
     \<and> render_file_changes content (changes_of cs (af_target item)) = Inr rendered \<and> af_sha256 item = sha256 sys rendered)"

lemma remdups_replicate_Suc: "remdups (replicate (Suc n) y) = [y]"
  by (induction n) auto

lemma remdups_single: "remdups xs = [y] \<longleftrightarrow> xs \<noteq> [] \<and> (\<forall>x\<in>set xs. x = y)"
proof
  assume r: "remdups xs = [y]"
  then have "set xs = {y}" by (metis list.simps(15) set_empty2 set_remdups)
  then show "xs \<noteq> [] \<and> (\<forall>x\<in>set xs. x = y)" by auto
next
  assume "xs \<noteq> [] \<and> (\<forall>x\<in>set xs. x = y)"
  then obtain n where "xs = replicate (Suc n) y"
    by (metis length_greater_0_conv gr0_implies_Suc replicate_eqI)
  then show "remdups xs = [y]" by (simp only: remdups_replicate_Suc)
qed

lemma current_content_Inr:
  assumes "current_content sys t (changes_of cs t) w = (Inr content, w')"
  shows "planned_on sys (fs w) cs t content"
proof -
  obtain want where h: "remdups (map before_hash (changes_of cs t)) = [want]"
    using assms by (auto simp: current_content_def split: list.splits)
  then have b: "\<forall>c\<in>set (changes_of cs t). before_hash c = want" by (auto simp: remdups_single)
  show ?thesis
  proof (cases "fs w t")
    case None
    then show ?thesis using assms h b
      by (auto simp: current_content_def bindW_Inr exists_node_def planned_on_def split: if_splits)
  next
    case (Some n)
    then obtain c m u g where n: "n = RegFile c m u g"
      using assms h by (cases n) (auto simp: current_content_def bindW_Inr exists_node_def is_file_node_def)
    then obtain w1 where "read_bytes t w = (Inr content, w1)" "want = Some (sha256 sys content)"
      using assms h Some by (auto simp: current_content_def bindW_Inr exists_node_def is_file_node_def split: if_splits)
    then show ?thesis using Some n b by (auto simp: planned_on_def dest!: read_bytes_Inr)
  qed
qed

lemma prepare_target_Inr:
  assumes "prepare_target sys roots cs t w = (Inr item, w')" and "resolved_target sys t = t"
  shows "af_target item = t \<and> planned_item sys (fs w) cs item"
proof -
  obtain w1 w2 content rendered where c: "check_cancel w = (Inr (), w1)"
    and d: "current_content sys t (changes_of cs t) w1 = (Inr content, w2)"
    and r: "render_file_changes content (changes_of cs t) = Inr rendered"
    and i: "af_target item = t" "af_sha256 item = sha256 sys rendered"
    using assms by (auto simp: prepare_target_def bindW_Inr dest!: executor_target_Inr)
  from current_content_Inr [OF d] check_cancel_fs [OF c] r i show ?thesis by (auto simp: planned_item_def)
qed

lemma planned_item_cong:
  "f' (af_target item) = f (af_target item) \<Longrightarrow> planned_item sys f' cs item = planned_item sys f cs item"
  by (simp add: planned_item_def planned_on_def)

definition planned_all :: "system \<Rightarrow> files \<Rightarrow> change_set \<Rightarrow> applied_file list \<Rightarrow> bool" where
  "planned_all sys f cs applied \<longleftrightarrow> map af_target applied = backup_targets cs \<and> (\<forall>i\<in>set applied. planned_item sys f cs i)"

lemma executor_prepare_Inr:
  assumes "executor_prepare sys roots cs w = (Inr applied, w')" and "\<forall>t\<in>set (backup_targets cs). resolved_target sys t = t"
  shows "fs w' = fs w \<and> planned_all sys (fs w) cs applied"
proof -
  from assms(1) have m: "mapW (prepare_target sys roots cs) (backup_targets cs) w = (Inr applied, w')"
    by (auto simp: executor_prepare_def bindW_Inr)
  have k: "fs w' = fs w" "list_all2 (\<lambda>t i. \<exists>w1 w2. fs w1 = fs w \<and> prepare_target sys roots cs t w1 = (Inr i, w2)) (backup_targets cs) applied"
    using mapW_keeping [OF _ m] prepare_target_keeps by auto
  have "list_all2 (\<lambda>t i. af_target i = t \<and> planned_item sys (fs w) cs i) (backup_targets cs) applied"
  proof (rule list_all2_all_nthI)
    show "length (backup_targets cs) = length applied" by (rule list_all2_lengthD [OF k(2)])
    fix n assume n: "n < length (backup_targets cs)"
    obtain w1 w2 where "fs w1 = fs w" "prepare_target sys roots cs (backup_targets cs ! n) w1 = (Inr (applied ! n), w2)"
      using list_all2_nthD [OF k(2) n] by blast
    then show "af_target (applied ! n) = backup_targets cs ! n \<and> planned_item sys (fs w) cs (applied ! n)"
      using prepare_target_Inr assms(2) n by (metis nth_mem)
  qed
  then show ?thesis using k(1) unfolding planned_all_def
    by (auto simp: list_all2_conv_all_nth in_set_conv_nth intro: nth_equalityI)
qed

lemma executor_apply_Inr:
  assumes "executor_apply sys roots cs w = (Inr applied, w')" and "\<forall>t\<in>set (backup_targets cs). resolved_target sys t = t"
  shows "planned_all sys (fs w) cs applied"
  using assms(1) executor_prepare_Inr [OF _ assms(2)] by (fastforce simp: executor_apply_def bindW_Inr)

lemma executor_apply_keeps:
  assumes "\<forall>t\<in>set (backup_targets cs). resolved_target sys t = t \<and> \<not> S t"
  shows "keeps S (executor_apply sys roots cs)"
  unfolding executor_apply_def
proof (rule keeps_bind_Inr)
  fix applied w w' assume "executor_prepare sys roots cs w = (Inr applied, w')"
  from executor_prepare_Inr [OF this] assms have "map af_target applied = backup_targets cs"
    by (simp add: planned_all_def)
  then have "\<forall>i\<in>set applied. af_target i \<in> set (backup_targets cs)" by (metis image_eqI list.set_map)
  then have "\<forall>i\<in>set applied. \<not> S (resolved_target sys (af_target i))" using assms by simp
  then show "keeps S (bindW (eachW (apply_target sys roots cs) applied) (\<lambda>_. retW applied))"
    by (auto intro!: keeping apply_target_keeps)
qed (rule keeping)

text \<open>The file an applied item left is the planned one, by its digest.\<close>

definition applied_ok :: "system \<Rightarrow> files \<Rightarrow> applied_file \<Rightarrow> bool" where
  "applied_ok sys f item \<longleftrightarrow> (\<exists>c m u g. f (af_target item) = Some (RegFile c m u g) \<and> sha256 sys c = af_sha256 item)"

lemma validate_file_Inr:
  assumes "validate_file sys item w = (Inr rs, w')" and "list_all passed_result rs"
  shows "applied_ok sys (fs w) item"
proof -
  let ?got = "if is_file_node (fs w (af_target item)) then bindW (read_bytes (af_target item)) (\<lambda>c. retW (Some (sha256 sys c))) else retW None"
  obtain w1 w2 got where c: "check_cancel w = (Inr (), w1)" and g: "?got w1 = (Inr got, w2)"
    and r: "hd rs = file_result (lit ''file:'' @ af_target item) (got = Some (af_sha256 item)) (JStr (af_sha256 item)) (jopt JStr got)" "rs \<noteq> []"
    using assms(1) check_cancel_fs
    by (fastforce simp: validate_file_def bindW_Inr Let_def split: if_splits option.splits)
  have "passed_result (hd rs)" using assms(2) r(2) by (cases rs) auto
  then have "got = Some (af_sha256 item)" using r(1) by (simp add: passed_result_def file_result_def split: if_splits)
  then show ?thesis using g check_cancel_fs [OF c]
    by (auto simp: bindW_Inr applied_ok_def split: if_splits dest!: read_bytes_Inr)
qed

lemma validate_files_Inr:
  assumes "validate_files sys applied w = (Inr rs, w')" and "list_all passed_result rs"
  shows "fs w' = fs w \<and> (\<forall>i\<in>set applied. applied_ok sys (fs w) i)"
proof -
  obtain rss where m: "mapW (validate_file sys) applied w = (Inr rss, w')" and rs: "rs = concat rss"
    using assms(1) by (auto simp: validate_files_def bindW_Inr)
  have k: "fs w' = fs w" "list_all2 (\<lambda>i r. \<exists>w1 w2. fs w1 = fs w \<and> validate_file sys i w1 = (Inr r, w2)) applied rss"
    using mapW_keeping [OF _ m] validate_file_keeps by auto
  have "applied_ok sys (fs w) i" if "i \<in> set applied" for i
  proof -
    from that obtain n where n: "n < length applied" "applied ! n = i" unfolding in_set_conv_nth by blast
    then obtain w1 w2 where v: "fs w1 = fs w" "validate_file sys i w1 = (Inr (rss ! n), w2)"
      using list_all2_nthD [OF k(2) n(1)] by auto
    have "rss ! n \<in> set rss" using n list_all2_lengthD [OF k(2)] by simp
    then have "list_all passed_result (rss ! n)" using assms(2) rs by (auto simp: list_all_iff)
    from validate_file_Inr [OF v(2) this] v(1) show ?thesis by simp
  qed
  then show ?thesis using k(1) by blast
qed

section \<open>The coordinator\<close>

text \<open>A target that held \<open>f0 t\<close> now holds (\<open>n\<close>) the approved edit of it.\<close>

definition holds_edit :: "system \<Rightarrow> files \<Rightarrow> change_set \<Rightarrow> str \<Rightarrow> node option \<Rightarrow> bool" where
  "holds_edit sys f0 cs t n \<longleftrightarrow> (\<exists>content rendered c m u g. planned_on sys f0 cs t content
     \<and> render_file_changes content (changes_of cs t) = Inr rendered \<and> n = Some (RegFile c m u g) \<and> sha256 sys c = sha256 sys rendered)"

lemma holds_editI:
  assumes "planned_all sys f0 cs applied" and "\<forall>i\<in>set applied. applied_ok sys f i"
  shows "\<forall>t\<in>set (backup_targets cs). holds_edit sys f0 cs t (f t)"
proof
  fix t assume "t \<in> set (backup_targets cs)"
  then obtain i where "i \<in> set applied" "af_target i = t"
    using assms(1) unfolding planned_all_def by (metis imageE list.set_map)
  then show "holds_edit sys f0 cs t (f t)"
    using assms unfolding planned_all_def planned_item_def applied_ok_def holds_edit_def by metis
qed

definition outcome_ok :: "system \<Rightarrow> files \<Rightarrow> (str \<Rightarrow> bool) \<Rightarrow> change_set \<Rightarrow> apply_outcome \<Rightarrow> world \<Rightarrow> bool" where
  "outcome_ok sys f0 S cs r w \<longleftrightarrow>
     ao_status r \<in> {APPROVED, COMMITTED, ROLLED_BACK, RECOVERY_REQUIRED}
     \<and> (ao_status r = APPROVED \<longrightarrow> same_files S f0 w)
     \<and> (ao_status r = COMMITTED \<longrightarrow> (\<forall>t\<in>set (backup_targets cs). holds_edit sys f0 cs t (fs w t)))
     \<and> (ao_status r = ROLLED_BACK \<longrightarrow> (\<forall>t\<in>set (backup_targets cs). back_as_before sys (f0 t) (fs w t)))"

lemma transition_Inr: "transition_to m t = Inr m' \<longleftrightarrow> can_transition_to m t \<and> m' = m\<lparr>pm_status := t\<rparr>"
  by (auto simp: transition_to_def)

context backup_contract
begin

text \<open>A manifest of the backup this run made.\<close>

definition backs_up :: "files \<Rightarrow> change_set \<Rightarrow> backup_manifest \<Rightarrow> bool" where
  "backs_up f0 cs m \<longleftrightarrow> issued m \<and> map bi_target (items m) = backup_targets cs \<and> (\<forall>i\<in>set (items m). describes sys f0 i)"

lemma backs_up_targets: "backs_up f0 cs m \<Longrightarrow> bi_target ` set (items m) = set (backup_targets cs)"
  unfolding backs_up_def by (metis list.set_map)

lemma backs_up_resolved: "backs_up f0 cs m \<Longrightarrow> t \<in> set (backup_targets cs) \<Longrightarrow> resolved_target sys t = t"
  using backs_up_targets issued_target unfolding backs_up_def by (metis imageE)

lemma restore_all_Inr:
  assumes r: "restore_all co m logged w = (Inr (rs, st), w')" and c: "co_restore co = restore"
    and m: "backs_up f0 cs m" and o: "\<forall>t\<in>set (backup_targets cs). \<not> store t"
  shows "st \<in> {ROLLED_BACK, RECOVERY_REQUIRED}
    \<and> (st = ROLLED_BACK \<longrightarrow> (\<forall>t\<in>set (backup_targets cs). back_as_before sys (f0 t) (fs w' t)))"
proof -
  have s: "st \<in> {ROLLED_BACK, RECOVERY_REQUIRED}"
    and k: "st = ROLLED_BACK \<Longrightarrow> restore m w = (Inr rs, w') \<and> all_passed rs"
    using r by (auto simp: restore_all_def tryW_def bindW_def c split: prod.splits sum.splits if_splits)
  have "\<forall>t\<in>set (backup_targets cs). back_as_before sys (f0 t) (fs w' t)" if "st = ROLLED_BACK"
  proof -
    have i: "issued m" "\<forall>i\<in>set (items m). describes sys f0 i" using m by (auto simp: backs_up_def)
    have n: "\<forall>i\<in>set (items m). \<not> store (bi_target i)" using o backs_up_targets [OF m] by blast
    have "\<forall>i\<in>set (items m). restored_as sys (fs w') i"
      using restore_Inr [OF i(1) n, of w rs w'] k [OF that] by (simp add: all_passed_def list_all_iff)
    then show ?thesis using i(2) back_as_beforeI unfolding backs_up_targets [OF m, symmetric] by auto
  qed
  with s show ?thesis by blast
qed

lemma roll_back_Inr:
  assumes r: "roll_back sys co machine m vs err p oid w = (Inr out, w')" and "co_restore co = restore"
    and m: "backs_up f0 cs m" and t: "\<forall>t\<in>set (backup_targets cs). \<not> store t \<and> S t"
    and q: "ports_quiet S co" "journal_apart S co oid"
  shows "outcome_ok sys f0 S cs out w'"
proof -
  obtain logged w1 rs st w2 audited w3 x w4 where
    j: "restore_all co m logged w1 = (Inr (rs, st), w2)"
    and a: "succeeds (audit co (if st = ROLLED_BACK then ''rollback.completed'' else ''rollback.recovery_required'') p
        (backup_field (backup_id m))) w2 = (Inr audited, w3)"
    and l: "journal_mark sys co oid (if (if audited then st else RECOVERY_REQUIRED) = ROLLED_BACK then JS_ROLLED_BACK else JS_RECOVERY_REQUIRED) w3 = (Inr x, w4)"
    and o: "w' = w4" "ao_status out = (if audited then st else RECOVERY_REQUIRED)"
    using r by (auto simp: roll_back_def bindW_Inr Let_def transition_Inr)
  have n: "\<forall>t\<in>set (backup_targets cs). \<not> store t" using t by blast
  note R = restore_all_Inr [OF j assms(2) m n]
  have "fs w' p = fs w2 p" if "S p" for p
    using keepsD [OF succeeds_keeps [OF audit_keeps [OF q(1)]] a that] keepsD [OF journal_mark_keeps [OF q(2)] l that] o(1) by simp
  then show ?thesis using R o(2) t by (auto simp: outcome_ok_def)
qed

lemma finish_Inr:
  assumes r: "finish sys co machine m vs p oid w = (Inr out, w')" and c: "co_restore co = restore"
    and m: "backs_up f0 cs m" and t: "\<forall>t\<in>set (backup_targets cs). \<not> store t \<and> S t"
    and q: "ports_quiet S co" "journal_apart S co oid"
    and h: "all_passed vs \<Longrightarrow> \<forall>t\<in>set (backup_targets cs). holds_edit sys f0 cs t (fs w t)"
  shows "outcome_ok sys f0 S cs out w'"
proof (cases "all_passed vs")
  case False
  then show ?thesis using roll_back_Inr [OF _ c m t q] r by (auto simp: finish_def)
next
  case True
  then obtain w1 w2 ok where a: "audit co ''apply.committed'' p (backup_field oid) w = (Inr (), w1)"
    and j: "journal_mark sys co oid JS_COMMITTED w1 = (Inr ok, w2)"
    and k: "if \<not> ok then roll_back sys co machine m vs (Reported ''journal commit failed'') p oid w2 = (Inr out, w')
      else ao_status out = COMMITTED \<and> w' = w2"
    using r by (auto simp: finish_def bindW_Inr transition_Inr split: if_splits)
  have "fs w2 p = fs w p" if "S p" for p
    using keepsD [OF audit_keeps [OF q(1)] a that] keepsD [OF journal_mark_keeps [OF q(2)] j that] by simp
  then have "\<forall>t\<in>set (backup_targets cs). holds_edit sys f0 cs t (fs w2 t)" using h [OF True] t by simp
  then show ?thesis using roll_back_Inr [OF _ c m t q] k by (auto simp: outcome_ok_def split: if_splits)
qed

text \<open>What the handler of \<open>execute\<close> may rely on.\<close>

definition error_ok :: "files \<Rightarrow> (str \<Rightarrow> bool) \<Rightarrow> change_set \<Rightarrow> exn \<times> locals \<Rightarrow> world \<Rightarrow> bool" where
  "error_ok f0 S cs = (\<lambda>(e, l) w. case lv_manifest l of
      None \<Rightarrow> pm_status (lv_machine l) = APPROVED \<and> same_files S f0 w
    | Some m \<Rightarrow> backs_up f0 cs m \<and> (pm_status (lv_machine l) = APPROVED \<longrightarrow> same_files S f0 w))"

lemma planned_all_cong:
  assumes "planned_all sys f cs applied" and "\<forall>t\<in>set (backup_targets cs). f t = f0 t"
  shows "planned_all sys f0 cs applied"
proof -
  have "\<forall>i\<in>set applied. af_target i \<in> set (backup_targets cs)"
    using assms(1) unfolding planned_all_def by (metis image_eqI list.set_map)
  then show ?thesis using assms planned_item_cong unfolding planned_all_def by metis
qed

lemma tagged_valid: "valid P m Q (\<lambda>e. E (e, l)) \<Longrightarrow> valid P (tagged l m) Q E"
  unfolding tagged_def by (rule valid_try) (auto intro: valid_raise)

lemma apply_phase_valid:
  assumes c: "co_restore co = restore" and m: "backs_up f0 cs m"
    and t: "\<forall>t\<in>set (backup_targets cs). \<not> store t \<and> S t"
    and q: "ports_quiet S co" "journal_apart S co oid" and machine: "pm_status machine = APPLYING"
  shows "valid (same_files S f0) (apply_phase sys co p cs oid machine m) (outcome_ok sys f0 S cs) (error_ok f0 S cs)"
proof -
  have E: "error_ok f0 S cs (e, \<lparr>lv_manifest = Some m, lv_machine = k\<rparr>) w" if "pm_status k \<noteq> APPROVED" for e k w
    using m that by (simp add: error_ok_def)
  have any: "valid P n (\<lambda>_ _. True) E" if "\<And>e w. E e w" for P E and n :: "'a io"
    by (rule validI) (use that in auto)
  let ?A = "\<lambda>applied (w :: world). planned_all sys f0 cs applied"
  have a: "valid (same_files S f0) (executor_apply sys (co_roots co) cs) ?A (\<lambda>e. error_ok f0 S cs (e, \<lparr>lv_manifest = Some m, lv_machine = machine\<rparr>))"
  proof (rule validI)
    fix w applied w' assume "same_files S f0 w" "executor_apply sys (co_roots co) cs w = (Inr applied, w')"
    then show "planned_all sys f0 cs applied"
      using executor_apply_Inr backs_up_resolved [OF m] planned_all_cong t unfolding same_files_def by metis
  qed (use E machine in simp)
  have j: "valid (?A applied) (journal_mark sys co oid JS_VALIDATING) (\<lambda>_. ?A applied) (\<lambda>e. error_ok f0 S cs (e, \<lparr>lv_manifest = Some m, lv_machine = machine\<rparr>))" for applied
    by (rule validI) (use E machine in auto)
  have v: "valid (?A applied) (run_validators sys co cs applied)
      (\<lambda>vs w. all_passed vs \<longrightarrow> (\<forall>t\<in>set (backup_targets cs). holds_edit sys f0 cs t (fs w t)))
      (\<lambda>e. error_ok f0 S cs (e, \<lparr>lv_manifest = Some m, lv_machine = k\<rparr>))" if "pm_status k = VALIDATING" for applied k
  proof (rule validI)
    fix w vs w' assume A: "?A applied w" and r: "run_validators sys co cs applied w = (Inr vs, w')"
    show "all_passed vs \<longrightarrow> (\<forall>t\<in>set (backup_targets cs). holds_edit sys f0 cs t (fs w' t))"
    proof
      assume p: "all_passed vs"
      obtain rs w1 where f: "validate_files sys applied w = (Inr rs, w1)" and "list_all passed_result rs"
        using r p by (cases "co_runtime co") (auto simp: run_validators_def bindW_Inr all_passed_def)
      from validate_files_Inr [OF this] A have "\<forall>t\<in>set (backup_targets cs). holds_edit sys f0 cs t (fs w t)"
        using holds_editI by blast
      moreover have "fs w' p = fs w p" if "S p" for p
        using keepsD [OF run_validators_keeps [OF q(1)] r that] .
      ultimately show "\<forall>t\<in>set (backup_targets cs). holds_edit sys f0 cs t (fs w' t)" using t by simp
    qed
  qed (use E that in simp)
  have rb: "valid P (roll_back sys co k m vs err p oid) (outcome_ok sys f0 S cs) (\<lambda>e. error_ok f0 S cs (e, \<lparr>lv_manifest = Some m, lv_machine = k\<rparr>))"
    if "pm_status k \<noteq> APPROVED" for P k vs err
    by (rule validI) (use roll_back_Inr [OF _ c m t q] E that in auto)
  have fi: "valid (\<lambda>w. all_passed vs \<longrightarrow> (\<forall>t\<in>set (backup_targets cs). holds_edit sys f0 cs t (fs w t)))
      (finish sys co k m vs p oid) (outcome_ok sys f0 S cs) (\<lambda>e. error_ok f0 S cs (e, \<lparr>lv_manifest = Some m, lv_machine = k\<rparr>))"
    if "pm_status k \<noteq> APPROVED" for k vs
    by (rule validI) (use finish_Inr [OF _ c m t q] E that in auto)
  have tr: "valid (?A applied) (liftR (transition_to machine VALIDATING)) (\<lambda>k w. pm_status k = VALIDATING \<and> ?A applied w)
      (\<lambda>e. error_ok f0 S cs (e, \<lparr>lv_manifest = Some m, lv_machine = machine\<rparr>))" for applied
    by (rule valid_lift) (use E machine in \<open>auto simp: transition_Inr\<close>)
  show ?thesis
    unfolding apply_phase_def Let_def
    by (rule valid_bind [OF tagged_valid [OF a]], rule valid_bind [OF tagged_valid [OF j]], rule valid_if,
      (rule tagged_valid [OF rb], simp add: machine), rule valid_bind [OF tagged_valid [OF tr]], rule valid_pre,
      rule valid_bind [OF tagged_valid [OF v]], assumption, (rule tagged_valid [OF fi], simp))
qed

end

context backup_contract
begin

lemma execute_body_valid:
  assumes c: "co_create co = create" "co_verify co = verify" "co_restore co = restore"
    and t: "\<forall>t\<in>set (backup_targets cs). S t" and s: "\<And>p. S p \<Longrightarrow> \<not> store p"
    and q: "ports_quiet S co" "journal_apart S co oid"
  shows "valid (\<lambda>w. fs w = f0) (execute_body sys co p cs oid) (outcome_ok sys f0 S cs) (error_ok f0 S cs)"
proof -
  let ?k = "\<lparr>pm_plan_id = plan_id p, pm_status = APPROVED\<rparr>"
  let ?l = "\<lambda>m. \<lparr>lv_manifest = m, lv_machine = ?k\<rparr>"
  let ?B = "\<lambda>m w. backs_up f0 cs m \<and> same_files S f0 w"
  have t': "\<forall>t\<in>set (backup_targets cs). \<not> store t \<and> S t" using t s by blast
  have E0: "error_ok f0 S cs (e, ?l None) w" if "same_files S f0 w" for e w using that by (simp add: error_ok_def)
  have E: "error_ok f0 S cs (e, ?l (Some m)) w" if "?B m w" for e m w using that by (simp add: error_ok_def)
  have cr: "valid (\<lambda>w. fs w = f0) (co_create co (request_of p cs oid)) ?B (\<lambda>e. error_ok f0 S cs (e, ?l None))"
  proof (rule validI)
    fix w m w' assume f: "fs w = f0" and r: "co_create co (request_of p cs oid) w = (Inr m, w')"
    have "backs_up f0 cs m" using create_Inr [of "request_of p cs oid" w m w'] r f
      by (simp add: c backs_up_def request_of_def)
    moreover have "fs w' x = f0 x" if "S x" for x
      using keepsD [OF create_keeps r [unfolded c]] s [OF that] f by simp
    ultimately show "?B m w'" by (simp add: same_files_def)
  next
    fix w e w' assume f: "fs w = f0" and r: "co_create co (request_of p cs oid) w = (Inl e, w')"
    have "fs w' x = f0 x" if "S x" for x
      using keepsD [OF create_keeps r [unfolded c]] s [OF that] f by simp
    then show "error_ok f0 S cs (e, ?l None) w'" by (simp add: E0 same_files_def)
  qed
  have step: "valid (?B m) n (\<lambda>_. ?B m) (\<lambda>e. error_ok f0 S cs (e, ?l (Some m)))" if "keeps S n" for m and n :: "'a io"
    by (rule valid_weaken [OF valid_conj [OF valid_keeps [OF that, of f0] valid_keeps [OF that, of f0]], THEN valid_pre])
      (auto intro: E)
  have fail: "valid (?B m) (failed_backup co p k r) (outcome_ok sys f0 S cs) (\<lambda>e. error_ok f0 S cs (e, ?l (Some m)))"
    if "ao_status r = APPROVED" for m k r
    unfolding failed_backup_def
    by (rule valid_bind [OF step [OF audit_keeps [OF q(1)]]], rule valid_ret) (simp add: outcome_ok_def that)
  have tr: "valid (?B m) (liftR (bindR (transition_to ?k BACKED_UP) (\<lambda>machine. transition_to machine APPLYING)))
      (\<lambda>k w. (backs_up f0 cs m \<and> pm_status k = APPLYING) \<and> same_files S f0 w) (\<lambda>e. error_ok f0 S cs (e, ?l (Some m)))" for m
    by (rule valid_lift) (auto simp: transition_Inr bindR_eq_Inr intro: E)
  have v: "keeps S (co_verify co m)" for m using verify_keeps keeps_mono unfolding c by blast
  have ap: "valid (\<lambda>w. (backs_up f0 cs m \<and> pm_status k = APPLYING) \<and> same_files S f0 w) (apply_phase sys co p cs oid k m)
      (outcome_ok sys f0 S cs) (error_ok f0 S cs)" for k m
    by (rule valid_pre, rule apply_phase_valid [OF c(3) _ t' q]) auto
  show ?thesis
    unfolding execute_body_def Let_def
    by (rule valid_bind [OF tagged_valid [OF cr]], rule valid_bind [OF tagged_valid [OF step [OF v]]], rule valid_if,
      (rule tagged_valid [OF fail], simp), rule valid_bind [OF tagged_valid [OF step [OF audit_keeps [OF q(1)]]]],
      rule valid_bind [OF tagged_valid [OF step [OF executor_prepare_keeps]]],
      rule valid_bind [OF tagged_valid [OF step [OF open_journal_keeps [OF q(2)]]]],
      rule valid_bind [OF tagged_valid [OF tr]], rule ap)
qed

lemma execute_handler_valid:
  assumes c: "co_restore co = restore"
    and t: "\<forall>t\<in>set (backup_targets cs). S t" and s: "\<And>p. S p \<Longrightarrow> \<not> store p"
    and q: "ports_quiet S co" "journal_apart S co oid"
  shows "valid (error_ok f0 S cs x) (execute_handler sys co p oid x) (outcome_ok sys f0 S cs) (\<lambda>_ _. True)"
proof (rule validI)
  obtain e l where x: "x = (e, l)" by fastforce
  fix w out w' assume ok: "error_ok f0 S cs x w" and r: "execute_handler sys co p oid x w = (Inr out, w')"
  have t': "\<forall>t\<in>set (backup_targets cs). \<not> store t \<and> S t" using t s by blast
  have fail: "outcome_ok sys f0 S cs out w'"
    if z: "failed_backup co p k y w = (Inr out, w')" "ao_status y = APPROVED" "same_files S f0 w" for k y
  proof -
    obtain w1 where "audit co ''backup.failed'' p k w = (Inr (), w1)" "w' = w1" "out = y"
      using z(1) by (auto simp: failed_backup_def bindW_Inr)
    then show ?thesis using z(2,3) keepsD [OF audit_keeps [OF q(1)]]
      by (auto simp: outcome_ok_def same_files_def)
  qed
  show "outcome_ok sys f0 S cs out w'"
  proof (cases "lv_manifest l")
    case None
    then show ?thesis using ok r x fail by (auto simp: execute_handler_def error_ok_def split: if_splits)
  next
    case (Some m)
    then have m: "backs_up f0 cs m" using ok x by (simp add: error_ok_def)
    show ?thesis
    proof (cases "pm_status (lv_machine l) = APPROVED")
      case True
      then show ?thesis using ok r x fail Some by (auto simp: execute_handler_def error_ok_def split: if_splits)
    next
      case False
      then show ?thesis using r x Some roll_back_Inr [OF _ c m t' q]
        by (auto simp: execute_handler_def split: if_splits)
    qed
  qed
qed simp

text \<open>An execution that answers: the outcome says what is on disk.\<close>

lemma outcome_ok_cong:
  assumes "outcome_ok sys f1 S cs out w" and "\<And>p. S p \<Longrightarrow> f1 p = f0 p" and "\<forall>t\<in>set (backup_targets cs). S t"
  shows "outcome_ok sys f0 S cs out w"
proof -
  have "holds_edit sys f1 cs t n = holds_edit sys f0 cs t n" if "t \<in> set (backup_targets cs)" for t n
    using assms(2,3) that by (simp add: holds_edit_def planned_on_def)
  then show ?thesis using assms by (auto simp: outcome_ok_def same_files_def)
qed

lemma execute_outcome:
  assumes c: "co_create co = create" "co_verify co = verify" "co_restore co = restore"
    and cs: "op_change_set p = Some cs"
    and t: "\<forall>t\<in>set (backup_targets cs). S t" and s: "\<And>p. S p \<Longrightarrow> \<not> store p"
    and q: "ports_quiet S co" "journal_apart S co oid"
    and r: "execute sys co p a oid w = (Inr out, w')"
  shows "outcome_ok sys (fs w) S cs out w'"
proof -
  obtain now w1 w2 where w1: "utc_now w = (Inr now, w1)"
    and a: "audit co ''apply.approved'' p [(lit ''approval_id'', JStr (approval_id a))] w1 = (Inr (), w2)"
    and e: "tryW (execute_body sys co p cs oid) (execute_handler sys co p oid) w2 = (Inr out, w')"
    using r cs by (auto simp: execute_def bindW_Inr)
  have f: "fs w2 x = fs w x" if "S x" for x
    using keepsD [OF audit_keeps [OF q(1)] a that] utc_now_fs [OF w1] by simp
  have "valid (\<lambda>w. fs w = fs w2) (tryW (execute_body sys co p cs oid) (execute_handler sys co p oid)) (outcome_ok sys (fs w2) S cs) (\<lambda>_ _. True)"
    by (rule valid_try [OF execute_body_valid [OF c t s q] execute_handler_valid [OF c(3) t s q]])
  from validD(1) [OF this refl e] have "outcome_ok sys (fs w2) S cs out w'" .
  from outcome_ok_cong [OF this f t] show ?thesis .
qed

end

context backup_contract
begin

section \<open>What an execution leaves alone\<close>

definition made_for :: "change_set \<Rightarrow> backup_manifest \<Rightarrow> bool" where
  "made_for cs m \<longleftrightarrow> issued m \<and> map bi_target (items m) = backup_targets cs"

lemma made_for_targets: "made_for cs m \<Longrightarrow> bi_target ` set (items m) = set (backup_targets cs)"
  unfolding made_for_def by (metis list.set_map)

lemma roll_back_keeps:
  assumes "co_restore co = restore" and "made_for cs m" and "\<forall>t\<in>set (backup_targets cs). \<not> T t"
    and "ports_quiet T co" and "journal_apart T co oid"
  shows "keeps T (roll_back sys co machine m vs err p oid)"
proof -
  have "keeps T (restore m)"
    using restore_keeps [of m] assms(2,3) made_for_targets [OF assms(2)]
    by (auto simp: made_for_def elim!: keeps_mono)
  then have "keeps T (restore_all co m logged)" for logged
    unfolding restore_all_def assms(1) by (auto intro!: keeping)
  then show ?thesis unfolding roll_back_def Let_def
    by (auto intro!: keeping journal_mark_keeps audit_keeps assms)
qed

lemma finish_keeps:
  assumes "co_restore co = restore" and "made_for cs m" and "\<forall>t\<in>set (backup_targets cs). \<not> T t"
    and "ports_quiet T co" and "journal_apart T co oid"
  shows "keeps T (finish sys co machine m vs p oid)"
  unfolding finish_def
  by (auto intro!: keeping roll_back_keeps [OF assms] journal_mark_keeps audit_keeps assms)

lemma apply_phase_keeps:
  assumes c: "co_restore co = restore" and m: "made_for cs m" and t: "\<forall>t\<in>set (backup_targets cs). \<not> T t"
    and q: "ports_quiet T co" "journal_apart T co oid"
  shows "keeps T (apply_phase sys co p cs oid machine m)"
proof -
  have "\<forall>t\<in>set (backup_targets cs). resolved_target sys t = t \<and> \<not> T t"
    using issued_target m t made_for_targets [OF m] unfolding made_for_def by (metis imageE)
  then show ?thesis unfolding apply_phase_def Let_def
    by (auto intro!: keeping executor_apply_keeps journal_mark_keeps run_validators_keeps roll_back_keeps [OF c m t q]
        finish_keeps [OF c m t q] q)
qed

lemma execute_body_frame:
  assumes c: "co_create co = create" "co_verify co = verify" "co_restore co = restore"
    and t: "\<forall>t\<in>set (backup_targets cs). \<not> T t" and s: "\<And>p. T p \<Longrightarrow> \<not> store p"
    and q: "ports_quiet T co" "journal_apart T co oid"
  shows "valid (same_files T f0) (execute_body sys co p cs oid) (\<lambda>_. same_files T f0)
    (\<lambda>x w. (\<forall>m. lv_manifest (snd x) = Some m \<longrightarrow> made_for cs m) \<and> same_files T f0 w)"
proof -
  let ?k = "\<lparr>pm_plan_id = plan_id p, pm_status = APPROVED\<rparr>"
  let ?E = "\<lambda>x w. (\<forall>m. lv_manifest (snd x) = Some m \<longrightarrow> made_for cs m) \<and> same_files T f0 w"
  let ?B = "\<lambda>m w. made_for cs m \<and> same_files T f0 w"
  have cr: "valid (same_files T f0) (co_create co (request_of p cs oid)) ?B (\<lambda>e. ?E (e, \<lparr>lv_manifest = None, lv_machine = ?k\<rparr>))"
  proof (rule validI)
    fix w m w' assume f: "same_files T f0 w" and r: "co_create co (request_of p cs oid) w = (Inr m, w')"
    have "made_for cs m" using create_Inr [of "request_of p cs oid" w m w'] r
      by (simp add: c made_for_def request_of_def)
    moreover have "fs w' x = f0 x" if "T x" for x
      using keepsD [OF create_keeps r [unfolded c]] s [OF that] f that by (simp add: same_files_def)
    ultimately show "?B m w'" by (simp add: same_files_def)
  next
    fix w e w' assume f: "same_files T f0 w" and r: "co_create co (request_of p cs oid) w = (Inl e, w')"
    have "fs w' x = f0 x" if "T x" for x
      using keepsD [OF create_keeps r [unfolded c]] s [OF that] f that by (simp add: same_files_def)
    then show "?E (e, \<lparr>lv_manifest = None, lv_machine = ?k\<rparr>) w'" by (simp add: same_files_def)
  qed
  have v: "keeps T (co_verify co m)" for m using verify_keeps keeps_mono unfolding c by blast
  have step: "valid (?B m) (tagged l n) (\<lambda>_. ?B m) ?E" if "keeps T n" "lv_manifest l = Some m" for l m and n :: "'a io"
    by (rule tagged_valid, rule valid_weaken [OF valid_keeps_inv [OF that(1), of "?B m"]])
      (use that(2) in \<open>auto simp: same_files_def\<close>)
  have last: "valid (?B m) n (\<lambda>_. same_files T f0) ?E" if "valid (?B m) n (\<lambda>_. ?B m) ?E" for m and n :: "(exn \<times> locals, 'a) run"
    by (rule valid_weaken [OF that]) auto
  have fb: "keeps T (failed_backup co p k r)" for k r
    unfolding failed_backup_def by (auto intro!: keeping audit_keeps q)
  have ap: "valid (?B m) (apply_phase sys co p cs oid k m) (\<lambda>_. ?B m) ?E" for k m
  proof (rule valid_pre)
    assume m: "made_for cs m"
    have w: "valid (same_files T f0) (apply_phase sys co p cs oid k m) (\<lambda>_ _. True) (\<lambda>x w. lv_manifest (snd x) = Some m)"
      by (auto simp: valid_def apply_phase_def Let_def tagged_def bindW_def tryW_def split: prod.splits sum.splits if_splits)
    from valid_conj [OF valid_keeps [OF apply_phase_keeps [OF c(3) m t q], of f0] w]
    show "valid (same_files T f0) (apply_phase sys co p cs oid k m) (\<lambda>_. ?B m) ?E"
      by (rule valid_weaken) (use m in auto)
  qed
  show ?thesis
    unfolding execute_body_def Let_def
    by (rule valid_bind [OF tagged_valid [OF cr]], rule valid_bind [OF step [OF v]], simp, rule valid_if,
      (rule last, rule step [OF fb], simp), rule valid_bind [OF step [OF audit_keeps [OF q(1)]]], simp,
      rule valid_bind [OF step [OF executor_prepare_keeps]], simp,
      rule valid_bind [OF step [OF open_journal_keeps [OF q(2)]]], simp,
      rule valid_bind [OF step], rule keeping, simp, rule last, rule ap)
qed

lemma execute_keeps:
  assumes c: "co_create co = create" "co_verify co = verify" "co_restore co = restore"
    and t: "\<And>cs. op_change_set p = Some cs \<Longrightarrow> \<forall>t\<in>set (backup_targets cs). \<not> T t" and s: "\<And>p. T p \<Longrightarrow> \<not> store p"
    and q: "ports_quiet T co" "journal_apart T co oid"
  shows "keeps T (execute sys co p a oid)"
proof (cases "op_change_set p")
  case None
  then show ?thesis by (auto simp: execute_def intro: keeping)
next
  case (Some cs)
  note t = t [OF Some]
  have h: "valid (\<lambda>w. (\<forall>m. lv_manifest (snd x) = Some m \<longrightarrow> made_for cs m) \<and> same_files T f0 w) (execute_handler sys co p oid x)
      (\<lambda>_. same_files T f0) (\<lambda>_. same_files T f0)" for x f0
    by (rule valid_pre, rule valid_keeps)
      (auto simp: execute_handler_def failed_backup_def split: prod.split option.split
        intro!: keeping audit_keeps q roll_back_keeps [OF c(3) _ t q])
  have "keeps T (tryW (execute_body sys co p cs oid) (execute_handler sys co p oid))"
    unfolding keeps_def
  proof (intro allI impI)
    fix w x assume "T x"
    note v = valid_try [OF execute_body_frame [OF c t s q, where p = p] h, of "fs w"]
    obtain r w' where e: "tryW (execute_body sys co p cs oid) (execute_handler sys co p oid) w = (r, w')" by fastforce
    then have "same_files T (fs w) w'" using validD [OF v same_files_refl] by (cases r) auto
    then show "fs (snd (tryW (execute_body sys co p cs oid) (execute_handler sys co p oid) w)) x = fs w x"
      using e \<open>T x\<close> by (simp add: same_files_def)
  qed
  then show ?thesis unfolding execute_def Some by (auto intro!: keeping audit_keeps q)
qed

end

end
