(* ===== verification/LocalApply.thy ===== *)
theory LocalApply
  imports ApplySafety
begin

text \<open>
  The safe apply of the local application: the coordinator of \<open>SafeApply\<close> wired to the local backup store, what
  its answers promise, and a small run of it.
\<close>

section \<open>The local coordinator\<close>

text \<open>The coordinator of the local application: its backups are the local store's.\<close>

definition local_coordinator :: "system \<Rightarrow> backup_store \<Rightarrow> str list \<Rightarrow>
    (str \<Rightarrow> str \<Rightarrow> (str \<times> json) list \<Rightarrow> unit io) option \<Rightarrow> journal_store option \<Rightarrow>
    (change_set \<Rightarrow> validation_result list io) option \<Rightarrow> coordinator" where
  "local_coordinator sys bs roots log js services =
     \<lparr>co_create = backup_create sys bs, co_verify = backup_verify sys bs, co_restore = backup_restore sys bs,
      co_roots = roots, co_audit = log, co_journal = js, co_runtime = services\<rparr>"

lemma local_coordinator_sel [simp]:
  "co_create (local_coordinator sys bs roots log js services) = backup_create sys bs"
  "co_verify (local_coordinator sys bs roots log js services) = backup_verify sys bs"
  "co_restore (local_coordinator sys bs roots log js services) = backup_restore sys bs"
  by (simp_all add: local_coordinator_def)

text \<open>
  The targets are no files of the backup store or the journal, and the ports leave them alone.
\<close>

definition targets_apart :: "coordinator \<Rightarrow> backup_store \<Rightarrow> change_set \<Rightarrow> str \<Rightarrow> bool" where
  "targets_apart co bs cs oid \<longleftrightarrow> (\<forall>t\<in>set (backup_targets cs). \<not> within t (bs_root bs))
     \<and> ports_quiet (\<lambda>t. t \<in> set (backup_targets cs)) co \<and> journal_apart (\<lambda>t. t \<in> set (backup_targets cs)) co oid"

lemma local_outcome:
  assumes "execute sys (local_coordinator sys bs roots log js services) p a oid w = (Inr out, w')"
    and "op_change_set p = Some cs" and "targets_apart (local_coordinator sys bs roots log js services) bs cs oid"
  shows "outcome_ok sys (fs w) (\<lambda>t. t \<in> set (backup_targets cs)) cs out w'"
  by (rule local_backups.execute_outcome [OF _ _ _ assms(2) _ _ _ _ assms(1)])
    (use assms(3) in \<open>auto simp: targets_apart_def\<close>)

section \<open>A small apply\<close>

definition mini_plan :: optimization_plan where
  "mini_plan = \<lparr>plan_id = lit ''p'', op_report_id = lit ''r'', report_hash = lit ''rh'',
     op_profile = undefined, rule_catalog_version = [], recommendations = [], selected_ids = [],
     op_change_set = Some mini_changes, op_status = APPROVED, created_at = 1, expires_at = None, backup_policy = no_encryption\<rparr>"

definition mini_approval :: approval_record where
  "mini_approval = \<lparr>approval_id = lit ''a'', ap_plan_id = lit ''p'', ap_report_hash = lit ''rh'', change_set_hash = lit ''x'',
     actor = lit ''u'', backup_policy_hash = encryption_content_hash (runtime.truncate mini_system) no_encryption,
     plaintext_backup_acknowledged = True, approved_at = 1, ap_expires_at = None\<rparr>"

definition log_event :: "str \<Rightarrow> str \<Rightarrow> (str \<times> json) list \<Rightarrow> unit io" where
  "log_event ev c k = modifyW (\<lambda>w. w\<lparr>events := events w @ [\<lparr>ev_type = ev, ev_correlation = c, ev_fields = k\<rparr>]\<rparr>)"

definition services_say :: "bool \<Rightarrow> change_set \<Rightarrow> validation_result list io" where
  "services_say ok cs = retW [file_result (lit ''service'') ok JNull JNull]"

definition mini_coordinator :: "bool \<Rightarrow> coordinator" where
  "mini_coordinator ok = local_coordinator mini_system mini_store [lit ''/c''] (Some log_event) None (Some (services_say ok))"

definition mini_run :: "bool \<Rightarrow> world \<Rightarrow> apply_outcome res \<times> world" where
  "mini_run ok w = execute mini_system (mini_coordinator ok) mini_plan mini_approval (lit ''k'') w"

definition run_status :: "apply_outcome res \<times> world \<Rightarrow> plan_status option" where
  "run_status r = (case fst r of Inl _ \<Rightarrow> None | Inr out \<Rightarrow> Some (ao_status out))"

lemma mini_run_committed: "run_status (mini_run True (toy_world mini_files)) = Some COMMITTED"
  by code_simp

lemma mini_run_rolled_back: "run_status (mini_run False (toy_world mini_files)) = Some ROLLED_BACK"
  by code_simp

lemma run_statusE:
  assumes "run_status (mini_run ok w) = Some st"
  obtains out w' where "mini_run ok w = (Inr out, w')" and "ao_status out = st"
  using assms by (cases "mini_run ok w") (auto simp: run_status_def split: sum.splits)

lemma mini_quiet: "ports_quiet S (mini_coordinator ok)"
  by (auto simp: ports_quiet_def mini_coordinator_def local_coordinator_def log_event_def services_say_def keeps_def)

lemma mini_apart: "targets_apart (mini_coordinator ok) mini_store mini_changes b"
proof -
  have "\<not> within (lit ''/c/a'') (bs_root mini_store)" by code_simp
  then show ?thesis using mini_quiet
    by (simp add: targets_apart_def mini_targets journal_apart_def mini_coordinator_def local_coordinator_def)
qed

lemma mini_change_set: "op_change_set mini_plan = Some mini_changes"
  by (simp add: mini_plan_def)

section \<open>What a safe apply promises\<close>

text \<open>
  Property C1. A safe apply that answers \<open>COMMITTED\<close> left the approved edit in every target: the target held
  the content the plan was made for (its hash is the \<open>before_hash\<close> of every change, or it was absent and every
  change creates it), and it now is a regular file whose digest is that of the changes rendered on that content.
\<close>

theorem apply_committed:
  assumes "execute sys (local_coordinator sys bs roots log js services) p a oid w = (Inr out, w')"
    and "op_change_set p = Some cs" and "targets_apart (local_coordinator sys bs roots log js services) bs cs oid"
    and "ao_status out = COMMITTED"
  shows "\<forall>t\<in>set (backup_targets cs). holds_edit sys (fs w) cs t (fs w' t)"
  using local_outcome [OF assms(1-3)] assms(4) by (simp add: outcome_ok_def)

theorem apply_committed_witness:
  "\<exists>out w'. mini_run True (toy_world mini_files) = (Inr out, w') \<and> ao_status out = COMMITTED
    \<and> holds_edit mini_system mini_files mini_changes (lit ''/c/a'') (fs w' (lit ''/c/a''))"
proof -
  obtain out w' where r: "mini_run True (toy_world mini_files) = (Inr out, w')" "ao_status out = COMMITTED"
    by (rule run_statusE [OF mini_run_committed])
  from apply_committed [OF r(1) [unfolded mini_run_def mini_coordinator_def] mini_change_set
      mini_apart [unfolded mini_coordinator_def] r(2)] r
  show ?thesis by (simp add: mini_targets toy_world_def del: lit_simps)
qed

text \<open>
  Property C2. A safe apply that answers \<open>ROLLED_BACK\<close> left every target as it was: absent if it was absent, and
  otherwise a regular file with the digest, the mode (zero reads as 0600) and the owner it had at the start.
\<close>

theorem apply_rolled_back:
  assumes "execute sys (local_coordinator sys bs roots log js services) p a oid w = (Inr out, w')"
    and "op_change_set p = Some cs" and "targets_apart (local_coordinator sys bs roots log js services) bs cs oid"
    and "ao_status out = ROLLED_BACK"
  shows "\<forall>t\<in>set (backup_targets cs). back_as_before sys (fs w t) (fs w' t)"
  using local_outcome [OF assms(1-3)] assms(4) by (simp add: outcome_ok_def)

theorem apply_rolled_back_witness:
  "\<exists>out w'. mini_run False (toy_world mini_files) = (Inr out, w') \<and> ao_status out = ROLLED_BACK
    \<and> back_as_before mini_system (mini_files (lit ''/c/a'')) (fs w' (lit ''/c/a''))"
proof -
  obtain out w' where r: "mini_run False (toy_world mini_files) = (Inr out, w')" "ao_status out = ROLLED_BACK"
    by (rule run_statusE [OF mini_run_rolled_back])
  from apply_rolled_back [OF r(1) [unfolded mini_run_def mini_coordinator_def] mini_change_set
      mini_apart [unfolded mini_coordinator_def] r(2)] r
  show ?thesis by (simp add: mini_targets toy_world_def del: lit_simps)
qed

text \<open>
  The answer of a safe apply is one of four statuses, and \<open>APPROVED\<close> (the backup or the
  preparation failed) means that no target was touched.
\<close>

theorem apply_not_started:
  assumes "execute sys (local_coordinator sys bs roots log js services) p a oid w = (Inr out, w')"
    and "op_change_set p = Some cs" and "targets_apart (local_coordinator sys bs roots log js services) bs cs oid"
  shows "ao_status out \<in> {APPROVED, COMMITTED, ROLLED_BACK, RECOVERY_REQUIRED}
    \<and> (ao_status out = APPROVED \<longrightarrow> (\<forall>t\<in>set (backup_targets cs). fs w' t = fs w t))"
  using local_outcome [OF assms] by (simp add: outcome_ok_def same_files_def)

text \<open>
  Property C3. Whatever happens (an answer, a refusal or an exception, with any faults and any moment of
  cancellation), a safe apply changes no file but the targets of the plan, the files of the backup store and the
  journal of the operation, provided audit and service checks do not.
\<close>

theorem apply_frame:
  assumes "\<And>cs. op_change_set p = Some cs \<Longrightarrow> q \<notin> set (backup_targets cs)" and "\<not> within q (bs_root bs)"
    and "ports_quiet (\<lambda>x. x = q) (local_coordinator sys bs roots log js services)"
    and "journal_apart (\<lambda>x. x = q) (local_coordinator sys bs roots log js services) oid"
  shows "fs (snd (execute sys (local_coordinator sys bs roots log js services) p a oid w)) q = fs w q"
proof -
  have "keeps (\<lambda>x. x = q) (execute sys (local_coordinator sys bs roots log js services) p a oid)"
    by (rule local_backups.execute_keeps) (use assms in auto)
  then show ?thesis by (simp add: keeps_def)
qed

theorem apply_frame_witness:
  "fs (snd (mini_run True (toy_world mini_files))) (lit ''/c/other'') = None"
proof -
  have q: "lit ''/c/other'' \<notin> set (backup_targets mini_changes)" "\<not> within (lit ''/c/other'') (bs_root mini_store)"
    by code_simp+
  have j: "journal_apart S (mini_coordinator ok) b" for S b ok
    by (simp add: journal_apart_def mini_coordinator_def local_coordinator_def)
  have "fs (snd (mini_run True (toy_world mini_files))) (lit ''/c/other'') = fs (toy_world mini_files) (lit ''/c/other'')"
    unfolding mini_run_def mini_coordinator_def
    by (rule apply_frame) (use q mini_quiet j mini_change_set in \<open>auto simp: mini_coordinator_def simp del: lit_simps\<close>)
  also have "\<dots> = None" by (simp add: toy_world_def mini_files_def)
  finally show ?thesis .
qed

text \<open>
  Property C7. An approval that is not valid for the plan, or a plan without changes to approve, is refused
  before anything happens: no file, no registered backup and no audit event changes.
\<close>

theorem apply_refused:
  assumes "utc_now w = (Inr now, w1)" and "op_change_set p = None \<or> \<not> is_valid_for (runtime.truncate sys) a p now"
  shows "\<exists>w'. execute sys co p a oid w = (Inl (AdapterError ''invalid_approval''), w')
    \<and> fs w' = fs w \<and> registry w' = registry w \<and> events w' = events w"
proof (cases "op_change_set p")
  case None
  then show ?thesis by (simp add: execute_def)
next
  case (Some cs)
  have "fs w1 = fs w \<and> registry w1 = registry w \<and> events w1 = events w"
    using assms(1) by (auto simp: utc_now_def split: list.splits)
  then show ?thesis using assms Some by (simp add: execute_def bindW_def guardW_def)
qed

theorem apply_refused_witness:
  "\<exists>w'. execute mini_system (mini_coordinator True) (mini_plan\<lparr>expires_at := Some 10\<rparr>) mini_approval (lit ''k'') (toy_world mini_files)
      = (Inl (AdapterError ''invalid_approval''), w') \<and> fs w' = mini_files"
proof -
  have u: "utc_now (toy_world mini_files) = (Inr 10, (toy_world mini_files)\<lparr>clock := [20, 30, 40, 50, 60, 70, 80]\<rparr>)"
    by (simp add: utc_now_def toy_world_def)
  have v: "op_change_set (mini_plan\<lparr>expires_at := Some 10\<rparr>) = None
      \<or> \<not> is_valid_for (runtime.truncate mini_system) mini_approval (mini_plan\<lparr>expires_at := Some 10\<rparr>) 10"
    by (simp add: is_valid_for_def mini_plan_def unexpired_def)
  from apply_refused [OF u v, of "mini_coordinator True" "lit ''k''"] show ?thesis by (auto simp: toy_world_def)
qed



end
