(* ===== verification/Gui.thy ===== *)
theory Gui
  imports Models
begin

text \<open>
  The presenter of the graphical interface (\<open>ui/workflow.py\<close>): the state of the wizard, one function per
  method, and the states a sequence of calls can reach.  A method answers an exception or nothing, and the
  state it leaves; a method that raises may have changed the state before.  \<open>now or utc_now()\<close> is the
  parameter \<open>now\<close>.
\<close>

section \<open>The state\<close>

datatype gui_step = STEP_HOSTS | STEP_DIAGNOSE | STEP_RECOMMENDATIONS | STEP_REVIEW | STEP_RESULTS | STEP_BACKUPS

datatype workflow_status = WS_IDLE | WS_RUNNING | WS_PARTIAL | WS_SUCCESS | WS_FAILED | WS_CANCEL_REQUESTED

record gui_state =
  gs_step :: gui_step
  gs_status :: workflow_status
  selected_host_id :: "str option"
  gs_report :: "diagnostic_report option"
  plan_hash :: "str option"
  approved_plan_hash :: "str option"
  plan_expires_at :: "time option"
  gs_approval_id :: "str option"
  apply_status :: "plan_status option"
  gs_error_code :: "str option"

definition gui_initial :: gui_state where
  "gui_initial = \<lparr>gs_step = STEP_HOSTS, gs_status = WS_IDLE, selected_host_id = None, gs_report = None,
     plan_hash = None, approved_plan_hash = None, plan_expires_at = None, gs_approval_id = None,
     apply_status = None, gs_error_code = None\<rparr>"

definition busy :: "gui_state \<Rightarrow> bool" where
  "busy s \<longleftrightarrow> gs_status s \<in> {WS_RUNNING, WS_CANCEL_REQUESTED}"

definition approved :: "gui_state \<Rightarrow> bool" where
  "approved s \<longleftrightarrow> plan_hash s \<noteq> None \<and> plan_hash s = approved_plan_hash s"

section \<open>The methods\<close>

type_synonym gui_result = "unit res \<times> gui_state"

definition refuse :: "exn \<Rightarrow> gui_state \<Rightarrow> gui_result" where
  "refuse e s = (Inl e, s)"

definition become :: "gui_state \<Rightarrow> gui_result" where
  "become s = (Inr (), s)"

definition select_host :: "str \<Rightarrow> gui_state \<Rightarrow> gui_result" where
  "select_host h s =
     (if busy s then refuse (RuntimeError ''workflow_busy'') s
      else if blank h then refuse ValueError s
      else if Some h \<noteq> selected_host_id s then become (gui_initial\<lparr>selected_host_id := Some h\<rparr>)
      else become s)"

definition begin_diagnosis :: "gui_state \<Rightarrow> gui_result" where
  "begin_diagnosis s =
     (if busy s then refuse (RuntimeError ''workflow_busy'') s
      else if selected_host_id s = None then refuse (RuntimeError ''host_required'') s
      else become (s\<lparr>gs_step := STEP_DIAGNOSE, gs_status := WS_RUNNING, gs_report := None, plan_hash := None,
        approved_plan_hash := None, plan_expires_at := None, gs_approval_id := None, apply_status := None,
        gs_error_code := None\<rparr>))"

definition request_cancel :: "gui_state \<Rightarrow> gui_result" where
  "request_cancel s =
     (if gs_status s \<noteq> WS_RUNNING then become s else become (s\<lparr>gs_status := WS_CANCEL_REQUESTED\<rparr>))"

fun status_of_report :: "report_status \<Rightarrow> workflow_status" where
  "status_of_report RS_COMPLETE = WS_SUCCESS"
| "status_of_report RS_PARTIAL = WS_PARTIAL"
| "status_of_report RS_FAILED = WS_FAILED"

definition finish_diagnosis :: "diagnostic_report \<Rightarrow> gui_state \<Rightarrow> gui_result" where
  "finish_diagnosis r s =
     (if \<not> busy s then refuse (RuntimeError ''diagnosis_not_running'') s
      else if Some (hi_host_id (host r)) \<noteq> selected_host_id s then refuse ValueError s
      else become (s\<lparr>gs_step := (if dr_status r \<noteq> RS_FAILED then STEP_RECOMMENDATIONS else STEP_DIAGNOSE),
        gs_status := status_of_report (dr_status r), gs_report := Some r, gs_error_code := None\<rparr>))"

definition fail_diagnosis :: "str \<Rightarrow> gui_state \<Rightarrow> gui_result" where
  "fail_diagnosis e s =
     (if \<not> busy s then refuse (RuntimeError ''diagnosis_not_running'') s
      else become (s\<lparr>gs_step := STEP_DIAGNOSE, gs_status := WS_FAILED, gs_error_code := Some e\<rparr>))"

definition review_plan :: "str \<Rightarrow> gui_state \<Rightarrow> gui_result" where
  "review_plan h s =
     (if busy s then refuse (RuntimeError ''workflow_busy'') s
      else if gs_report s = None then refuse (RuntimeError ''report_required'') s
      else if blank h then refuse ValueError s
      else become (s\<lparr>gs_step := STEP_REVIEW, plan_hash := Some h,
        approved_plan_hash := (if Some h = plan_hash s then approved_plan_hash s else None), gs_error_code := None\<rparr>))"

definition begin_change_plan :: "str \<Rightarrow> gui_state \<Rightarrow> gui_result" where
  "begin_change_plan h s = (case review_plan h s of
       (Inl e, s') \<Rightarrow> (Inl e, s')
     | (Inr _, s') \<Rightarrow> become (s'\<lparr>gs_status := WS_RUNNING\<rparr>))"

definition fail_change_plan :: "str \<Rightarrow> gui_state \<Rightarrow> gui_result" where
  "fail_change_plan e s =
     (if \<not> busy s then refuse (RuntimeError ''change_planning_not_running'') s
      else become (s\<lparr>gs_step := STEP_REVIEW, gs_status := WS_FAILED, approved_plan_hash := None,
        plan_expires_at := None, gs_approval_id := None, apply_status := None, gs_error_code := Some e\<rparr>))"

definition finish_change_plan :: "str \<Rightarrow> time option \<Rightarrow> time \<Rightarrow> gui_state \<Rightarrow> gui_result" where
  "finish_change_plan h expiry now s =
     (if \<not> busy s then refuse (RuntimeError ''change_planning_not_running'') s
      else if blank h then refuse ValueError s
      else if \<not> unexpired now expiry then fail_change_plan (lit ''stale_plan'') s
      else become (s\<lparr>gs_step := STEP_REVIEW, gs_status := WS_SUCCESS, plan_hash := Some h,
        approved_plan_hash := None, plan_expires_at := expiry, gs_approval_id := None, apply_status := None,
        gs_error_code := None\<rparr>))"

definition expired :: "gui_state \<Rightarrow> gui_state" where
  "expired s = s\<lparr>gs_step := STEP_REVIEW, gs_status := WS_FAILED, approved_plan_hash := None,
     gs_approval_id := None, apply_status := None, gs_error_code := Some (lit ''stale_plan'')\<rparr>"

definition approve_plan :: "time \<Rightarrow> gui_state \<Rightarrow> gui_result" where
  "approve_plan now s =
     (if plan_hash s = None then refuse (RuntimeError ''plan_required'') s
      else if \<not> unexpired now (plan_expires_at s) then refuse (RuntimeError ''stale_plan'') (expired s)
      else become (s\<lparr>approved_plan_hash := plan_hash s\<rparr>))"

definition revoke_plan :: "gui_state \<Rightarrow> gui_result" where
  "revoke_plan s = become (s\<lparr>approved_plan_hash := None, gs_approval_id := None, apply_status := None\<rparr>)"

definition invalidate_plan :: "gui_state \<Rightarrow> gui_result" where
  "invalidate_plan s =
     (if busy s then refuse (RuntimeError ''workflow_busy'') s
      else become (s\<lparr>plan_hash := None, approved_plan_hash := None, plan_expires_at := None,
        gs_approval_id := None, apply_status := None, gs_error_code := None\<rparr>))"

definition expire_plan :: "gui_state \<Rightarrow> gui_result" where
  "expire_plan s = become (expired s)"

definition prepare_results :: "str \<Rightarrow> gui_state \<Rightarrow> gui_result" where
  "prepare_results a s =
     (if \<not> approved s then refuse (RuntimeError ''approval_required'') s
      else if blank a then refuse ValueError s
      else become (s\<lparr>gs_step := STEP_RESULTS, gs_status := WS_SUCCESS, gs_approval_id := Some a,
        apply_status := None, gs_error_code := None\<rparr>))"

definition begin_apply :: "gui_state \<Rightarrow> gui_result" where
  "begin_apply s =
     (if busy s then refuse (RuntimeError ''workflow_busy'') s
      else if gs_approval_id s = None then refuse (RuntimeError ''approval_required'') s
      else become (s\<lparr>gs_step := STEP_RESULTS, gs_status := WS_RUNNING, apply_status := Some APPLYING,
        gs_error_code := None\<rparr>))"

definition finish_apply :: "plan_status \<Rightarrow> str option \<Rightarrow> gui_state \<Rightarrow> gui_result" where
  "finish_apply st e s =
     (if \<not> busy s then refuse (RuntimeError ''apply_not_running'') s
      else become (s\<lparr>gs_step := STEP_RESULTS, gs_status := (if st = COMMITTED then WS_SUCCESS else WS_FAILED),
        apply_status := Some st, gs_error_code := e\<rparr>))"

definition fail_apply :: "str \<Rightarrow> gui_state \<Rightarrow> gui_result" where
  "fail_apply e s = finish_apply RECOVERY_REQUIRED (Some e) s"

section \<open>Calls and reachable states\<close>

datatype gui_call =
    SelectHost str | BeginDiagnosis | RequestCancel | FinishDiagnosis diagnostic_report | FailDiagnosis str
  | ReviewPlan str | BeginChangePlan str | FinishChangePlan str "time option" time | FailChangePlan str
  | ApprovePlan time | RevokePlan | InvalidatePlan | ExpirePlan | PrepareResults str | BeginApply
  | FinishApply plan_status "str option" | FailApply str

fun perform :: "gui_call \<Rightarrow> gui_state \<Rightarrow> gui_result" where
  "perform (SelectHost h) s = select_host h s"
| "perform BeginDiagnosis s = begin_diagnosis s"
| "perform RequestCancel s = request_cancel s"
| "perform (FinishDiagnosis r) s = finish_diagnosis r s"
| "perform (FailDiagnosis e) s = fail_diagnosis e s"
| "perform (ReviewPlan h) s = review_plan h s"
| "perform (BeginChangePlan h) s = begin_change_plan h s"
| "perform (FinishChangePlan h e now) s = finish_change_plan h e now s"
| "perform (FailChangePlan e) s = fail_change_plan e s"
| "perform (ApprovePlan now) s = approve_plan now s"
| "perform RevokePlan s = revoke_plan s"
| "perform InvalidatePlan s = invalidate_plan s"
| "perform ExpirePlan s = expire_plan s"
| "perform (PrepareResults a) s = prepare_results a s"
| "perform BeginApply s = begin_apply s"
| "perform (FinishApply st e) s = finish_apply st e s"
| "perform (FailApply e) s = fail_apply e s"

text \<open>A sequence of calls whose exceptions are caught, as the widgets do.\<close>

fun run_calls :: "gui_call list \<Rightarrow> gui_state \<Rightarrow> gui_state" where
  "run_calls [] s = s"
| "run_calls (c # cs) s = run_calls cs (snd (perform c s))"

inductive gui_reachable :: "gui_state \<Rightarrow> bool" where
  gui_start: "gui_reachable gui_initial"
| gui_call: "gui_reachable s \<Longrightarrow> perform c s = (r, s') \<Longrightarrow> gui_reachable s'"

lemmas gui_defs = select_host_def begin_diagnosis_def request_cancel_def finish_diagnosis_def fail_diagnosis_def
  review_plan_def begin_change_plan_def finish_change_plan_def fail_change_plan_def approve_plan_def revoke_plan_def
  invalidate_plan_def expire_plan_def prepare_results_def begin_apply_def finish_apply_def fail_apply_def
  refuse_def become_def expired_def

lemma reachable_run: "gui_reachable s \<Longrightarrow> gui_reachable (run_calls cs s)"
  by (induction cs arbitrary: s) (auto intro: gui_call surjective_pairing)

section \<open>Invariants\<close>

text \<open>
  The invariant of the presenter: what is approved is the plan on display, a report belongs to the selected
  host, a recorded approval belongs to a plan, and nothing is known before a host is selected.
\<close>

definition gui_ok :: "gui_state \<Rightarrow> bool" where
  "gui_ok s \<longleftrightarrow>
     (approved_plan_hash s = None \<or> approved_plan_hash s = plan_hash s)
   \<and> (\<forall>r. gs_report s = Some r \<longrightarrow> selected_host_id s = Some (hi_host_id (host r)))
   \<and> (gs_approval_id s \<noteq> None \<longrightarrow> plan_hash s \<noteq> None)
   \<and> (selected_host_id s = None \<longrightarrow> \<not> busy s \<and> gs_report s = None \<and> plan_hash s = None)"

lemma gui_ok_initial: "gui_ok gui_initial"
  by (simp add: gui_ok_def gui_initial_def busy_def)

lemma gui_ok_same:
  assumes ok: "gui_ok s" and st: "gs_status s' = gs_status s \<or> \<not> busy s' \<or> selected_host_id s \<noteq> None"
    and h: "selected_host_id s' = selected_host_id s" and r: "gs_report s' = gs_report s" and p: "plan_hash s' = plan_hash s"
    and a: "approved_plan_hash s' \<in> {None, approved_plan_hash s, plan_hash s}"
    and i: "gs_approval_id s' = None \<or> gs_approval_id s' = gs_approval_id s \<or> plan_hash s \<noteq> None"
  shows "gui_ok s'"
proof -
  note o = ok [unfolded gui_ok_def]
  have "approved_plan_hash s' = None \<or> approved_plan_hash s' = plan_hash s'" using conjunct1 [OF o] a p by auto
  moreover have "gs_approval_id s' \<noteq> None \<longrightarrow> plan_hash s' \<noteq> None" using o i p by metis
  moreover have "selected_host_id s' = None \<longrightarrow> \<not> busy s'" using o st h by (auto simp: busy_def)
  ultimately show ?thesis unfolding gui_ok_def using o h r p by metis
qed

lemma gui_ok_busy: "gui_ok s \<Longrightarrow> busy s \<Longrightarrow> selected_host_id s \<noteq> None"
  and gui_ok_plan: "gui_ok s \<Longrightarrow> plan_hash s \<noteq> None \<Longrightarrow> selected_host_id s \<noteq> None"
  and gui_ok_approval: "gui_ok s \<Longrightarrow> gs_approval_id s \<noteq> None \<Longrightarrow> plan_hash s \<noteq> None"
  by (simp_all add: gui_ok_def)

lemma gui_ok_simple:
  assumes ok: "gui_ok s"
  shows "gui_ok (snd (request_cancel s))" "gui_ok (snd (fail_diagnosis e s))" "gui_ok (snd (fail_change_plan e s))"
    "gui_ok (snd (revoke_plan s))" "gui_ok (snd (approve_plan now s))" "gui_ok (expired s)" "gui_ok (snd (prepare_results a s))"
    "gui_ok (snd (begin_apply s))" "gui_ok (snd (finish_apply st x s))" "gui_ok (snd (fail_apply e s))"
proof -
  note f = gui_ok_busy [OF ok] gui_ok_plan [OF ok] gui_ok_approval [OF ok]
  note g = gui_ok_same [OF ok]
  show "gui_ok (snd (request_cancel s))" by (rule g) (use f in \<open>simp_all add: gui_defs busy_def\<close>)
  show "gui_ok (snd (fail_diagnosis e s))" by (rule g) (simp_all add: gui_defs busy_def)
  show "gui_ok (snd (fail_change_plan e s))" by (rule g) (simp_all add: gui_defs busy_def)
  show "gui_ok (snd (revoke_plan s))" by (rule g) (simp_all add: gui_defs)
  show "gui_ok (snd (approve_plan now s))" by (rule g) (simp_all add: gui_defs busy_def)
  show "gui_ok (expired s)" by (rule g) (simp_all add: gui_defs busy_def)
  show "gui_ok (snd (prepare_results a s))" by (rule g) (auto simp: gui_defs busy_def approved_def)
  show "gui_ok (snd (begin_apply s))" by (rule g) (use f in \<open>simp_all add: gui_defs\<close>)
  show "gui_ok (snd (finish_apply st x s))" "gui_ok (snd (fail_apply e s))"
    by (rule g; simp add: gui_defs busy_def)+
qed

lemma gui_ok_reset:
  assumes ok: "gui_ok s"
  shows "gui_ok (snd (select_host h s))" "gui_ok (snd (begin_diagnosis s))" "gui_ok (snd (finish_diagnosis d s))"
    "gui_ok (snd (invalidate_plan s))" "gui_ok (snd (review_plan h s))" "gui_ok (snd (begin_change_plan h s))"
    "gui_ok (snd (finish_change_plan h t now s))"
proof -
  show "gui_ok (snd (select_host h s))" using ok by (simp add: select_host_def refuse_def become_def) (simp add: gui_ok_def gui_initial_def)
  show "gui_ok (snd (begin_diagnosis s))" using ok by (simp add: begin_diagnosis_def refuse_def become_def) (auto simp: gui_ok_def)
  show "gui_ok (snd (finish_diagnosis d s))" using ok by (simp add: finish_diagnosis_def refuse_def become_def) (auto simp: gui_ok_def)
  show "gui_ok (snd (invalidate_plan s))" using ok by (simp add: invalidate_plan_def refuse_def become_def) (simp add: gui_ok_def busy_def)
  have "gui_ok s \<Longrightarrow> gs_report s \<noteq> None \<Longrightarrow> selected_host_id s \<noteq> None" by (auto simp: gui_ok_def)
  note h = this [OF ok]
  show "gui_ok (snd (review_plan h s))" using ok h by (simp add: review_plan_def refuse_def become_def) (auto simp: gui_ok_def busy_def)
  show "gui_ok (snd (begin_change_plan h s))" using ok h
    by (simp add: begin_change_plan_def review_plan_def refuse_def become_def) (auto simp: gui_ok_def)
  show "gui_ok (snd (finish_change_plan h t now s))"
    using ok gui_ok_busy [OF ok] gui_ok_simple(3) [OF ok] by (simp add: finish_change_plan_def refuse_def become_def) (simp add: gui_ok_def)
qed

lemma gui_ok_perform: "gui_ok s \<Longrightarrow> gui_ok (snd (perform c s))"
  by (cases c) (simp_all add: gui_ok_simple gui_ok_reset expire_plan_def become_def)

lemma gui_ok_step: "gui_ok s \<Longrightarrow> perform c s = (r, s') \<Longrightarrow> gui_ok s'"
  using gui_ok_perform [of s c] by simp

lemma reachable_ok: "gui_reachable s \<Longrightarrow> gui_ok s"
  by (induction rule: gui_reachable.induct) (auto intro: gui_ok_initial gui_ok_step)

text \<open>
  Property C22. In every state the presenter can reach, whatever the calls and their order: what is
  approved is the plan on display, a report belongs to the selected host, a recorded approval belongs to a
  plan, and without a host there is neither a report, a plan nor a running operation.
\<close>

theorem presenter_invariant: "gui_reachable s \<Longrightarrow> gui_ok s"
  by (rule reachable_ok)

text \<open>
  A refused call leaves the presenter as it was, with one exception: approving a plan that
  has expired also withdraws its approval and reports it as stale.
\<close>

lemma refused_call_unchanged:
  "perform c s = (Inl e, s') \<Longrightarrow> s' = s \<or> (\<exists>now. c = ApprovePlan now \<and> e = RuntimeError ''stale_plan''
    \<and> \<not> unexpired now (plan_expires_at s) \<and> s' = expired s)"
  by (cases c) (auto simp: select_host_def begin_diagnosis_def request_cancel_def finish_diagnosis_def fail_diagnosis_def
    review_plan_def begin_change_plan_def finish_change_plan_def fail_change_plan_def approve_plan_def revoke_plan_def
    invalidate_plan_def expire_plan_def prepare_results_def begin_apply_def finish_apply_def fail_apply_def
    refuse_def become_def split: if_splits prod.splits sum.splits)

section \<open>What voids an approval\<close>

text \<open>The calls after which no plan is approved: another host, a diagnosis, another plan, a withdrawal.\<close>

fun voids :: "gui_call \<Rightarrow> gui_state \<Rightarrow> bool" where
  "voids (SelectHost h) s = (selected_host_id s \<noteq> Some h)"
| "voids BeginDiagnosis s = True"
| "voids (ReviewPlan h) s = (plan_hash s \<noteq> Some h)"
| "voids (BeginChangePlan h) s = (plan_hash s \<noteq> Some h)"
| "voids (FinishChangePlan h e now) s = True"
| "voids (FailChangePlan e) s = True"
| "voids RevokePlan s = True"
| "voids InvalidatePlan s = True"
| "voids ExpirePlan s = True"
| "voids _ s = False"

text \<open>
  Property C23. A plan becomes approved by a call of \<open>approve_plan\<close> before its expiry and by nothing
  else, and selecting another host, a new diagnosis, another change set and every withdrawal end it.
\<close>

theorem approval_lifecycle:
  assumes "perform c s = (Inr (), s')"
  shows "(approved s' \<and> \<not> approved s \<longrightarrow> (\<exists>now. c = ApprovePlan now \<and> unexpired now (plan_expires_at s) \<and> plan_hash s' = plan_hash s))
    \<and> (voids c s \<longrightarrow> \<not> approved s')"
  using assms
  by (cases c) (auto simp: approved_def gui_defs gui_initial_def split: if_splits prod.splits sum.splits)

section \<open>Progress\<close>

lemma approved_Some: "approved s \<longleftrightarrow> (\<exists>h. plan_hash s = Some h \<and> approved_plan_hash s = Some h)"
  by (auto simp: approved_def)

text \<open>The calls of one full pass of the wizard, from whatever it was doing.\<close>

definition full_pass :: "str \<Rightarrow> diagnostic_report \<Rightarrow> str \<Rightarrow> str \<Rightarrow> time \<Rightarrow> gui_call list" where
  "full_pass h d p a now =
     [FailDiagnosis (lit ''stopped''), SelectHost h, BeginDiagnosis, FinishDiagnosis d, BeginChangePlan p,
      FinishChangePlan p None now, ApprovePlan now, PrepareResults a, BeginApply, FinishApply COMMITTED None]"

text \<open>
  Property C24. The presenter is never stuck: from every state, one pass of the wizard for any host leads to
  a committed apply of the approved plan for this host.
\<close>

theorem wizard_completes:
  assumes "\<not> blank h" "\<not> blank p" "\<not> blank a" and "hi_host_id (host d) = h"
  shows "let s' = run_calls (full_pass h d p a now) s in
    gs_status s' = WS_SUCCESS \<and> gs_step s' = STEP_RESULTS \<and> apply_status s' = Some COMMITTED \<and> approved s'
    \<and> plan_hash s' = Some p \<and> selected_host_id s' = Some h \<and> gs_report s' = Some d \<and> gs_error_code s' = None"
proof -
  define s1 where "s1 = snd (fail_diagnosis (lit ''stopped'') s)"
  have "\<not> busy s1" by (simp add: s1_def fail_diagnosis_def refuse_def become_def busy_def)
  then have "\<exists>s2. select_host h s1 = (Inr (), s2) \<and> \<not> busy s2 \<and> selected_host_id s2 = Some h"
    using assms(1) by (auto simp: select_host_def become_def busy_def gui_initial_def)
  then obtain s2 where s2: "select_host h s1 = (Inr (), s2)" "\<not> busy s2" "selected_host_id s2 = Some h" by blast
  define s3 where "s3 = snd (begin_diagnosis s2)"
  have s3: "busy s3" "selected_host_id s3 = Some h"
    using s2(2,3) by (simp_all add: s3_def begin_diagnosis_def become_def busy_def)
  define s4 where "s4 = snd (finish_diagnosis d s3)"
  have s4: "\<not> busy s4" "selected_host_id s4 = Some h" "gs_report s4 = Some d"
    using s3 assms(4) by (simp_all add: s4_def finish_diagnosis_def become_def) (simp add: busy_def, cases "dr_status d"; simp)
  define s5 where "s5 = snd (begin_change_plan p s4)"
  have s5: "busy s5" "selected_host_id s5 = Some h" "gs_report s5 = Some d"
    using s4 assms(2) by (simp_all add: s5_def begin_change_plan_def review_plan_def become_def) (simp add: busy_def)
  define s6 where "s6 = snd (finish_change_plan p None now s5)"
  have s6: "\<not> busy s6" "selected_host_id s6 = Some h" "gs_report s6 = Some d" "plan_hash s6 = Some p" "plan_expires_at s6 = None"
    using s5 assms(2) by (simp_all add: s6_def finish_change_plan_def become_def unexpired_def) (simp add: busy_def)
  define s7 where "s7 = snd (approve_plan now s6)"
  have s7: "approved s7" "selected_host_id s7 = Some h" "gs_report s7 = Some d" "plan_hash s7 = Some p"
    using s6 by (simp_all add: s7_def approve_plan_def become_def unexpired_def approved_def)
  define s8 where "s8 = snd (prepare_results a s7)"
  have s8: "approved s8" "selected_host_id s8 = Some h" "gs_report s8 = Some d" "plan_hash s8 = Some p"
      "\<not> busy s8" "gs_approval_id s8 = Some a"
    using s7 assms(3) by (simp_all add: s8_def prepare_results_def become_def) (auto simp: approved_Some busy_def)
  define s9 where "s9 = snd (begin_apply s8)"
  have s9: "approved s9" "selected_host_id s9 = Some h" "gs_report s9 = Some d" "plan_hash s9 = Some p" "busy s9"
    using s8 by (simp_all add: s9_def begin_apply_def become_def) (simp_all add: approved_Some busy_def)
  have "run_calls (full_pass h d p a now) s = snd (finish_apply COMMITTED None s9)"
    using s2(1) by (simp add: full_pass_def s1_def s3_def s4_def s5_def s6_def s7_def s8_def s9_def)
  then show ?thesis using s9 by (auto simp: Let_def finish_apply_def become_def approved_Some)
qed

text \<open>
  Two guards are missing.  Reviewing another plan withdraws the approval but keeps the recorded
  approval id, which is all \<open>begin_apply\<close> looks at: an apply starts although nothing is approved.  And
  recording an approval while an operation runs ends the running state, so that the operation's own
  completion is refused.
\<close>

lemma stale_approval_id:
  assumes "gs_approval_id s \<noteq> None" and "\<not> busy s" and "gs_report s \<noteq> None" and "\<not> blank h" and "plan_hash s \<noteq> Some h"
    and "approved t" and "busy t" and "\<not> blank a"
  shows "(case review_plan h s of (r, s1) \<Rightarrow> r = Inr () \<and> \<not> approved s1 \<and> fst (begin_apply s1) = Inr ())
    \<and> (case prepare_results a t of (r, t1) \<Rightarrow> r = Inr () \<and> finish_apply st e t1 = (Inl (RuntimeError ''apply_not_running''), t1))"
proof
  show "case review_plan h s of (r, s1) \<Rightarrow> r = Inr () \<and> \<not> approved s1 \<and> fst (begin_apply s1) = Inr ()"
    using assms(1-5) by (auto simp: review_plan_def begin_apply_def become_def approved_def busy_def)
  show "case prepare_results a t of (r, t1) \<Rightarrow> r = Inr () \<and> finish_apply st e t1 = (Inl (RuntimeError ''apply_not_running''), t1)"
    using assms(6,8) by (simp add: prepare_results_def finish_apply_def refuse_def become_def busy_def)
qed

section \<open>A session\<close>

definition gui_host :: host_info where
  "gui_host = \<lparr>hi_host_id = lit ''local'', hi_kind = HK_LOCAL, hi_display_name = lit ''Local'',
     hi_capabilities = \<lparr>can_execute = True, can_read_files = True, can_stage_files = True, can_elevate = False,
       service_manager = None, gpu_tools = [], limitations = []\<rparr>,
     hi_hostname = None, hi_user = None, hi_ssh_alias = None, hi_fingerprint = None, hi_observed_at = 0\<rparr>"

definition gui_diagnosis :: diagnostic_report where
  "gui_diagnosis = \<lparr>report_id = lit ''r'', dr_schema_version = lit ''1.0'', host = gui_host,
     dr_status = RS_COMPLETE, dr_system = None, dr_hardware = None, ollama = None,
     opencode = None, probe_results = [], findings = [], started_at = 0, completed_at = None\<rparr>"

definition gui_session :: "gui_call list" where
  "gui_session = [SelectHost (lit ''local''), BeginDiagnosis, FinishDiagnosis gui_diagnosis, ReviewPlan (lit ''p''),
     ApprovePlan 0, PrepareResults (lit ''a'')]"

definition gui_prepared :: gui_state where
  "gui_prepared = run_calls gui_session gui_initial"

definition gui_applying :: gui_state where
  "gui_applying = snd (begin_apply gui_prepared)"

lemma session_values:
  "gs_approval_id gui_prepared = Some (lit ''a'')" "\<not> busy gui_prepared" "gs_report gui_prepared = Some gui_diagnosis"
  "plan_hash gui_prepared = Some (lit ''p'')" "approved gui_applying" "busy gui_applying"
  "perform (ApprovePlan 9) (gui_prepared\<lparr>plan_expires_at := Some 5\<rparr>)
    = (Inl (RuntimeError ''stale_plan''), expired (gui_prepared\<lparr>plan_expires_at := Some 5\<rparr>))"
  "perform (ApprovePlan 0) gui_prepared = (Inr (), gui_prepared)"
  "perform (SelectHost (lit ''h'')) gui_prepared = (Inr (), gui_initial\<lparr>selected_host_id := Some (lit ''h'')\<rparr>)"
  by code_simp+

theorem presenter_invariant_witness: "gui_ok gui_applying \<and> busy gui_applying"
proof -
  have "gui_reachable gui_prepared" unfolding gui_prepared_def by (rule reachable_run) (rule gui_start)
  then have "gui_reachable gui_applying"
    by (rule gui_call [where c = BeginApply and r = "fst (begin_apply gui_prepared)"]) (simp add: gui_applying_def)
  then show ?thesis using presenter_invariant session_values by blast
qed

lemma session_error: "gs_error_code gui_prepared = None"
  by code_simp

theorem approval_lifecycle_witness:
  "\<not> approved (gui_initial\<lparr>selected_host_id := Some (lit ''h'')\<rparr>)"
  using approval_lifecycle [OF session_values(9)] approval_lifecycle [OF session_values(8)] by (simp add: approved_def gui_initial_def)

theorem wizard_completes_witness:
  "approved (run_calls (full_pass (lit ''local'') gui_diagnosis (lit ''p'') (lit ''a'') 0) gui_applying)"
proof -
  have "\<not> blank (lit ''local'')" "\<not> blank (lit ''p'')" "\<not> blank (lit ''a'')" "hi_host_id (host gui_diagnosis) = lit ''local''"
    by code_simp+
  from wizard_completes [OF this, of 0 gui_applying] show ?thesis by (simp add: Let_def)
qed

end
