(* ===== verification/Approvals.thy ===== *)
theory Approvals
  imports Backup Journal Primitive
begin

text \<open>
  The use cases that authorise a change: the approval of a plan (\<open>application/approval.py\<close>), the routes on
  which an apply or a restore is available (\<open>apply_availability.py\<close>, \<open>restore_availability.py\<close>), and the
  preview, approval and preflight of a local restore (\<open>restore_preview.py\<close>, \<open>restore_preflight.py\<close>).
  \<open>now or utc_now()\<close> is the parameter \<open>now\<close>, and a lifetime is a duration.
\<close>

section \<open>Approving a plan\<close>

definition create_approval ::
  "runtime \<Rightarrow> time \<Rightarrow> optimization_plan \<Rightarrow> str \<Rightarrow> str \<Rightarrow> bool \<Rightarrow> bool \<Rightarrow> time \<Rightarrow> approval_record res" where
  "create_approval rt lifetime plan aid who explicit_review acknowledged now =
     (if \<not> explicit_review then Inl (AdapterError ''explicit_review_required'')
      else case op_change_set plan of
        None \<Rightarrow> Inl (AdapterError ''change_set_required'')
      | Some cs \<Rightarrow>
          if changes cs = [] then Inl (AdapterError ''change_set_required'')
          else if \<not> unexpired now (expires_at plan) then Inl (AdapterError ''stale_plan'')
          else if blank aid \<or> blank who then Inl (AdapterError ''approval_identity_required'')
          else if \<not> enc_enabled (backup_policy plan) \<and> \<not> acknowledged
            then Inl (AdapterError ''plaintext_backup_acknowledgement_required'')
          else (let record = \<lparr>approval_id = aid, ap_plan_id = plan_id plan, ap_report_hash = report_hash plan,
                  change_set_hash = content_hash cs, actor = who,
                  backup_policy_hash = encryption_content_hash rt (backup_policy plan),
                  plaintext_backup_acknowledged = acknowledged, approved_at = now,
                  ap_expires_at = Some (case expires_at plan of None \<Rightarrow> now + lifetime | Some t \<Rightarrow> min (now + lifetime) t)\<rparr>
             in if is_valid_for rt record plan now then Inr record else Inl (AdapterError ''invalid_approval'')))"

section \<open>Routes\<close>

datatype route = LOCAL_USER | LOCAL_ROOT | SSH_USER | SSH_ROOT

record availability =
  av_route :: route
  av_available :: bool
  av_reason :: str

fun route_of :: "host_kind \<Rightarrow> bool \<Rightarrow> route" where
  "route_of HK_LOCAL False = LOCAL_USER"
| "route_of HK_LOCAL True = LOCAL_ROOT"
| "route_of HK_SSH False = SSH_USER"
| "route_of HK_SSH True = SSH_ROOT"

fun apply_reason :: "route \<Rightarrow> str" where
  "apply_reason LOCAL_USER = lit ''local_user_apply_composition_missing''"
| "apply_reason LOCAL_ROOT = lit ''local_root_apply_rule_pending''"
| "apply_reason SSH_USER = lit ''ssh_user_apply_validation_pending''"
| "apply_reason SSH_ROOT = lit ''ssh_root_apply_protocol_missing''"

fun restore_reason :: "route \<Rightarrow> str" where
  "restore_reason LOCAL_USER = lit ''local_user_restore_composition_missing''"
| "restore_reason LOCAL_ROOT = lit ''local_root_restore_release_gate_pending''"
| "restore_reason SSH_USER = lit ''ssh_user_restore_protocol_missing''"
| "restore_reason SSH_ROOT = lit ''ssh_root_restore_protocol_missing''"

definition availability_of :: "route list \<Rightarrow> (route \<Rightarrow> str) \<Rightarrow> route \<Rightarrow> availability" where
  "availability_of routes reason_of r = (let a = r \<in> set routes in
     \<lparr>av_route = r, av_available = a, av_reason = (if a then lit ''available'' else reason_of r)\<rparr>)"

text \<open>The plan is bound to the report: the conditions in the order of the code.\<close>

definition apply_binding :: "runtime \<Rightarrow> optimization_plan \<Rightarrow> diagnostic_report \<Rightarrow> change_set res" where
  "apply_binding rt plan report =
     (if op_report_id plan \<noteq> report_id report then Inl ValueError
      else bindR (stable_hash rt (diagnostic_report_json rt report)) (\<lambda>h.
        if report_hash plan \<noteq> h then Inl ValueError
        else case op_change_set plan of
            None \<Rightarrow> Inl ValueError
          | Some cs \<Rightarrow> if cs_host_id cs \<noteq> hi_host_id (host report) then Inl ValueError else Inr cs))"

definition assess_apply :: "runtime \<Rightarrow> route list \<Rightarrow> optimization_plan \<Rightarrow> diagnostic_report \<Rightarrow> availability res" where
  "assess_apply rt routes plan report =
     bindR (apply_binding rt plan report) (\<lambda>cs.
       case remdups (map requires_root (changes cs)) of
         [] \<Rightarrow> Inl ValueError
       | [root] \<Rightarrow> Inr (availability_of routes apply_reason (route_of (hi_kind (host report)) root))
       | _ \<Rightarrow> Inl ValueError)"

definition assess_restore :: "route list \<Rightarrow> host_kind \<Rightarrow> bool \<Rightarrow> availability" where
  "assess_restore routes kind root = availability_of routes restore_reason (route_of kind root)"

section \<open>Restore previews\<close>

record preview_item =
  pi_target :: str
  pi_existed :: bool
  pi_sha256 :: "str option"
  pi_mode :: "int option"

record restore_preview =
  pv_host_id :: str
  pv_backup_id :: str
  pv_manifest_hash :: str
  pv_created_at :: time
  pv_expires_at :: time
  pv_protected :: bool
  pv_items :: "preview_item list"
  pv_hash :: str

definition preview_item_json :: "preview_item \<Rightarrow> json" where
  "preview_item_json i = JObj [(lit ''target'', JStr (pi_target i)), (lit ''existed'', JBool (pi_existed i)),
     (lit ''sha256'', jopt JStr (pi_sha256 i)), (lit ''mode'', jopt JInt (pi_mode i))]"

definition preview_json :: "runtime \<Rightarrow> restore_preview \<Rightarrow> json" where
  "preview_json rt p = JObj
     [(lit ''host_id'', JStr (pv_host_id p)), (lit ''backup_id'', JStr (pv_backup_id p)),
      (lit ''manifest_hash'', JStr (pv_manifest_hash p)), (lit ''created_at'', time_json rt (pv_created_at p)),
      (lit ''expires_at'', time_json rt (pv_expires_at p)), (lit ''protected'', JBool (pv_protected p)),
      (lit ''items'', tuple_json preview_item_json (pv_items p)), (lit ''preview_hash'', JStr (pv_hash p))]"

definition preview_with_hash :: "runtime \<Rightarrow> restore_preview \<Rightarrow> restore_preview res" where
  "preview_with_hash rt p = (let v = p\<lparr>pv_hash := []\<rparr> in
     bindR (stable_hash rt (preview_json rt v)) (\<lambda>h. Inr (v\<lparr>pv_hash := h\<rparr>)))"

definition preview_item_of :: "backup_item \<Rightarrow> preview_item" where
  "preview_item_of i = \<lparr>pi_target = bi_target i, pi_existed = existed i, pi_sha256 = bi_sha256 i, pi_mode = mode i\<rparr>"

definition create_preview :: "runtime \<Rightarrow> time \<Rightarrow> backup_manifest \<Rightarrow> time \<Rightarrow> restore_preview res" where
  "create_preview rt lifetime m now =
     bindR (preview_with_hash rt \<lparr>pv_host_id = bm_host_id m, pv_backup_id = backup_id m, pv_manifest_hash = manifest_hash m,
       pv_created_at = now, pv_expires_at = now + lifetime, pv_protected = protected m,
       pv_items = map preview_item_of (items m), pv_hash = []\<rparr>) (\<lambda>p.
     if pv_items p = [] \<or> pv_manifest_hash p = [] then Inl (AdapterError ''invalid_restore_preview'') else Inr p)"

section \<open>Restore approvals\<close>

record restore_approval =
  ra_approval_id :: str
  ra_actor :: str
  ra_host_id :: str
  ra_backup_id :: str
  ra_manifest_hash :: str
  ra_preview_hash :: str
  ra_approved_at :: time
  ra_expires_at :: time

definition restore_valid_for :: "restore_approval \<Rightarrow> restore_preview \<Rightarrow> time \<Rightarrow> bool" where
  "restore_valid_for a p now \<longleftrightarrow> now < ra_expires_at a \<and> ra_host_id a = pv_host_id p \<and> ra_backup_id a = pv_backup_id p
     \<and> ra_manifest_hash a = pv_manifest_hash p \<and> ra_preview_hash a = pv_hash p
     \<and> pv_created_at p \<le> now \<and> now < pv_expires_at p"

definition create_restore_approval ::
  "runtime \<Rightarrow> time \<Rightarrow> restore_preview \<Rightarrow> str \<Rightarrow> str \<Rightarrow> bool \<Rightarrow> time \<Rightarrow> restore_approval res" where
  "create_restore_approval rt lifetime p aid who explicit_review now =
     (if \<not> explicit_review then Inl (AdapterError ''explicit_restore_review_required'')
      else if blank aid \<or> blank who then Inl (AdapterError ''approval_identity_required'')
      else if pv_expires_at p \<le> now then Inl (AdapterError ''stale_restore_preview'')
      else bindR (preview_with_hash rt p) (\<lambda>q.
        if q \<noteq> p then Inl (AdapterError ''stale_restore_preview'')
        else (let a = \<lparr>ra_approval_id = aid, ra_actor = who, ra_host_id = pv_host_id p, ra_backup_id = pv_backup_id p,
                ra_manifest_hash = pv_manifest_hash p, ra_preview_hash = pv_hash p, ra_approved_at = now,
                ra_expires_at = min (now + lifetime) (pv_expires_at p)\<rparr>
          in if restore_valid_for a p now then Inr a else Inl (AdapterError ''invalid_restore_approval''))))"

section \<open>Preflight of a local restore\<close>

record observation =
  ob_target :: str
  ob_exists :: bool
  ob_sha256 :: "str option"

record authorization =
  au_host_id :: str
  au_backup_id :: str
  au_manifest_hash :: str
  au_preview_hash :: str
  au_approval_id :: str
  au_actor :: str
  au_targets :: "str list"
  au_current :: "observation list"
  au_prepared_at :: time
  au_expires_at :: time
  au_hash :: str

definition observation_json :: "observation \<Rightarrow> json" where
  "observation_json x = JObj [(lit ''target'', JStr (ob_target x)), (lit ''exists'', JBool (ob_exists x)),
     (lit ''sha256'', jopt JStr (ob_sha256 x))]"

definition authorization_json :: "runtime \<Rightarrow> authorization \<Rightarrow> json" where
  "authorization_json rt a = JObj
     [(lit ''host_id'', JStr (au_host_id a)), (lit ''backup_id'', JStr (au_backup_id a)),
      (lit ''manifest_hash'', JStr (au_manifest_hash a)), (lit ''preview_hash'', JStr (au_preview_hash a)),
      (lit ''approval_id'', JStr (au_approval_id a)), (lit ''actor'', JStr (au_actor a)),
      (lit ''targets'', tuple_json JStr (au_targets a)), (lit ''current_targets'', tuple_json observation_json (au_current a)),
      (lit ''prepared_at'', time_json rt (au_prepared_at a)), (lit ''expires_at'', time_json rt (au_expires_at a)),
      (lit ''authorization_hash'', JStr (au_hash a))]"

definition authorization_with_hash :: "runtime \<Rightarrow> authorization \<Rightarrow> authorization res" where
  "authorization_with_hash rt a = (let v = a\<lparr>au_hash := []\<rparr> in
     bindR (stable_hash rt (authorization_json rt v)) (\<lambda>h. Inr (v\<lparr>au_hash := h\<rparr>)))"

text \<open>The interface \<open>StrictManifestInventory\<close>.\<close>

record inventory =
  list_strict :: "str \<Rightarrow> backup_manifest list io"
  observe_targets :: "backup_manifest \<Rightarrow> observation list io"

definition approval_check :: "runtime \<Rightarrow> str \<Rightarrow> str \<Rightarrow> restore_preview \<Rightarrow> restore_approval \<Rightarrow> time \<Rightarrow> bool res" where
  "approval_check rt hid bid p a now = bindR (preview_with_hash rt p) (\<lambda>q.
     Inr (q = p \<and> pv_host_id p = hid \<and> pv_backup_id p = bid \<and> restore_valid_for a p now))"

definition preview_matches :: "str \<Rightarrow> str \<Rightarrow> restore_preview \<Rightarrow> backup_manifest \<Rightarrow> bool" where
  "preview_matches hid bid p m \<longleftrightarrow> bm_host_id m = hid \<and> backup_id m = bid \<and> manifest_hash m = pv_manifest_hash p
     \<and> protected m = pv_protected p \<and> map preview_item_of (items m) = pv_items p"

definition draft_authorization ::
  "str \<Rightarrow> str \<Rightarrow> restore_preview \<Rightarrow> restore_approval \<Rightarrow> time \<Rightarrow> backup_manifest \<Rightarrow> observation list \<Rightarrow> authorization" where
  "draft_authorization hid bid p a now m obs =
     \<lparr>au_host_id = hid, au_backup_id = bid, au_manifest_hash = manifest_hash m,
           au_preview_hash = pv_hash p, au_approval_id = ra_approval_id a, au_actor = ra_actor a,
           au_targets = map bi_target (items m), au_current = obs, au_prepared_at = now,
           au_expires_at = min (pv_expires_at p) (ra_expires_at a), au_hash = []\<rparr>"

definition prepare_restore ::
  "runtime \<Rightarrow> inventory \<Rightarrow> str \<Rightarrow> str \<Rightarrow> restore_preview \<Rightarrow> restore_approval \<Rightarrow> time \<Rightarrow> authorization io" where
  "prepare_restore rt iv hid bid p a now =
     bindW check_cancel (\<lambda>_.
     bindW (liftR (approval_check rt hid bid p a now)) (\<lambda>ok.
     bindW (guardW ok (AdapterError ''invalid_restore_approval'')) (\<lambda>_.
     bindW (list_strict iv hid) (\<lambda>ms.
     bindW check_cancel (\<lambda>_.
     case filter (\<lambda>m. backup_id m = bid) ms of
       [] \<Rightarrow> raiseW (AdapterError ''backup_not_found'')
     | m # _ \<Rightarrow>
         bindW (guardW (preview_matches hid bid p m) (AdapterError ''restore_binding_mismatch'')) (\<lambda>_.
         bindW (observe_targets iv m) (\<lambda>obs.
         bindW (liftR (authorization_with_hash rt (draft_authorization hid bid p a now m obs))) (\<lambda>prepared.
         bindW (guardW (now < au_expires_at prepared) (AdapterError ''stale_restore_approval'')) (\<lambda>_.
         retW prepared)))))))))"

section \<open>Approvals of plans\<close>

text \<open>
  An approval is created exactly for an explicitly reviewed, non-empty and unexpired plan,
  by a named actor, with the plaintext of the backup acknowledged unless it is encrypted, and for a
  positive lifetime.  It is then valid for this plan precisely until its own expiry or the plan's,
  whichever is first.
\<close>

theorem create_approval_exact:
  "((\<exists>r. create_approval rt lifetime plan aid who ex ack now = Inr r) \<longleftrightarrow>
      ex \<and> (\<exists>cs. op_change_set plan = Some cs \<and> changes cs \<noteq> []) \<and> unexpired now (expires_at plan)
      \<and> \<not> blank aid \<and> \<not> blank who \<and> (enc_enabled (backup_policy plan) \<or> ack) \<and> 0 < lifetime)
   \<and> (\<forall>r t. create_approval rt lifetime plan aid who ex ack now = Inr r \<longrightarrow>
      (is_valid_for rt r plan t \<longleftrightarrow> t < now + lifetime \<and> unexpired t (expires_at plan)))"
proof (cases "op_change_set plan")
  case None
  then show ?thesis by (simp add: create_approval_def)
next
  case (Some cs)
  show ?thesis
  proof (cases "expires_at plan")
    case None
    then show ?thesis using Some by (auto simp: create_approval_def is_valid_for_def unexpired_def Let_def)
  next
    case (Some t)
    then show ?thesis using \<open>op_change_set plan = Some cs\<close>
      by (auto simp: create_approval_def is_valid_for_def unexpired_def Let_def)
  qed
qed

section \<open>Availability\<close>

text \<open>
  A route is offered for an apply only if it is one of the composed routes, the plan is bound to
  this report and host, and all its changes need the same privilege; with no composed route nothing is ever
  offered.
\<close>

theorem apply_offered:
  assumes "assess_apply rt routes plan report = Inr a"
  shows "\<exists>cs root. op_change_set plan = Some cs \<and> cs_host_id cs = hi_host_id (host report) \<and> op_report_id plan = report_id report
    \<and> stable_hash rt (diagnostic_report_json rt report) = Inr (report_hash plan)
    \<and> changes cs \<noteq> [] \<and> (\<forall>c\<in>set (changes cs). requires_root c = root)
    \<and> av_route a = route_of (hi_kind (host report)) root
    \<and> (av_available a \<longleftrightarrow> av_route a \<in> set routes) \<and> (av_available a \<longleftrightarrow> av_reason a = lit ''available'')"
proof -
  obtain cs where b: "apply_binding rt plan report = Inr cs"
    and k: "(case remdups (map requires_root (changes cs)) of [] \<Rightarrow> Inl ValueError
       | [root] \<Rightarrow> Inr (availability_of routes apply_reason (route_of (hi_kind (host report)) root)) | _ \<Rightarrow> Inl ValueError) = Inr a"
    using assms by (auto simp: assess_apply_def bindR_eq_Inr)
  then obtain root where r: "remdups (map requires_root (changes cs)) = [root]"
    and a: "a = availability_of routes apply_reason (route_of (hi_kind (host report)) root)"
    by (auto split: list.splits)
  have s: "requires_root ` set (changes cs) = {root}" using arg_cong [OF r, of set] by simp
  have "apply_reason x \<noteq> lit ''available''" for x by (cases x) simp_all
  then have "av_route a = route_of (hi_kind (host report)) root" "av_available a \<longleftrightarrow> av_route a \<in> set routes"
    "av_available a \<longleftrightarrow> av_reason a = lit ''available''"
    by (auto simp: a availability_of_def Let_def)
  moreover have "op_change_set plan = Some cs" "cs_host_id cs = hi_host_id (host report)" "op_report_id plan = report_id report"
    "stable_hash rt (diagnostic_report_json rt report) = Inr (report_hash plan)"
    using b by (auto simp: apply_binding_def bindR_eq_Inr split: if_splits option.splits)
  moreover have "\<forall>c\<in>set (changes cs). requires_root c = root" using s by (blast dest: equalityD1)
  moreover have "changes cs \<noteq> []" using r by (cases "changes cs") simp_all
  ultimately show ?thesis by blast
qed

section \<open>Restores\<close>

text \<open>
  A restore is authorised only for the backup that was reviewed: the preview's hash is
  genuine, the approval is for it and current, the first listed manifest of that id has the
  reviewed hash, protection and items, and the authorisation names its targets as just observed and
  expires no later than preview and approval.
\<close>

theorem prepare_restore_sound:
  assumes "prepare_restore rt iv hid bid p a now w = (Inr auth, w')"
  shows "\<exists>m ms w1 w2 w3 w4. list_strict iv hid w1 = (Inr ms, w2) \<and> m \<in> set ms \<and> backup_id m = bid \<and> bm_host_id m = hid
    \<and> manifest_hash m = ra_manifest_hash a \<and> protected m = pv_protected p \<and> map preview_item_of (items m) = pv_items p
    \<and> preview_with_hash rt p = Inr p \<and> restore_valid_for a p now
    \<and> observe_targets iv m w3 = (Inr (au_current auth), w4)
    \<and> au_host_id auth = hid \<and> au_backup_id auth = bid \<and> au_manifest_hash auth = manifest_hash m
    \<and> au_preview_hash auth = pv_hash p \<and> au_approval_id auth = ra_approval_id a \<and> au_targets auth = map bi_target (items m)
    \<and> au_expires_at auth = min (pv_expires_at p) (ra_expires_at a) \<and> now < au_expires_at auth"
proof -
  obtain ms w1 w2 where l: "list_strict iv hid w1 = (Inr ms, w2)" and ok: "approval_check rt hid bid p a now = Inr True"
    and k: "\<exists>w2. (case filter (\<lambda>m. backup_id m = bid) ms of
       [] \<Rightarrow> raiseW (AdapterError ''backup_not_found'')
     | m # _ \<Rightarrow>
         bindW (guardW (preview_matches hid bid p m) (AdapterError ''restore_binding_mismatch'')) (\<lambda>_.
         bindW (observe_targets iv m) (\<lambda>obs.
         bindW (liftR (authorization_with_hash rt (draft_authorization hid bid p a now m obs))) (\<lambda>prepared.
         bindW (guardW (now < au_expires_at prepared) (AdapterError ''stale_restore_approval'')) (\<lambda>_.
         retW prepared))))) w2 = (Inr auth, w')"
    using assms unfolding prepare_restore_def bindW_Inr by (auto simp: guardW_def split: if_splits)
  obtain m rest where f: "filter (\<lambda>m. backup_id m = bid) ms = m # rest"
    using k by (cases "filter (\<lambda>m. backup_id m = bid) ms") auto
  then have "m \<in> set (filter (\<lambda>m. backup_id m = bid) ms)" by simp
  then have m: "m \<in> set ms" "backup_id m = bid" by simp_all
  have "preview_matches hid bid p m \<and> (\<exists>w3 w4. observe_targets iv m w3 = (Inr (au_current auth), w4))
    \<and> au_host_id auth = hid \<and> au_backup_id auth = bid \<and> au_manifest_hash auth = manifest_hash m
    \<and> au_preview_hash auth = pv_hash p \<and> au_approval_id auth = ra_approval_id a \<and> au_targets auth = map bi_target (items m)
    \<and> au_expires_at auth = min (pv_expires_at p) (ra_expires_at a) \<and> now < au_expires_at auth"
    using k unfolding f
    by (auto simp: bindW_Inr authorization_with_hash_def draft_authorization_def Let_def bindR_eq_Inr guardW_def split: if_splits) blast
  then show ?thesis using l m ok
    by (intro exI [of _ m] exI [of _ ms]) (auto simp: approval_check_def bindR_eq_Inr preview_matches_def restore_valid_for_def)
qed

section \<open>What a hash of canonical JSON binds\<close>

definition collision_free :: "(bytes \<Rightarrow> str) \<Rightarrow> bool" where
  "collision_free h \<longleftrightarrow> (\<forall>x y. h x = h y \<longrightarrow> x = y)"

lemma stable_hash_binds:
  assumes "collision_free (sha256 rt)" and "storable v" "storable u"
    and "stable_hash rt v = Inr h" "stable_hash rt u = Inr h"
  shows "canon v = canon u"
proof -
  obtain b c where b: "utf8_encode (dumps False v) = Inr b" "utf8_encode (dumps False u) = Inr c" "sha256 rt b = h" "sha256 rt c = h"
    using assms(4,5) by (auto simp: stable_hash_def bindR_eq_Inr)
  then have "b = c" using assms(1) unfolding collision_free_def by metis
  then have "dumps False v = dumps False u" using b(1,2) utf8_decode_encode by (metis sum.inject(2))
  then show ?thesis using jloads_dumps [OF assms(2)] jloads_dumps [OF assms(3)] by simp
qed

lemma canon_field:
  assumes "canon (JObj kvs) = canon (JObj kvs')" and "distinct (map fst kvs)" "distinct (map fst kvs')"
    and "(k, v) \<in> set kvs" "(k, v') \<in> set kvs'"
  shows "canon v = canon v'"
proof -
  have "map_option canon (map_of kvs k) = map_option canon (map_of kvs' k)"
    using obj_get_canon [OF assms(2), of k] obj_get_canon [OF assms(3), of k] assms(1) by simp
  then show ?thesis using assms(2-5) by simp
qed

lemma canon_ints [simp]: "canon (jopt JInt x) = jopt JInt x"
  by (simp_all add: jopt_def split: option.splits)

lemma jopt_inj [simp]: "jopt JStr x = jopt JStr y \<longleftrightarrow> x = y" "jopt JInt n = jopt JInt m \<longleftrightarrow> n = m"
  by (auto simp: jopt_def split: option.splits)

lemma map_inj_on_image: "map f xs = map g ys \<Longrightarrow> (\<And>x y. f x = g y \<Longrightarrow> x = y) \<Longrightarrow> xs = ys"
  by (induction xs arbitrary: ys) (auto simp: Cons_eq_map_conv)

lemma preview_item_json_inj:
  assumes "canon (preview_item_json i) = canon (preview_item_json j)"
  shows "i = j"
proof -
  note f = canon_field [OF assms [unfolded preview_item_json_def]]
  have d: "distinct (map fst [(lit ''target'', a), (lit ''existed'', b), (lit ''sha256'', c), (lit ''mode'', e)])" for a b c e :: json
    by simp
  show ?thesis
    using f [OF d d, of "lit ''target''" "JStr (pi_target i)" "JStr (pi_target j)"]
      f [OF d d, of "lit ''existed''" "JBool (pi_existed i)" "JBool (pi_existed j)"]
      f [OF d d, of "lit ''sha256''" "jopt JStr (pi_sha256 i)" "jopt JStr (pi_sha256 j)"]
      f [OF d d, of "lit ''mode''" "jopt JInt (pi_mode i)" "jopt JInt (pi_mode j)"]
    by (cases i, cases j) auto
qed

lemma preview_json_inj:
  assumes c: "canon (preview_json rt p) = canon (preview_json rt q)" and t: "inj (isoformat rt)"
  shows "p = q"
proof -
  note f = canon_field [OF c [unfolded preview_json_def]]
  have d: "distinct (map fst [(lit ''host_id'', a1), (lit ''backup_id'', a2), (lit ''manifest_hash'', a3), (lit ''created_at'', a4),
      (lit ''expires_at'', a5), (lit ''protected'', a6), (lit ''items'', a7), (lit ''preview_hash'', a8)])" for a1 a2 a3 a4 a5 a6 a7 a8 :: json
    by simp
  have "canon (tuple_json preview_item_json (pv_items p)) = canon (tuple_json preview_item_json (pv_items q))"
    by (rule f [OF d d, of "lit ''items''"]) simp_all
  then have "map (\<lambda>i. canon (preview_item_json i)) (pv_items p) = map (\<lambda>i. canon (preview_item_json i)) (pv_items q)"
    by (simp add: tuple_json_def comp_def)
  then have "pv_items p = pv_items q" by (rule map_inj_on_image) (rule preview_item_json_inj)
  moreover have "isoformat rt (pv_created_at p) = isoformat rt (pv_created_at q)" "isoformat rt (pv_expires_at p) = isoformat rt (pv_expires_at q)"
    using f [OF d d, of "lit ''created_at''" "time_json rt (pv_created_at p)" "time_json rt (pv_created_at q)"]
      f [OF d d, of "lit ''expires_at''" "time_json rt (pv_expires_at p)" "time_json rt (pv_expires_at q)"]
    by (simp_all add: time_json_def)
  then have "pv_created_at p = pv_created_at q" "pv_expires_at p = pv_expires_at q" using t by (simp_all add: inj_eq)
  moreover have "pv_host_id p = pv_host_id q" "pv_backup_id p = pv_backup_id q" "pv_manifest_hash p = pv_manifest_hash q"
      "pv_protected p = pv_protected q" "pv_hash p = pv_hash q"
    using f [OF d d, of "lit ''host_id''" "JStr (pv_host_id p)" "JStr (pv_host_id q)"]
      f [OF d d, of "lit ''backup_id''" "JStr (pv_backup_id p)" "JStr (pv_backup_id q)"]
      f [OF d d, of "lit ''manifest_hash''" "JStr (pv_manifest_hash p)" "JStr (pv_manifest_hash q)"]
      f [OF d d, of "lit ''protected''" "JBool (pv_protected p)" "JBool (pv_protected q)"]
      f [OF d d, of "lit ''preview_hash''" "JStr (pv_hash p)" "JStr (pv_hash q)"]
    by simp_all
  ultimately show ?thesis by (cases p, cases q) simp
qed

text \<open>
  Property C20. A restore approval approves one preview only: if the digest has no collisions, two previews
  for both of which an approval is valid and whose hashes are genuine are the same, to the last item.
\<close>

theorem approval_binds_preview:
  assumes "collision_free (sha256 rt)" and "inj (isoformat rt)"
    and "restore_valid_for a p now" "restore_valid_for a q now'"
    and "preview_with_hash rt p = Inr p" "preview_with_hash rt q = Inr q"
    and "storable (preview_json rt (p\<lparr>pv_hash := []\<rparr>))" "storable (preview_json rt (q\<lparr>pv_hash := []\<rparr>))"
  shows "p = q"
proof -
  have h: "pv_hash p = pv_hash q" using assms(3,4) by (simp add: restore_valid_for_def)
  have "stable_hash rt (preview_json rt (p\<lparr>pv_hash := []\<rparr>)) = Inr (pv_hash p)"
    using assms(5) by (auto simp: preview_with_hash_def Let_def bindR_eq_Inr) (metis restore_preview.select_convs(8) restore_preview.surjective restore_preview.update_convs(8))
  moreover have "stable_hash rt (preview_json rt (q\<lparr>pv_hash := []\<rparr>)) = Inr (pv_hash p)"
    using assms(6) unfolding h by (auto simp: preview_with_hash_def Let_def bindR_eq_Inr) (metis restore_preview.select_convs(8) restore_preview.surjective restore_preview.update_convs(8))
  ultimately have "p\<lparr>pv_hash := []\<rparr> = q\<lparr>pv_hash := []\<rparr>"
    using stable_hash_binds [OF assms(1,7,8)] preview_json_inj [OF _ assms(2)] by blast
  then show ?thesis using h by (cases p, cases q) simp
qed

section \<open>A reviewed restore goes through\<close>

lemma create_preview_Inr:
  assumes "create_preview rt life m t0 = Inr p"
  shows "preview_with_hash rt p = Inr p" and "preview_matches (bm_host_id m) (backup_id m) p m"
    and "pv_host_id p = bm_host_id m" "pv_backup_id p = backup_id m" "pv_created_at p = t0" "pv_expires_at p = t0 + life"
  using assms by (auto simp: create_preview_def preview_with_hash_def Let_def bindR_eq_Inr preview_matches_def split: if_splits)

text \<open>
  The restore path is open: a backup that is previewed and approved is authorised at every
  later time before the approval expires, as long as the inventory still lists it, its targets can be
  observed and nobody cancels.
\<close>

theorem restore_authorised:
  assumes "create_preview rt life m t0 = Inr p" and "create_restore_approval rt life' p aid who True t1 = Inr a"
    and "t1 \<le> t" "t < ra_expires_at a"
    and "cancel_in w = None" "list_strict iv (bm_host_id m) w = (Inr (ms @ m # ms'), w1)" "\<forall>x\<in>set ms. backup_id x \<noteq> backup_id m"
    and "cancel_in w1 = None" "observe_targets iv m w1 = (Inr obs, w2)"
    and "stable_hash rt (authorization_json rt (draft_authorization (bm_host_id m) (backup_id m) p a t m obs)) = Inr h"
  shows "\<exists>auth. prepare_restore rt iv (bm_host_id m) (backup_id m) p a t w = (Inr auth, w2) \<and> au_current auth = obs"
proof -
  note p = create_preview_Inr [OF assms(1)]
  have ok: "approval_check rt (bm_host_id m) (backup_id m) p a t = Inr True"
    using assms(2-4) p by (auto simp: approval_check_def create_restore_approval_def restore_valid_for_def Let_def bindR_eq_Inr split: if_splits)
  have f: "filter (\<lambda>x. backup_id x = backup_id m) ms = []"
    using assms(7) by (simp add: filter_empty_conv)
  let ?v = "draft_authorization (bm_host_id m) (backup_id m) p a t m obs"
  have "?v\<lparr>au_hash := []\<rparr> = ?v" by (simp add: draft_authorization_def)
  then have h: "authorization_with_hash rt ?v = Inr (?v\<lparr>au_hash := h\<rparr>)"
    using assms(10) by (simp add: authorization_with_hash_def Let_def)
  have "t < pv_expires_at p" using ok by (auto simp: approval_check_def bindR_eq_Inr restore_valid_for_def)
  then have e: "t < pv_expires_at p" "t < ra_expires_at a" using assms(4) by simp_all
  have v: "au_expires_at (?v\<lparr>au_hash := h\<rparr>) = min (pv_expires_at p) (ra_expires_at a)" "au_current ?v = obs"
    by (simp_all add: draft_authorization_def)
  have c: "check_cancel w = (Inr (), w)" "check_cancel w1 = (Inr (), w1)" using assms(5,8) by (simp_all add: check_cancel_def)
  show ?thesis
    unfolding prepare_restore_def
    by (simp add: bindW_def c ok assms(6) f p(2) guardW_def assms(9) h e v del: authorization.update_convs)
qed

section \<open>A backup previewed\<close>

text \<open>A digest without collisions, for the examples: the bytes themselves.\<close>

definition plain_runtime :: runtime where
  "plain_runtime = \<lparr>sha256 = (\<lambda>b. b), isoformat = (\<lambda>t. [t]), fromisoformat = (\<lambda>s. None), unicode_digit = (\<lambda>c. NoDigit)\<rparr>"

definition previewed_manifest :: backup_manifest where
  "previewed_manifest = \<lparr>backup_id = lit ''b'', bm_schema_version = lit ''1.0'', bm_plan_id = lit ''p'', bm_change_set_hash = lit ''h'',
     bm_host_id = lit ''local'', host_fingerprint = None,
     items = [\<lparr>bi_target = lit ''/c'', existed = False, content_ref = None, bi_sha256 = None, mode = None, uid = None, gid = None,
       selinux_context = None, service_state = None, bi_storage_location = None\<rparr>],
     manifest_hash = lit ''m'', storage_location = lit ''/b'', encryption = no_encryption, protected = False, bm_created_at = 0,
     retention_expires_at = None, complete = True\<rparr>"

definition shown_preview :: "restore_preview res" where
  "shown_preview = create_preview plain_runtime 300 previewed_manifest 48"

definition given_approval :: "restore_approval res" where
  "given_approval = bindR shown_preview (\<lambda>p. create_restore_approval plain_runtime 300 p (lit ''a'') (lit ''me'') True 49)"

lemma restore_given: "case given_approval of Inl _ \<Rightarrow> False | Inr _ \<Rightarrow> True"
  by code_simp

lemma preview_storable: "case shown_preview of Inl _ \<Rightarrow> False | Inr p \<Rightarrow> storable (preview_json plain_runtime (p\<lparr>pv_hash := []\<rparr>))"
  by code_simp

theorem approval_binds_preview_witness:
  "\<exists>p. shown_preview = Inr p \<and> p = p \<and> collision_free (sha256 plain_runtime) \<and> inj (isoformat plain_runtime)"
proof -
  obtain a where "given_approval = Inr a" using restore_given by (auto split: sum.splits)
  then obtain p where c: "shown_preview = Inr p" "create_restore_approval plain_runtime 300 p (lit ''a'') (lit ''me'') True 49 = Inr a"
    unfolding given_approval_def bindR_eq_Inr by blast
  note g = create_preview_Inr(1) [OF c(1) [unfolded shown_preview_def]]
  have i: "collision_free (sha256 plain_runtime)" "inj (isoformat plain_runtime)"
    by (simp_all add: plain_runtime_def collision_free_def inj_def)
  have s: "storable (preview_json plain_runtime (p\<lparr>pv_hash := []\<rparr>))" using preview_storable unfolding c(1) by simp
  have v: "restore_valid_for a p 49"
    using c(2) by (auto simp: create_restore_approval_def Let_def bindR_eq_Inr split: if_splits)
  have "p = p" by (rule approval_binds_preview [OF i v v g g s s])
  then show ?thesis using c(1) i by blast
qed

end
