(* ===== verification/Diagnose.thy ===== *)
theory Diagnose
  imports World
begin

text \<open>
  \<open>application/services.py\<close>: the diagnosis of a host.  The host, the probes of the system, of Ollama and of
  the client, and the probe of the privileged helper are interfaces of the code; a \<open>probes\<close> record gives their
  answers.
\<close>

record probes =
  pr_identify :: "host_info io"
  pr_helper :: "bool io option"
  pr_system :: "(system_info \<times> hardware_info) io option"
  pr_ollama :: "ollama_info io"
  pr_client :: "opencode_info io"

definition helper_limitation :: str where
  "helper_limitation = lit ''privileged_helper_unavailable''"

text \<open>\<open>except (AdapterError, OSError, ValueError)\<close>: decoding errors of texts and JSON are value errors.\<close>

definition helper_failure :: "exn \<Rightarrow> bool" where
  "helper_failure e \<longleftrightarrow> adapter_error e \<or> e \<in> {OSError, ValueError, UnicodeError, JSONDecodeError}"

definition elevation :: "bool io \<Rightarrow> bool io" where
  "elevation m = tryW m (\<lambda>e. if helper_failure e then retW False else raiseW e)"

definition with_elevation :: "host_info \<Rightarrow> bool \<Rightarrow> host_info" where
  "with_elevation h b = (let c = hi_capabilities h;
       ls = filter (\<lambda>l. l \<noteq> helper_limitation) (limitations c)
     in h\<lparr>hi_capabilities := c\<lparr>can_elevate := b, limitations := (if b then ls else ls @ [helper_limitation])\<rparr>\<rparr>)"

definition probed_host :: "probes \<Rightarrow> host_info io" where
  "probed_host ps = bindW (pr_identify ps) (\<lambda>h. case pr_helper ps of
       None \<Rightarrow> retW h
     | Some m \<Rightarrow> bindW (elevation m) (\<lambda>b. retW (with_elevation h b)))"

text \<open>\<open>try: x = m except AdapterError: failures += 1\<close>\<close>

definition attempt :: "'a io \<Rightarrow> 'a option io" where
  "attempt m = tryW (bindW m (\<lambda>x. retW (Some x))) (\<lambda>e. if adapter_error e then retW None else raiseW e)"

definition overall_status :: "bool list \<Rightarrow> report_status" where
  "overall_status oks = (let failures = length (filter Not oks) in
     if failures = 0 then RS_COMPLETE else if failures = length oks then RS_FAILED else RS_PARTIAL)"

definition diagnose :: "probes \<Rightarrow> str \<Rightarrow> diagnostic_report io" where
  "diagnose ps rid =
     bindW check_cancel (\<lambda>_.
     bindW utc_now (\<lambda>started.
     bindW (probed_host ps) (\<lambda>h.
     bindW (case pr_system ps of None \<Rightarrow> retW None | Some m \<Rightarrow> attempt m) (\<lambda>sys.
     bindW (attempt (pr_ollama ps)) (\<lambda>ol.
     bindW (attempt (pr_client ps)) (\<lambda>cl.
     bindW utc_now (\<lambda>completed.
     retW \<lparr>report_id = rid, dr_schema_version = lit ''1.0'', host = h,
       dr_status = overall_status ((case pr_system ps of None \<Rightarrow> [] | Some _ \<Rightarrow> [sys \<noteq> None]) @ [ol \<noteq> None, cl \<noteq> None]),
       dr_system = map_option fst sys, dr_hardware = map_option snd sys, ollama = ol, opencode = cl,
       probe_results = [], findings = [], started_at = started, completed_at = Some completed\<rparr>)))))))"

section \<open>What a report says\<close>

lemma attempt_Inr: "attempt m w = (Inr x, w') \<Longrightarrow>
    (\<exists>v. x = Some v \<and> m w = (Inr v, w')) \<or> (x = None \<and> (\<exists>e. m w = (Inl e, w') \<and> adapter_error e))"
  by (auto simp: attempt_def tryW_def bindW_def split: prod.splits sum.splits if_splits)

lemma attempt_Inl: "attempt m w = (Inl e, w') \<Longrightarrow> m w = (Inl e, w') \<and> \<not> adapter_error e"
  by (auto simp: attempt_def tryW_def bindW_def split: prod.splits sum.splits if_splits)

lemma elevation_Inr: "elevation m w = (Inr b, w') \<Longrightarrow> b \<Longrightarrow> m w = (Inr True, w')"
  by (auto simp: elevation_def tryW_def split: prod.splits sum.splits if_splits)

lemma with_elevation_simps:
  "can_elevate (hi_capabilities (with_elevation h b)) = b"
  "helper_limitation \<in> set (limitations (hi_capabilities (with_elevation h b))) \<longleftrightarrow> \<not> b"
  "hi_host_id (with_elevation h b) = hi_host_id h"
  by (auto simp: with_elevation_def Let_def)

lemma overall_status_cases:
  "oks \<noteq> [] \<Longrightarrow> overall_status oks = (if \<forall>b\<in>set oks. b then RS_COMPLETE else if \<forall>b\<in>set oks. \<not> b then RS_FAILED else RS_PARTIAL)"
proof -
  assume "oks \<noteq> []"
  have "length (filter Not oks) = 0 \<longleftrightarrow> (\<forall>b\<in>set oks. b)" by (auto simp: filter_empty_conv)
  moreover have "length (filter Not oks) = length oks \<longleftrightarrow> (\<forall>b\<in>set oks. \<not> b)"
    using length_filter_less [of _ oks Not] by (metis filter_True less_irrefl)
  ultimately show ?thesis unfolding overall_status_def Let_def by presburger
qed


text \<open>
  A probe that fails with an adapter error never stops a diagnosis: if the host can be
  identified, nobody cancels and the probes raise nothing but adapter errors, a report is made.
\<close>

lemma diagnosis_completes:
  assumes "cancel_in w = None" and "pr_helper ps = None" and "\<And>u. \<exists>h u'. pr_identify ps u = (Inr h, u')"
    and "\<And>m u e u'. pr_system ps = Some m \<Longrightarrow> m u = (Inl e, u') \<Longrightarrow> adapter_error e"
    and "\<And>u e u'. pr_ollama ps u = (Inl e, u') \<Longrightarrow> adapter_error e"
    and "\<And>u e u'. pr_client ps u = (Inl e, u') \<Longrightarrow> adapter_error e"
  shows "\<exists>r w'. diagnose ps rid w = (Inr r, w')"
proof -
  have t: "\<exists>x u'. attempt m u = (Inr x, u')" if "\<And>e u'. m u = (Inl e, u') \<Longrightarrow> adapter_error e" for m u
    using that attempt_Inl [of m u] by (metis prod.exhaust sum.exhaust)
  have now: "\<exists>t u'. utc_now u = (Inr t, u')" for u by (cases "clock u") (auto simp: utc_now_def)
  obtain t0 w1 where u: "utc_now w = (Inr t0, w1)" using now by blast
  obtain h w2 where "pr_identify ps w1 = (Inr h, w2)" using assms(3) by blast
  then have h: "probed_host ps w1 = (Inr h, w2)" by (simp add: probed_host_def bindW_def assms(2))
  obtain s w3 where s: "(case pr_system ps of None \<Rightarrow> retW None | Some m \<Rightarrow> attempt m) w2 = (Inr s, w3)"
  proof (cases "pr_system ps")
    case (Some m)
    then have "\<exists>x u'. attempt m w2 = (Inr x, u')" by (intro t) (rule assms(4))
    then show ?thesis using Some that by auto
  qed (use that in auto)
  obtain x w4 where x: "attempt (pr_ollama ps) w3 = (Inr x, w4)" using t assms(5) by blast
  obtain y w5 where y: "attempt (pr_client ps) w4 = (Inr y, w5)" using t assms(6) by blast
  obtain t1 w6 where z: "utc_now w5 = (Inr t1, w6)" using now by blast
  have "check_cancel w = (Inr (), w)" using assms(1) by (simp add: check_cancel_def)
  then show ?thesis unfolding diagnose_def bindW_def using u h s x y z by simp
qed

section \<open>A partial diagnosis\<close>

definition probed_machine :: host_info where
  "probed_machine = \<lparr>hi_host_id = lit ''local'', hi_kind = HK_LOCAL, hi_display_name = lit ''Local'',
     hi_capabilities = \<lparr>can_execute = True, can_read_files = True, can_stage_files = True, can_elevate = True,
       service_manager = None, gpu_tools = [], limitations = []\<rparr>,
     hi_hostname = None, hi_user = None, hi_ssh_alias = None, hi_fingerprint = None, hi_observed_at = 0\<rparr>"

definition probed_client :: opencode_info where
  "probed_client = \<lparr>oc_installed = False, oc_version = None, oc_binary_path = None,
     config_locations = [], active_config = None, provider = None, model = None, base_url = None,
     available_providers = [], available_models = [], base_urls = [], context_settings = [],
     timeout_settings = [], ollama_compatible = None, parse_warnings = []\<rparr>"

definition partial_probes :: "bool io option \<Rightarrow> probes" where
  "partial_probes helper = \<lparr>pr_identify = retW probed_machine, pr_helper = helper, pr_system = None,
     pr_ollama = raiseW (AdapterError ''timeout''), pr_client = retW probed_client\<rparr>"

lemma partial_report: "case fst (diagnose (partial_probes (Some (raiseW OSError))) (lit ''r'') (toy_world Map.empty)) of
    Inl _ \<Rightarrow> False | Inr r \<Rightarrow> ollama r = None \<and> opencode r \<noteq> None"
  by code_simp


end
