(* ===== verification/JsonFields.thy ===== *)
theory JsonFields
  imports Journal
begin

text \<open>
  The field readers of the decoders of manifests and helper requests (\<open>_text\<close>, \<open>_optional_text\<close>,
  \<open>_boolean\<close>, \<open>_integer\<close>, \<open>_optional_integer\<close>, \<open>_timestamp\<close>, \<open>_optional_timestamp\<close> of
  \<open>infrastructure/backup.py\<close> and \<open>helper_protocol.py\<close>), and what they read back from a canonical object.  Unlike
  the readers of the journal they demand that the key is there.
\<close>

definition get_field :: "json \<Rightarrow> str \<Rightarrow> json res" where
  "get_field v k = (case obj_get v k of None \<Rightarrow> Inl KeyError | Some x \<Rightarrow> Inr x)"

definition need_text :: "json \<Rightarrow> str \<Rightarrow> str res" where
  "need_text v k = bindR (get_field v k) (\<lambda>x. case x of
     JStr s \<Rightarrow> if s = [] then Inl ValueError else Inr s | _ \<Rightarrow> Inl ValueError)"

definition need_optional_text :: "json \<Rightarrow> str \<Rightarrow> str option res" where
  "need_optional_text v k = bindR (get_field v k) (\<lambda>x. case x of
     JNull \<Rightarrow> Inr None | JStr s \<Rightarrow> Inr (Some s) | _ \<Rightarrow> Inl ValueError)"

definition need_bool :: "json \<Rightarrow> str \<Rightarrow> bool res" where
  "need_bool v k = bindR (get_field v k) (\<lambda>x. case x of JBool b \<Rightarrow> Inr b | _ \<Rightarrow> Inl ValueError)"

definition need_int :: "json \<Rightarrow> str \<Rightarrow> int res" where
  "need_int v k = bindR (get_field v k) (\<lambda>x. case x of JInt i \<Rightarrow> Inr i | _ \<Rightarrow> Inl ValueError)"

definition need_optional_int :: "json \<Rightarrow> str \<Rightarrow> int option res" where
  "need_optional_int v k = bindR (get_field v k) (\<lambda>x. case x of
     JNull \<Rightarrow> Inr None | JInt i \<Rightarrow> Inr (Some i) | _ \<Rightarrow> Inl ValueError)"

text \<open>\<open>datetime.fromisoformat\<close>, and the timestamps that must have a zone.\<close>

definition parse_stamp :: "runtime \<Rightarrow> str \<Rightarrow> iso_time res" where
  "parse_stamp rt t = (case fromisoformat rt t of None \<Rightarrow> Inl ValueError | Some x \<Rightarrow> Inr x)"

definition aware :: "iso_time \<Rightarrow> time res" where
  "aware x = (case x of Aware t \<Rightarrow> Inr t | Naive _ \<Rightarrow> Inl ValueError)"

definition need_time :: "runtime \<Rightarrow> json \<Rightarrow> str \<Rightarrow> time res" where
  "need_time rt v k = bindR (bindR (need_text v k) (parse_stamp rt)) aware"

definition need_optional_time :: "runtime \<Rightarrow> json \<Rightarrow> str \<Rightarrow> time option res" where
  "need_optional_time rt v k = bindR (need_optional_text v k) (\<lambda>x. case x of
     None \<Rightarrow> Inr None | Some t \<Rightarrow> bindR (bindR (parse_stamp rt t) aware) (\<lambda>i. Inr (Some i)))"

section \<open>Reading back\<close>

named_theorems read_back

lemma get_field_canon:
  assumes "distinct (map fst kvs)"
  shows "get_field (canon (JObj kvs)) k = (case map_of kvs k of None \<Rightarrow> Inl KeyError | Some x \<Rightarrow> Inr (canon x))"
  unfolding get_field_def obj_get_canon [OF assms] by (simp split: option.split)

lemma need_canon [read_back]:
  assumes "distinct (map fst kvs)"
  shows "map_of kvs k = Some (JStr s) \<Longrightarrow> s \<noteq> [] \<Longrightarrow> need_text (canon (JObj kvs)) k = Inr s"
    and "map_of kvs k = Some (jopt JStr x) \<Longrightarrow> need_optional_text (canon (JObj kvs)) k = Inr x"
    and "map_of kvs k = Some (JBool b) \<Longrightarrow> need_bool (canon (JObj kvs)) k = Inr b"
    and "map_of kvs k = Some (JInt i) \<Longrightarrow> need_int (canon (JObj kvs)) k = Inr i"
    and "map_of kvs k = Some (jopt JInt y) \<Longrightarrow> need_optional_int (canon (JObj kvs)) k = Inr y"
  unfolding need_text_def need_optional_text_def need_bool_def need_int_def need_optional_int_def get_field_canon [OF assms]
  by (simp_all add: jopt_def split: option.splits)

lemma need_time_canon [read_back]:
  assumes "distinct (map fst kvs)"
  shows "map_of kvs k = Some (JStr (isoformat rt t)) \<Longrightarrow> stamp_ok rt t \<Longrightarrow> need_time rt (canon (JObj kvs)) k = Inr t"
    and "map_of kvs k = Some (jopt (\<lambda>t. JStr (isoformat rt t)) x) \<Longrightarrow> \<forall>t. x = Some t \<longrightarrow> stamp_ok rt t \<Longrightarrow>
      need_optional_time rt (canon (JObj kvs)) k = Inr x"
proof -
  show "need_time rt (canon (JObj kvs)) k = Inr t" if "map_of kvs k = Some (JStr (isoformat rt t))" "stamp_ok rt t"
    using that need_canon(1) [OF assms that(1)]
    by (simp add: need_time_def stamp_ok_def text_ok_def parse_stamp_def aware_def)
  show "need_optional_time rt (canon (JObj kvs)) k = Inr x"
    if "map_of kvs k = Some (jopt (\<lambda>t. JStr (isoformat rt t)) x)" "\<forall>t. x = Some t \<longrightarrow> stamp_ok rt t"
  proof -
    have "jopt (\<lambda>t. JStr (isoformat rt t)) x = jopt JStr (map_option (isoformat rt) x)"
      by (simp add: jopt_def split: option.split)
    then show ?thesis using that need_canon(2) [OF assms, of k "map_option (isoformat rt) x"]
      by (cases x) (simp_all add: need_optional_time_def stamp_ok_def parse_stamp_def aware_def)
  qed
qed

lemma canon_jopt_int [simp]: "canon (jopt JInt x) = jopt JInt x"
  by (simp add: jopt_def split: option.split)

lemma storable_jopt_int: "(\<And>i. x = Some i \<Longrightarrow> storable (JInt i)) \<Longrightarrow> storable (jopt JInt x)"
  by (auto simp: jopt_def split: option.split)

end
