(* ===== verification/HelperProtocol.thy ===== *)
theory HelperProtocol
  imports JsonFields OllamaPlan
begin

text \<open>
  \<open>infrastructure/helper_protocol.py\<close>: the requests the unprivileged program sends to the privileged helper.
  A request is canonical JSON, bound by a hash of itself; the helper decodes it, checks every field
  and allows five kinds of operation on one file and one unit.
\<close>

section \<open>Requests\<close>

datatype helper_kind = ATOMIC_REPLACE | HK_REMOVE_CREATED | HK_DAEMON_RELOAD | RESTART_UNIT | RESTORE_FILE

fun helper_kind_value :: "helper_kind \<Rightarrow> str" where
  "helper_kind_value ATOMIC_REPLACE = lit ''atomic_replace''"
| "helper_kind_value HK_REMOVE_CREATED = lit ''remove_created_file''"
| "helper_kind_value HK_DAEMON_RELOAD = lit ''daemon_reload''"
| "helper_kind_value RESTART_UNIT = lit ''restart_unit''"
| "helper_kind_value RESTORE_FILE = lit ''restore_file''"

definition helper_kinds :: "helper_kind list" where
  "helper_kinds = [ATOMIC_REPLACE, HK_REMOVE_CREATED, HK_DAEMON_RELOAD, RESTART_UNIT, RESTORE_FILE]"

definition parse_helper_kind :: "str \<Rightarrow> helper_kind res" where
  "parse_helper_kind t = (case filter (\<lambda>k. helper_kind_value k = t) helper_kinds of
      k # _ \<Rightarrow> Inr k | [] \<Rightarrow> Inl ValueError)"

record helper_operation =
  ho_id :: str
  ho_kind :: helper_kind
  ho_target :: "str option"
  ho_unit :: "str option"
  ho_before :: "str option"
  ho_staged :: "str option"
  ho_mode :: "int option"
  ho_uid :: "int option"
  ho_gid :: "int option"

record helper_request =
  hq_version :: int
  hq_id :: str
  hq_host :: str
  hq_plan :: str
  hq_change_set :: str
  hq_operations :: "helper_operation list"
  hq_requested :: iso_time
  hq_expires :: iso_time
  hq_hash :: str
  hq_approval :: "str option"
  hq_backup :: "str option"
  hq_manifest :: "str option"

definition protocol_version :: int where
  "protocol_version = 1"

definition max_request_bytes :: int where
  "max_request_bytes = 1048576"

definition max_request_lifetime :: time where
  "max_request_lifetime = 10 * 60 * 1000000"

definition ollama_unit :: str where
  "ollama_unit = lit ''ollama.service''"

text \<open>\<open>_IDENTIFIER.fullmatch\<close>\<close>

definition ascii_alnum :: "int \<Rightarrow> bool" where
  "ascii_alnum c \<longleftrightarrow> (65 \<le> c \<and> c \<le> 90) \<or> (97 \<le> c \<and> c \<le> 122) \<or> (48 \<le> c \<and> c \<le> 57)"

definition is_identifier :: "str \<Rightarrow> bool" where
  "is_identifier s \<longleftrightarrow> (case s of [] \<Rightarrow> False
     | c # cs \<Rightarrow> ascii_alnum c \<and> length cs \<le> 127 \<and> list_all (\<lambda>d. ascii_alnum d \<or> d \<in> {46, 95, 58, 45}) cs)"

section \<open>Bytes\<close>

definition stamp_text :: "runtime \<Rightarrow> iso_time \<Rightarrow> str" where
  "stamp_text rt x = (case x of Aware t \<Rightarrow> isoformat rt t | Naive s \<Rightarrow> s)"

definition helper_operation_json :: "helper_operation \<Rightarrow> json" where
  "helper_operation_json h = JObj
     [(lit ''operation_id'', JStr (ho_id h)), (lit ''kind'', JStr (helper_kind_value (ho_kind h))),
      (lit ''target'', jopt JStr (ho_target h)), (lit ''unit'', jopt JStr (ho_unit h)),
      (lit ''before_hash'', jopt JStr (ho_before h)), (lit ''staged_content_hash'', jopt JStr (ho_staged h)),
      (lit ''expected_mode'', jopt JInt (ho_mode h)), (lit ''expected_uid'', jopt JInt (ho_uid h)),
      (lit ''expected_gid'', jopt JInt (ho_gid h))]"

definition helper_request_json :: "runtime \<Rightarrow> helper_request \<Rightarrow> json" where
  "helper_request_json rt r = JObj
     [(lit ''protocol_version'', JInt (hq_version r)), (lit ''operation_id'', JStr (hq_id r)),
      (lit ''host_id'', JStr (hq_host r)), (lit ''plan_id'', JStr (hq_plan r)),
      (lit ''change_set_hash'', JStr (hq_change_set r)),
      (lit ''operations'', JArr (map helper_operation_json (hq_operations r))),
      (lit ''requested_at'', JStr (stamp_text rt (hq_requested r))),
      (lit ''expires_at'', JStr (stamp_text rt (hq_expires r))),
      (lit ''request_hash'', JStr (hq_hash r)), (lit ''approval_id'', jopt JStr (hq_approval r)),
      (lit ''backup_id'', jopt JStr (hq_backup r)), (lit ''manifest_hash'', jopt JStr (hq_manifest r))]"

definition helper_bytes :: "runtime \<Rightarrow> helper_request \<Rightarrow> bytes res" where
  "helper_bytes rt r = utf8_encode (dumps False (helper_request_json rt r))"

definition helper_hash :: "runtime \<Rightarrow> helper_request \<Rightarrow> str res" where
  "helper_hash rt r = bindR (helper_bytes rt r) (\<lambda>b. Inr (sha256 rt b))"

definition helper_with_hash :: "runtime \<Rightarrow> helper_request \<Rightarrow> helper_request res" where
  "helper_with_hash rt r = bindR (helper_hash rt (r\<lparr>hq_hash := []\<rparr>)) (\<lambda>h. Inr (r\<lparr>hq_hash := h\<rparr>))"

section \<open>Decoding\<close>

definition request_fields :: "str list" where
  "request_fields = [lit ''approval_id'', lit ''backup_id'', lit ''change_set_hash'', lit ''expires_at'', lit ''host_id'',
     lit ''manifest_hash'', lit ''operation_id'', lit ''operations'', lit ''plan_id'', lit ''protocol_version'',
     lit ''request_hash'', lit ''requested_at'']"

definition operation_fields :: "str list" where
  "operation_fields = [lit ''before_hash'', lit ''expected_gid'', lit ''expected_mode'', lit ''expected_uid'', lit ''kind'',
     lit ''operation_id'', lit ''staged_content_hash'', lit ''target'', lit ''unit'']"

text \<open>\<open>isinstance(value, dict) and set(value) == keys\<close>\<close>

definition has_fields :: "json \<Rightarrow> str list \<Rightarrow> bool" where
  "has_fields v ks \<longleftrightarrow> (case v of JObj kvs \<Rightarrow> set (map fst kvs) = set ks | _ \<Rightarrow> False)"

definition decode_operation :: "json \<Rightarrow> helper_operation res" where
  "decode_operation v =
     (if \<not> has_fields v operation_fields then Inl ValueError
      else bindR (need_text v (lit ''operation_id'')) (\<lambda>i.
           bindR (bindR (need_text v (lit ''kind'')) parse_helper_kind) (\<lambda>k.
           bindR (need_optional_text v (lit ''target'')) (\<lambda>t.
           bindR (need_optional_text v (lit ''unit'')) (\<lambda>u.
           bindR (need_optional_text v (lit ''before_hash'')) (\<lambda>b.
           bindR (need_optional_text v (lit ''staged_content_hash'')) (\<lambda>s.
           bindR (need_optional_int v (lit ''expected_mode'')) (\<lambda>m.
           bindR (need_optional_int v (lit ''expected_uid'')) (\<lambda>ui.
           bindR (need_optional_int v (lit ''expected_gid'')) (\<lambda>gi.
           Inr \<lparr>ho_id = i, ho_kind = k, ho_target = t, ho_unit = u, ho_before = b, ho_staged = s, ho_mode = m,
                ho_uid = ui, ho_gid = gi\<rparr>))))))))))"

definition decode_helper :: "runtime \<Rightarrow> json \<Rightarrow> helper_request res" where
  "decode_helper rt v =
     (if \<not> has_fields v request_fields then Inl ValueError
      else case obj_get v (lit ''operations'') of
        Some (JArr ops) \<Rightarrow>
           bindR (mapR decode_operation ops) (\<lambda>operations.
           bindR (need_int v (lit ''protocol_version'')) (\<lambda>ver.
           bindR (need_text v (lit ''operation_id'')) (\<lambda>i.
           bindR (need_text v (lit ''host_id'')) (\<lambda>h.
           bindR (need_text v (lit ''plan_id'')) (\<lambda>p.
           bindR (need_text v (lit ''change_set_hash'')) (\<lambda>c.
           bindR (bindR (need_text v (lit ''requested_at'')) (parse_stamp rt)) (\<lambda>ra.
           bindR (bindR (need_text v (lit ''expires_at'')) (parse_stamp rt)) (\<lambda>ea.
           bindR (need_text v (lit ''request_hash'')) (\<lambda>rh.
           bindR (need_optional_text v (lit ''approval_id'')) (\<lambda>ai.
           bindR (need_optional_text v (lit ''backup_id'')) (\<lambda>bi.
           bindR (need_optional_text v (lit ''manifest_hash'')) (\<lambda>mh.
           Inr \<lparr>hq_version = ver, hq_id = i, hq_host = h, hq_plan = p, hq_change_set = c, hq_operations = operations,
                hq_requested = ra, hq_expires = ea, hq_hash = rh, hq_approval = ai, hq_backup = bi, hq_manifest = mh\<rparr>))))))))))))
      | _ \<Rightarrow> Inl ValueError)"

section \<open>Validation\<close>

definition adapter_guard :: "bool \<Rightarrow> string \<Rightarrow> unit res" where
  "adapter_guard b code = guardR b (AdapterError code)"

definition validate_file_operation :: "helper_operation \<Rightarrow> unit res" where
  "validate_file_operation h =
     bindR (adapter_guard (ho_target h = Some drop_in_path \<and> ho_unit h = None) ''target_not_allowed'') (\<lambda>_.
     bindR (adapter_guard (opt_ok is_digest (ho_before h)) ''invalid_hash'') (\<lambda>_.
     if ho_kind h = HK_REMOVE_CREATED then
       bindR (adapter_guard (ho_staged h = None \<and> ho_before h \<noteq> None) ''invalid_operation'') (\<lambda>_.
       adapter_guard (ho_mode h = None \<and> ho_uid h = None \<and> ho_gid h = None) ''invalid_metadata'')
     else
       bindR (adapter_guard (case ho_staged h of None \<Rightarrow> False | Some d \<Rightarrow> is_digest d) ''invalid_hash'') (\<lambda>_.
       bindR (adapter_guard (ho_mode h = Some 420) ''invalid_metadata'') (\<lambda>_.
       adapter_guard (ho_uid h = Some 0 \<and> ho_gid h = Some 0) ''invalid_metadata''))))"

definition no_parameters :: "helper_operation \<Rightarrow> bool" where
  "no_parameters h \<longleftrightarrow> ho_target h = None \<and> ho_before h = None \<and> ho_staged h = None \<and> ho_mode h = None
     \<and> ho_uid h = None \<and> ho_gid h = None"

definition validate_operation :: "helper_operation \<Rightarrow> unit res" where
  "validate_operation h =
     bindR (adapter_guard (is_identifier (ho_id h)) ''invalid_operation'') (\<lambda>_.
     case ho_kind h of
       HK_DAEMON_RELOAD \<Rightarrow> adapter_guard (no_parameters h \<and> ho_unit h = None) ''invalid_operation''
     | RESTART_UNIT \<Rightarrow> adapter_guard (no_parameters h \<and> ho_unit h = Some ollama_unit) ''unit_not_allowed''
     | _ \<Rightarrow> validate_file_operation h)"

text \<open>The validity window; both timestamps must have a zone.\<close>

definition in_window :: "time \<Rightarrow> helper_request \<Rightarrow> unit res" where
  "in_window now r = (case (hq_requested r, hq_expires r) of
       (Aware a, Aware e) \<Rightarrow>
         adapter_guard (0 < e - a \<and> e - a \<le> max_request_lifetime \<and> a \<le> now \<and> now < e) ''expired_request''
     | _ \<Rightarrow> Inl (AdapterError ''invalid_expiry''))"

definition validate_request :: "runtime \<Rightarrow> helper_request \<Rightarrow> str \<Rightarrow> time \<Rightarrow> unit res" where
  "validate_request rt r expected_hash now =
     bindR (adapter_guard (hq_version r = protocol_version) ''unsupported_protocol'') (\<lambda>_.
     bindR (eachR (\<lambda>x. adapter_guard (is_identifier x) ''invalid_identifier'') [hq_id r, hq_host r, hq_plan r]) (\<lambda>_.
     bindR (eachR (\<lambda>x. adapter_guard (is_digest x) ''invalid_hash'') [hq_change_set r, hq_hash r, expected_hash]) (\<lambda>_.
     bindR (adapter_guard (hq_hash r = expected_hash) ''request_hash_mismatch'') (\<lambda>_.
     bindR (helper_hash rt (r\<lparr>hq_hash := []\<rparr>)) (\<lambda>h.
     bindR (adapter_guard (h = hq_hash r) ''request_hash_mismatch'') (\<lambda>_.
     bindR (adapter_guard (complete_binding [hq_approval r, hq_backup r, hq_manifest r]) ''invalid_workflow_binding'') (\<lambda>_.
     bindR (adapter_guard (opt_ok is_identifier (hq_approval r)) ''invalid_identifier'') (\<lambda>_.
     bindR (adapter_guard (opt_ok is_identifier (hq_backup r)) ''invalid_identifier'') (\<lambda>_.
     bindR (adapter_guard (opt_ok is_digest (hq_manifest r)) ''invalid_hash'') (\<lambda>_.
     bindR (in_window now r) (\<lambda>_.
     bindR (adapter_guard (hq_operations r \<noteq> [] \<and> distinct (map ho_id (hq_operations r))) ''invalid_operations'') (\<lambda>_.
     eachR validate_operation (hq_operations r)))))))))))))"

section \<open>The two ends\<close>

definition encode_request :: "runtime \<Rightarrow> helper_request \<Rightarrow> bytes res" where
  "encode_request rt r =
     bindR (validate_request rt r (hq_hash r) (case hq_requested r of Aware t \<Rightarrow> t | Naive _ \<Rightarrow> 0)) (\<lambda>_.
     bindR (helper_bytes rt r) (\<lambda>b.
     if max_request_bytes < int (length b) then Inl (AdapterError ''request_too_large'') else Inr b))"

definition decode_request :: "runtime \<Rightarrow> bytes \<Rightarrow> str \<Rightarrow> time \<Rightarrow> helper_request res" where
  "decode_request rt content expected_hash now =
     (if max_request_bytes < int (length content) then Inl (AdapterError ''request_too_large'')
      else case bindR (bindR (utf8_decode content) jloads) (decode_helper rt) of
        Inl e \<Rightarrow> Inl (if e \<in> {UnicodeError, JSONDecodeError, KeyError, TypeError, ValueError}
                      then AdapterError ''invalid_helper_request'' else e)
      | Inr r \<Rightarrow>
          bindR (helper_bytes rt r) (\<lambda>b.
          bindR (adapter_guard (b = content) ''invalid_helper_request'') (\<lambda>_.
          bindR (validate_request rt r expected_hash now) (\<lambda>_. Inr r))))"

section \<open>What validation establishes\<close>

lemma adapter_guard_Inr [simp]: "adapter_guard b c = Inr u \<longleftrightarrow> b"
  by (simp add: adapter_guard_def)

lemma identifier_code_points: "is_identifier s \<Longrightarrow> code_points s \<and> s \<noteq> []"
  by (auto simp: is_identifier_def ascii_alnum_def code_points_def list_all_iff split: list.splits)

text \<open>The five operations a request may hold.\<close>

definition installs :: "helper_operation \<Rightarrow> bool" where
  "installs h \<longleftrightarrow> ho_kind h \<in> {ATOMIC_REPLACE, RESTORE_FILE} \<and> ho_target h = Some drop_in_path \<and> ho_unit h = None
     \<and> opt_ok is_digest (ho_before h) \<and> (\<exists>d. ho_staged h = Some d \<and> is_digest d)
     \<and> ho_mode h = Some 420 \<and> ho_uid h = Some 0 \<and> ho_gid h = Some 0"

definition removes :: "helper_operation \<Rightarrow> bool" where
  "removes h \<longleftrightarrow> ho_kind h = HK_REMOVE_CREATED \<and> ho_target h = Some drop_in_path \<and> ho_unit h = None
     \<and> (\<exists>d. ho_before h = Some d \<and> is_digest d) \<and> ho_staged h = None
     \<and> ho_mode h = None \<and> ho_uid h = None \<and> ho_gid h = None"

definition serves :: "helper_operation \<Rightarrow> bool" where
  "serves h \<longleftrightarrow> no_parameters h \<and>
     (ho_kind h = HK_DAEMON_RELOAD \<and> ho_unit h = None \<or> ho_kind h = RESTART_UNIT \<and> ho_unit h = Some ollama_unit)"

lemma validate_operation_Inr:
  "validate_operation h = Inr u \<longleftrightarrow> is_identifier (ho_id h) \<and> (installs h \<or> removes h \<or> serves h)"
  by (cases "ho_kind h")
    (auto simp: validate_operation_def validate_file_operation_def bindR_eq_Inr installs_def removes_def serves_def
      opt_ok_def split: option.splits)

lemma in_window_Inr:
  "in_window now r = Inr u \<longleftrightarrow> (\<exists>a e. hq_requested r = Aware a \<and> hq_expires r = Aware e
     \<and> a \<le> now \<and> now < e \<and> e - a \<le> max_request_lifetime)"
  by (auto simp: in_window_def split: iso_time.splits)

definition bound_hash :: "runtime \<Rightarrow> helper_request \<Rightarrow> str \<Rightarrow> bool" where
  "bound_hash rt r h \<longleftrightarrow> hq_hash r = h \<and> is_digest h \<and> helper_hash rt (r\<lparr>hq_hash := []\<rparr>) = Inr h"

definition well_formed :: "helper_request \<Rightarrow> bool" where
  "well_formed r \<longleftrightarrow> hq_version r = 1
     \<and> is_identifier (hq_id r) \<and> is_identifier (hq_host r) \<and> is_identifier (hq_plan r) \<and> is_digest (hq_change_set r)
     \<and> complete_binding [hq_approval r, hq_backup r, hq_manifest r]
     \<and> opt_ok is_identifier (hq_approval r) \<and> opt_ok is_identifier (hq_backup r) \<and> opt_ok is_digest (hq_manifest r)
     \<and> hq_operations r \<noteq> [] \<and> distinct (map ho_id (hq_operations r))
     \<and> (\<forall>h\<in>set (hq_operations r). is_identifier (ho_id h) \<and> (installs h \<or> removes h \<or> serves h))"

lemma validate_request_Inr:
  "validate_request rt r h now = Inr u \<longleftrightarrow> well_formed r \<and> bound_hash rt r h \<and> in_window now r = Inr ()"
  by (auto simp: validate_request_def bindR_eq_Inr well_formed_def bound_hash_def validate_operation_Inr protocol_version_def)

lemma decode_request_Inr:
  assumes "decode_request rt b h now = Inr r"
  shows "helper_bytes rt r = Inr b" "validate_request rt r h now = Inr ()" "int (length b) \<le> max_request_bytes"
    "bindR (bindR (utf8_decode b) jloads) (decode_helper rt) = Inr r"
  using assms by (auto simp: decode_request_def bindR_eq_Inr split: sum.splits if_splits)

section \<open>Reading a request back\<close>

lemma parse_kind_value [simp]: "parse_helper_kind (helper_kind_value k) = Inr k" "helper_kind_value k \<noteq> []"
  "code_points (helper_kind_value k)"
  by (cases k; simp add: parse_helper_kind_def helper_kinds_def code_points_def)+

lemma fields_canon:
  assumes "set (map fst kvs) = set ks"
  shows "has_fields (canon (JObj kvs)) ks"
proof -
  have "set (map fst (map (\<lambda>(k, v). (k, canon v)) (sort_key fst kvs))) = fst ` set kvs"
    by (force simp: image_image case_prod_beta)
  then show ?thesis using assms by (simp add: has_fields_def)
qed

lemma decode_operation_canon:
  assumes "ho_id h \<noteq> []"
  shows "decode_operation (canon (helper_operation_json h)) = Inr h"
proof -
  have f: "has_fields (canon (helper_operation_json h)) operation_fields"
    unfolding helper_operation_json_def operation_fields_def by (rule fields_canon) auto
  show ?thesis using assms f unfolding decode_operation_def helper_operation_json_def
    by (simp add: read_back del: canon.simps(2))
qed

lemma decode_operations_canon:
  "\<forall>h\<in>set hs. ho_id h \<noteq> [] \<Longrightarrow> mapR decode_operation (map canon (map helper_operation_json hs)) = Inr hs"
  by (induction hs) (simp_all add: decode_operation_canon)

lemma parse_stamp_text: "stamp_ok rt t \<Longrightarrow> stamp_text rt (Aware t) \<noteq> [] \<and> parse_stamp rt (stamp_text rt (Aware t)) = Inr (Aware t)"
  by (simp add: stamp_text_def parse_stamp_def stamp_ok_def text_ok_def)

lemma decode_helper_canon:
  assumes "well_formed r" and "is_digest (hq_hash r)"
    and "hq_requested r = Aware a" "hq_expires r = Aware e" "stamp_ok rt a" "stamp_ok rt e"
  shows "decode_helper rt (canon (helper_request_json rt r)) = Inr r"
proof -
  let ?v = "helper_request_json rt r"
  have f: "has_fields (canon ?v) request_fields"
    unfolding helper_request_json_def request_fields_def by (rule fields_canon) auto
  have i: "hq_id r \<noteq> []" "hq_host r \<noteq> []" "hq_plan r \<noteq> []" "hq_change_set r \<noteq> []" "hq_hash r \<noteq> []"
    using assms(1,2) identifier_code_points digest_code_points by (auto simp: well_formed_def)
  have "\<forall>h\<in>set (hq_operations r). ho_id h \<noteq> []"
    using assms(1) identifier_code_points by (auto simp: well_formed_def)
  then have o: "mapR decode_operation (map canon (map helper_operation_json (hq_operations r))) = Inr (hq_operations r)"
    by (rule decode_operations_canon)
  have t: "stamp_text rt (Aware a) \<noteq> []" "stamp_text rt (Aware e) \<noteq> []"
    "parse_stamp rt (stamp_text rt (Aware a)) = Inr (Aware a)" "parse_stamp rt (stamp_text rt (Aware e)) = Inr (Aware e)"
    using parse_stamp_text assms(5,6) by auto
  show ?thesis using i t o f unfolding decode_helper_def helper_request_json_def
    by (simp add: read_back obj_get_canon assms(3,4) del: canon.simps(2))
qed


lemma storable_small: "\<bar>i\<bar> < 10000 \<Longrightarrow> storable (JInt i)"
proof -
  assume "\<bar>i\<bar> < 10000"
  then have n: "nat \<bar>i\<bar> < 10000" by simp
  have "length (dec_nat m) \<le> 4" if "m < 10000" for m
    using that by (simp add: dec_nat.simps [of m] dec_nat.simps [of "m div 10"] dec_nat.simps [of "m div 10 div 10"]
        dec_nat.simps [of "m div 10 div 10 div 10"])
  from this [OF n] show ?thesis by (simp add: too_many_digits_def)
qed

lemma storable_operation:
  assumes "is_identifier (ho_id h)" and "installs h \<or> removes h \<or> serves h"
  shows "storable (helper_operation_json h)"
proof -
  have "code_points drop_in_path" "code_points ollama_unit"
    by (simp_all add: drop_in_path_def ollama_unit_def)
  then have "opt_ok code_points (ho_target h)" "opt_ok code_points (ho_unit h)" "opt_ok code_points (ho_before h)"
    "opt_ok code_points (ho_staged h)"
    using assms(2) digest_code_points
    by (auto simp: installs_def removes_def serves_def no_parameters_def opt_ok_def split: option.splits)
  moreover have "\<forall>x\<in>{ho_mode h, ho_uid h, ho_gid h}. \<forall>i. x = Some i \<longrightarrow> \<bar>i\<bar> < 10000"
    using assms(2) by (auto simp: installs_def removes_def serves_def no_parameters_def)
  ultimately show ?thesis using identifier_code_points [OF assms(1)]
    by (auto simp: helper_operation_json_def code_points_def [symmetric] simp del: storable.simps(3)
        intro!: storable_jopt storable_jopt_int storable_small)
qed

lemma storable_request:
  assumes "well_formed r" and "code_points (hq_hash r)" and "code_points (stamp_text rt (hq_requested r))"
    and "code_points (stamp_text rt (hq_expires r))"
  shows "storable (helper_request_json rt r)"
proof -
  have "opt_ok code_points (hq_approval r)" "opt_ok code_points (hq_backup r)" "opt_ok code_points (hq_manifest r)"
    using assms(1) by (auto simp: well_formed_def identifier_code_points digest_code_points elim!: opt_ok_mono)
  moreover have "storable (JInt (hq_version r))" using assms(1) by (intro storable_small) (simp add: well_formed_def)
  moreover have "code_points (hq_id r)" "code_points (hq_host r)" "code_points (hq_plan r)" "code_points (hq_change_set r)"
    using assms(1) identifier_code_points digest_code_points by (auto simp: well_formed_def)
  moreover have "\<forall>h\<in>set (hq_operations r). storable (helper_operation_json h)"
    using assms(1) storable_operation by (auto simp: well_formed_def)
  ultimately show ?thesis using assms
    by (auto simp: helper_request_json_def code_points_def [symmetric] simp del: storable.simps(3) intro!: storable_jopt)
qed


section \<open>Properties\<close>

lemma encoded_decodes:
  assumes "well_formed r" and "bound_hash rt r h" and "helper_bytes rt r = Inr b" "int (length b) \<le> max_request_bytes"
    and "hq_requested r = Aware a" "hq_expires r = Aware e" "stamp_ok rt a" "stamp_ok rt e"
    and "in_window now r = Inr ()"
  shows "decode_request rt b h now = Inr r"
proof -
  have v: "validate_request rt r h now = Inr ()" using assms by (simp add: validate_request_Inr)
  have "storable (helper_request_json rt r)"
    using assms digest_code_points
    by (intro storable_request) (auto simp: bound_hash_def stamp_text_def stamp_ok_def text_ok_def)
  then have "jloads (dumps False (helper_request_json rt r)) = Inr (canon (helper_request_json rt r))"
    by (rule jloads_dumps)
  moreover have "utf8_decode b = Inr (dumps False (helper_request_json rt r))"
    using assms(3) utf8_decode_encode by (simp add: helper_bytes_def)
  moreover have "decode_helper rt (canon (helper_request_json rt r)) = Inr r"
    using assms(2) by (intro decode_helper_canon [OF assms(1) _ assms(5-8)]) (auto simp: bound_hash_def)
  ultimately show ?thesis using assms(3,4) v by (simp add: decode_request_def adapter_guard_def)
qed

lemma encode_request_Inr:
  assumes "encode_request rt r = Inr b"
  shows "well_formed r" "bound_hash rt r (hq_hash r)" "helper_bytes rt r = Inr b" "int (length b) \<le> max_request_bytes"
  using assms by (auto simp: encode_request_def bindR_eq_Inr validate_request_Inr split: if_splits)

text \<open>
  Property C38. The two ends of the protocol agree: what \<open>encode_request\<close> emits, \<open>decode_request\<close> reads back
  as exactly the request at every time of its validity window, given that the clock's timestamps print and
  parse back.
\<close>

theorem request_roundtrip:
  assumes "encode_request rt r = Inr b"
    and "hq_requested r = Aware a" "hq_expires r = Aware e" "stamp_ok rt a" "stamp_ok rt e"
    and "a \<le> now" "now < e"
  shows "decode_request rt b (hq_hash r) now = Inr r"
proof -
  have "in_window a r = Inr ()"
    using assms(1,2) by (auto simp: encode_request_def bindR_eq_Inr validate_request_Inr split: if_splits)
  then have "in_window now r = Inr ()" using assms by (auto simp: in_window_Inr)
  then show ?thesis by (rule encoded_decodes [OF encode_request_Inr [OF assms(1)] assms(2-5)])
qed

text \<open>
  Property C37. The helper acts only on what the protocol allows: a decoded request is the canonical text of
  itself, carries the hash it was invoked with, which is the digest of its own content, lies in a validity
  window of at most ten minutes, and holds at least one operation, each with its own identifier and each
  either the installation of the drop-in as root with mode 0644 and a declared digest, its removal when it
  has a declared digest, a daemon reload, or a restart of \<open>ollama.service\<close>.
\<close>

theorem accepted_request_safe:
  assumes "decode_request rt b h now = Inr r"
  shows "helper_bytes rt r = Inr b \<and> int (length b) \<le> max_request_bytes
    \<and> hq_hash r = h \<and> helper_hash rt (r\<lparr>hq_hash := []\<rparr>) = Inr h
    \<and> (\<exists>a e. hq_requested r = Aware a \<and> hq_expires r = Aware e \<and> a \<le> now \<and> now < e \<and> e \<le> a + 600000000)
    \<and> hq_operations r \<noteq> [] \<and> distinct (map ho_id (hq_operations r))
    \<and> (\<forall>x\<in>set (hq_operations r). installs x \<or> removes x \<or> serves x)"
proof -
  note d = decode_request_Inr [OF assms]
  then have v: "well_formed r" "bound_hash rt r h" "in_window now r = Inr ()" by (simp_all add: validate_request_Inr)
  then obtain a e where "hq_requested r = Aware a" "hq_expires r = Aware e" "a \<le> now" "now < e"
    "e - a \<le> max_request_lifetime" by (auto simp: in_window_Inr)
  then have "\<exists>a e. hq_requested r = Aware a \<and> hq_expires r = Aware e \<and> a \<le> now \<and> now < e \<and> e \<le> a + 600000000"
    by (auto simp: max_request_lifetime_def)
  with d v show ?thesis by (auto simp: well_formed_def bound_hash_def)
qed

lemma erased_bytes:
  assumes "well_formed r" and "helper_hash rt (r\<lparr>hq_hash := []\<rparr>) = Inr h"
    and "hq_requested r = Aware a" "hq_expires r = Aware e" "\<forall>t. code_points (isoformat rt t)"
  shows "\<exists>b. utf8_encode (dumps False (helper_request_json rt (r\<lparr>hq_hash := []\<rparr>))) = Inr b \<and> sha256 rt b = h
    \<and> storable (helper_request_json rt (r\<lparr>hq_hash := []\<rparr>))"
proof -
  have "storable (helper_request_json rt (r\<lparr>hq_hash := []\<rparr>))"
    using assms by (intro storable_request) (auto simp: well_formed_def stamp_text_def)
  then show ?thesis using assms(2) by (auto simp: helper_hash_def helper_bytes_def bindR_eq_Inr)
qed

text \<open>
  Property C40. The hash the user authorises stands for one request: unless their contents collide under the
  digest, two byte strings the helper accepts under the same hash, at whatever times, are the same bytes and decode to the
  same request.
\<close>

theorem request_hash_binds:
  assumes "decode_request rt b h now = Inr r" and "decode_request rt c h later = Inr s"
    and "inj_on (sha256 rt) {x. helper_bytes rt (r\<lparr>hq_hash := []\<rparr>) = Inr x \<or> helper_bytes rt (s\<lparr>hq_hash := []\<rparr>) = Inr x}"
    and "\<forall>t. code_points (isoformat rt t)"
  shows "r = s \<and> b = c"
proof -
  note d = decode_request_Inr [OF assms(1)] and e = decode_request_Inr [OF assms(2)]
  have w: "well_formed r" "well_formed s" "bound_hash rt r h" "bound_hash rt s h"
    "in_window now r = Inr ()" "in_window later s = Inr ()"
    using d(2) e(2) by (simp_all add: validate_request_Inr)
  obtain a a' where ra: "hq_requested r = Aware a" "hq_expires r = Aware a'" using w(5) by (auto simp: in_window_Inr)
  obtain k k' where sa: "hq_requested s = Aware k" "hq_expires s = Aware k'" using w(6) by (auto simp: in_window_Inr)
  let ?j = "\<lambda>r. helper_request_json rt (r\<lparr>hq_hash := []\<rparr>)"
  obtain x where x: "utf8_encode (dumps False (?j r)) = Inr x" "sha256 rt x = h" "storable (?j r)"
    using erased_bytes [OF w(1) _ ra assms(4)] w(3) by (auto simp: bound_hash_def)
  obtain y where y: "utf8_encode (dumps False (?j s)) = Inr y" "sha256 rt y = h" "storable (?j s)"
    using erased_bytes [OF w(2) _ sa assms(4)] w(4) by (auto simp: bound_hash_def)
  have "helper_bytes rt (r\<lparr>hq_hash := []\<rparr>) = Inr x" "helper_bytes rt (s\<lparr>hq_hash := []\<rparr>) = Inr y"
    unfolding helper_bytes_def by (rule x(1), rule y(1))
  then have "x = y" by - (rule inj_onD [OF assms(3)], simp_all add: x(2) y(2))
  then have "dumps False (?j r) = dumps False (?j s)" using x(1) y(1) utf8_decode_encode by (metis sum.inject(2))
  then have "canon (?j r) = canon (?j s)" using jloads_dumps [OF x(3)] jloads_dumps [OF y(3)] by simp
  then have j: "canon (helper_request_json rt r) = canon (helper_request_json rt s)"
    using w(3,4) by (simp add: helper_request_json_def bound_hash_def)
  have l: "bindR (bindR (utf8_decode b) jloads) (decode_helper rt) = decode_helper rt (canon (helper_request_json rt r))"
    if "helper_bytes rt r = Inr b" "well_formed r" "bound_hash rt r h" "in_window n r = Inr ()" for b r n
  proof -
    have "storable (helper_request_json rt r)"
      using that assms(4) digest_code_points
      by (intro storable_request) (auto simp: bound_hash_def in_window_Inr stamp_text_def)
    then show ?thesis using that(1) jloads_dumps utf8_decode_encode by (fastforce simp: helper_bytes_def)
  qed
  have "(Inr r :: helper_request res) = Inr s" using l [OF d(1) w(1,3,5)] l [OF e(1) w(2,4,6)] d(4) e(4) j by metis
  then have "r = s" by simp
  then show ?thesis using d(1) e(1) by simp
qed


section \<open>An example\<close>

definition toy_request :: "str \<Rightarrow> helper_request" where
  "toy_request h = \<lparr>hq_version = 1, hq_id = lit ''o'', hq_host = lit ''h'', hq_plan = lit ''p'',
     hq_change_set = replicate 64 48,
     hq_operations = [\<lparr>ho_id = lit ''w'', ho_kind = ATOMIC_REPLACE, ho_target = Some drop_in_path, ho_unit = None,
        ho_before = None, ho_staged = Some (replicate 64 49), ho_mode = Some 420, ho_uid = Some 0, ho_gid = Some 0\<rparr>],
     hq_requested = Aware 10, hq_expires = Aware 20, hq_hash = h, hq_approval = None, hq_backup = None,
     hq_manifest = None\<rparr>"

definition toy_request_hash :: str where
  "toy_request_hash = replicate 61 48 @ lit ''6d9''"

lemma toy_request_hash:
  "is_digest toy_request_hash \<and> helper_hash toy_runtime (toy_request []) = Inr toy_request_hash"
  by code_simp

lemma toy_request_well_formed: "well_formed (toy_request h)"
proof -
  have "is_identifier (lit ''o'')" "is_identifier (lit ''h'')" "is_identifier (lit ''p'')" "is_identifier (lit ''w'')"
    "is_digest (replicate 64 48)" "is_digest (replicate 64 49)" by code_simp+
  then show ?thesis by (simp add: well_formed_def toy_request_def installs_def opt_ok_def complete_binding_def)
qed

lemma toy_request_stamps: "stamp_ok toy_runtime 10" "stamp_ok toy_runtime 20"
  by code_simp+


lemma toy_request_encodes:
  "\<exists>b. helper_bytes toy_runtime (toy_request toy_request_hash) = Inr b \<and> int (length b) \<le> max_request_bytes"
proof -
  have "case helper_bytes toy_runtime (toy_request toy_request_hash) of Inl _ \<Rightarrow> False | Inr b \<Rightarrow> int (length b) \<le> max_request_bytes"
    by code_simp
  then show ?thesis by (auto split: sum.splits)
qed

lemma toy_request_bound: "bound_hash toy_runtime (toy_request toy_request_hash) toy_request_hash"
  using toy_request_hash by (simp add: bound_hash_def toy_request_def)

lemma toy_request_window: "10 \<le> n \<Longrightarrow> n < 20 \<Longrightarrow> in_window n (toy_request h) = Inr ()"
  by (simp add: in_window_Inr toy_request_def max_request_lifetime_def)

lemma toy_request_times: "hq_requested (toy_request h) = Aware 10" "hq_expires (toy_request h) = Aware 20"
  "hq_hash (toy_request h) = h"
  by (simp_all add: toy_request_def)

lemma toy_request_decodes:
  "\<exists>b. encode_request toy_runtime (toy_request toy_request_hash) = Inr b \<and>
     (\<forall>n\<in>{10..<20}. decode_request toy_runtime b toy_request_hash n = Inr (toy_request toy_request_hash))"
proof -
  obtain b where b: "helper_bytes toy_runtime (toy_request toy_request_hash) = Inr b" "int (length b) \<le> max_request_bytes"
    using toy_request_encodes by blast
  have "decode_request toy_runtime b toy_request_hash n = Inr (toy_request toy_request_hash)" if n: "n \<in> {10..<20}" for n
    using n by (intro encoded_decodes [OF toy_request_well_formed toy_request_bound b toy_request_times(1,2) toy_request_stamps]
        toy_request_window) auto
  moreover have "validate_request toy_runtime (toy_request toy_request_hash) toy_request_hash 10 = Inr ()"
    unfolding validate_request_Inr using toy_request_well_formed toy_request_bound toy_request_window by simp
  ultimately show ?thesis using b by (auto simp: encode_request_def toy_request_times)
qed

theorem request_roundtrip_witness:
  "\<exists>b. encode_request toy_runtime (toy_request toy_request_hash) = Inr b \<and>
     decode_request toy_runtime b toy_request_hash 19 = Inr (toy_request toy_request_hash)"
proof -
  obtain b where b: "encode_request toy_runtime (toy_request toy_request_hash) = Inr b" using toy_request_decodes by blast
  with request_roundtrip [OF b toy_request_times(1,2) toy_request_stamps, of 19] show ?thesis
    by (simp add: toy_request_times)
qed

theorem accepted_request_safe_witness:
  "\<exists>b. decode_request toy_runtime b toy_request_hash 15 = Inr (toy_request toy_request_hash) \<and>
     installs (hd (hq_operations (toy_request toy_request_hash)))"
proof -
  obtain b where b: "decode_request toy_runtime b toy_request_hash 15 = Inr (toy_request toy_request_hash)"
    using toy_request_decodes by fastforce
  have m: "hd (hq_operations (toy_request toy_request_hash)) \<in> set (hq_operations (toy_request toy_request_hash))"
    "ho_kind (hd (hq_operations (toy_request toy_request_hash))) = ATOMIC_REPLACE"
    by (simp_all add: toy_request_def)
  have "\<forall>x\<in>set (hq_operations (toy_request toy_request_hash)). installs x \<or> removes x \<or> serves x"
    using accepted_request_safe [OF b] by blast
  from bspec [OF this m(1)] have "installs (hd (hq_operations (toy_request toy_request_hash)))"
    using m(2) by (simp add: removes_def serves_def)
  with b show ?thesis by blast
qed

theorem request_hash_binds_witness:
  "\<exists>b c. decode_request toy_runtime b toy_request_hash 12 = Inr (toy_request toy_request_hash) \<and>
     decode_request toy_runtime c toy_request_hash 15 = Inr (toy_request toy_request_hash) \<and> b = c"
proof -
  obtain b where b: "decode_request toy_runtime b toy_request_hash n = Inr (toy_request toy_request_hash)"
    if "n \<in> {10..<20}" for n
    using toy_request_decodes by blast
  have d: "decode_request toy_runtime b toy_request_hash 12 = Inr (toy_request toy_request_hash)"
    "decode_request toy_runtime b toy_request_hash 15 = Inr (toy_request toy_request_hash)"
    using b [of 12] b [of 15] by simp_all
  have "\<forall>t. code_points (isoformat toy_runtime t)"
    by (auto simp: code_points_def toy_system_def runtime.truncate_def dec_int_def dest!: dec_nat_isdigit [unfolded list_all_iff, rule_format]
        simp: isdigit_def)
  moreover have "inj_on (sha256 toy_runtime) {x. helper_bytes toy_runtime (toy_request toy_request_hash\<lparr>hq_hash := []\<rparr>) = Inr x
      \<or> helper_bytes toy_runtime (toy_request toy_request_hash\<lparr>hq_hash := []\<rparr>) = Inr x}"
    by (auto simp: inj_on_def)
  ultimately have "b = b" using request_hash_binds [OF d] by blast
  then show ?thesis using d by blast
qed

end
