(* ===== verification/HelperFiles.thy ===== *)
theory HelperFiles
  imports Backup HelperProtocol
begin

text \<open>
  The files of the privileged helper: the staging area in which the user's program leaves a request and its
  contents (\<open>infrastructure/helper_staging.py\<close>) and the receipts with which the helper claims an operation
  once (\<open>infrastructure/helper_receipts.py\<close>).

  A path is looked up at \<open>resolved_target\<close>: its parents' symbolic links followed, its own not, and a link is taken to lead to something.  The umask
  is taken to remove nothing from the modes 0700 and 0755, \<open>mkdir(parents=True)\<close> records the last directory
  only, and the names in a directory, where the code lists one, are an argument.
\<close>

section \<open>Directories\<close>

definition entry_at :: "system \<Rightarrow> str \<Rightarrow> node option io" where
  "entry_at sys p = node_at (resolved_target sys p)"

text \<open>\<open>path.is_dir() and not path.is_symlink()\<close>, with \<open>path.stat(follow_symlinks=False)\<close>\<close>

definition stat_dir :: "system \<Rightarrow> str \<Rightarrow> dir_info option io" where
  "stat_dir sys p = getW (\<lambda>w. if fs w (resolved_target sys p) = Some NotRegular then dirs w (resolved_target sys p) else None)"

text \<open>\<open>os.mkdir\<close>: whether it made the directory, or found something there (\<open>FileExistsError\<close>).\<close>

definition make_dir :: "system \<Rightarrow> str \<Rightarrow> int \<Rightarrow> bool io" where
  "make_dir sys p m =
     bindW os_step (\<lambda>_. bindW (entry_at sys p) (\<lambda>n.
       if n \<noteq> None then retW False
       else bindW (modifyW (\<lambda>w. w\<lparr>fs := (fs w)(resolved_target sys p \<mapsto> NotRegular),
              dirs := (dirs w)(resolved_target sys p \<mapsto> \<lparr>dr_mode = m, dr_uid = euid sys, dr_gid = egid sys\<rparr>)\<rparr>))
            (\<lambda>_. retW True)))"

text \<open>\<open>mkdir(exist_ok=True)\<close>: an \<open>OSError\<close> does not matter when there is a directory, or a link to one.\<close>

definition make_dir_ok :: "system \<Rightarrow> str \<Rightarrow> int \<Rightarrow> unit io" where
  "make_dir_ok sys p m =
     bindW (tryW (make_dir sys p m) (\<lambda>e. if e = OSError then retW False else raiseW e)) (\<lambda>made.
     bindW (entry_at sys p) (\<lambda>n. bindW (stat_dir sys p) (\<lambda>d.
     if made \<or> n = Some SymLink \<or> d \<noteq> None then retW () else raiseW OSError)))"

definition chmod_dir :: "system \<Rightarrow> str \<Rightarrow> int \<Rightarrow> unit io" where
  "chmod_dir sys p m =
     bindW os_step (\<lambda>_. modifyW (\<lambda>w. w\<lparr>dirs := (dirs w)(resolved_target sys p :=
       map_option (\<lambda>d. d\<lparr>dr_mode := m\<rparr>) (dirs w (resolved_target sys p)))\<rparr>))"

section \<open>Staging\<close>

record staging_store =
  sg_root :: str
  sg_owner :: int

definition checkW :: "bool \<Rightarrow> string \<Rightarrow> unit io" where
  "checkW b c = guardW b (AdapterError c)"

definition private_dir :: "system \<Rightarrow> staging_store \<Rightarrow> str \<Rightarrow> unit io" where
  "private_dir sys sg p = bindW (stat_dir sys p) (\<lambda>d. case d of
       None \<Rightarrow> raiseW (AdapterError ''unsafe_staging'')
     | Some d \<Rightarrow> checkW (dr_uid d = sg_owner sg \<and> dr_mode d = 448) ''unsafe_staging'')"

text \<open>\<open>mkdir\<close> and \<open>chmod\<close> to 0700 unless something is there.\<close>

definition ensure_dir :: "system \<Rightarrow> str \<Rightarrow> unit io" where
  "ensure_dir sys p = bindW (entry_at sys p) (\<lambda>n.
     if n \<noteq> None then retW () else bindW (make_dir sys p 448) (\<lambda>_. chmod_dir sys p 448))"

definition validate_root :: "system \<Rightarrow> staging_store \<Rightarrow> bool \<Rightarrow> unit io" where
  "validate_root sys sg create =
     bindW (if create then ensure_dir sys (sg_root sg) else retW ()) (\<lambda>_. private_dir sys sg (sg_root sg))"

definition operation_directory :: "system \<Rightarrow> staging_store \<Rightarrow> str \<Rightarrow> bool \<Rightarrow> str io" where
  "operation_directory sys sg oid create =
     bindW (checkW (oid \<noteq> [] \<and> path_name oid = oid) ''invalid_operation_id'') (\<lambda>_.
     bindW (validate_root sys sg create) (\<lambda>_.
     bindW (if create then ensure_dir sys (path_join (sg_root sg) oid) else retW ()) (\<lambda>_.
     bindW (private_dir sys sg (path_join (sg_root sg) oid)) (\<lambda>_.
     bindW (checkW (within (realpath sys (path_join (sg_root sg) oid)) (realpath sys (sg_root sg))) ''unsafe_staging'') (\<lambda>_.
     retW (path_join (sg_root sg) oid))))))"

definition staged_operation :: "helper_request \<Rightarrow> str \<Rightarrow> helper_operation res" where
  "staged_operation r oid = (case filter (\<lambda>h. ho_id h = oid) (hq_operations r) of
      [h] \<Rightarrow> Inr h | _ \<Rightarrow> Inl (AdapterError ''operation_not_found''))"

definition accepts_content :: "helper_operation \<Rightarrow> bool" where
  "accepts_content h \<longleftrightarrow> ho_kind h \<in> {ATOMIC_REPLACE, RESTORE_FILE}"

definition validate_now :: "system \<Rightarrow> helper_request \<Rightarrow> str \<Rightarrow> unit io" where
  "validate_now sys r h = bindW utc_now (\<lambda>now. liftR (validate_request (runtime.truncate sys) r h now))"

definition content_path :: "str \<Rightarrow> helper_operation \<Rightarrow> str" where
  "content_path d h = path_join d (ho_id h @ lit ''.content'')"

definition stage :: "system \<Rightarrow> staging_store \<Rightarrow> helper_request \<Rightarrow> str \<Rightarrow> bytes \<Rightarrow> str io" where
  "stage sys sg r oid content =
     bindW (validate_now sys r (hq_hash r)) (\<lambda>_.
     bindW (liftR (staged_operation r oid)) (\<lambda>h.
     bindW (checkW (accepts_content h) ''invalid_staging_operation'') (\<lambda>_.
     bindW (checkW (int (length content) \<le> max_item_bytes) ''item_too_large'') (\<lambda>_.
     bindW (checkW (Some (sha256 sys content) = ho_staged h) ''staged_hash_mismatch'') (\<lambda>_.
     bindW (operation_directory sys sg (hq_id r) True) (\<lambda>d.
     bindW (entry_at sys (content_path d h)) (\<lambda>n.
     bindW (checkW (n = None) ''staged_content_exists'') (\<lambda>_.
     bindW (atomic_write sys (resolved_target sys (content_path d h)) content 384) (\<lambda>_.
     retW (content_path d h))))))))))"

definition request_path :: "str \<Rightarrow> str" where
  "request_path d = path_join d (lit ''request.json'')"

definition stage_request :: "system \<Rightarrow> staging_store \<Rightarrow> helper_request \<Rightarrow> str io" where
  "stage_request sys sg r =
     bindW (validate_now sys r (hq_hash r)) (\<lambda>_.
     bindW (operation_directory sys sg (hq_id r) True) (\<lambda>d.
     bindW (entry_at sys (request_path d)) (\<lambda>n.
     bindW (checkW (n = None) ''staged_request_exists'') (\<lambda>_.
     bindW (liftR (encode_request (runtime.truncate sys) r)) (\<lambda>b.
     bindW (atomic_write sys (resolved_target sys (request_path d)) b 384) (\<lambda>_.
     retW (request_path d)))))))"

definition staged_verify :: "system \<Rightarrow> staging_store \<Rightarrow> helper_request \<Rightarrow> helper_operation \<Rightarrow> bytes io" where
  "staged_verify sys sg r h =
     bindW (validate_now sys r (hq_hash r)) (\<lambda>_.
     bindW (checkW (accepts_content h) ''invalid_staging_operation'') (\<lambda>_.
     bindW (operation_directory sys sg (hq_id r) False) (\<lambda>d.
     bindW (entry_at sys (content_path d h)) (\<lambda>n.
       case n of
         Some (RegFile content m u _) \<Rightarrow>
           bindW (checkW (u = sg_owner sg \<and> m = 384) ''unsafe_staging'') (\<lambda>_.
           bindW (checkW (int (length content) \<le> max_item_bytes) ''item_too_large'') (\<lambda>_.
           bindW (read_bytes (resolved_target sys (content_path d h))) (\<lambda>c.
           bindW (checkW (Some (sha256 sys c) = ho_staged h) ''staged_hash_mismatch'') (\<lambda>_. retW c))))
       | _ \<Rightarrow> raiseW (AdapterError ''unsafe_staging'')))))"

text \<open>\<open>cleanup\<close>; \<open>names\<close> lists the directory.\<close>

definition staging_entry :: "str \<Rightarrow> node option \<Rightarrow> bool" where
  "staging_entry name n \<longleftrightarrow> is_file_node n
     \<and> (endswith name (lit ''.content'') \<and> 8 < length name \<or> name = lit ''request.json'')"

definition unlink_entry :: "system \<Rightarrow> str \<Rightarrow> unit io" where
  "unlink_entry sys p = bindW os_step (\<lambda>_. put_node (resolved_target sys p) None)"

definition remove_dir :: "system \<Rightarrow> str \<Rightarrow> unit io" where
  "remove_dir sys p = bindW os_step (\<lambda>_. modifyW (\<lambda>w. w\<lparr>fs := (fs w)(resolved_target sys p := None),
     dirs := (dirs w)(resolved_target sys p := None)\<rparr>))"

definition staging_cleanup :: "system \<Rightarrow> staging_store \<Rightarrow> str list \<Rightarrow> str \<Rightarrow> unit io" where
  "staging_cleanup sys sg names oid =
     bindW (operation_directory sys sg oid False) (\<lambda>d.
     bindW (eachW (\<lambda>x. bindW (entry_at sys (path_join d x)) (\<lambda>n. checkW (staging_entry x n) ''unsafe_staging'')) names) (\<lambda>_.
     bindW (eachW (\<lambda>x. unlink_entry sys (path_join d x)) names) (\<lambda>_.
     bindW (remove_dir sys d) (\<lambda>_. os_step))))"

section \<open>Receipts\<close>

datatype receipt_status = RC_EXECUTING | RC_COMPLETED | RC_FAILED

fun receipt_status_value :: "receipt_status \<Rightarrow> str" where
  "receipt_status_value RC_EXECUTING = lit ''executing''"
| "receipt_status_value RC_COMPLETED = lit ''completed''"
| "receipt_status_value RC_FAILED = lit ''failed''"

definition parse_receipt_status :: "json \<Rightarrow> receipt_status res" where
  "parse_receipt_status v = (case filter (\<lambda>s. JStr (receipt_status_value s) = v) [RC_EXECUTING, RC_COMPLETED, RC_FAILED] of
      s # _ \<Rightarrow> Inr s | [] \<Rightarrow> Inl ValueError)"

record helper_receipt =
  rc_id :: str
  rc_hash :: str
  rc_status :: receipt_status
  rc_results :: "(str \<times> str \<times> bool \<times> str option) list"

record helper_result =
  hr_id :: str
  hr_kind :: helper_kind
  hr_completed :: bool
  hr_error :: "string option"

record receipt_store =
  rs_root :: str
  rs_sandbox :: bool

definition receipt_json :: "helper_receipt \<Rightarrow> json" where
  "receipt_json c = JObj
     [(lit ''operation_id'', JStr (rc_id c)), (lit ''request_hash'', JStr (rc_hash c)),
      (lit ''results'', JArr (map (\<lambda>(i, k, done, e). JObj [(lit ''operation_id'', JStr i), (lit ''kind'', JStr k),
         (lit ''completed'', JBool done), (lit ''error_code'', jopt JStr e)]) (rc_results c))),
      (lit ''status'', JStr (receipt_status_value (rc_status c)))]"

definition receipt_bytes :: "helper_receipt \<Rightarrow> bytes res" where
  "receipt_bytes c = utf8_encode (dumps True (receipt_json c))"

definition plain_text :: "json \<Rightarrow> str \<Rightarrow> str res" where
  "plain_text v k = bindR (get_field v k) (\<lambda>x. case x of JStr s \<Rightarrow> Inr s | _ \<Rightarrow> Inl ValueError)"

definition decode_receipt_result :: "json \<Rightarrow> (str \<times> str \<times> bool \<times> str option) res" where
  "decode_receipt_result v =
     (if \<not> has_fields v [lit ''operation_id'', lit ''kind'', lit ''completed'', lit ''error_code''] then Inl ValueError
      else bindR (plain_text v (lit ''operation_id'')) (\<lambda>i.
           bindR (plain_text v (lit ''kind'')) (\<lambda>k.
           bindR (need_bool v (lit ''completed'')) (\<lambda>d.
           bindR (need_optional_text v (lit ''error_code'')) (\<lambda>e. Inr (i, k, d, e))))))"

definition decode_receipt :: "json \<Rightarrow> helper_receipt res" where
  "decode_receipt v =
     (if \<not> has_fields v [lit ''operation_id'', lit ''request_hash'', lit ''results'', lit ''status''] then Inl ValueError
      else bindR (plain_text v (lit ''operation_id'')) (\<lambda>i.
           bindR (plain_text v (lit ''request_hash'')) (\<lambda>h.
           bindR (get_field v (lit ''results'')) (\<lambda>rs. case rs of
             JArr xs \<Rightarrow> bindR (mapR decode_receipt_result xs) (\<lambda>results.
               bindR (bindR (get_field v (lit ''status'')) parse_receipt_status) (\<lambda>s.
               Inr \<lparr>rc_id = i, rc_hash = h, rc_status = s, rc_results = results\<rparr>))
           | _ \<Rightarrow> Inl ValueError))))"

definition receipt_path :: "receipt_store \<Rightarrow> str \<Rightarrow> str res" where
  "receipt_path rs oid = (if single_component oid then Inr (path_join (rs_root rs) (oid @ lit ''.json''))
     else Inl (AdapterError ''invalid_operation_id''))"

definition prepare_receipts :: "system \<Rightarrow> receipt_store \<Rightarrow> unit io" where
  "prepare_receipts sys rs =
     bindW (make_dir_ok sys (rs_root rs) 448) (\<lambda>_.
     bindW (stat_dir sys (rs_root rs)) (\<lambda>d.
     bindW (checkW (d \<noteq> None) ''unsafe_receipt_root'') (\<lambda>_.
     bindW (chmod_dir sys (rs_root rs) 448) (\<lambda>_.
     checkW (rs_sandbox rs \<or> (\<exists>i\<in>set_option d. dr_uid i = 0)) ''unsafe_receipt_root''))))"

definition receipt_limit :: int where
  "receipt_limit = 1048576"

definition receipt_load :: "system \<Rightarrow> receipt_store \<Rightarrow> str \<Rightarrow> helper_receipt io" where
  "receipt_load sys rs oid =
     bindW (liftR (receipt_path rs oid)) (\<lambda>p.
     bindW (tryW os_step (\<lambda>_. raiseW (AdapterError ''invalid_receipt''))) (\<lambda>_.
     bindW (entry_at sys p) (\<lambda>n. case n of
         Some (RegFile content m u _) \<Rightarrow>
           bindW (checkW (m = 384 \<and> (rs_sandbox rs \<or> u = 0)) ''invalid_receipt'') (\<lambda>_.
           bindW os_step (\<lambda>_.
           bindW (checkW (int (length content) \<le> receipt_limit) ''invalid_receipt'') (\<lambda>_.
           bindW (liftR (case bindR (bindR (utf8_decode content) jloads) decode_receipt of
                Inl e \<Rightarrow> Inl (if malformed e \<and> e \<noteq> OSError then AdapterError ''invalid_receipt'' else e)
              | Inr c \<Rightarrow> Inr c)) (\<lambda>c.
           bindW (liftR (receipt_bytes c)) (\<lambda>b.
           bindW (checkW (rc_id c = oid \<and> b = content) ''invalid_receipt'') (\<lambda>_. retW c))))))
       | _ \<Rightarrow> raiseW (AdapterError ''invalid_receipt''))))"

definition receipt_begin :: "system \<Rightarrow> receipt_store \<Rightarrow> helper_request \<Rightarrow> helper_receipt io" where
  "receipt_begin sys rs r =
     bindW (prepare_receipts sys rs) (\<lambda>_.
     bindW (liftR (receipt_path rs (hq_id r))) (\<lambda>p.
     bindW os_step (\<lambda>_.
     bindW (entry_at sys p) (\<lambda>n.
       if n \<noteq> None then
         bindW (receipt_load sys rs (hq_id r)) (\<lambda>c.
         raiseW (AdapterError (if rc_hash c = hq_hash r then ''replayed_request'' else ''operation_id_collision'')))
       else
         let c = \<lparr>rc_id = hq_id r, rc_hash = hq_hash r, rc_status = RC_EXECUTING, rc_results = []\<rparr>;
             place = resolved_target sys p in
         bindW (put_node place (Some (RegFile [] 384 (euid sys) (egid sys)))) (\<lambda>_.
         bindW (liftR (receipt_bytes c)) (\<lambda>b.
         bindW os_step (\<lambda>_.
         bindW (put_node place (Some (RegFile b 384 (euid sys) (egid sys)))) (\<lambda>_.
         bindW os_step (\<lambda>_. bindW os_step (\<lambda>_. retW c))))))))))"

definition receipt_of :: "helper_request \<Rightarrow> helper_result list \<Rightarrow> helper_receipt" where
  "receipt_of r results = \<lparr>rc_id = hq_id r, rc_hash = hq_hash r,
     rc_status = (if results \<noteq> [] \<and> list_all hr_completed results then RC_COMPLETED else RC_FAILED),
     rc_results = map (\<lambda>x. (hr_id x, helper_kind_value (hr_kind x), hr_completed x, map_option lit (hr_error x))) results\<rparr>"

definition receipt_finish :: "system \<Rightarrow> receipt_store \<Rightarrow> helper_request \<Rightarrow> helper_result list \<Rightarrow> helper_receipt io" where
  "receipt_finish sys rs r results =
     bindW (receipt_load sys rs (hq_id r)) (\<lambda>c.
     bindW (checkW (rc_hash c = hq_hash r \<and> rc_status c = RC_EXECUTING) ''invalid_receipt_transition'') (\<lambda>_.
     bindW (liftR (receipt_path rs (hq_id r))) (\<lambda>p.
     bindW (liftR (receipt_bytes (receipt_of r results))) (\<lambda>b.
     bindW (atomic_write sys (resolved_target sys p) b 384) (\<lambda>_. retW (receipt_of r results))))))"

section \<open>What looking leaves alone\<close>

lemma keeps_entry [keeping]: "keeps S (entry_at sys p)" "keeps S (stat_dir sys p)" "keeps S (chmod_dir sys p m)"
  "keeps S (checkW b c)" "keeps S (validate_now sys r h)"
  unfolding entry_at_def stat_dir_def chmod_dir_def checkW_def validate_now_def
  by (auto intro!: keeping simp: keeps_def [of _ "modifyW _"])

lemma keeps_make_dir [keeping]:
  assumes "\<not> S (resolved_target sys p)"
  shows "keeps S (make_dir sys p m)" and "keeps S (make_dir_ok sys p m)"
proof -
  have "keeps S (modifyW (\<lambda>w. w\<lparr>fs := (fs w)(resolved_target sys p \<mapsto> NotRegular), dirs := f w\<rparr>))" for f
    using assms by (auto simp: keeps_def)
  then show m: "keeps S (make_dir sys p m)" unfolding make_dir_def by (auto intro!: keeping)
  then show "keeps S (make_dir_ok sys p m)" unfolding make_dir_ok_def by (auto intro!: keeping)
qed

end
