(* ===== verification/HelperRun.thy ===== *)
theory HelperRun
  imports HelperFiles
begin

text \<open>
  The privileged helper: the executor of a request's operations over its backend
  (\<open>infrastructure/helper_executor.py\<close>), the backend that writes the drop-in and calls \<open>systemctl\<close>
  (\<open>helper_backend.py\<close>), and the command that ties them to the staged request and the receipts
  (\<open>helper_cli.py\<close>).  The runner of a command line and the capture of the file about to be replaced
  (\<open>root_apply_capture.py\<close>) are arguments.
\<close>

section \<open>The executor\<close>

text \<open>\<open>HelperExecutionBackend\<close>; \<open>hb_locked\<close> answers whether it yields a descriptor.\<close>

record helper_backend =
  hb_locked :: "bool io"
  hb_read :: "str option \<Rightarrow> bytes option io"
  hb_write :: "str option \<Rightarrow> bytes \<Rightarrow> int option \<Rightarrow> int option \<Rightarrow> int option \<Rightarrow> unit io"
  hb_remove :: "str option \<Rightarrow> unit io"
  hb_reload :: "unit io"
  hb_restart :: "str option \<Rightarrow> unit io"

record helper_executor =
  hx_staging :: staging_store
  hx_backend :: helper_backend
  hx_capture :: "(helper_request \<Rightarrow> unit io) option"

definition verify_before :: "system \<Rightarrow> helper_backend \<Rightarrow> helper_operation \<Rightarrow> unit io" where
  "verify_before sys hb h =
     bindW (hb_read hb (ho_target h)) (\<lambda>current.
     checkW (map_option (sha256 sys) current = ho_before h) ''stale_helper_target'')"

definition capture_step :: "system \<Rightarrow> helper_executor \<Rightarrow> helper_request \<Rightarrow> bool \<Rightarrow> helper_operation \<Rightarrow> unit io" where
  "capture_step sys hx r fd h = (case hx_capture hx of
       Some take_copy \<Rightarrow>
         if ho_kind h \<noteq> ATOMIC_REPLACE then retW ()
         else bindW (checkW fd ''root_capture_lock_missing'') (\<lambda>_.
              bindW (take_copy r) (\<lambda>_.
              bindW (validate_now sys r (hq_hash r)) (\<lambda>_.
              verify_before sys (hx_backend hx) h)))
     | None \<Rightarrow> retW ())"

definition execute_one :: "system \<Rightarrow> helper_executor \<Rightarrow> helper_request \<Rightarrow> bool \<Rightarrow> helper_operation \<Rightarrow> unit io" where
  "execute_one sys hx r fd h =
     (let hb = hx_backend hx in
      bindW (if ho_kind h \<in> {ATOMIC_REPLACE, RESTORE_FILE, HK_REMOVE_CREATED} then verify_before sys hb h else retW ()) (\<lambda>_.
      case ho_kind h of
        HK_REMOVE_CREATED \<Rightarrow> hb_remove hb (ho_target h)
      | HK_DAEMON_RELOAD \<Rightarrow> hb_reload hb
      | RESTART_UNIT \<Rightarrow> hb_restart hb (ho_unit h)
      | _ \<Rightarrow>
          bindW (staged_verify sys (hx_staging hx) r h) (\<lambda>content.
          bindW (capture_step sys hx r fd h) (\<lambda>_.
          hb_write hb (ho_target h) content (ho_mode h) (ho_uid h) (ho_gid h)))))"

definition done_result :: "helper_operation \<Rightarrow> helper_result" where
  "done_result h = \<lparr>hr_id = ho_id h, hr_kind = ho_kind h, hr_completed = True, hr_error = None\<rparr>"

definition failed_result :: "string \<Rightarrow> helper_operation \<Rightarrow> helper_result" where
  "failed_result c h = \<lparr>hr_id = ho_id h, hr_kind = ho_kind h, hr_completed = False, hr_error = Some c\<rparr>"

text \<open>The code of a failed operation; other exceptions are not caught.\<close>

definition failure_code :: "exn \<Rightarrow> string option" where
  "failure_code e = (case e of AdapterError c \<Rightarrow> Some c | OSError \<Rightarrow> Some ''helper_operation_failed'' | _ \<Rightarrow> None)"

definition caught_code :: "unit io \<Rightarrow> string option io" where
  "caught_code m = tryW (bindW m (\<lambda>_. retW None)) (\<lambda>e. case failure_code e of Some c \<Rightarrow> retW (Some c) | None \<Rightarrow> raiseW e)"

fun execute_locked :: "system \<Rightarrow> helper_executor \<Rightarrow> helper_request \<Rightarrow> bool \<Rightarrow> helper_operation list \<Rightarrow> helper_result list io" where
  "execute_locked sys hx r fd [] = retW []"
| "execute_locked sys hx r fd (h # hs) = bindW (caught_code (execute_one sys hx r fd h)) (\<lambda>o'. case o' of
       Some c \<Rightarrow> retW (failed_result c h # map (failed_result ''not_executed'') hs)
     | None \<Rightarrow> bindW (execute_locked sys hx r fd hs) (\<lambda>results. retW (done_result h # results)))"

definition all_refused :: "string \<Rightarrow> helper_request \<Rightarrow> helper_result list" where
  "all_refused c r = (case hq_operations r of
       [] \<Rightarrow> []
     | h # hs \<Rightarrow> failed_result c h # map (failed_result ''not_executed'') hs)"

definition helper_execute :: "system \<Rightarrow> helper_executor \<Rightarrow> helper_request \<Rightarrow> str \<Rightarrow> helper_result list io" where
  "helper_execute sys hx r h =
     bindW (validate_now sys r h) (\<lambda>_.
     tryW (bindW (hb_locked (hx_backend hx)) (\<lambda>fd.
           bindW (validate_now sys r h) (\<lambda>_. execute_locked sys hx r fd (hq_operations r))))
       (\<lambda>e. case failure_code e of Some c \<Rightarrow> retW (all_refused c r) | None \<Rightarrow> raiseW e))"

section \<open>The backend\<close>

text \<open>\<open>lb_listing\<close> are the names in the target's directory when it is locked.\<close>

record local_backend =
  lb_root :: str
  lb_sandbox :: bool
  lb_listing :: "str list"
  lb_runner :: "str list \<Rightarrow> int io"

definition new_backend :: "system \<Rightarrow> local_backend \<Rightarrow> local_backend res" where
  "new_backend sys lb =
     (if comps (lb_root lb) \<noteq> [] \<and> \<not> lb_sandbox lb then Inl ValueError
      else if \<not> lb_sandbox lb \<and> euid sys \<noteq> 0 then Inl (AdapterError ''root_required'')
      else Inr lb)"

text \<open>\<open>_reject_parent_symlinks\<close>: along the components, up to the first that is not there.\<close>

fun parents_ok :: "system \<Rightarrow> files \<Rightarrow> str list \<Rightarrow> str list \<Rightarrow> bool" where
  "parents_ok sys f upper [] \<longleftrightarrow> True"
| "parents_ok sys f upper (c # cs) =
     (case f (resolved_target sys (abs_path (upper @ [c]))) of
        Some SymLink \<Rightarrow> False
      | None \<Rightarrow> True
      | Some _ \<Rightarrow> parents_ok sys f (upper @ [c]) cs)"

definition fixed_target :: "local_backend \<Rightarrow> str" where
  "fixed_target lb = path_join (lb_root lb) drop_in_path"

definition backend_target :: "system \<Rightarrow> local_backend \<Rightarrow> str option \<Rightarrow> str io" where
  "backend_target sys lb t =
     bindW (checkW (t = Some drop_in_path) ''target_not_allowed'') (\<lambda>_.
     bindW (entry_at sys (lb_root lb)) (\<lambda>n.
     bindW (checkW (n \<noteq> Some SymLink \<and>
        within (realpath sys (path_parent (fixed_target lb))) (realpath sys (lb_root lb))) ''unsafe_target'') (\<lambda>_.
     bindW (getW (\<lambda>w. parents_ok sys (fs w) (comps (lb_root lb)) (butlast (comps drop_in_path)))) (\<lambda>ok.
     bindW (checkW ok ''unsafe_target'') (\<lambda>_. retW (fixed_target lb))))))"

definition writable_by_others :: "int \<Rightarrow> bool" where
  "writable_by_others m \<longleftrightarrow> bit m 4 \<or> bit m 1"

definition prepare_parent :: "system \<Rightarrow> local_backend \<Rightarrow> str \<Rightarrow> unit io" where
  "prepare_parent sys lb p =
     bindW (entry_at sys p) (\<lambda>n.
     bindW (if n \<noteq> None then retW () else bindW (make_dir sys p 493) (\<lambda>_. os_step)) (\<lambda>_.
     bindW (stat_dir sys p) (\<lambda>d. case d of
         None \<Rightarrow> raiseW (AdapterError ''unsafe_target'')
       | Some d \<Rightarrow> checkW (\<not> writable_by_others (dr_mode d) \<and> (lb_sandbox lb \<or> dr_uid d = 0)) ''unsafe_target'')))"

text \<open>\<open>_open_fixed_directory(path, private=False)\<close>: no component may be a link, be writable by others or not be root's.\<close>

fun open_fixed :: "system \<Rightarrow> str list \<Rightarrow> str list \<Rightarrow> unit io" where
  "open_fixed sys upper [] = bindW (stat_dir sys (abs_path upper)) (\<lambda>d.
     checkW (\<exists>i\<in>set_option d. dr_uid i = 0 \<and> dr_gid i = 0 \<and> \<not> writable_by_others (dr_mode i)) ''invalid_root_backup_evidence'')"
| "open_fixed sys upper (c # cs) = bindW (stat_dir sys (abs_path upper)) (\<lambda>d.
     bindW (checkW (\<exists>i\<in>set_option d. dr_uid i = 0 \<and> \<not> writable_by_others (dr_mode i)) ''invalid_root_backup_evidence'') (\<lambda>_.
     bindW os_step (\<lambda>_. bindW (stat_dir sys (abs_path (upper @ [c]))) (\<lambda>n.
     if n = None then raiseW OSError else open_fixed sys (upper @ [c]) cs))))"

text \<open>\<open>locked_root_target\<close>: a busy lock is a failing call; then the names in the directory.\<close>

definition lock_target :: "local_backend \<Rightarrow> unit io" where
  "lock_target lb =
     bindW os_step (\<lambda>_.
     bindW (tryW os_step (\<lambda>_. raiseW (AdapterError ''helper_target_busy''))) (\<lambda>_.
     bindW os_step (\<lambda>_.
     checkW (\<not> (\<exists>x\<in>set (lb_listing lb). startswith x (lit ''.llm-restore-''))) ''root_restore_staging_incomplete'')))"

definition backend_locked :: "system \<Rightarrow> local_backend \<Rightarrow> bool io" where
  "backend_locked sys lb =
     bindW (backend_target sys lb (Some drop_in_path)) (\<lambda>t.
     let parent = path_parent t in
     bindW (if lb_sandbox lb then prepare_parent sys lb parent
            else bindW os_step (\<lambda>_. bindW (open_fixed sys [] (comps (path_parent parent))) (\<lambda>_.
                 bindW (make_dir sys parent 493) (\<lambda>made. if made then os_step else retW ())))) (\<lambda>_.
     bindW os_step (\<lambda>_.
     bindW (stat_dir sys parent) (\<lambda>d. case d of
         None \<Rightarrow> raiseW OSError
       | Some d \<Rightarrow> bindW (checkW (\<not> writable_by_others (dr_mode d) \<and> (lb_sandbox lb \<or> (dr_uid d = 0 \<and> dr_gid d = 0)))
             ''unsafe_target'') (\<lambda>_. bindW (lock_target lb) (\<lambda>_. retW True))))))"

definition backend_read :: "system \<Rightarrow> local_backend \<Rightarrow> str option \<Rightarrow> bytes option io" where
  "backend_read sys lb t =
     bindW (backend_target sys lb t) (\<lambda>p. bindW (entry_at sys p) (\<lambda>n. case n of
         None \<Rightarrow> retW None
       | Some (RegFile content _ _ _) \<Rightarrow>
           bindW (checkW (int (length content) \<le> max_item_bytes) ''item_too_large'') (\<lambda>_.
           bindW (read_bytes (resolved_target sys p)) (\<lambda>c. retW (Some c)))
       | Some _ \<Rightarrow> raiseW (AdapterError ''unsafe_target'')))"

definition backend_write :: "system \<Rightarrow> local_backend \<Rightarrow> str option \<Rightarrow> bytes \<Rightarrow> int option \<Rightarrow> int option \<Rightarrow> int option \<Rightarrow> unit io" where
  "backend_write sys lb t content m u g =
     bindW (checkW (int (length content) \<le> max_item_bytes) ''item_too_large'') (\<lambda>_.
     bindW (checkW (m = Some 420 \<and> u = Some 0 \<and> g = Some 0) ''invalid_metadata'') (\<lambda>_.
     bindW (backend_target sys lb t) (\<lambda>p.
     bindW (prepare_parent sys lb (path_parent p)) (\<lambda>_.
     bindW (entry_at sys p) (\<lambda>n.
     bindW (checkW (n = None \<or> is_file_node n) ''unsafe_target'') (\<lambda>_.
     bindW (atomic_write sys (resolved_target sys p) content 420) (\<lambda>_.
     if lb_sandbox lb then retW ()
     else bindW (chown_file (resolved_target sys p) 0 0) (\<lambda>_.
          bindW os_step (\<lambda>_. bindW os_step (\<lambda>_. os_step))))))))))"

definition backend_remove :: "system \<Rightarrow> local_backend \<Rightarrow> str option \<Rightarrow> unit io" where
  "backend_remove sys lb t =
     bindW (backend_target sys lb t) (\<lambda>p. bindW (entry_at sys p) (\<lambda>n.
     bindW (checkW (is_file_node n) ''unsafe_target'') (\<lambda>_. unlink_synced (resolved_target sys p))))"

definition systemctl :: str where
  "systemctl = lit ''/usr/bin/systemctl''"

definition run_service :: "local_backend \<Rightarrow> str list \<Rightarrow> unit io" where
  "run_service lb argv =
     bindW (tryW (lb_runner lb argv) (\<lambda>e. raiseW (if e = OSError then AdapterError ''service_command_failed'' else e))) (\<lambda>code.
     checkW (code = 0) ''service_command_failed'')"

definition backend_reload :: "local_backend \<Rightarrow> unit io" where
  "backend_reload lb = run_service lb [systemctl, lit ''daemon-reload'']"

definition backend_restart :: "local_backend \<Rightarrow> str option \<Rightarrow> unit io" where
  "backend_restart lb u = bindW (checkW (u = Some ollama_unit) ''unit_not_allowed'') (\<lambda>_.
     run_service lb [systemctl, lit ''restart'', ollama_unit])"

definition system_backend :: "system \<Rightarrow> local_backend \<Rightarrow> helper_backend" where
  "system_backend sys lb = \<lparr>hb_locked = backend_locked sys lb, hb_read = backend_read sys lb,
     hb_write = backend_write sys lb, hb_remove = backend_remove sys lb, hb_reload = backend_reload lb,
     hb_restart = backend_restart lb\<rparr>"

section \<open>The command\<close>

definition invoking_uid :: "runtime \<Rightarrow> str \<Rightarrow> int res" where
  "invoking_uid rt value =
     (if \<not> py_isdigit rt value then Inl (AdapterError ''invalid_invoking_user'')
      else bindR (int_of_digits rt value) (\<lambda>user. if user \<le> 0 then Inl (AdapterError ''invalid_invoking_user'') else Inr user))"

definition read_user_request :: "system \<Rightarrow> str \<Rightarrow> int \<Rightarrow> bytes io" where
  "read_user_request sys p owner =
     bindW (tryW os_step (\<lambda>_. raiseW (AdapterError ''unsafe_request''))) (\<lambda>_.
     bindW (entry_at sys p) (\<lambda>n. case n of
         Some (RegFile content m u _) \<Rightarrow>
           bindW (checkW (u = owner \<and> m = 384) ''unsafe_request'') (\<lambda>_.
           bindW (checkW (int (length content) \<le> max_request_bytes) ''request_too_large'') (\<lambda>_.
           bindW os_step (\<lambda>_. retW content)))
       | _ \<Rightarrow> raiseW (AdapterError ''unsafe_request'')))"

definition capture_request_ok :: "helper_request \<Rightarrow> str \<Rightarrow> bool" where
  "capture_request_ok r self_id \<longleftrightarrow> hq_host r = self_id \<and> hq_backup r \<noteq> None \<and> hq_approval r \<noteq> None \<and> hq_manifest r \<noteq> None
     \<and> map ho_kind (hq_operations r) \<in> {[ATOMIC_REPLACE], [ATOMIC_REPLACE, HK_DAEMON_RELOAD],
          [ATOMIC_REPLACE, HK_DAEMON_RELOAD, RESTART_UNIT]}"

definition validate_capture_request :: "system \<Rightarrow> helper_request \<Rightarrow> str \<Rightarrow> unit io" where
  "validate_capture_request sys r self_id =
     bindW (validate_now sys r (hq_hash r)) (\<lambda>_. checkW (capture_request_ok r self_id) ''invalid_root_capture_apply'')"

text \<open>
  \<open>run_helper\<close>: the value of \<open>PKEXEC_UID\<close>, the directory of the users' run-time files, the id of the host, a
  backend supplied by the caller, the helper's own backend with its capture, and the receipts.
\<close>

record helper_setup =
  hs_uid_text :: str
  hs_base :: str
  hs_host :: str
  hs_given :: "helper_backend option"
  hs_own :: local_backend
  hs_capture :: "helper_request \<Rightarrow> unit io"
  hs_receipts :: receipt_store

definition staging_of :: "helper_setup \<Rightarrow> int \<Rightarrow> staging_store" where
  "staging_of hs user = \<lparr>sg_root = path_join (hs_base hs) (dec_int user @ lit ''/llm-manager/helper''), sg_owner = user\<rparr>"

definition helper_capture :: "system \<Rightarrow> helper_setup \<Rightarrow> helper_request \<Rightarrow> (helper_request \<Rightarrow> unit io) option io" where
  "helper_capture sys hs r =
     (if hs_given hs = None \<and> list_ex (\<lambda>h. ho_kind h = ATOMIC_REPLACE) (hq_operations r)
      then bindW (validate_capture_request sys r (hs_host hs)) (\<lambda>_. retW (Some (hs_capture hs)))
      else retW None)"

definition chosen_backend :: "system \<Rightarrow> helper_setup \<Rightarrow> helper_backend res" where
  "chosen_backend sys hs = (case hs_given hs of
       Some hb \<Rightarrow> Inr hb
     | None \<Rightarrow> bindR (new_backend sys (hs_own hs)) (\<lambda>lb. Inr (system_backend sys lb)))"

definition prepare_helper :: "system \<Rightarrow> helper_setup \<Rightarrow> str \<Rightarrow> str \<Rightarrow> (helper_request \<times> helper_executor) io" where
  "prepare_helper sys hs oid h =
     bindW (checkW (is_identifier oid \<and> is_digest h) ''invalid_helper_argument'') (\<lambda>_.
     bindW (liftR (invoking_uid (runtime.truncate sys) (hs_uid_text hs))) (\<lambda>user.
     bindW (checkW (euid sys = 0) ''root_required'') (\<lambda>_.
     bindW (read_user_request sys (path_join (sg_root (staging_of hs user)) (oid @ lit ''/request.json'')) user) (\<lambda>content.
     bindW utc_now (\<lambda>now.
     bindW (liftR (decode_request (runtime.truncate sys) content h now)) (\<lambda>r.
     bindW (checkW (hq_id r = oid) ''operation_mismatch'') (\<lambda>_.
     bindW (helper_capture sys hs r) (\<lambda>cap.
     bindW (liftR (chosen_backend sys hs)) (\<lambda>hb.
     retW (r, \<lparr>hx_staging = staging_of hs user, hx_backend = hb, hx_capture = cap\<rparr>))))))))))"

definition run_helper :: "system \<Rightarrow> helper_setup \<Rightarrow> str \<Rightarrow> str \<Rightarrow> helper_result list io" where
  "run_helper sys hs oid h =
     bindW (prepare_helper sys hs oid h) (\<lambda>(r, hx).
     bindW (receipt_begin sys (hs_receipts hs) r) (\<lambda>_.
     bindW (helper_execute sys hx r h) (\<lambda>results.
     bindW (receipt_finish sys (hs_receipts hs) r results) (\<lambda>_. retW results))))"

text \<open>What the command prints, and its exit code.\<close>

definition helper_answer :: "exn + helper_result list \<Rightarrow> (json \<times> int) res" where
  "helper_answer x = (case x of
       Inl (AdapterError c) \<Rightarrow> Inr (JObj [(lit ''status'', JStr (lit ''failed'')), (lit ''error_code'', JStr (lit c))], 1)
     | Inl e \<Rightarrow> Inl e
     | Inr results \<Rightarrow>
         Inr (JObj [(lit ''status'', JStr (if list_all hr_completed results then lit ''completed'' else lit ''failed'')),
              (lit ''operations'', JArr (map (\<lambda>x. JObj [(lit ''operation_id'', JStr (hr_id x)),
                 (lit ''kind'', JStr (helper_kind_value (hr_kind x))), (lit ''completed'', JBool (hr_completed x)),
                 (lit ''error_code'', jopt JStr (map_option lit (hr_error x)))]) results))],
              if list_all hr_completed results then 0 else 1))"

end
