(* ===== verification/PrivilegedApply.thy ===== *)
theory PrivilegedApply
  imports SafeApply HelperRun
begin

text \<open>
  \<open>infrastructure/privileged_apply.py\<close>: from an approved plan for the drop-in to a request of the privileged
  helper, the request that takes it back, and the coordinator of backup, apply, validation and rollback
  around them.  The invoker of the helper, its readiness check, the backup store, the validator of the
  running services and the audit log are ports of the coordinator; the journal is the code's own.
\<close>

section \<open>The request of an approved plan\<close>

record prepared_apply =
  pa_request :: helper_request
  pa_contents :: "(str \<times> bytes) list"

text \<open>\<open>approval.is_valid_for(plan)\<close> at the present time\<close>

definition valid_now :: "system \<Rightarrow> approval_record \<Rightarrow> optimization_plan \<Rightarrow> bool io" where
  "valid_now sys a p = bindW utc_now (\<lambda>now. retW (is_valid_for (runtime.truncate sys) a p now))"

definition manifest_bound :: "optimization_plan \<Rightarrow> backup_manifest \<Rightarrow> str \<Rightarrow> bool" where
  "manifest_bound p m oid \<longleftrightarrow> (case op_change_set p of
       None \<Rightarrow> False
     | Some cs \<Rightarrow> backup_id m = oid \<and> bm_plan_id m = plan_id p \<and> bm_host_id m = cs_host_id cs
         \<and> bm_change_set_hash m = content_hash cs \<and> encryption m = backup_policy p \<and> complete m)"

text \<open>\<open>_validate_manifest_binding\<close>\<close>

definition check_manifest :: "system \<Rightarrow> optimization_plan \<Rightarrow> approval_record \<Rightarrow> backup_manifest \<Rightarrow> str \<Rightarrow> unit io" where
  "check_manifest sys p a m oid =
     bindW (checkW (manifest_bound p m oid) ''workflow_binding_mismatch'') (\<lambda>_.
     bindW (valid_now sys a p) (\<lambda>ok. checkW ok ''workflow_binding_mismatch''))"

definition helper_change :: "change_set \<Rightarrow> change \<Rightarrow> bool" where
  "helper_change cs c \<longleftrightarrow> requires_root c \<and> ch_target c = drop_in_path \<and> operation c \<in> {CREATE_FILE, REPLACE_FILE}
     \<and> replacement_text c \<noteq> None \<and> lit ''systemd.daemon_reload'' \<in> set (validation_checks c) \<and> requires_restart c
     \<and> affected_services cs = [ollama_unit]"

definition service_operations :: "str \<Rightarrow> helper_operation list" where
  "service_operations oid =
     [\<lparr>ho_id = oid @ lit '':reload'', ho_kind = HK_DAEMON_RELOAD, ho_target = None, ho_unit = None, ho_before = None,
        ho_staged = None, ho_mode = None, ho_uid = None, ho_gid = None\<rparr>,
      \<lparr>ho_id = oid @ lit '':restart'', ho_kind = RESTART_UNIT, ho_target = None, ho_unit = Some ollama_unit, ho_before = None,
        ho_staged = None, ho_mode = None, ho_uid = None, ho_gid = None\<rparr>]"

definition write_operation :: "str \<Rightarrow> helper_kind \<Rightarrow> str option \<Rightarrow> str \<Rightarrow> helper_operation" where
  "write_operation i k old staged =
     \<lparr>ho_id = i, ho_kind = k, ho_target = Some drop_in_path, ho_unit = None, ho_before = old, ho_staged = Some staged,
      ho_mode = Some 420, ho_uid = Some 0, ho_gid = Some 0\<rparr>"

definition request_expiry :: "optimization_plan \<Rightarrow> approval_record \<Rightarrow> time \<Rightarrow> time" where
  "request_expiry p a now = Min (set ((now + 5 * 60 * 1000000) #
     (case expires_at p of None \<Rightarrow> [] | Some t \<Rightarrow> [t]) @ (case ap_expires_at a of None \<Rightarrow> [] | Some t \<Rightarrow> [t])))"

definition request_for :: "optimization_plan \<Rightarrow> change_set \<Rightarrow> approval_record \<Rightarrow> backup_manifest option \<Rightarrow> str \<Rightarrow>
    helper_operation list \<Rightarrow> time \<Rightarrow> helper_request" where
  "request_for p cs a m oid ops now =
     \<lparr>hq_version = protocol_version, hq_id = oid, hq_host = cs_host_id cs, hq_plan = plan_id p,
      hq_change_set = content_hash cs, hq_operations = ops, hq_requested = Aware now,
      hq_expires = Aware (request_expiry p a now), hq_hash = [],
      hq_approval = map_option (\<lambda>_. approval_id a) m, hq_backup = map_option backup_id m,
      hq_manifest = map_option manifest_hash m\<rparr>"

definition sealed_request :: "system \<Rightarrow> helper_request \<Rightarrow> time \<Rightarrow> helper_request res" where
  "sealed_request sys draft now =
     bindR (helper_with_hash (runtime.truncate sys) draft) (\<lambda>r.
     bindR (validate_request (runtime.truncate sys) r (hq_hash r) now) (\<lambda>_. Inr r))"

text \<open>\<open>ApprovedHelperRequestFactory.prepare\<close>\<close>

definition prepare_apply :: "system \<Rightarrow> optimization_plan \<Rightarrow> approval_record \<Rightarrow> str \<Rightarrow> backup_manifest option \<Rightarrow> prepared_apply io" where
  "prepare_apply sys p a oid manifest =
     bindW utc_now (\<lambda>now.
     case op_change_set p of
       None \<Rightarrow> raiseW (AdapterError ''invalid_approval'')
     | Some cs \<Rightarrow>
         bindW (checkW (is_valid_for (runtime.truncate sys) a p now) ''invalid_approval'') (\<lambda>_.
         case changes cs of
           [c] \<Rightarrow>
             bindW (checkW (helper_change cs c) ''unsupported_privileged_plan'') (\<lambda>_.
             bindW (liftR (utf8_encode (case replacement_text c of Some t \<Rightarrow> t | None \<Rightarrow> []))) (\<lambda>content.
             let write_id = oid @ lit '':write'';
                 ops = write_operation write_id ATOMIC_REPLACE (before_hash c) (sha256 sys content) # service_operations oid in
             bindW (case manifest of None \<Rightarrow> retW () | Some m \<Rightarrow> check_manifest sys p a m oid) (\<lambda>_.
             bindW (liftR (sealed_request sys (request_for p cs a manifest oid ops now) now)) (\<lambda>r.
             retW \<lparr>pa_request = r, pa_contents = [(write_id, content)]\<rparr>))))
         | _ \<Rightarrow> raiseW (AdapterError ''unsupported_privileged_plan'')))"

text \<open>\<open>LocalPrivilegedApplyService.execute\<close>: without a backup; \<open>invoke\<close> and \<open>ready\<close> are its ports.\<close>

definition service_execute :: "system \<Rightarrow> (helper_request \<Rightarrow> (str \<times> bytes) list \<Rightarrow> helper_result list io) \<Rightarrow> unit io \<Rightarrow>
    optimization_plan \<Rightarrow> approval_record \<Rightarrow> str \<Rightarrow> helper_result list io" where
  "service_execute sys invoke ready p a oid =
     bindW (prepare_apply sys p a oid None) (\<lambda>prepared.
     bindW ready (\<lambda>_. invoke (pa_request prepared) (pa_contents prepared)))"

section \<open>The request that takes it back\<close>

text \<open>One item of the backup, as an operation and the content it needs.\<close>

definition restore_operation :: "helper_request \<Rightarrow> str \<Rightarrow> backup_restore_item \<Rightarrow>
    (helper_operation \<times> (str \<times> bytes) list) res" where
  "restore_operation applied item_id it =
     (case dict_of (map (\<lambda>h. (ho_target h, ho_staged h)) (filter (\<lambda>h. ho_kind h = ATOMIC_REPLACE) (hq_operations applied)))
         (Some (ri_target it)) of
        Some (Some after) \<Rightarrow>
          if ri_existed it then
            (case (ri_content it, ri_sha256 it) of
               (Some content, Some digest) \<Rightarrow>
                 Inr ((write_operation item_id RESTORE_FILE (Some after) digest)\<lparr>ho_target := Some (ri_target it)\<rparr>, [(item_id, content)])
             | _ \<Rightarrow> Inl (AdapterError ''invalid_backup''))
          else Inr (\<lparr>ho_id = item_id, ho_kind = HK_REMOVE_CREATED, ho_target = Some (ri_target it), ho_unit = None,
                 ho_before = Some after, ho_staged = None, ho_mode = None, ho_uid = None, ho_gid = None\<rparr>, [])
      | _ \<Rightarrow> Inl (AdapterError ''workflow_binding_mismatch''))"

fun restore_operations :: "helper_request \<Rightarrow> str \<Rightarrow> nat \<Rightarrow> backup_restore_item list \<Rightarrow>
    (helper_operation list \<times> (str \<times> bytes) list) res" where
  "restore_operations applied oid n [] = Inr ([], [])"
| "restore_operations applied oid n (it # its) =
     bindR (restore_operation applied (oid @ lit '':restore:'' @ dec_nat n) it) (\<lambda>(h, c).
     bindR (restore_operations applied oid (Suc n) its) (\<lambda>(hs, cs). Inr (h # hs, c @ cs)))"

text \<open>\<open>PrivilegedRollbackRequestFactory.prepare\<close>\<close>

definition prepare_rollback :: "system \<Rightarrow> (backup_manifest \<Rightarrow> backup_restore_item list io) \<Rightarrow> optimization_plan \<Rightarrow> approval_record \<Rightarrow>
    backup_manifest \<Rightarrow> str \<Rightarrow> helper_request \<Rightarrow> prepared_apply io" where
  "prepare_rollback sys restore_items p a m oid applied =
     bindW (check_manifest sys p a m (hq_id applied)) (\<lambda>_.
     bindW (checkW (hq_approval applied = Some (approval_id a) \<and> hq_backup applied = Some (backup_id m)
        \<and> hq_manifest applied = Some (manifest_hash m)) ''workflow_binding_mismatch'') (\<lambda>_.
     bindW (restore_items m) (\<lambda>its.
     bindW (liftR (restore_operations applied oid 0 its)) (\<lambda>(ops, contents).
     bindW utc_now (\<lambda>now.
     case op_change_set p of
       None \<Rightarrow> raiseW (AdapterError ''workflow_binding_mismatch'')
     | Some cs \<Rightarrow>
         bindW (liftR (sealed_request sys (request_for p cs a (Some m) oid (ops @ service_operations oid) now) now)) (\<lambda>r.
         retW \<lparr>pa_request = r, pa_contents = contents\<rparr>))))))"

text \<open>Once the approval or the plan has expired, nothing can be taken back.\<close>

lemma expired_rollback_refused:
  assumes "utc_now w = (Inr now, w')" and "\<not> is_valid_for (runtime.truncate sys) a p now"
  shows "fst (prepare_rollback sys restore_items p a m oid applied w) = Inl (AdapterError ''workflow_binding_mismatch'')"
  using assms by (simp add: prepare_rollback_def check_manifest_def checkW_def guardW_def valid_now_def bindW_def)

section \<open>The coordinator\<close>

record privileged =
  pv_create :: "backup_request \<Rightarrow> backup_manifest io"
  pv_verify :: "backup_manifest \<Rightarrow> validation_result list io"
  pv_items :: "backup_manifest \<Rightarrow> backup_restore_item list io"
  pv_invoke :: "helper_request \<Rightarrow> (str \<times> bytes) list \<Rightarrow> helper_result list io"
  pv_validate :: "change_set \<Rightarrow> validation_result list io"
  pv_journal :: journal_store
  pv_ready :: "unit io"
  pv_audit :: "(str \<Rightarrow> str \<Rightarrow> (str \<times> json) list \<Rightarrow> unit io) option"

definition pv_log :: "privileged \<Rightarrow> string \<Rightarrow> optimization_plan \<Rightarrow> (str \<times> json) list \<Rightarrow> unit io" where
  "pv_log pv ev p facts = (case pv_audit pv of
      None \<Rightarrow> retW ()
    | Some write \<Rightarrow> write (lit ev) (plan_id p)
        ([(lit ''plan_id'', JStr (plan_id p)), (lit ''host_id'', plan_host p)] @ facts))"

definition helper_passed :: "helper_result list \<Rightarrow> bool" where
  "helper_passed results \<longleftrightarrow> results \<noteq> [] \<and> list_all hr_completed results"

definition helper_validation :: "str \<Rightarrow> bool \<Rightarrow> json \<Rightarrow> validation_result" where
  "helper_validation name ok found =
     \<lparr>validation_id = name, vr_scope = lit ''helper'', check = name, vr_status = (if ok then VS_PASSED else VS_FAILED),
      expected = JStr (lit ''completed''), actual = found, vr_severity = (if ok then SV_INFO else SV_HIGH),
      vr_message = Some \<lparr>message_key = lit ''validation.'' @ name, arguments = [], fallback_text = []\<rparr>, vr_duration_ms = 0\<rparr>"

definition helper_validations :: "helper_result list \<Rightarrow> string \<Rightarrow> validation_result list" where
  "helper_validations results stage_name = map (\<lambda>x. helper_validation (lit stage_name @ 46 # helper_kind_value (hr_kind x))
     (hr_completed x) (JStr (case hr_error x of Some c \<Rightarrow> if c = [] then lit ''completed'' else lit c | None \<Rightarrow> lit ''completed''))) results"

definition outcome :: "plan_status \<Rightarrow> backup_manifest option \<Rightarrow> validation_result list \<Rightarrow> apply_error option \<Rightarrow> apply_outcome" where
  "outcome st m vs e = \<lparr>ao_status = st, ao_manifest = m, ao_validations = vs, ao_error = e\<rparr>"

text \<open>The \<open>try\<close> block of \<open>_rollback\<close>: the results of the helper, or the error.\<close>

definition take_back :: "system \<Rightarrow> privileged \<Rightarrow> optimization_plan \<Rightarrow> approval_record \<Rightarrow> backup_manifest \<Rightarrow> helper_request \<Rightarrow> str \<Rightarrow>
    (validation_result list \<times> plan_status) io" where
  "take_back sys pv p a m applied oid = tryW
     (bindW (journal_load sys (pv_journal pv) oid) (\<lambda>current.
      bindW (if oj_status current \<in> {JS_APPLYING, JS_VALIDATING}
             then bindW (journal_update sys (pv_journal pv) oid JS_ROLLING_BACK) (\<lambda>_. retW ()) else retW ()) (\<lambda>_.
      bindW (prepare_rollback sys (pv_items pv) p a m (oid @ lit ''-rollback'') applied) (\<lambda>rollback.
      bindW (journal_bind_rollback sys (pv_journal pv) oid (hq_hash (pa_request rollback))) (\<lambda>_.
      bindW (pv_invoke pv (pa_request rollback) (pa_contents rollback)) (\<lambda>results.
      retW (helper_validations results ''rollback'', if helper_passed results then ROLLED_BACK else RECOVERY_REQUIRED)))))))
     (\<lambda>e. if caught e then retW ([helper_validation (lit ''rollback.exception'') False (error_code e)], RECOVERY_REQUIRED) else raiseW e)"

definition pv_rollback :: "system \<Rightarrow> privileged \<Rightarrow> optimization_plan \<Rightarrow> approval_record \<Rightarrow> backup_manifest \<Rightarrow> helper_request \<Rightarrow> str \<Rightarrow>
    validation_result list \<Rightarrow> apply_error \<Rightarrow> apply_outcome io" where
  "pv_rollback sys pv p a m applied oid validations err =
     bindW (take_back sys pv p a m applied oid) (\<lambda>(restored, status).
     bindW (succeeds (pv_log pv (if status = ROLLED_BACK then ''rollback.completed'' else ''rollback.recovery_required'') p
        (backup_field (backup_id m)))) (\<lambda>audited.
     let status = (if audited then status else RECOVERY_REQUIRED) in
     bindW (succeeds (journal_update sys (pv_journal pv) oid (if status = ROLLED_BACK then JS_ROLLED_BACK else JS_RECOVERY_REQUIRED))) (\<lambda>marked.
     retW (outcome (if marked then status else RECOVERY_REQUIRED) (Some m) (validations @ restored) (Some err)))))"

text \<open>The local variables of \<open>execute\<close> its exception handler reads.\<close>

record pv_locals =
  pl_manifest :: "backup_manifest option"
  pl_request :: "helper_request option"

definition known :: "backup_manifest option \<Rightarrow> helper_request option \<Rightarrow> 'a io \<Rightarrow> (exn \<times> pv_locals, 'a) run" where
  "known m r x = tryW x (\<lambda>e. raiseW (e, \<lparr>pl_manifest = m, pl_request = r\<rparr>))"

text \<open>The helper was not started: nothing to restore.\<close>

definition not_started :: "system \<Rightarrow> privileged \<Rightarrow> optimization_plan \<Rightarrow> backup_manifest \<Rightarrow> str \<Rightarrow> exn \<Rightarrow> apply_outcome io" where
  "not_started sys pv p m oid e =
     bindW (journal_update sys (pv_journal pv) oid JS_ROLLING_BACK) (\<lambda>_.
     bindW (tryW (bindW (pv_log pv ''apply.not_started'' p (backup_field (backup_id m) @ [(lit ''error_code'', error_code e)]))
              (\<lambda>_. retW None)) (\<lambda>x. if os_or_adapter x then retW (Some x) else raiseW x)) (\<lambda>failed.
     case failed of
       Some x \<Rightarrow> bindW (journal_update sys (pv_journal pv) oid JS_RECOVERY_REQUIRED) (\<lambda>_.
         retW (outcome RECOVERY_REQUIRED (Some m) [] (Some (Raised x))))
     | None \<Rightarrow> bindW (journal_update sys (pv_journal pv) oid JS_ROLLED_BACK) (\<lambda>_.
         retW (outcome ROLLED_BACK (Some m) [] (Some (Raised e))))))"

text \<open>What follows the answer of the helper.\<close>

definition judge :: "system \<Rightarrow> privileged \<Rightarrow> optimization_plan \<Rightarrow> change_set \<Rightarrow> approval_record \<Rightarrow> backup_manifest \<Rightarrow> helper_request \<Rightarrow>
    str \<Rightarrow> helper_result list \<Rightarrow> apply_outcome io" where
  "judge sys pv p cs a m r oid results =
     (if \<not> helper_passed results then
        (if results \<noteq> [] \<and> \<not> hr_completed (hd results) then
           bindW (journal_update sys (pv_journal pv) oid JS_ROLLING_BACK) (\<lambda>_.
           bindW (journal_update sys (pv_journal pv) oid JS_ROLLED_BACK) (\<lambda>_.
           retW (outcome ROLLED_BACK (Some m) (helper_validations results ''apply'') (Some (Reported ''privileged apply failed'')))))
         else pv_rollback sys pv p a m r oid [] (Reported ''privileged apply failed''))
      else
        bindW (journal_update sys (pv_journal pv) oid JS_VALIDATING) (\<lambda>_.
        bindW (pv_validate pv cs) (\<lambda>validations.
        if all_passed validations then
          bindW (pv_log pv ''apply.committed'' p (backup_field (backup_id m))) (\<lambda>_.
          bindW (journal_update sys (pv_journal pv) oid JS_COMMITTED) (\<lambda>_.
          retW (outcome COMMITTED (Some m) validations None)))
        else pv_rollback sys pv p a m r oid validations (Reported ''runtime validation failed''))))"

definition invoke_step :: "system \<Rightarrow> privileged \<Rightarrow> optimization_plan \<Rightarrow> change_set \<Rightarrow> approval_record \<Rightarrow> backup_manifest \<Rightarrow> str \<Rightarrow>
    prepared_apply \<Rightarrow> apply_outcome io" where
  "invoke_step sys pv p cs a m oid prepared =
     bindW (tryW (bindW (pv_invoke pv (pa_request prepared) (pa_contents prepared)) (\<lambda>results. retW (Inr results)))
        (\<lambda>e. if e \<in> {AdapterError ''privilege_denied'', AdapterError ''helper_launch_failed''} then retW (Inl e) else raiseW e)) (\<lambda>x.
     case x of
       Inl e \<Rightarrow> not_started sys pv p m oid e
     | Inr results \<Rightarrow> judge sys pv p cs a m (pa_request prepared) oid results)"

definition pv_body :: "system \<Rightarrow> privileged \<Rightarrow> optimization_plan \<Rightarrow> change_set \<Rightarrow> approval_record \<Rightarrow> str \<Rightarrow> (exn \<times> pv_locals, apply_outcome) run" where
  "pv_body sys pv p cs a oid =
     bindW (known None None (pv_log pv ''apply.approved'' p [(lit ''approval_id'', JStr (approval_id a))])) (\<lambda>_.
     bindW (known None None (pv_ready pv)) (\<lambda>_.
     bindW (known None None (pv_create pv (request_of p cs oid))) (\<lambda>m.
     bindW (known (Some m) None (pv_verify pv m)) (\<lambda>checks.
     if \<not> all_passed checks then
       bindW (known (Some m) None (pv_log pv ''backup.failed'' p (backup_field (backup_id m)))) (\<lambda>_.
       retW (outcome APPROVED (Some m) checks (Some (Reported ''backup verification failed''))))
     else
       bindW (known (Some m) None (pv_log pv ''backup.verified'' p (backup_field (backup_id m)))) (\<lambda>_.
       bindW (known (Some m) None (tryW (bindW (pv_ready pv) (\<lambda>_. retW None)) (\<lambda>e. if caught e then retW (Some e) else raiseW e))) (\<lambda>unready.
       case unready of
         Some e \<Rightarrow> retW (outcome APPROVED (Some m) checks (Some (Raised e)))
       | None \<Rightarrow>
           bindW (known (Some m) None (prepare_apply sys p a oid (Some m))) (\<lambda>prepared.
           let r = pa_request prepared; write = hd (hq_operations r) in
           bindW (known (Some m) (Some r) (journal_create sys (pv_journal pv) oid (plan_id p) (cs_host_id cs) (content_hash cs)
              [\<lparr>jt_target = the (ho_target write), jt_before = ho_before write, jt_after = the (ho_staged write)\<rparr>]
              (Some (approval_id a)) (Some (backup_id m)) (Some (manifest_hash m)) (Some (hq_hash r)))) (\<lambda>_.
           known (Some m) (Some r) (invoke_step sys pv p cs a m oid prepared)))))))))"

definition pv_handler :: "system \<Rightarrow> privileged \<Rightarrow> optimization_plan \<Rightarrow> approval_record \<Rightarrow> str \<Rightarrow> exn \<times> pv_locals \<Rightarrow> apply_outcome io" where
  "pv_handler sys pv p a oid = (\<lambda>(e, l).
     if \<not> caught e then raiseW e
     else (case pl_manifest l of
         None \<Rightarrow> retW (outcome APPROVED None [] (Some (Raised e)))
       | Some m \<Rightarrow>
           bindW (succeeds (journal_load sys (pv_journal pv) oid)) (\<lambda>journaled.
           case (journaled, pl_request l) of
             (True, Some r) \<Rightarrow> pv_rollback sys pv p a m r oid [] (Raised e)
           | _ \<Rightarrow> retW (outcome RECOVERY_REQUIRED (Some m) [] (Some (Raised e))))))"

definition pv_execute :: "system \<Rightarrow> privileged \<Rightarrow> optimization_plan \<Rightarrow> approval_record \<Rightarrow> str \<Rightarrow> apply_outcome io" where
  "pv_execute sys pv p a oid =
     (case op_change_set p of
        None \<Rightarrow> raiseW (AdapterError ''invalid_approval'')
      | Some cs \<Rightarrow>
          bindW (valid_now sys a p) (\<lambda>ok. bindW (checkW ok ''invalid_approval'') (\<lambda>_.
          tryW (pv_body sys pv p cs a oid) (pv_handler sys pv p a oid))))"

end
