(* ===== verification/HelperSafety.thy ===== *)
theory HelperSafety
  imports HelperRun
begin

text \<open>
  What the privileged helper guarantees (\<open>HelperRun\<close>): which files it can touch at all, what a completed
  operation has done, in which order operations run, and that no operation runs twice; with a worked run on a
  small machine whose \<open>/c\<close> holds the receipts and whose user 7 staged one installation of the drop-in.
\<close>

section \<open>What the helper may touch\<close>

lemma keeps_verify [keeping]: "keeps S (staged_verify sys sg r h)"
  unfolding staged_verify_def operation_directory_def validate_root_def private_dir_def
  by (auto intro!: keeping split: option.split node.split)

lemma keeps_receipt_load [keeping]: "keeps S (receipt_load sys rs oid)"
  unfolding receipt_load_def by (auto intro!: keeping split: option.split node.split)

lemma keeps_receipt_begin [keeping]:
  assumes "\<not> S (resolved_target sys (rs_root rs))"
    and "\<And>p. receipt_path rs (hq_id r) = Inr p \<Longrightarrow> \<not> S (resolved_target sys p)"
  shows "keeps S (receipt_begin sys rs r)"
  using assms unfolding receipt_begin_def prepare_receipts_def Let_def
  by (auto intro!: keeping keeps_liftR_bind)

lemma keeps_receipt_finish [keeping]:
  assumes "\<And>p. receipt_path rs (hq_id r) = Inr p \<Longrightarrow> \<not> S (resolved_target sys p)"
  shows "keeps S (receipt_finish sys rs r results)"
  using assms unfolding receipt_finish_def by (auto intro!: keeping keeps_liftR_bind)

text \<open>The backend leaves a file alone that is neither the drop-in nor its directory.\<close>

lemma keeps_backend_target [keeping]: "keeps S (backend_target sys lb t)"
  unfolding backend_target_def by (auto intro!: keeping)

lemma backend_target_Inr: "backend_target sys lb t w = (Inr p, w') \<Longrightarrow> p = fixed_target lb \<and> w' = w \<and> t = Some drop_in_path"
  by (auto simp: backend_target_def bindW_Inr checkW_def entry_at_def)

lemma keeps_target_bind: "keeps S (f (fixed_target lb)) \<Longrightarrow> keeps S (bindW (backend_target sys lb t) f)"
  by (rule keeps_bind_result [OF keeps_backend_target]) (auto dest: backend_target_Inr)

lemma keeps_prepare_parent [keeping]:
  "\<not> S (resolved_target sys p) \<Longrightarrow> keeps S (prepare_parent sys lb p)"
  unfolding prepare_parent_def by (auto intro!: keeping split: option.split)

lemma keeps_open_fixed [keeping]: "keeps S (open_fixed sys upper cs)"
  by (induction cs arbitrary: upper) (auto intro!: keeping)

lemma keeps_backend:
  assumes "\<not> S (resolved_target sys (fixed_target lb))" and "\<not> S (resolved_target sys (path_parent (fixed_target lb)))"
    and "\<And>argv. keeps S (lb_runner lb argv)"
  shows "keeps S (hb_locked (system_backend sys lb))" "keeps S (hb_read (system_backend sys lb) t)"
    "keeps S (hb_write (system_backend sys lb) t c m u g)" "keeps S (hb_remove (system_backend sys lb) t)"
    "keeps S (hb_reload (system_backend sys lb))" "keeps S (hb_restart (system_backend sys lb) t)"
  using assms unfolding system_backend_def backend_locked_def backend_read_def backend_write_def backend_remove_def
    backend_reload_def backend_restart_def run_service_def lock_target_def Let_def
  by (auto intro!: keeping keeps_target_bind split: option.split node.split)


lemma keeps_check:
  assumes "b \<Longrightarrow> keeps S (f ())"
  shows "keeps S (bindW (checkW b c) f)"
  using assms by (cases b) (auto simp: keeps_def bindW_def checkW_def guardW_def)

definition backend_keeps :: "(str \<Rightarrow> bool) \<Rightarrow> helper_backend \<Rightarrow> bool" where
  "backend_keeps S hb \<longleftrightarrow> keeps S (hb_locked hb) \<and> (\<forall>t. keeps S (hb_read hb t)) \<and> (\<forall>t c m u g. keeps S (hb_write hb t c m u g))
     \<and> (\<forall>t. keeps S (hb_remove hb t)) \<and> keeps S (hb_reload hb) \<and> (\<forall>t. keeps S (hb_restart hb t))"

lemma keeps_caught_code [keeping]: "keeps S m \<Longrightarrow> keeps S (caught_code m)"
  unfolding caught_code_def by (auto intro!: keeping split: option.split)

lemma keeps_execute:
  assumes "backend_keeps S (hx_backend hx)" and "\<And>f. hx_capture hx = Some f \<Longrightarrow> keeps S (f r)"
  shows keeps_execute_one: "keeps S (execute_one sys hx r fd h)"
    and keeps_execute_locked: "keeps S (execute_locked sys hx r fd hs)"
    and keeps_helper_execute: "keeps S (helper_execute sys hx r d)"
proof -
  note b = assms(1) [unfolded backend_keeps_def]
  have v: "keeps S (verify_before sys (hx_backend hx) h)" for h
    using b unfolding verify_before_def by (auto intro!: keeping)
  have "keeps S (capture_step sys hx r fd h)" for fd h
    using v assms(2) unfolding capture_step_def by (cases "hx_capture hx") (auto intro!: keeping)
  then have one: "keeps S (execute_one sys hx r fd h)" for fd h
    using v b unfolding execute_one_def Let_def by (cases "ho_kind h") (auto intro!: keeping)
  have all: "keeps S (execute_locked sys hx r fd hs)" for fd hs
  proof (induction hs)
    case (Cons h hs)
    then show ?case unfolding execute_locked.simps by (auto intro!: keeping one split: option.split)
  qed (simp only: execute_locked.simps keeping)
  show "keeps S (execute_one sys hx r fd h)" "keeps S (execute_locked sys hx r fd hs)" by (rule one, rule all)
  show "keeps S (helper_execute sys hx r d)"
    using b all unfolding helper_execute_def by (auto intro!: keeping split: option.split)
qed

lemma system_backend_keeps:
  assumes "\<not> S (resolved_target sys (fixed_target lb))" and "\<not> S (resolved_target sys (path_parent (fixed_target lb)))"
    and "\<And>argv. keeps S (lb_runner lb argv)"
  shows "backend_keeps S (system_backend sys lb)"
  unfolding backend_keeps_def using keeps_backend [OF assms] by blast

text \<open>The four places the helper may change.\<close>

definition helper_places :: "system \<Rightarrow> helper_setup \<Rightarrow> str \<Rightarrow> str set" where
  "helper_places sys hs oid = {resolved_target sys (fixed_target (hs_own hs)),
     resolved_target sys (path_parent (fixed_target (hs_own hs))), resolved_target sys (rs_root (hs_receipts hs)),
     resolved_target sys (path_join (rs_root (hs_receipts hs)) (oid @ lit ''.json''))}"

lemma keeps_prepare_helper: "keeps S (prepare_helper sys hs oid h)"
proof -
  have "keeps S (read_user_request sys q n)" for q n
    unfolding read_user_request_def by (auto intro!: keeping split: option.split node.split)
  moreover have "keeps S (helper_capture sys hs r)" for r
    unfolding helper_capture_def validate_capture_request_def by (auto intro!: keeping)
  ultimately show ?thesis unfolding prepare_helper_def by (auto intro!: keeping)
qed

lemma prepare_helper_Inr:
  assumes "prepare_helper sys hs oid h w = (Inr (r, hx), w')"
  shows "fs w' = fs w" "hq_id r = oid" "is_identifier oid" "chosen_backend sys hs = Inr (hx_backend hx)"
    "\<exists>b now. decode_request (runtime.truncate sys) b h now = Inr r"
    "hx_capture hx \<in> {None, Some (hs_capture hs)}"
proof -
  show "fs w' = fs w" using keeps_prepare_helper [of "\<lambda>_. True" sys hs oid h] assms
    by (auto simp: keeps_def fun_eq_iff) (metis snd_conv)
  show "hq_id r = oid" "is_identifier oid" "chosen_backend sys hs = Inr (hx_backend hx)" "hx_capture hx \<in> {None, Some (hs_capture hs)}"
    "\<exists>b now. decode_request (runtime.truncate sys) b h now = Inr r"
    using assms by (auto simp: prepare_helper_def bindW_Inr checkW_def helper_capture_def split: if_splits)
qed

lemma keeps_prepared:
  assumes "prepare_helper sys hs oid h w = (Inr (r, hx), w')" and "hs_given hs = None"
    and "\<And>p. S p \<Longrightarrow> p \<noteq> resolved_target sys (fixed_target (hs_own hs)) \<and>
      p \<noteq> resolved_target sys (path_parent (fixed_target (hs_own hs)))"
    and "\<And>argv. keeps S (lb_runner (hs_own hs) argv)" and "\<And>r. keeps S (hs_capture hs r)"
  shows "keeps S (helper_execute sys hx r h)"
proof (rule keeps_helper_execute)
  have "hx_backend hx = system_backend sys (hs_own hs)"
    using prepare_helper_Inr(4) [OF assms(1)] assms(2)
    by (auto simp: chosen_backend_def bindR_eq_Inr new_backend_def split: if_splits)
  moreover have "\<not> S (resolved_target sys (fixed_target (hs_own hs)))"
    "\<not> S (resolved_target sys (path_parent (fixed_target (hs_own hs))))"
    using assms(3) by blast+
  ultimately show "backend_keeps S (hx_backend hx)" using assms(4) by (simp add: system_backend_keeps)
qed (use prepare_helper_Inr(6) [OF assms(1)] assms(5) in auto)

lemma keeps_run_helper:
  assumes "hs_given hs = None" and "\<And>p. S p \<Longrightarrow> p \<notin> helper_places sys hs oid"
    and "\<And>argv. keeps S (lb_runner (hs_own hs) argv)" and "\<And>r. keeps S (hs_capture hs r)"
  shows "keeps S (run_helper sys hs oid h)"
  unfolding run_helper_def
proof (rule keeps_bind_result [OF keeps_prepare_helper])
  fix w x w' assume p: "prepare_helper sys hs oid h w = (Inr x, w')"
  obtain r hx where x: "x = (r, hx)" by (cases x)
  have n: "\<not> S (resolved_target sys (rs_root (hs_receipts hs)))"
    "\<And>q. receipt_path (hs_receipts hs) (hq_id r) = Inr q \<Longrightarrow> \<not> S (resolved_target sys q)"
    using assms(2) prepare_helper_Inr(2) [OF p [unfolded x]] by (auto simp: helper_places_def receipt_path_def split: if_splits)
  have "keeps S (helper_execute sys hx r h)"
    using assms(2) by (intro keeps_prepared [OF p [unfolded x] assms(1) _ assms(3,4)]) (auto simp: helper_places_def)
  then show "keeps S (case x of (r, hx) \<Rightarrow> bindW (receipt_begin sys (hs_receipts hs) r) (\<lambda>_.
      bindW (helper_execute sys hx r h) (\<lambda>results. bindW (receipt_finish sys (hs_receipts hs) r results) (\<lambda>_. retW results))))"
    unfolding x prod.case using n by (intro keeping)
qed


section \<open>What an operation does\<close>

definition drop_in_at :: "system \<Rightarrow> local_backend \<Rightarrow> str" where
  "drop_in_at sys lb = resolved_target sys (fixed_target lb)"

definition target_digest :: "system \<Rightarrow> local_backend \<Rightarrow> world \<Rightarrow> str option" where
  "target_digest sys lb w = (case fs w (drop_in_at sys lb) of Some (RegFile c _ _ _) \<Rightarrow> Some (sha256 sys c) | _ \<Rightarrow> None)"

lemma backend_read_Inr:
  assumes "backend_read sys lb t w = (Inr c, w')"
  shows "fs w' = fs w \<and> map_option (sha256 sys) c = target_digest sys lb w"
proof -
  obtain w1 where t: "backend_target sys lb t w = (Inr (fixed_target lb), w1)"
    using assms by (auto simp: backend_read_def bindW_Inr dest: backend_target_Inr)
  then have w: "w1 = w" by (auto dest: backend_target_Inr)
  show ?thesis using assms t w
    by (auto simp: backend_read_def bindW_def entry_at_def checkW_def target_digest_def drop_in_at_def
        split: option.splits node.splits prod.splits sum.splits dest!: read_bytes_Inr)
qed

lemma verify_before_Inr:
  assumes "verify_before sys (system_backend sys lb) h w = (Inr (), w')"
  shows "fs w' = fs w \<and> target_digest sys lb w = ho_before h"
  using assms by (auto simp: verify_before_def bindW_Inr checkW_def system_backend_def dest!: backend_read_Inr)

lemma backend_write_Inr:
  assumes "backend_write sys lb t c m u g w = (Inr (), w')" and "\<not> lb_sandbox lb"
  shows "fs w' (drop_in_at sys lb) = Some (RegFile c 420 0 0)"
proof -
  obtain w1 w2 w3 where "atomic_write sys (drop_in_at sys lb) c 420 w1 = (Inr (), w2)"
    and c: "chown_file (drop_in_at sys lb) 0 0 w2 = (Inr (), w3)" and "fs w' = fs w3"
    using assms by (auto simp: backend_write_def bindW_Inr drop_in_at_def dest!: backend_target_Inr os_step_fs)
  then have "fs w2 (drop_in_at sys lb) = Some (RegFile c 420 (euid sys) (egid sys))" by (auto dest: atomic_write_Inr)
  from chown_file_Inr [OF c this] show ?thesis using \<open>fs w' = fs w3\<close> by simp
qed

lemma staged_verify_Inr:
  assumes "staged_verify sys sg r h w = (Inr c, w')"
  shows "Some (sha256 sys c) = ho_staged h"
proof -
  obtain n d w1 where n: "(case n of
         Some (RegFile content m u _) \<Rightarrow>
           bindW (checkW (u = sg_owner sg \<and> m = 384) ''unsafe_staging'') (\<lambda>_.
           bindW (checkW (int (length content) \<le> max_item_bytes) ''item_too_large'') (\<lambda>_.
           bindW (read_bytes (resolved_target sys (content_path d h))) (\<lambda>c.
           bindW (checkW (Some (sha256 sys c) = ho_staged h) ''staged_hash_mismatch'') (\<lambda>_. retW c))))
       | _ \<Rightarrow> raiseW (AdapterError ''unsafe_staging'')) w1 = (Inr c, w')"
    using assms unfolding staged_verify_def bindW_Inr by blast
  then obtain b m u g where "n = Some (RegFile b m u g)" by (auto split: option.splits node.splits)
  with n show ?thesis by (auto simp: bindW_Inr checkW_def)
qed

lemma backend_remove_Inr:
  "backend_remove sys lb t w = (Inr (), w') \<Longrightarrow> fs w' (drop_in_at sys lb) = None"
  by (auto simp: backend_remove_def bindW_Inr drop_in_at_def dest!: backend_target_Inr unlink_synced_Inr)


lemma installed_file:
  assumes "execute_one sys hx r fd h w = (Inr (), w')" and "hx_backend hx = system_backend sys lb" and "\<not> lb_sandbox lb"
    and "installs h"
  shows "target_digest sys lb w = ho_before h \<and>
      (\<exists>c. fs w' (drop_in_at sys lb) = Some (RegFile c 420 0 0) \<and> Some (sha256 sys c) = ho_staged h)"
proof -
  have k: "ho_kind h \<in> {ATOMIC_REPLACE, RESTORE_FILE}" using assms(4) by (simp add: installs_def)
  from assms(1,2) k obtain w1 w2 w3 c where b: "verify_before sys (system_backend sys lb) h w = (Inr (), w1)"
    and c: "staged_verify sys (hx_staging hx) r h w1 = (Inr c, w2)"
    and x: "backend_write sys lb (ho_target h) c (ho_mode h) (ho_uid h) (ho_gid h) w3 = (Inr (), w')"
    by (auto simp: execute_one_def Let_def bindW_Inr system_backend_def)
  show ?thesis using verify_before_Inr [OF b] backend_write_Inr [OF x assms(3)] staged_verify_Inr [OF c] by blast
qed

text \<open>
  What an operation of the helper does when it succeeds: an installation found the drop-in with the
  digest the request declares as the old one (or absent, if it declares none) and left there, mode 0644 and
  owned by root, a content with the digest the request declares as the new one; a removal found the declared
  digest and left no file.
\<close>

lemma operation_effect:
  assumes "execute_one sys hx r fd h w = (Inr (), w')" and "hx_backend hx = system_backend sys lb" and "\<not> lb_sandbox lb"
  shows "(installs h \<longrightarrow> target_digest sys lb w = ho_before h \<and>
      (\<exists>c. fs w' (drop_in_at sys lb) = Some (RegFile c 420 0 0) \<and> Some (sha256 sys c) = ho_staged h))
    \<and> (removes h \<longrightarrow> target_digest sys lb w = ho_before h \<and> fs w' (drop_in_at sys lb) = None)"
proof (intro conjI impI)
  assume i: "installs h"
  show "target_digest sys lb w = ho_before h" "\<exists>c. fs w' (drop_in_at sys lb) = Some (RegFile c 420 0 0) \<and> Some (sha256 sys c) = ho_staged h"
    using installed_file [OF assms i] by blast+
next
  assume k: "removes h"
  from assms(1,2) k obtain w1 where b: "verify_before sys (system_backend sys lb) h w = (Inr (), w1)"
    and x: "backend_remove sys lb (ho_target h) w1 = (Inr (), w')"
    by (auto simp: removes_def execute_one_def Let_def bindW_Inr system_backend_def)
  show "target_digest sys lb w = ho_before h" using verify_before_Inr [OF b] by simp
  show "fs w' (drop_in_at sys lb) = None" using backend_remove_Inr [OF x] .
qed


section \<open>What a failure leaves\<close>

text \<open>
  \<open>only_os m\<close>: \<open>m\<close> raises nothing but \<open>OSError\<close>; \<open>refuses p m\<close>: an \<open>AdapterError\<close> of \<open>m\<close> leaves the file at \<open>p\<close> as it was.
\<close>

definition only_os :: "'a io \<Rightarrow> bool" where
  "only_os m \<longleftrightarrow> (\<forall>w e w'. m w = (Inl e, w') \<longrightarrow> e = OSError)"

definition refuses :: "str \<Rightarrow> 'a io \<Rightarrow> bool" where
  "refuses p m \<longleftrightarrow> (\<forall>w a w'. m w = (Inl (AdapterError a), w') \<longrightarrow> fs w' p = fs w p)"

lemma only_os_bind: "only_os m \<Longrightarrow> (\<And>x. only_os (f x)) \<Longrightarrow> only_os (bindW m f)"
  unfolding only_os_def bindW_Inl by blast

lemma only_os_steps: "only_os os_step" "only_os (put_node p n)" "only_os (node_at p)" "only_os (retW x)" "only_os (raiseW OSError)"
  by (auto simp: only_os_def os_step_def put_node_def split: list.splits if_splits)

lemma only_os_calls: "only_os (atomic_write sys p c m)" "only_os (unlink_synced p)" "only_os (chown_file p u g)"
  unfolding atomic_write_def unlink_synced_def chown_file_def
  by (auto intro!: only_os_bind only_os_steps split: option.split node.split)

lemma refuses_only_os: "only_os m \<Longrightarrow> refuses p m"
  by (auto simp: only_os_def refuses_def)

lemma refuses_keeps: "keeps (\<lambda>q. q = p) m \<Longrightarrow> refuses p m"
  by (auto simp: refuses_def keeps_def) (metis snd_conv)

lemma refuses_bind:
  assumes "keeps (\<lambda>q. q = p) m" and "\<And>w x w'. m w = (Inr x, w') \<Longrightarrow> refuses p (f x)"
  shows "refuses p (bindW m f)"
  unfolding refuses_def
proof (intro allI impI)
  fix w a w' assume b: "bindW m f w = (Inl (AdapterError a), w')"
  obtain x w1 where m: "m w = (x, w1)" by (cases "m w")
  have k: "fs w1 p = fs w p" by (rule keepsD [OF assms(1) m]) simp
  show "fs w' p = fs w p"
    using b m k assms(2) [of w] by (cases x) (auto simp: bindW_def refuses_def)
qed

lemma backend_refuses:
  assumes "drop_in_at sys lb \<noteq> resolved_target sys (path_parent (fixed_target lb))"
  shows "refuses (drop_in_at sys lb) (backend_write sys lb t c m u g)" and "refuses (drop_in_at sys lb) (backend_remove sys lb t)"
proof -
  have k: "keeps (\<lambda>q. q = drop_in_at sys lb) (prepare_parent sys lb (path_parent (fixed_target lb)))"
    using assms by (intro keeping) simp
  have tail: "refuses (drop_in_at sys lb) (bindW (atomic_write sys (resolved_target sys p) c 420) (\<lambda>_.
     if lb_sandbox lb then retW ()
     else bindW (chown_file (resolved_target sys p) 0 0) (\<lambda>_. bindW os_step (\<lambda>_. bindW os_step (\<lambda>_. os_step)))))" for p
    by (rule refuses_only_os) (auto intro!: only_os_bind only_os_calls only_os_steps)
  show "refuses (drop_in_at sys lb) (backend_write sys lb t c m u g)" unfolding backend_write_def
    by (rule refuses_bind, rule keeping, rule refuses_bind, rule keeping, rule refuses_bind, rule keeping, drule backend_target_Inr,
        clarify, rule refuses_bind, rule k, rule refuses_bind, rule keeping, rule refuses_bind, rule keeping, rule tail)
  show "refuses (drop_in_at sys lb) (backend_remove sys lb t)" unfolding backend_remove_def
    by (intro refuses_bind keeping refuses_only_os only_os_calls)
qed

text \<open>An operation on the file.\<close>

lemma keeps_checks:
  assumes "\<And>argv. keeps (\<lambda>q. q = drop_in_at sys lb) (lb_runner lb argv)" and "hx_backend hx = system_backend sys lb"
    and "\<And>f. hx_capture hx = Some f \<Longrightarrow> keeps (\<lambda>q. q = drop_in_at sys lb) (f r)"
  shows "keeps (\<lambda>q. q = drop_in_at sys lb) (verify_before sys (hx_backend hx) h)"
    and "keeps (\<lambda>q. q = drop_in_at sys lb) (capture_step sys hx r fd h)"
proof -
  have "keeps S (backend_read sys lb t)" for S t
    unfolding backend_read_def by (auto intro!: keeping split: option.split node.split)
  then have v: "keeps S (verify_before sys (hx_backend hx) h)" for S
    unfolding verify_before_def assms(2) by (auto intro!: keeping simp: system_backend_def)
  then show "keeps (\<lambda>q. q = drop_in_at sys lb) (verify_before sys (hx_backend hx) h)" .
  show "keeps (\<lambda>q. q = drop_in_at sys lb) (capture_step sys hx r fd h)"
    using v assms(3) unfolding capture_step_def by (cases "hx_capture hx") (auto intro!: keeping)
qed

lemma backend_fields:
  "hb_locked (system_backend sys lb) = backend_locked sys lb" "hb_read (system_backend sys lb) = backend_read sys lb"
  "hb_write (system_backend sys lb) = backend_write sys lb" "hb_remove (system_backend sys lb) = backend_remove sys lb"
  "hb_reload (system_backend sys lb) = backend_reload lb" "hb_restart (system_backend sys lb) = backend_restart lb"
  by (simp_all add: system_backend_def)

lemma keeps_locked: "\<not> S (resolved_target sys (path_parent (fixed_target lb))) \<Longrightarrow> keeps S (backend_locked sys lb)"
  unfolding backend_locked_def lock_target_def Let_def by (auto intro!: keeping keeps_target_bind split: option.split)

lemma caught_None: "caught_code m w = (Inr None, w') \<longleftrightarrow> m w = (Inr (), w')"
  by (auto simp: caught_code_def tryW_def bindW_def split: prod.splits sum.splits option.splits)

lemma caught_Some: "caught_code m w = (Inr (Some c), w') \<longleftrightarrow> (\<exists>e. m w = (Inl e, w') \<and> failure_code e = Some c)"
  by (auto simp: caught_code_def tryW_def bindW_def split: prod.splits sum.splits option.splits)

lemma caught_Inl: "caught_code m w = (Inl e, w') \<longleftrightarrow> m w = (Inl e, w') \<and> failure_code e = None"
  by (auto simp: caught_code_def tryW_def bindW_def split: prod.splits sum.splits option.splits)

lemma execute_locked_Inl: "execute_locked sys hx r fd hs w = (Inl e, w') \<Longrightarrow> failure_code e = None"
  by (induction hs arbitrary: w) (auto simp: bindW_Inl caught_Inl split: option.splits)

lemma execute_one_refuses:
  assumes "hx_backend hx = system_backend sys lb"
    and "drop_in_at sys lb \<noteq> resolved_target sys (path_parent (fixed_target lb))"
    and "\<And>argv. keeps (\<lambda>q. q = drop_in_at sys lb) (lb_runner lb argv)"
    and "\<And>f. hx_capture hx = Some f \<Longrightarrow> keeps (\<lambda>q. q = drop_in_at sys lb) (f r)"
  shows "refuses (drop_in_at sys lb) (execute_one sys hx r fd h)"
proof -
  have c: "keeps (\<lambda>q. q = drop_in_at sys lb) (verify_before sys (system_backend sys lb) h)"
    "keeps (\<lambda>q. q = drop_in_at sys lb) (capture_step sys hx r fd h)"
    using keeps_checks [OF assms(3,1), of r] assms(4) unfolding assms(1) by blast+
  have s: "keeps (\<lambda>q. q = drop_in_at sys lb) (backend_reload lb)" "keeps (\<lambda>q. q = drop_in_at sys lb) (backend_restart lb u)" for u
    unfolding backend_reload_def backend_restart_def run_service_def by (auto intro!: keeping assms(3))
  show ?thesis unfolding execute_one_def Let_def
    using c s backend_refuses [OF assms(2)]
    by (cases "ho_kind h") (auto simp: assms(1) backend_fields intro!: refuses_bind keeping c intro: refuses_keeps)
qed

lemma keeps_service:
  assumes "hx_backend hx = system_backend sys lb" and "\<And>argv. keeps (\<lambda>q. q = drop_in_at sys lb) (lb_runner lb argv)"
    and "\<forall>s\<in>set hs. serves s"
  shows "keeps (\<lambda>q. q = drop_in_at sys lb) (execute_locked sys hx r fd hs)"
  using assms(3)
proof (induction hs)
  case (Cons h hs)
  have "keeps (\<lambda>q. q = drop_in_at sys lb) (execute_one sys hx r fd h)"
    using Cons.prems assms(2) unfolding execute_one_def Let_def
    by (auto simp: assms(1) serves_def system_backend_def backend_reload_def backend_restart_def run_service_def intro!: keeping)
  then show ?case using Cons unfolding execute_locked.simps by (auto intro!: keeping split: option.split)
qed (simp only: execute_locked.simps keeping)

text \<open>
  Property C35. The answer of the helper to a request of the program, one installation followed by service
  commands, tells what happened to the drop-in: if the first result is completed the drop-in is the staged
  content, mode 0644 and owned by root, whatever became of the services; if it is a refusal with any code but
  \<open>helper_operation_failed\<close>, the drop-in is untouched.
\<close>

theorem answer_tells:
  assumes "helper_execute sys hx r d w = (Inr (x # results), w')" and "hq_operations r = h # services"
    and "installs h" and "\<forall>s\<in>set services. serves s"
    and "hx_backend hx = system_backend sys lb" and "\<not> lb_sandbox lb"
    and "drop_in_at sys lb \<noteq> resolved_target sys (path_parent (fixed_target lb))"
    and "\<And>argv. keeps (\<lambda>q. q = drop_in_at sys lb) (lb_runner lb argv)"
    and "\<And>f. hx_capture hx = Some f \<Longrightarrow> keeps (\<lambda>q. q = drop_in_at sys lb) (f r)"
  shows "hr_id x = ho_id h
    \<and> (hr_completed x \<longrightarrow> (\<exists>c. fs w' (drop_in_at sys lb) = Some (RegFile c 420 0 0) \<and> Some (sha256 sys c) = ho_staged h))
    \<and> (hr_error x \<notin> {None, Some ''helper_operation_failed''} \<longrightarrow> fs w' (drop_in_at sys lb) = fs w (drop_in_at sys lb))"
proof -
  let ?T = "drop_in_at sys lb"
  have l: "keeps (\<lambda>q. q = ?T) (hb_locked (hx_backend hx))"
    unfolding assms(5) backend_fields using assms(7) by (intro keeps_locked) simp
  obtain w0 where v: "validate_now sys r d w = (Inr (), w0)"
    and t: "tryW (bindW (hb_locked (hx_backend hx)) (\<lambda>fd. bindW (validate_now sys r d) (\<lambda>_. execute_locked sys hx r fd (hq_operations r))))
       (\<lambda>e. case failure_code e of Some c \<Rightarrow> retW (all_refused c r) | None \<Rightarrow> raiseW e) w0 = (Inr (x # results), w')"
    using assms(1) by (auto simp: helper_execute_def bindW_Inr)
  have f0: "fs w0 ?T = fs w ?T" using keepsD [OF keeps_entry(5) v, of "\<lambda>q. q = ?T"] by simp
  let ?lock = "bindW (hb_locked (hx_backend hx)) (\<lambda>fd. bindW (validate_now sys r d) (\<lambda>_. retW fd))"
  have k: "keeps (\<lambda>q. q = ?T) ?lock" by (intro keeping l)
  have b: "bindW (hb_locked (hx_backend hx)) (\<lambda>fd. bindW (validate_now sys r d) (\<lambda>_. execute_locked sys hx r fd (hq_operations r)))
      = bindW ?lock (\<lambda>fd. execute_locked sys hx r fd (hq_operations r))"
    by (rule ext) (simp add: bindW_def split: prod.split sum.split)
  obtain y w1 where y: "?lock w0 = (y, w1)" by (cases "?lock w0")
  have f1: "fs w1 ?T = fs w ?T" using keepsD [OF k y] f0 by simp
  show ?thesis
  proof (cases y)
    case (Inl e)
    then have "x # results = all_refused (the (failure_code e)) r" "w' = w1"
      using t y unfolding b by (auto simp: tryW_def bindW_run(2) split: option.splits)
    then show ?thesis using f1 assms(2) by (simp add: all_refused_def failed_result_def)
  next
    case (Inr fd)
    obtain z w2 where z: "execute_one sys hx r fd h w1 = (z, w2)" by (cases "execute_one sys hx r fd h w1")
    have "bindW ?lock (\<lambda>fd. execute_locked sys hx r fd (hq_operations r)) w0 = execute_locked sys hx r fd (h # services) w1"
      using y Inr assms(2) by (simp add: bindW_run(1) [of ?lock])
    then have "tryW (execute_locked sys hx r fd (h # services))
       (\<lambda>e. case failure_code e of Some c \<Rightarrow> retW (all_refused c r) | None \<Rightarrow> raiseW e) w1 = (Inr (x # results), w')"
      using t unfolding b tryW_def by simp
    then have e: "execute_locked sys hx r fd (h # services) w1 = (Inr (x # results), w')"
      by (auto simp: tryW_def simp del: execute_locked.simps dest: execute_locked_Inl split: prod.splits sum.splits option.splits)
    have R: "refuses ?T (execute_one sys hx r fd h)"
      by (rule execute_one_refuses [OF assms(5,7,8,9)])
    from e obtain z w2 where z: "caught_code (execute_one sys hx r fd h) w1 = (Inr z, w2)"
      and k: "(case z of Some c \<Rightarrow> retW (failed_result c h # map (failed_result ''not_executed'') services)
        | None \<Rightarrow> bindW (execute_locked sys hx r fd services) (\<lambda>results. retW (done_result h # results))) w2 = (Inr (x # results), w')"
      by (auto simp: bindW_Inr)
    show ?thesis
    proof (cases z)
      case (Some c)
      then obtain e' where e': "execute_one sys hx r fd h w1 = (Inl e', w2)" "failure_code e' = Some c"
        using z by (auto simp: caught_Some)
      have x: "x = failed_result c h" "w' = w2" using k Some by auto
      have "fs w' ?T = fs w ?T" if "c \<noteq> ''helper_operation_failed''"
      proof -
        have "e' = AdapterError c" using e'(2) that by (auto simp: failure_code_def split: exn.splits)
        then show ?thesis using R e'(1) x(2) f1 by (auto simp: refuses_def)
      qed
      then show ?thesis using x(1) by (auto simp: failed_result_def)
    next
      case None
      then have o: "execute_one sys hx r fd h w1 = (Inr (), w2)" using z by (simp add: caught_None)
      from k None obtain rs where s: "execute_locked sys hx r fd services w2 = (Inr rs, w')" and x: "x = done_result h"
        by (auto simp: bindW_Inr)
      have "fs w' ?T = fs w2 ?T" using keepsD [OF keeps_service [OF assms(5,8,4)] s] by simp
      then show ?thesis using x installed_file [OF o assms(5,6,3)] by (auto simp: done_result_def)
    qed
  qed
qed

section \<open>The order of the operations\<close>

text \<open>\<open>executed\<close>: the operations were executed one after the other and all succeeded.\<close>

inductive executed :: "system \<Rightarrow> helper_executor \<Rightarrow> helper_request \<Rightarrow> bool \<Rightarrow> helper_operation list \<Rightarrow> world \<Rightarrow> world \<Rightarrow> bool"
  for sys hx r fd where
  executed_none: "executed sys hx r fd [] w w"
| executed_one: "execute_one sys hx r fd h w = (Inr (), w1) \<Longrightarrow> executed sys hx r fd hs w1 w2 \<Longrightarrow> executed sys hx r fd (h # hs) w w2"

inductive_simps executed_Nil [simp]: "executed sys hx r fd [] w w'"
inductive_simps executed_Cons [simp]: "executed sys hx r fd (h # hs) w w'"

text \<open>
  Property C36. The helper executes the operations of a request in the declared order and stops at the first that
  fails: it answers iff all ran, each reported as completed, or some first one failed with an error it
  reports, the ones before it ran and are reported as completed, and the ones after it were not executed and
  say so.
\<close>

theorem execution_order:
  "execute_locked sys hx r fd hs w = (Inr results, w') \<longleftrightarrow>
     executed sys hx r fd hs w w' \<and> results = map done_result hs \<or>
     (\<exists>ok h rest c e w1. hs = ok @ h # rest \<and> executed sys hx r fd ok w w1 \<and> execute_one sys hx r fd h w1 = (Inl e, w')
        \<and> failure_code e = Some c
        \<and> results = map done_result ok @ failed_result c h # map (failed_result ''not_executed'') rest)"
proof (induction hs arbitrary: w results)
  case (Cons h hs)
  note IH = Cons.IH
  show ?case (is "?l \<longleftrightarrow> ?a \<or> ?b")
  proof
    assume ?l
    then obtain x w1 where x: "caught_code (execute_one sys hx r fd h) w = (Inr x, w1)"
      and k: "(case x of Some c \<Rightarrow> retW (failed_result c h # map (failed_result ''not_executed'') hs)
         | None \<Rightarrow> bindW (execute_locked sys hx r fd hs) (\<lambda>results. retW (done_result h # results))) w1 = (Inr results, w')"
      by (auto simp: bindW_Inr)
    show "?a \<or> ?b"
    proof (cases x)
      case None
      then obtain rs where s: "execute_one sys hx r fd h w = (Inr (), w1)"
        and e: "execute_locked sys hx r fd hs w1 = (Inr rs, w')" and r: "results = done_result h # rs"
        using x k by (auto simp: bindW_Inr caught_None)
      from e [unfolded Cons.IH] show ?thesis
      proof
        assume "\<exists>ok g rest c e w2. hs = ok @ g # rest \<and> executed sys hx r fd ok w1 w2 \<and> execute_one sys hx r fd g w2 = (Inl e, w')
          \<and> failure_code e = Some c \<and> rs = map done_result ok @ failed_result c g # map (failed_result ''not_executed'') rest"
        then obtain ok g rest c e w2 where "hs = ok @ g # rest" "executed sys hx r fd ok w1 w2" "execute_one sys hx r fd g w2 = (Inl e, w')"
          "failure_code e = Some c" "rs = map done_result ok @ failed_result c g # map (failed_result ''not_executed'') rest" by blast
        then have ?b using s r by (intro exI [of _ "h # ok"]) auto
        then show ?thesis ..
      qed (use s r in auto)
    next
      case (Some c)
      then have ?b using x k by (intro exI [of _ "[]"]) (auto simp: caught_Some)
      then show ?thesis ..
    qed
  next
    assume "?a \<or> ?b"
    then show ?l
    proof
      assume ?a
      then obtain w1 where s: "execute_one sys hx r fd h w = (Inr (), w1)" and "executed sys hx r fd hs w1 w'"
        and r: "results = map done_result (h # hs)" by auto
      then have "execute_locked sys hx r fd hs w1 = (Inr (map done_result hs), w')" using Cons.IH by blast
      then show ?l using s r by (simp add: caught_None [THEN iffD2] bindW_def)
    next
      assume ?b
      then obtain ok g rest c e w2 where o: "h # hs = ok @ g # rest" "executed sys hx r fd ok w w2"
        "execute_one sys hx r fd g w2 = (Inl e, w')" "failure_code e = Some c"
        "results = map done_result ok @ failed_result c g # map (failed_result ''not_executed'') rest" by blast
      show ?l
      proof (cases ok)
        case Nil
        then have "caught_code (execute_one sys hx r fd h) w = (Inr (Some c), w')" using o by (auto simp: caught_Some)
        then show ?thesis using o Nil by (simp add: bindW_def)
      next
        case (Cons k ks)
        then obtain w1 where s: "execute_one sys hx r fd h w = (Inr (), w1)" and "executed sys hx r fd ks w1 w2" using o by auto
        then have "execute_locked sys hx r fd hs w1 = (Inr (tl results), w')" using o Cons
          by (subst IH, intro disjI2 exI [of _ ks] exI [of _ g] exI [of _ rest] exI [of _ c] exI [of _ e] exI [of _ w2]) auto
        then show ?thesis using s o Cons by (simp add: caught_None [THEN iffD2] bindW_def)
      qed
    qed
  qed
qed auto


section \<open>At most once\<close>

text \<open>\<open>adds m\<close>: what is there stays as it is, whatever \<open>m\<close> answers.\<close>

definition adds :: "('e, 'a) run \<Rightarrow> bool" where
  "adds m \<longleftrightarrow> (\<forall>w p. fs w p \<noteq> None \<longrightarrow> fs (snd (m w)) p = fs w p)"

lemma adds_keeps: "keeps (\<lambda>_. True) m \<Longrightarrow> adds m"
  by (simp add: adds_def keeps_def)

lemma adds_bind: "adds m \<Longrightarrow> (\<And>x. adds (f x)) \<Longrightarrow> adds (bindW m f)"
  unfolding adds_def bindW_def by (auto split: prod.splits sum.splits) (metis option.distinct(1) snd_conv)+

lemma adds_try: "adds m \<Longrightarrow> (\<And>e. adds (h e)) \<Longrightarrow> adds (tryW m h)"
  unfolding adds_def tryW_def by (auto split: prod.splits sum.splits) (metis option.distinct(1) snd_conv)+

lemma adds_make_dir: "adds (make_dir sys p m)"
  unfolding make_dir_def adds_def bindW_def os_step_def entry_at_def
  by (auto split: prod.splits sum.splits list.splits if_splits)

lemma adds_prepare_receipts: "adds (prepare_receipts sys rs)"
proof -
  have ok: "adds (make_dir_ok sys p m)" for p m
    unfolding make_dir_ok_def by (intro adds_bind adds_try adds_make_dir; rule adds_keeps; intro keeping)
  have "adds (stat_dir sys p)" "adds (checkW b c)" "adds (chmod_dir sys p m)" for p b c m
    by (rule adds_keeps, rule keeping)+
  with ok show ?thesis unfolding prepare_receipts_def by (meson adds_bind)
qed

lemma receipt_begin_claimed:
  assumes "receipt_path rs (hq_id r) = Inr q" and "fs w (resolved_target sys q) \<noteq> None"
    and "receipt_begin sys rs r w = (x, w')"
  shows "(\<exists>e. x = Inl e) \<and> (\<forall>p. p \<noteq> resolved_target sys (rs_root rs) \<longrightarrow> fs w' p = fs w p)"
proof -
  obtain y w1 where p: "prepare_receipts sys rs w = (y, w1)" by (cases "prepare_receipts sys rs w")
  have k: "keeps (\<lambda>p. p \<noteq> resolved_target sys (rs_root rs)) (prepare_receipts sys rs)"
    unfolding prepare_receipts_def by (auto intro!: keeping)
  have f: "fs w1 p = fs w p" if "p \<noteq> resolved_target sys (rs_root rs)" for p
    by (rule keepsD [OF k p that])
  have c: "fs w1 (resolved_target sys q) \<noteq> None"
    using adds_prepare_receipts [of sys rs, unfolded adds_def, rule_format, OF assms(2)] assms(2) by (simp add: p)
  show ?thesis
  proof (cases y)
    case (Inl e)
    then show ?thesis using assms(3) p f by (auto simp: receipt_begin_def bindW_def)
  next
    case (Inr u)
    obtain z w2 where o: "os_step w1 = (z, w2)" by (cases "os_step w1")
    then have g: "fs w2 = fs w1" by (rule os_step_fs)
    show ?thesis
    proof (cases z)
      case (Inl e)
      then show ?thesis using assms(1,3) p Inr o f g by (auto simp: receipt_begin_def bindW_def)
    next
      case z: (Inr v)
      let ?m = "bindW (receipt_load sys rs (hq_id r)) (\<lambda>c. raiseW (AdapterError (if rc_hash c = hq_hash r then ''replayed_request''
          else ''operation_id_collision''))) :: helper_receipt io"
      have m: "?m w2 = (x, w')"
        using assms(1,3) p Inr o z c g by (simp add: receipt_begin_def bindW_def entry_at_def)
      have "keeps (\<lambda>_. True) ?m" by (intro keeping)
      then have "fs w' = fs w2" using m by (auto simp: keeps_def fun_eq_iff) (metis snd_conv)
      moreover have "\<exists>e. x = Inl e" using m by (auto simp: bindW_def split: prod.splits sum.splits)
      ultimately show ?thesis using f g by simp
    qed
  qed
qed

lemma receipt_begin_Inr:
  assumes "receipt_path rs (hq_id r) = Inr q" and "receipt_begin sys rs r w = (Inr c, w')"
  shows "fs w (resolved_target sys q) = None \<and> fs w' (resolved_target sys q) \<noteq> None"
proof -
  have "fs w (resolved_target sys q) = None" using receipt_begin_claimed [OF assms(1) _ assms(2)] by blast
  moreover obtain b w1 w2 where "put_node (resolved_target sys q) (Some (RegFile b 384 (euid sys) (egid sys))) w1 = (Inr (), w2)"
    "fs w' = fs w2"
    using assms by (auto simp: receipt_begin_def Let_def bindW_Inr split: if_splits dest!: os_step_fs)
  ultimately show ?thesis by (auto simp: put_node_def)
qed


lemma identifier_component: "is_identifier oid \<Longrightarrow> single_component oid"
proof -
  assume i: "is_identifier oid"
  then obtain c cs where o: "oid = c # cs" and c: "ascii_alnum c" and cs: "list_all (\<lambda>d. ascii_alnum d \<or> d \<in> {46, 95, 58, 45}) cs"
    by (auto simp: is_identifier_def split: list.splits)
  then have "47 \<notin> set oid" by (auto simp: ascii_alnum_def list_all_iff)
  then have "comps oid = [oid]" using o c by (auto simp: comps_def split_on_no_sep ascii_alnum_def)
  then show ?thesis using o c by (auto simp: single_component_def path_name_def ascii_alnum_def)
qed

lemma stays_receipt_finish: "stays p (receipt_finish sys rs r results)"
  unfolding receipt_finish_def
  by (intro stays_bind stays_atomic_write; rule stays_keeps; rule keeping)

text \<open>
  Property C33. No operation is executed twice. Where a receipt of the operation exists, whatever its content, the
  helper refuses the call and changes nothing but the directory of the receipts; and a call that answered with
  results, or that changed the drop-in however it ended, found no receipt and left one.
\<close>

theorem helper_at_most_once:
  fixes sys hs oid w
  defines "claim \<equiv> resolved_target sys (path_join (rs_root (hs_receipts hs)) (oid @ lit ''.json''))"
    and "home \<equiv> resolved_target sys (rs_root (hs_receipts hs))"
    and "target \<equiv> drop_in_at sys (hs_own hs)"
  assumes "run_helper sys hs oid h w = (answer, w')" and "hs_given hs = None"
    and "claim \<noteq> target" "home \<noteq> target" "claim \<noteq> resolved_target sys (path_parent (fixed_target (hs_own hs)))"
    and "\<And>argv. keeps (\<lambda>q. q = claim) (lb_runner (hs_own hs) argv)" and "\<And>r. keeps (\<lambda>q. q = claim) (hs_capture hs r)"
  shows "(fs w claim \<noteq> None \<longrightarrow> (\<exists>e. answer = Inl e) \<and> (\<forall>p. p \<noteq> home \<longrightarrow> fs w' p = fs w p))
    \<and> (fs w' target \<noteq> fs w target \<or> (\<exists>results. answer = Inr results) \<longrightarrow> fs w claim = None \<and> fs w' claim \<noteq> None)"
proof (cases "prepare_helper sys hs oid h w")
  case (Pair x w1)
  show ?thesis
  proof (cases x)
    case (Inl e)
    have "keeps (\<lambda>_. True) (prepare_helper sys hs oid h)" by (rule keeps_prepare_helper)
    then have "fs w1 = fs w" using Pair by (auto simp: keeps_def fun_eq_iff) (metis snd_conv)
    then show ?thesis using assms(4) Pair Inl by (auto simp: run_helper_def bindW_def)
  next
    case (Inr y)
    obtain r hx where y: "y = (r, hx)" by (cases y)
    have P: "prepare_helper sys hs oid h w = (Inr (r, hx), w1)" using Pair Inr y by simp
    note i = prepare_helper_Inr [OF P]
    have q: "receipt_path (hs_receipts hs) (hq_id r) = Inr (path_join (rs_root (hs_receipts hs)) (oid @ lit ''.json''))"
      using identifier_component [OF i(3)] i(2) by (simp add: receipt_path_def)
    obtain b w2 where b: "receipt_begin sys (hs_receipts hs) r w1 = (b, w2)" by (cases "receipt_begin sys (hs_receipts hs) r w1")
    let ?tail = "bindW (helper_execute sys hx r h) (\<lambda>results. bindW (receipt_finish sys (hs_receipts hs) r results) (\<lambda>_. retW results))"
    show ?thesis
    proof (cases b)
      case (Inl e)
      then have a: "answer = Inl e" "w' = w2" using assms(4) P b by (auto simp: run_helper_def bindW_def)
      have "keeps (\<lambda>p. p \<noteq> claim \<and> p \<noteq> home) (receipt_begin sys (hs_receipts hs) r)"
        using q by (intro keeping) (auto simp: claim_def home_def)
      from keepsD [OF this b, of target] have "fs w2 target = fs w1 target" using assms(6,7) by auto
      then show ?thesis using a i(1) receipt_begin_claimed [OF q _ b] Inl by (auto simp: claim_def home_def)
    next
      case (Inr c)
      note n = receipt_begin_Inr [OF q b [unfolded Inr]]
      have t: "?tail w2 = (answer, w')" using assms(4) P b Inr by (simp add: run_helper_def bindW_def)
      have "keeps (\<lambda>q. q = claim) (helper_execute sys hx r h)"
        using assms(6,8-10) by (intro keeps_prepared [OF P assms(5)]) (auto simp: target_def drop_in_at_def)
      then have "stays claim ?tail"
        by (intro stays_bind stays_receipt_finish) (rule stays_keeps, assumption, rule stays_keeps, rule keeping)
      then have "fs (snd (?tail w2)) claim \<noteq> None" using n by (simp add: stays_def claim_def)
      then have "fs w' claim \<noteq> None" by (simp add: t)
      then show ?thesis using n i(1) by (simp add: claim_def)
    qed
  qed
qed

section \<open>A run of the helper\<close>

definition head_digest :: "bytes \<Rightarrow> str" where
  "head_digest b = replicate 62 48 @ (case b of [] \<Rightarrow> [48, 48] | c # _ \<Rightarrow> [hexdigit (c div 16 mod 16), hexdigit (c mod 16)])"

definition root_system :: system where
  "root_system = toy_system\<lparr>sha256 := head_digest, euid := 0, egid := 0\<rparr>"

definition root_request :: "str \<Rightarrow> helper_request" where
  "root_request h = \<lparr>hq_version = 1, hq_id = lit ''o'', hq_host = lit ''h'', hq_plan = lit ''p'',
     hq_change_set = replicate 64 48,
     hq_operations = [\<lparr>ho_id = lit ''w'', ho_kind = ATOMIC_REPLACE, ho_target = Some drop_in_path, ho_unit = None,
        ho_before = None, ho_staged = Some (head_digest [120]), ho_mode = Some 420, ho_uid = Some 0, ho_gid = Some 0\<rparr>],
     hq_requested = Aware 0, hq_expires = Aware 9, hq_hash = h, hq_approval = Some (lit ''a''), hq_backup = Some (lit ''o''),
     hq_manifest = Some (replicate 64 48)\<rparr>"


definition root_hash :: str where
  "root_hash = head_digest [123]"

lemma root_hashed: "helper_hash (runtime.truncate root_system) (root_request []) = Inr root_hash"
  by code_simp

definition root_lb :: local_backend where
  "root_lb = \<lparr>lb_root = lit ''/'', lb_sandbox = False, lb_listing = [], lb_runner = (\<lambda>_. retW 0)\<rparr>"

definition root_setup :: helper_setup where
  "root_setup = \<lparr>hs_uid_text = lit ''7'', hs_base = lit ''/r'', hs_host = lit ''h'', hs_given = None,
     hs_own = root_lb,
     hs_capture = (\<lambda>_. retW ()), hs_receipts = \<lparr>rs_root = lit ''/c'', rs_sandbox = False\<rparr>\<rparr>"

definition root_dirs :: "(str \<times> dir_info) list" where
  "root_dirs = map (\<lambda>d. (d, \<lparr>dr_mode = 493, dr_uid = 0, dr_gid = 0\<rparr>)) [lit ''/'', lit ''/etc'', lit ''/etc/systemd'', lit ''/etc/systemd/system'', lit ''/etc/systemd/system/ollama.service.d'']
     @ [(lit ''/c'', \<lparr>dr_mode = 448, dr_uid = 0, dr_gid = 0\<rparr>)] @ map (\<lambda>d. (d, \<lparr>dr_mode = 448, dr_uid = 7, dr_gid = 7\<rparr>)) [lit ''/r/7/llm-manager/helper'', lit ''/r/7/llm-manager/helper/o'']"

definition root_hx :: helper_executor where
  "root_hx = \<lparr>hx_staging = \<lparr>sg_root = lit ''/r/7/llm-manager/helper'', sg_owner = 7\<rparr>,
     hx_backend = system_backend root_system root_lb, hx_capture = Some (\<lambda>_. retW ())\<rparr>"

definition root_bytes :: bytes where
  "root_bytes = (case helper_bytes (runtime.truncate root_system) (root_request root_hash) of Inr h \<Rightarrow> h | Inl _ \<Rightarrow> [])"

definition root_ok :: "world \<Rightarrow> bool" where
  "root_ok w \<longleftrightarrow> clock w = [] \<and> (\<forall>(d, i)\<in>set root_dirs. fs w d = Some NotRegular \<and> dirs w d = Some i)
     \<and> fs w (lit ''/r/7/llm-manager/helper/o/request.json'') = Some (RegFile root_bytes 384 7 7)
     \<and> fs w (lit ''/r/7/llm-manager/helper/o/w.content'') = Some (RegFile [120] 384 7 7)"

lemma root_encodes: "helper_bytes (runtime.truncate root_system) (root_request root_hash) = Inr root_bytes
    \<and> int (length root_bytes) \<le> max_request_bytes"
proof -
  have "case helper_bytes (runtime.truncate root_system) (root_request root_hash) of Inl _ \<Rightarrow> False | Inr b \<Rightarrow> int (length b) \<le> max_request_bytes"
    by code_simp
  then show ?thesis by (auto simp: root_bytes_def split: sum.splits)
qed

lemma root_well_formed: "well_formed (root_request h)"
proof -
  have "is_identifier (lit ''o'')" "is_identifier (lit ''h'')" "is_identifier (lit ''p'')" "is_identifier (lit ''w'')"
    "is_identifier (lit ''a'')" "is_digest (replicate 64 48)" "is_digest (head_digest [120])" by code_simp+
  then show ?thesis by (simp add: well_formed_def root_request_def installs_def opt_ok_def complete_binding_def)
qed

lemma root_bound: "bound_hash (runtime.truncate root_system) (root_request root_hash) root_hash"
proof -
  have "is_digest root_hash" by code_simp
  moreover have "root_request root_hash\<lparr>hq_hash := []\<rparr> = root_request []" by (simp add: root_request_def)
  ultimately show ?thesis using root_hashed by (simp add: bound_hash_def root_request_def)
qed

lemma root_times: "hq_requested (root_request h) = Aware 0" "hq_expires (root_request h) = Aware 9"
  by (simp_all add: root_request_def)

lemma root_stamps: "stamp_ok (runtime.truncate root_system) 0" "stamp_ok (runtime.truncate root_system) 9"
  by code_simp+

lemma root_window: "in_window 0 (root_request h) = Inr ()"
  by (simp add: in_window_Inr root_request_def max_request_lifetime_def)

lemma root_decodes: "decode_request (runtime.truncate root_system) root_bytes root_hash 0 = Inr (root_request root_hash)"
  using root_encodes by (intro encoded_decodes [OF root_well_formed root_bound _ _ root_times root_stamps root_window]) auto

lemma root_validates: "clock w = [] \<Longrightarrow> validate_now root_system (root_request root_hash) root_hash w = (Inr (), w)"
proof -
  have "validate_request (runtime.truncate root_system) (root_request root_hash) root_hash 0 = Inr ()"
    unfolding validate_request_Inr using root_well_formed root_bound root_window by simp
  then show "clock w = [] \<Longrightarrow> ?thesis" by (simp add: validate_now_def bindW_def utc_now_def)
qed

lemma root_paths:
  "resolved_target root_system (lit ''/r/7/llm-manager/helper'') = lit ''/r/7/llm-manager/helper''"
  "path_join (lit ''/r/7/llm-manager/helper'') (lit ''o'') = lit ''/r/7/llm-manager/helper/o''"
  "resolved_target root_system (lit ''/r/7/llm-manager/helper/o'') = lit ''/r/7/llm-manager/helper/o''"
  "resolved_target root_system (path_join (lit ''/r/7/llm-manager/helper'') (lit ''o'' @ lit ''/request.json'')) = lit ''/r/7/llm-manager/helper/o/request.json''"
  "resolved_target root_system (path_join (lit ''/r/7/llm-manager/helper/o'') (lit ''w'' @ lit ''.content'')) = lit ''/r/7/llm-manager/helper/o/w.content''"
  "fixed_target root_lb = drop_in_path"
  "resolved_target root_system drop_in_path = drop_in_path"
  "path_parent drop_in_path = lit ''/etc/systemd/system/ollama.service.d''"
  "resolved_target root_system (lit ''/etc/systemd/system/ollama.service.d'') = lit ''/etc/systemd/system/ollama.service.d''"
  "comps (path_parent (lit ''/etc/systemd/system/ollama.service.d'')) = [lit ''etc'', lit ''systemd'', lit ''system'']"
  "within (realpath root_system (lit ''/r/7/llm-manager/helper/o'')) (realpath root_system (lit ''/r/7/llm-manager/helper''))"
  "within (realpath root_system (lit ''/etc/systemd/system/ollama.service.d'')) (realpath root_system (lit ''/''))"
  "resolved_target root_system (lit ''/'') = lit ''/''"
  "resolved_target root_system (lit ''/c'') = lit ''/c''"
  "path_name (lit ''o'') = lit ''o''"
  "staging_of root_setup 7 = \<lparr>sg_root = lit ''/r/7/llm-manager/helper'', sg_owner = 7\<rparr>"
  "receipt_path (hs_receipts root_setup) (lit ''o'') = Inr (lit ''/c/o.json'')"
  "resolved_target root_system (lit ''/c/o.json'') = lit ''/c/o.json''"
  "butlast (comps drop_in_path) = [lit ''etc'', lit ''systemd'', lit ''system'', lit ''ollama.service.d'']"
  "comps (lit ''/'') = []"
  "resolved_target root_system (abs_path []) = lit ''/''"
  "resolved_target root_system (abs_path [lit ''etc'']) = lit ''/etc''"
  "resolved_target root_system (abs_path [lit ''etc'', lit ''systemd'']) = lit ''/etc/systemd''"
  "resolved_target root_system (abs_path [lit ''etc'', lit ''systemd'', lit ''system'']) = lit ''/etc/systemd/system''"
  "resolved_target root_system (abs_path [lit ''etc'', lit ''systemd'', lit ''system'', lit ''ollama.service.d'']) = lit ''/etc/systemd/system/ollama.service.d''"
  by code_simp+


lemma root_okD:
  assumes "root_ok w"
  shows "clock w = []"
    "fs w (lit ''/r/7/llm-manager/helper/o/request.json'') = Some (RegFile root_bytes 384 7 7)"
    "fs w (lit ''/r/7/llm-manager/helper/o/w.content'') = Some (RegFile [120] 384 7 7)"
    "\<forall>d\<in>set [lit ''/'', lit ''/etc'', lit ''/etc/systemd'', lit ''/etc/systemd/system'', lit ''/etc/systemd/system/ollama.service.d''].
       fs w d = Some NotRegular \<and> dirs w d = Some \<lparr>dr_mode = 493, dr_uid = 0, dr_gid = 0\<rparr>"
    "\<forall>d\<in>set [lit ''/r/7/llm-manager/helper'', lit ''/r/7/llm-manager/helper/o''].
       fs w d = Some NotRegular \<and> dirs w d = Some \<lparr>dr_mode = 448, dr_uid = 7, dr_gid = 7\<rparr>"
    "fs w (lit ''/c'') = Some NotRegular" "dirs w (lit ''/c'') = Some \<lparr>dr_mode = 448, dr_uid = 0, dr_gid = 0\<rparr>"
  using assms by (simp_all add: root_ok_def root_dirs_def del: lit_simps)

lemmas root_run = root_okD root_paths bindW_def checkW_def guardW_def entry_at_def stat_dir_def os_step_def is_file_node_def

lemma root_directory:
  "root_ok w \<Longrightarrow> operation_directory root_system \<lparr>sg_root = lit ''/r/7/llm-manager/helper'', sg_owner = 7\<rparr> (lit ''o'') False w
    = (Inr (lit ''/r/7/llm-manager/helper/o''), w)"
  by (simp add: operation_directory_def validate_root_def private_dir_def root_run del: lit_simps) (simp add: lit_def)

lemma root_staged:
  assumes "root_ok w" and "os_step w = (Inr (), w')" and "root_op \<in> set (hq_operations (root_request root_hash))"
  shows "staged_verify root_system (hx_staging root_hx) (root_request root_hash) root_op w = (Inr [120], w')"
proof -
  have "sha256 root_system [120] = head_digest [120]" "hq_hash (root_request root_hash) = root_hash" "hq_id (root_request root_hash) = lit ''o''"
    by (simp_all add: root_system_def root_request_def)
  moreover have "fs w' = fs w" by (rule os_step_fs [OF assms(2)])
  moreover have "root_op = \<lparr>ho_id = lit ''w'', ho_kind = ATOMIC_REPLACE, ho_target = Some drop_in_path, ho_unit = None,
        ho_before = None, ho_staged = Some (head_digest [120]), ho_mode = Some 420, ho_uid = Some 0, ho_gid = Some 0\<rparr>"
    using assms(3) by (simp add: root_request_def)
  ultimately show ?thesis using root_directory [OF assms(1)] root_validates [OF root_okD(1) [OF assms(1)]] assms(1,2)
    by (simp add: staged_verify_def root_hx_def accepts_content_def content_path_def read_bytes_def root_okD root_paths
        bindW_def checkW_def guardW_def entry_at_def max_item_bytes_def del: lit_simps)
qed

lemma root_fields:
  "lb_root root_lb = lit ''/''" "\<not> lb_sandbox root_lb" "lb_listing root_lb = []" "lb_runner root_lb = (\<lambda>_. retW 0)"
  "euid root_system = 0" "egid root_system = 0"
  "hx_backend root_hx = system_backend root_system root_lb" "hx_capture root_hx = Some (\<lambda>_. retW ())"
  "hq_id (root_request h) = lit ''o''" "hq_hash (root_request h) = h"
  by (simp_all add: root_lb_def root_system_def root_hx_def root_request_def)

lemma root_target: "root_ok w \<Longrightarrow> backend_target root_system root_lb (Some drop_in_path) w = (Inr drop_in_path, w)"
  by (simp add: backend_target_def root_run root_fields del: lit_simps)

definition root_op :: helper_operation where
  "root_op = hd (hq_operations (root_request root_hash))"

lemma root_op_fields:
  "ho_kind root_op = ATOMIC_REPLACE" "ho_target root_op = Some drop_in_path" "ho_before root_op = None"
  "ho_mode root_op = Some 420" "ho_uid root_op = Some 0" "ho_gid root_op = Some 0"
  "root_op \<in> set (hq_operations (root_request root_hash))" "hq_operations (root_request root_hash) = [root_op]"
  by (simp_all add: root_op_def root_request_def)

lemma root_absent:
  "root_ok w \<Longrightarrow> fs w drop_in_path = None \<Longrightarrow> verify_before root_system (system_backend root_system root_lb) root_op w = (Inr (), w)"
  by (simp add: verify_before_def system_backend_def backend_read_def root_op_fields root_target root_run root_fields del: lit_simps)

lemma root_capture:
  "root_ok w \<Longrightarrow> fs w drop_in_path = None \<Longrightarrow> capture_step root_system root_hx (root_request root_hash) True root_op w = (Inr (), w)"
  by (simp add: capture_step_def root_op_fields root_fields bindW_def checkW_def guardW_def root_validates root_okD root_absent del: lit_simps)

lemma root_parent:
  "root_ok w \<Longrightarrow> prepare_parent root_system root_lb (lit ''/etc/systemd/system/ollama.service.d'') w = (Inr (), w)"
  by (simp add: prepare_parent_def root_run root_fields writable_by_others_def bit_simps del: lit_simps)

text \<open>Written, and the sync of the directory afterwards fails or not.\<close>

lemma root_write:
  assumes "root_ok w" and "fs w drop_in_path = None"
  shows "faults w = [] \<Longrightarrow> backend_write root_system root_lb (Some drop_in_path) [120] (Some 420) (Some 0) (Some 0) w
      = (Inr (), w\<lparr>fs := (fs w)(drop_in_path \<mapsto> RegFile [120] 420 0 0)\<rparr>)"
    and "faults w = [False, True] \<Longrightarrow> backend_write root_system root_lb (Some drop_in_path) [120] (Some 420) (Some 0) (Some 0) w
      = (Inl OSError, w\<lparr>faults := [], fs := (fs w)(drop_in_path \<mapsto> RegFile [120] 420 0 0)\<rparr>)"
  using assms
  by (simp_all add: backend_write_def root_target root_parent root_run root_fields max_item_bytes_def atomic_write_def put_node_def
      chown_file_def del: lit_simps)


lemma root_execute_one:
  assumes "root_ok w" and "fs w drop_in_path = None"
  shows "faults w = [] \<Longrightarrow> execute_one root_system root_hx (root_request root_hash) True root_op w
      = (Inr (), w\<lparr>fs := (fs w)(drop_in_path \<mapsto> RegFile [120] 420 0 0)\<rparr>)"
    and "faults w = [False, False, True] \<Longrightarrow> execute_one root_system root_hx (root_request root_hash) True root_op w
      = (Inl OSError, w\<lparr>faults := [], fs := (fs w)(drop_in_path \<mapsto> RegFile [120] 420 0 0)\<rparr>)"
proof -
  have b: "hb_write (system_backend root_system root_lb) = backend_write root_system root_lb" by (simp add: system_backend_def)
  show "execute_one root_system root_hx (root_request root_hash) True root_op w
      = (Inr (), w\<lparr>fs := (fs w)(drop_in_path \<mapsto> RegFile [120] 420 0 0)\<rparr>)" if f: "faults w = []"
  proof -
    have "os_step w = (Inr (), w)" using f by (simp add: os_step_def)
    from root_staged [OF assms(1) this root_op_fields(7)] show ?thesis
      using root_absent [OF assms] root_capture [OF assms] root_write(1) [OF assms f]
      by (simp add: execute_one_def root_op_fields root_fields b bindW_def)
  qed
  show "execute_one root_system root_hx (root_request root_hash) True root_op w
      = (Inl OSError, w\<lparr>faults := [], fs := (fs w)(drop_in_path \<mapsto> RegFile [120] 420 0 0)\<rparr>)" if f: "faults w = [False, False, True]"
  proof -
    let ?v = "w\<lparr>faults := [False, True]\<rparr>"
    have o: "os_step w = (Inr (), ?v)" using f by (simp add: os_step_def)
    have v: "root_ok ?v" "fs ?v drop_in_path = None" "faults ?v = [False, True]" using assms by (simp_all add: root_ok_def)
    from root_staged [OF assms(1) o root_op_fields(7)] show ?thesis
      using root_absent [OF assms] root_capture [OF v(1,2)] root_write(2) [OF v]
      by (simp add: execute_one_def root_op_fields root_fields b bindW_def)
  qed
qed

lemma root_lock:
  assumes "root_ok w"
  shows "faults w = [] \<Longrightarrow> backend_locked root_system root_lb w = (Inr True, w)"
    and "faults w = replicate 9 False @ fl \<Longrightarrow> backend_locked root_system root_lb w = (Inr True, w\<lparr>faults := fl\<rparr>)"
  using assms
  by (simp_all add: backend_locked_def root_target root_run root_fields Let_def lock_target_def make_dir_def tryW_def
      writable_by_others_def bit_simps numeral_eq_Suc del: lit_simps)

lemma root_execute:
  assumes "root_ok w" and "fs w drop_in_path = None"
  shows "faults w = [] \<Longrightarrow> helper_execute root_system root_hx (root_request root_hash) root_hash w
      = (Inr [done_result root_op], w\<lparr>fs := (fs w)(drop_in_path \<mapsto> RegFile [120] 420 0 0)\<rparr>)"
    and "faults w = replicate 11 False @ [True] \<Longrightarrow> helper_execute root_system root_hx (root_request root_hash) root_hash w
      = (Inr [failed_result ''helper_operation_failed'' root_op], w\<lparr>faults := [], fs := (fs w)(drop_in_path \<mapsto> RegFile [120] 420 0 0)\<rparr>)"
proof -
  have b: "hb_locked (hx_backend root_hx) = backend_locked root_system root_lb" by (simp add: root_fields system_backend_def)
  note v = root_validates [OF root_okD(1) [OF assms(1)]]
  show "helper_execute root_system root_hx (root_request root_hash) root_hash w
      = (Inr [done_result root_op], w\<lparr>fs := (fs w)(drop_in_path \<mapsto> RegFile [120] 420 0 0)\<rparr>)" if f: "faults w = []"
    using v root_lock(1) [OF assms(1) f] root_execute_one(1) [OF assms f]
    by (simp add: helper_execute_def b bindW_def tryW_def root_op_fields caught_code_def)
  show "helper_execute root_system root_hx (root_request root_hash) root_hash w
      = (Inr [failed_result ''helper_operation_failed'' root_op], w\<lparr>faults := [], fs := (fs w)(drop_in_path \<mapsto> RegFile [120] 420 0 0)\<rparr>)"
    if f: "faults w = replicate 11 False @ [True]"
  proof -
    let ?v = "w\<lparr>faults := [False, False, True]\<rparr>"
    have "faults w = replicate 9 False @ [False, False, True]" using f by (simp add: numeral_eq_Suc)
    note l = root_lock(2) [OF assms(1) this]
    have u: "root_ok ?v" "fs ?v drop_in_path = None" "faults ?v = [False, False, True]" "clock ?v = []"
      using assms root_okD(1) [OF assms(1)] by (simp_all add: root_ok_def)
    show ?thesis using v l root_validates [OF u(4)] root_execute_one(2) [OF u(1-3)]
      by (simp add: helper_execute_def b bindW_def tryW_def root_op_fields caught_code_def failure_code_def)
  qed
qed

lemma root_prepare:
  assumes "root_ok w" and "faults w = []"
  shows "prepare_helper root_system root_setup (lit ''o'') root_hash w = (Inr (root_request root_hash, root_hx), w)"
proof -
  have "is_identifier (lit ''o'') \<and> is_digest root_hash" by code_simp
  moreover have "invoking_uid (runtime.truncate root_system) (hs_uid_text root_setup) = Inr 7" by code_simp
  moreover have "map ho_kind (hq_operations (root_request root_hash)) = [ATOMIC_REPLACE]" "hs_given root_setup = None"
    "capture_request_ok (root_request root_hash) (hs_host root_setup)" "hs_own root_setup = root_lb"
    "hs_capture root_setup = (\<lambda>_. retW ())"
    by (simp_all add: root_request_def root_setup_def capture_request_ok_def)
  ultimately show ?thesis using assms root_decodes root_encodes
    by (simp add: prepare_helper_def read_user_request_def root_run root_fields tryW_def utc_now_def helper_capture_def
        validate_capture_request_def root_validates chosen_backend_def new_backend_def root_op_fields
        root_hx_def del: lit_simps)
qed


definition root_claim :: "world \<Rightarrow> bytes \<Rightarrow> world" where
  "root_claim w b = w\<lparr>fs := (fs w)(lit ''/c/o.json'' \<mapsto> RegFile b 384 0 0)\<rparr>"

definition root_receipt :: helper_receipt where
  "root_receipt = \<lparr>rc_id = lit ''o'', rc_hash = root_hash, rc_status = RC_EXECUTING, rc_results = []\<rparr>"

definition root_receipt_bytes :: bytes where
  "root_receipt_bytes = (case receipt_bytes root_receipt of Inr b \<Rightarrow> b | Inl _ \<Rightarrow> [])"

lemma root_receipt_reads:
  "receipt_bytes root_receipt = Inr root_receipt_bytes"
  "bindR (bindR (utf8_decode root_receipt_bytes) jloads) decode_receipt = Inr root_receipt"
  "int (length root_receipt_bytes) \<le> receipt_limit"
  by code_simp+


lemma root_begin:
  assumes "root_ok w" and "faults w = []" and "fs w (lit ''/c/o.json'') = None"
  shows "receipt_begin root_system (hs_receipts root_setup) (root_request root_hash) w = (Inr root_receipt, root_claim w root_receipt_bytes)"
proof -
  have r: "hs_receipts root_setup = \<lparr>rs_root = lit ''/c'', rs_sandbox = False\<rparr>" by (simp add: root_setup_def)
  have p: "receipt_path \<lparr>rs_root = lit ''/c'', rs_sandbox = False\<rparr> (lit ''o'') = Inr (lit ''/c/o.json'')" by code_simp
  have c: "\<lparr>rc_id = lit ''o'', rc_hash = root_hash, rc_status = RC_EXECUTING, rc_results = []\<rparr> = root_receipt"
    by (simp add: root_receipt_def)
  have d: "(dirs w)(lit ''/c'' \<mapsto> \<lparr>dr_mode = 448, dr_uid = 0, dr_gid = 0\<rparr>) = dirs w"
    using root_okD(7) [OF assms(1)] by (simp add: fun_upd_idem)
  have u: "w\<lparr>dirs := dirs w, fs := f\<rparr> = w\<lparr>fs := f\<rparr>" for f by simp
  show ?thesis unfolding r using assms root_receipt_reads(1)
    by (simp add: receipt_begin_def prepare_receipts_def make_dir_ok_def make_dir_def chmod_dir_def root_run p root_fields tryW_def
        Let_def c put_node_def root_claim_def d u del: lit_simps)
qed

lemma root_finish:
  assumes "fs w (lit ''/c/o.json'') = Some (RegFile root_receipt_bytes 384 0 0)" and "faults w = []"
    and "receipt_bytes (receipt_of (root_request root_hash) results) = Inr b"
  shows "receipt_finish root_system (hs_receipts root_setup) (root_request root_hash) results w =
      (Inr (receipt_of (root_request root_hash) results), w\<lparr>fs := (fs w)(lit ''/c/o.json'' \<mapsto> RegFile b 384 0 0)\<rparr>)"
proof -
  have r: "hs_receipts root_setup = \<lparr>rs_root = lit ''/c'', rs_sandbox = False\<rparr>" by (simp add: root_setup_def)
  have p: "receipt_path \<lparr>rs_root = lit ''/c'', rs_sandbox = False\<rparr> (lit ''o'') = Inr (lit ''/c/o.json'')" by code_simp
  have c: "rc_id root_receipt = lit ''o''" "rc_hash root_receipt = root_hash" "rc_status root_receipt = RC_EXECUTING"
    by (simp_all add: root_receipt_def)
  have "receipt_load root_system \<lparr>rs_root = lit ''/c'', rs_sandbox = False\<rparr> (lit ''o'') w = (Inr root_receipt, w)"
    using assms(1,2) root_receipt_reads
    by (simp add: receipt_load_def p tryW_def bindW_def os_step_def entry_at_def root_paths checkW_def guardW_def c del: lit_simps)
  then show ?thesis unfolding r using assms
    by (simp add: receipt_finish_def p root_fields c bindW_def checkW_def guardW_def atomic_write_def put_node_def os_step_def
        root_paths del: lit_simps)
qed

definition root_done_bytes :: bytes where
  "root_done_bytes = (case receipt_bytes (receipt_of (root_request root_hash) [done_result root_op]) of Inr b \<Rightarrow> b | Inl _ \<Rightarrow> [])"

lemma root_done: "receipt_bytes (receipt_of (root_request root_hash) [done_result root_op]) = Inr root_done_bytes"
  by code_simp

lemma root_apart: "lit ''/c/o.json'' \<noteq> drop_in_path" "lit ''/c'' \<noteq> drop_in_path" "lit ''/c/o.json'' \<noteq> lit ''/etc/systemd/system/ollama.service.d''"
  by code_simp+

definition root_world :: world where
  "root_world = \<lparr>fs = map_of (map (\<lambda>(d, _). (d, NotRegular)) root_dirs @
       [(lit ''/r/7/llm-manager/helper/o/request.json'', RegFile root_bytes 384 7 7),
        (lit ''/r/7/llm-manager/helper/o/w.content'', RegFile [120] 384 7 7)]),
     dirs = map_of root_dirs, faults = [], cancel_in = None, clock = [], registry = [], events = []\<rparr>"

lemma root_world_ok: "root_ok root_world" "fs root_world drop_in_path = None" "fs root_world (lit ''/c/o.json'') = None" "faults root_world = []"
  by (simp_all add: root_ok_def root_world_def root_dirs_def drop_in_path_def)

lemma root_run_helper:
  "\<exists>w'. run_helper root_system root_setup (lit ''o'') root_hash root_world = (Inr [done_result root_op], w')
    \<and> fs w' drop_in_path = Some (RegFile [120] 420 0 0) \<and> fs w' (lit ''/c/o.json'') = Some (RegFile root_done_bytes 384 0 0)"
proof -
  let ?c = "root_claim root_world root_receipt_bytes"
  let ?d = "?c\<lparr>fs := (fs ?c)(drop_in_path \<mapsto> RegFile [120] 420 0 0)\<rparr>"
  have c: "root_ok ?c" "fs ?c drop_in_path = None" "faults ?c = []"
    using root_world_ok root_apart by (simp_all add: root_claim_def root_ok_def root_dirs_def)
  have "fs ?d (lit ''/c/o.json'') = Some (RegFile root_receipt_bytes 384 0 0)" "faults ?d = []"
    using c(3) root_apart by (simp_all add: root_claim_def del: lit_simps)
  note f = root_finish [OF this root_done]
  show ?thesis unfolding run_helper_def
    using root_prepare [OF root_world_ok(1,4)] root_begin [OF root_world_ok(1,4,3)] root_execute(1) [OF c] f root_apart
    by (simp add: bindW_def root_claim_def del: lit_simps)
qed

text \<open>
  A reported failure does not mean that nothing happened: when the sync of the directory fails after
  the rename, the helper reports its only operation as failed although the new drop-in is installed.
\<close>

lemma failed_but_installed:
  "\<exists>sys hx r h w w'. hx_backend hx = system_backend sys root_lb
    \<and> helper_execute sys hx r (hq_hash r) w = (Inr [failed_result ''helper_operation_failed'' h], w')
    \<and> fs w drop_in_path = None \<and> fs w' drop_in_path = Some (RegFile [120] 420 0 0)"
proof -
  let ?w = "root_world\<lparr>faults := replicate 11 False @ [True]\<rparr>"
  have "root_ok ?w" "fs ?w drop_in_path = None" "faults ?w = replicate 11 False @ [True]"
    using root_world_ok by (simp_all add: root_ok_def)
  from root_execute(2) [OF this] this(2) obtain w' where
    "helper_execute root_system root_hx (root_request root_hash) (hq_hash (root_request root_hash)) ?w
      = (Inr [failed_result ''helper_operation_failed'' root_op], w')"
    "fs ?w drop_in_path = None" "fs w' drop_in_path = Some (RegFile [120] 420 0 0)"
    by (simp add: root_fields)
  with root_fields(7) show ?thesis by blast
qed


theorem helper_at_most_once_witness:
  "\<exists>w'. run_helper root_system root_setup (lit ''o'') root_hash root_world = (Inr [done_result root_op], w')
    \<and> fs root_world (lit ''/c/o.json'') = None \<and> fs w' (lit ''/c/o.json'') \<noteq> None"
proof -
  obtain w' where r: "run_helper root_system root_setup (lit ''o'') root_hash root_world = (Inr [done_result root_op], w')"
    using root_run_helper by blast
  have c: "resolved_target root_system (path_join (rs_root (hs_receipts root_setup)) (lit ''o'' @ lit ''.json'')) = lit ''/c/o.json''"
    "resolved_target root_system (rs_root (hs_receipts root_setup)) = lit ''/c''" by code_simp+
  have k: "hs_given root_setup = None" "keeps S (lb_runner (hs_own root_setup) argv)" "keeps S (hs_capture root_setup q)" for S argv q
    by (simp_all add: root_setup_def root_lb_def keeps_def)
  have o: "hs_own root_setup = root_lb" "drop_in_at root_system root_lb = drop_in_path"
    by (simp_all add: root_setup_def drop_in_at_def root_paths)
  have "fs root_world (lit ''/c/o.json'') = None \<and> fs w' (lit ''/c/o.json'') \<noteq> None"
    using helper_at_most_once [OF r k(1), unfolded c o] root_apart k(2,3) by (simp add: root_paths o del: lit_simps)
  with r show ?thesis by blast
qed

theorem answer_tells_witness:
  "\<exists>w'. helper_execute root_system root_hx (root_request root_hash) root_hash root_world = (Inr [done_result root_op], w')
    \<and> (\<exists>c. fs w' drop_in_path = Some (RegFile c 420 0 0) \<and> Some (sha256 root_system c) = ho_staged root_op)"
proof -
  obtain w' where e: "helper_execute root_system root_hx (root_request root_hash) root_hash root_world = (Inr [done_result root_op], w')"
    using root_execute(1) [OF root_world_ok(1,2,4)] by blast
  have i: "installs root_op" using root_well_formed [of root_hash]
    by (simp add: well_formed_def root_op_fields removes_def serves_def)
  have d: "drop_in_at root_system root_lb = drop_in_path" by (simp add: drop_in_at_def root_paths)
  have k: "keeps S (lb_runner root_lb argv)" "hx_capture root_hx = Some g \<Longrightarrow> keeps S (g q)" for S argv g q
    by (auto simp: root_fields keeps_def)
  have "drop_in_path \<noteq> lit ''/etc/systemd/system/ollama.service.d''" by code_simp
  then have "\<exists>c. fs w' drop_in_path = Some (RegFile c 420 0 0) \<and> Some (sha256 root_system c) = ho_staged root_op"
    using answer_tells [OF e root_op_fields(8) i _ root_fields(7,2), unfolded d] k
    by (auto simp: root_paths done_result_def simp del: lit_simps)
  with e show ?thesis by blast
qed

end
