(* ===== verification/PrivilegedSafety.thy ===== *)
theory PrivilegedSafety
  imports PrivilegedApply HelperSafety
begin

text \<open>
  What the privileged apply of \<open>PrivilegedApply\<close> promises: the request it prepares is the one the helper accepts,
  and its answers agree with its journal.
\<close>

section \<open>A small privileged apply\<close>

text \<open>A plan that creates the drop-in, on the machine of the helper's example.\<close>

definition priv_change :: change where
  "priv_change = \<lparr>change_id = lit ''c'', ch_target = drop_in_path, operation = CREATE_FILE, ch_before = JNull, ch_after = JNull,
     before_hash = None, diff = [], requires_root = True, requires_restart = True, rollback_operation = None,
     validation_checks = [lit ''systemd.daemon_reload''], source_span = None, replacement_text = Some [120]\<rparr>"

definition priv_changes :: change_set where
  "priv_changes = \<lparr>change_set_id = lit ''s'', cs_host_id = lit ''h'', changes = [priv_change],
     content_hash = replicate 64 48, cs_status = DRAFT, affected_services = [ollama_unit]\<rparr>"

definition priv_plan :: optimization_plan where
  "priv_plan = \<lparr>plan_id = lit ''p'', op_report_id = lit ''r'', report_hash = lit ''rh'',
     op_profile = undefined, rule_catalog_version = [], recommendations = [], selected_ids = [],
     op_change_set = Some priv_changes, op_status = APPROVED, created_at = 0, expires_at = None, backup_policy = no_encryption\<rparr>"

definition priv_approval :: approval_record where
  "priv_approval = \<lparr>approval_id = lit ''a'', ap_plan_id = lit ''p'', ap_report_hash = lit ''rh'', change_set_hash = replicate 64 48,
     actor = lit ''u'', backup_policy_hash = encryption_content_hash (runtime.truncate root_system) no_encryption,
     plaintext_backup_acknowledged = True, approved_at = 0, ap_expires_at = Some 9\<rparr>"

definition priv_manifest :: backup_manifest where
  "priv_manifest = \<lparr>backup_id = lit ''o'', bm_schema_version = lit ''1.0'', bm_plan_id = lit ''p'',
     bm_change_set_hash = replicate 64 48, bm_host_id = lit ''h'', host_fingerprint = None, items = [],
     manifest_hash = replicate 64 48, storage_location = [], encryption = no_encryption, protected = False,
     bm_created_at = 0, retention_expires_at = None, complete = True\<rparr>"

definition priv_coordinator :: "bool \<Rightarrow> privileged" where
  "priv_coordinator ok = \<lparr>pv_create = (\<lambda>_. retW priv_manifest),
     pv_verify = (\<lambda>_. retW [file_result (lit ''backup'') ok JNull JNull]), pv_items = (\<lambda>_. retW []),
     pv_invoke = (\<lambda>r _. retW (map done_result (hq_operations r))),
     pv_validate = (\<lambda>_. retW [file_result (lit ''service'') True JNull JNull]),
     pv_journal = \<lparr>jr_root = lit ''/j'', jr_allowed = [lit ''/etc/systemd'']\<rparr>, pv_ready = retW (), pv_audit = None\<rparr>"

definition priv_world :: world where
  "priv_world = (toy_world Map.empty)\<lparr>clock := []\<rparr>"

definition priv_request :: "str \<Rightarrow> helper_request" where
  "priv_request h = \<lparr>hq_version = 1, hq_id = lit ''o'', hq_host = lit ''h'', hq_plan = lit ''p'',
     hq_change_set = replicate 64 48,
     hq_operations = write_operation (lit ''o:write'') ATOMIC_REPLACE None (head_digest [120]) # service_operations (lit ''o''),
     hq_requested = Aware 0, hq_expires = Aware 9, hq_hash = h, hq_approval = Some (lit ''a''), hq_backup = Some (lit ''o''),
     hq_manifest = Some (replicate 64 48)\<rparr>"

lemma priv_hashed: "helper_hash (runtime.truncate root_system) (priv_request []) = Inr root_hash"
  by code_simp

lemma priv_well_formed: "well_formed (priv_request h)"
proof -
  have "is_identifier (lit ''o'')" "is_identifier (lit ''h'')" "is_identifier (lit ''p'')" "is_identifier (lit ''a'')"
    "is_identifier (lit ''o:write'')" "is_identifier (lit ''o'' @ lit '':reload'')" "is_identifier (lit ''o'' @ lit '':restart'')"
    "is_digest (replicate 64 48)" "is_digest (head_digest [120])" by code_simp+
  then show ?thesis
    by (simp add: well_formed_def priv_request_def installs_def serves_def opt_ok_def complete_binding_def write_operation_def
      service_operations_def no_parameters_def)
qed

lemma priv_sealed: "sealed_request root_system (priv_request []) 0 = Inr (priv_request root_hash)"
proof -
  have "is_digest root_hash" by code_simp
  moreover have "priv_request h\<lparr>hq_hash := k\<rparr> = priv_request k" for h k by (simp add: priv_request_def)
  moreover have "hq_hash (priv_request h) = h" "in_window 0 (priv_request h) = Inr ()" for h
    by (simp_all add: in_window_Inr priv_request_def max_request_lifetime_def)
  ultimately show ?thesis using priv_hashed priv_well_formed
    by (simp add: sealed_request_def helper_with_hash_def validate_request_Inr bound_hash_def bindR_eq_Inr)
qed

lemma priv_valid: "is_valid_for (runtime.truncate root_system) priv_approval priv_plan 0"
  by (simp add: is_valid_for_def unexpired_def priv_approval_def priv_plan_def priv_changes_def)

lemma priv_clock: "utc_now priv_world = (Inr 0, priv_world)"
  by (simp add: utc_now_def priv_world_def toy_world_def)

lemma priv_prepared:
  "prepare_apply root_system priv_plan priv_approval (lit ''o'') (Some priv_manifest) priv_world
     = (Inr \<lparr>pa_request = priv_request root_hash, pa_contents = [(lit ''o:write'', [120])]\<rparr>, priv_world)"
proof -
  have c: "op_change_set priv_plan = Some priv_changes" "changes priv_changes = [priv_change]"
    "replacement_text priv_change = Some [120]" "before_hash priv_change = None"
    by (simp_all add: priv_plan_def priv_changes_def priv_change_def)
  have h: "helper_change priv_changes priv_change"
    by (simp add: helper_change_def priv_changes_def priv_change_def)
  have m: "manifest_bound priv_plan priv_manifest (lit ''o'')"
    by (simp add: manifest_bound_def priv_plan_def priv_manifest_def priv_changes_def no_encryption_def)
  have u: "utf8_encode [120] = Inr [120]" "sha256 root_system [120] = head_digest [120]" 
    by (simp_all add: root_system_def) code_simp
  have r: "request_for priv_plan priv_changes priv_approval (Some priv_manifest) (lit ''o'')
      (write_operation (lit ''o:write'') ATOMIC_REPLACE None (head_digest [120]) # service_operations (lit ''o'')) 0 = priv_request []"
    by (simp add: request_for_def priv_request_def request_expiry_def priv_plan_def priv_changes_def priv_approval_def
      priv_manifest_def protocol_version_def)
  have i: "lit ''o'' @ lit '':write'' = lit ''o:write''" by simp
  show ?thesis
    by (simp add: prepare_apply_def bindW_def priv_clock c h checkW_def guardW_def check_manifest_def valid_now_def priv_valid m u Let_def i r
      priv_sealed del: lit_simps)
qed

lemma priv_encodes: "\<exists>b. encode_request (runtime.truncate root_system) (priv_request root_hash) = Inr b"
proof -
  have "case helper_bytes (runtime.truncate root_system) (priv_request root_hash) of Inl _ \<Rightarrow> False | Inr b \<Rightarrow> int (length b) \<le> max_request_bytes"
    by code_simp
  moreover have "validate_request (runtime.truncate root_system) (priv_request root_hash) root_hash 0 = Inr ()"
    using priv_sealed by (auto simp: sealed_request_def helper_with_hash_def bindR_eq_Inr priv_request_def)
  moreover have "hq_requested (priv_request h) = Aware 0" "hq_hash (priv_request h) = h" for h by (simp_all add: priv_request_def)
  ultimately show ?thesis
    by (simp add: encode_request_def not_less split: sum.splits)
qed

lemma known_run: "known b r m w = (case m w of
    (Inl e, w') \<Rightarrow> (Inl (e, \<lparr>pl_manifest = b, pl_request = r\<rparr>), w') | (Inr x, w') \<Rightarrow> (Inr x, w'))"
  by (simp add: known_def tryW_def raiseW_def split: prod.splits sum.splits)

lemma priv_stopped: "\<exists>out w'. pv_execute root_system (priv_coordinator False) priv_plan priv_approval (lit ''o'') priv_world = (Inr out, w')
    \<and> ao_status out = APPROVED"
proof -
  have "op_change_set priv_plan = Some priv_changes" by (simp add: priv_plan_def)
  then show ?thesis
    by (simp add: pv_execute_def bindW_def valid_now_def priv_clock priv_valid checkW_def guardW_def tryW_def pv_body_def known_run pv_log_def
      priv_coordinator_def all_passed_def file_result_def passed_result_def outcome_def)
qed

lemma priv_quiet:
  "keeps S (pv_create (priv_coordinator ok) rq)" "keeps S (pv_verify (priv_coordinator ok) m)"
  "keeps S (pv_ready (priv_coordinator ok))" "pv_audit (priv_coordinator ok) = None"
  by (simp_all add: priv_coordinator_def keeping)

section \<open>From the approval to the helper\<close>

lemma utc_now_Inr: "utc_now w = (r, w') \<Longrightarrow> \<exists>t. r = Inr t"
  by (auto simp: utc_now_def split: list.splits)

lemma request_expiry_le: "expires_at p = Some t \<or> ap_expires_at a = Some t \<Longrightarrow> request_expiry p a now \<le> t"
  unfolding request_expiry_def by (rule Min_le, rule List.finite_set) auto

lemma sealed_request_Inr:
  assumes "sealed_request sys d now = Inr r"
  shows "\<exists>h. r = d\<lparr>hq_hash := h\<rparr>" and "validate_request (runtime.truncate sys) r (hq_hash r) now = Inr ()"
  using assms by (auto simp: sealed_request_def bindR_eq_Inr helper_with_hash_def)

lemma prepare_apply_Inr:
  assumes "prepare_apply sys p a oid (Some m) w = (Inr pa, w')"
  obtains now w1 cs c content where "utc_now w = (Inr now, w1)" "op_change_set p = Some cs" "changes cs = [c]"
    "helper_change cs c" "is_valid_for (runtime.truncate sys) a p now" "manifest_bound p m oid"
    "utf8_encode (the (replacement_text c)) = Inr content"
    "pa_contents pa = [(oid @ lit '':write'', content)]"
    "sealed_request sys (request_for p cs a (Some m) oid
       (write_operation (oid @ lit '':write'') ATOMIC_REPLACE (before_hash c) (sha256 sys content) # service_operations oid) now) now
       = Inr (pa_request pa)"
proof -
  obtain now w1 where n: "utc_now w = (Inr now, w1)" and a: "(case op_change_set p of None \<Rightarrow> raiseW (AdapterError ''invalid_approval'')
     | Some cs \<Rightarrow>
         bindW (checkW (is_valid_for (runtime.truncate sys) a p now) ''invalid_approval'') (\<lambda>_.
         case changes cs of
           [c] \<Rightarrow>
             bindW (checkW (helper_change cs c) ''unsupported_privileged_plan'') (\<lambda>_.
             bindW (liftR (utf8_encode (case replacement_text c of Some t \<Rightarrow> t | None \<Rightarrow> []))) (\<lambda>content.
             let write_id = oid @ lit '':write'';
                 ops = write_operation write_id ATOMIC_REPLACE (before_hash c) (sha256 sys content) # service_operations oid in
             bindW (check_manifest sys p a m oid) (\<lambda>_.
             bindW (liftR (sealed_request sys (request_for p cs a (Some m) oid ops now) now)) (\<lambda>r.
             retW \<lparr>pa_request = r, pa_contents = [(write_id, content)]\<rparr>))))
         | _ \<Rightarrow> raiseW (AdapterError ''unsupported_privileged_plan''))) w1 = (Inr pa, w')"
    using assms [unfolded prepare_apply_def bindW_Inr [of utc_now], unfolded option.simps] by blast
  from a obtain cs where cs: "op_change_set p = Some cs" by (cases "op_change_set p") auto
  with a obtain c where c: "changes cs = [c]"
    by (auto simp: bindW_Inr checkW_def split: list.splits)
  then have h: "helper_change cs c" "is_valid_for (runtime.truncate sys) a p now" using a cs by (auto simp: bindW_Inr checkW_def)
  then obtain t where t: "replacement_text c = Some t" by (auto simp: helper_change_def)
  from a cs c t obtain content w2 w3 where x: "utf8_encode t = Inr content"
    and m: "check_manifest sys p a m oid w2 = (Inr (), w3)"
    and s: "sealed_request sys (request_for p cs a (Some m) oid
       (write_operation (oid @ lit '':write'') ATOMIC_REPLACE (before_hash c) (sha256 sys content) # service_operations oid) now) now
       = Inr (pa_request pa)" "pa_contents pa = [(oid @ lit '':write'', content)]"
    by (auto simp: bindW_Inr Let_def)
  have "manifest_bound p m oid" using m by (auto simp: check_manifest_def bindW_Inr checkW_def)
  then show thesis using that n cs c h t x s by simp
qed

text \<open>
  Property C39. What reaches the helper is what was approved: the request prepared for an approved plan and its
  verified backup is accepted by the helper's decoder, unchanged, at every moment of its window; it installs
  exactly the replacement text of the plan's only change, on the content the plan was made for, then reloads
  and restarts the service; it is bound to the plan, the approved change set, the approval and the backup;
  and its window ends with the approval and the plan.
\<close>

theorem approved_reaches_helper:
  assumes "prepare_apply sys p a oid (Some m) w = (Inr pa, w')"
    and "encode_request (runtime.truncate sys) (pa_request pa) = Inr b"
    and "hq_requested (pa_request pa) = Aware t" "hq_expires (pa_request pa) = Aware e"
    and "stamp_ok (runtime.truncate sys) t" "stamp_ok (runtime.truncate sys) e" and "t \<le> n" "n < e"
  shows "decode_request (runtime.truncate sys) b (hq_hash (pa_request pa)) n = Inr (pa_request pa)
    \<and> is_valid_for (runtime.truncate sys) a p n
    \<and> (\<exists>cs c content. op_change_set p = Some cs \<and> changes cs = [c] \<and> utf8_encode (the (replacement_text c)) = Inr content
        \<and> pa_contents pa = [(oid @ lit '':write'', content)]
        \<and> hq_operations (pa_request pa) =
            write_operation (oid @ lit '':write'') ATOMIC_REPLACE (before_hash c) (sha256 sys content) # service_operations oid
        \<and> hq_id (pa_request pa) = oid \<and> hq_plan (pa_request pa) = plan_id p \<and> hq_change_set (pa_request pa) = change_set_hash a
        \<and> hq_approval (pa_request pa) = Some (approval_id a) \<and> hq_backup (pa_request pa) = Some (backup_id m)
        \<and> hq_manifest (pa_request pa) = Some (manifest_hash m) \<and> bm_change_set_hash m = change_set_hash a \<and> complete m)"
proof -
  let ?rt = "runtime.truncate sys"
  obtain now w1 cs c content where x: "op_change_set p = Some cs" "changes cs = [c]" "helper_change cs c"
    "is_valid_for ?rt a p now" "manifest_bound p m oid" "utf8_encode (the (replacement_text c)) = Inr content"
    "pa_contents pa = [(oid @ lit '':write'', content)]"
    and s: "sealed_request sys (request_for p cs a (Some m) oid
       (write_operation (oid @ lit '':write'') ATOMIC_REPLACE (before_hash c) (sha256 sys content) # service_operations oid) now) now
       = Inr (pa_request pa)"
    by (rule prepare_apply_Inr [OF assms(1)]) (rule that)
  obtain h where r: "pa_request pa = (request_for p cs a (Some m) oid
       (write_operation (oid @ lit '':write'') ATOMIC_REPLACE (before_hash c) (sha256 sys content) # service_operations oid) now)\<lparr>hq_hash := h\<rparr>"
    using sealed_request_Inr(1) [OF s] by blast
  have v: "validate_request ?rt (pa_request pa) (hq_hash (pa_request pa)) now = Inr ()" by (rule sealed_request_Inr(2) [OF s])
  then have i: "in_window now (pa_request pa) = Inr ()" by (simp add: validate_request_Inr)
  have te: "t = now" "e = request_expiry p a now" using assms(3,4) unfolding r by (simp_all add: request_for_def)
  have "in_window n (pa_request pa) = Inr ()" using i assms(3,4,7,8) by (auto simp: in_window_Inr te)
  then have d: "decode_request ?rt b (hq_hash (pa_request pa)) n = Inr (pa_request pa)"
    by (intro encoded_decodes [OF encode_request_Inr [OF assms(2)] assms(3-6)])
  have "n < t'" if "expires_at p = Some t' \<or> ap_expires_at a = Some t'" for t'
    using request_expiry_le [OF that, of now] assms(8) unfolding te(2) by simp
  then have "is_valid_for ?rt a p n" using x(1,4) by (auto simp: is_valid_for_def unexpired_def split: option.splits)
  moreover have "change_set_hash a = content_hash cs" using x(1,4) by (auto simp: is_valid_for_def)
  ultimately show ?thesis using d x unfolding r
    by (auto simp: request_for_def manifest_bound_def)
qed


theorem approved_reaches_helper_witness:
  "\<exists>pa w' b. prepare_apply root_system priv_plan priv_approval (lit ''o'') (Some priv_manifest) priv_world = (Inr pa, w')
    \<and> encode_request (runtime.truncate root_system) (pa_request pa) = Inr b
    \<and> decode_request (runtime.truncate root_system) b (hq_hash (pa_request pa)) 3 = Inr (pa_request pa)
    \<and> is_valid_for (runtime.truncate root_system) priv_approval priv_plan 3"
proof -
  let ?pa = "\<lparr>pa_request = priv_request root_hash, pa_contents = [(lit ''o:write'', [120])]\<rparr>"
  obtain b where b: "encode_request (runtime.truncate root_system) (pa_request ?pa) = Inr b" using priv_encodes by auto
  have t: "hq_requested (pa_request ?pa) = Aware 0" "hq_expires (pa_request ?pa) = Aware 9" by (simp_all add: priv_request_def)
  have s: "stamp_ok (runtime.truncate root_system) 0" "stamp_ok (runtime.truncate root_system) 9"
    using root_stamps by simp_all
  from approved_reaches_helper [OF priv_prepared b t s, of 3] priv_prepared b show ?thesis by (auto simp del: lit_simps)
qed


section \<open>What the coordinator answers\<close>

text \<open>The operation's journal was brought to \<open>st\<close>, as the last thing that happened.\<close>

definition ends_in :: "system \<Rightarrow> privileged \<Rightarrow> str \<Rightarrow> journal_status \<Rightarrow> world \<Rightarrow> bool" where
  "ends_in sys pv oid st w' \<longleftrightarrow> (\<exists>v j. journal_update sys (pv_journal pv) oid st v = (Inr j, w'))"

text \<open>Some call of the helper reported every operation of its request as completed.\<close>

definition helper_done :: "privileged \<Rightarrow> bool" where
  "helper_done pv \<longleftrightarrow> (\<exists>r cs v results v'. pv_invoke pv r cs v = (Inr results, v') \<and> helper_passed results)"

definition honest :: "system \<Rightarrow> privileged \<Rightarrow> str \<Rightarrow> apply_outcome \<Rightarrow> world \<Rightarrow> bool" where
  "honest sys pv oid out w' \<longleftrightarrow> ao_status out \<in> {COMMITTED, ROLLED_BACK, RECOVERY_REQUIRED}
     \<and> (ao_status out = COMMITTED \<longrightarrow> ends_in sys pv oid JS_COMMITTED w' \<and> all_passed (ao_validations out)
         \<and> helper_done pv)
     \<and> (ao_status out = ROLLED_BACK \<longrightarrow> ends_in sys pv oid JS_ROLLED_BACK w')"

lemma succeeds_True: "succeeds m w = (Inr True, w') \<Longrightarrow> \<exists>x. m w = (Inr x, w')"
  by (auto simp: succeeds_def tryW_def bindW_def split: prod.splits sum.splits if_splits)

lemma update_ends: "journal_update sys (pv_journal pv) oid st w = (Inr j, w') \<Longrightarrow> ends_in sys pv oid st w'"
  unfolding ends_in_def by blast

lemma succeeds_ends: "succeeds (journal_update sys (pv_journal pv) oid st) w = (Inr True, w') \<Longrightarrow> ends_in sys pv oid st w'"
  using succeeds_True [of "journal_update sys (pv_journal pv) oid st" w w'] update_ends by blast

lemma pv_rollback_honest: "pv_rollback sys pv p a m r oid vs err w = (Inr out, w') \<Longrightarrow> honest sys pv oid out w'"
proof -
  assume r: "pv_rollback sys pv p a m r oid vs err w = (Inr out, w')"
  then obtain restored st audited w1 w2 marked where t: "take_back sys pv p a m r oid w = (Inr (restored, st), w1)"
    and s: "succeeds (journal_update sys (pv_journal pv) oid (if (if audited then st else RECOVERY_REQUIRED) = ROLLED_BACK
        then JS_ROLLED_BACK else JS_RECOVERY_REQUIRED)) w2 = (Inr marked, w')"
    and o: "out = outcome (if marked then (if audited then st else RECOVERY_REQUIRED) else RECOVERY_REQUIRED) (Some m) (vs @ restored) (Some err)"
    unfolding pv_rollback_def bindW_Inr Let_def by (auto simp only: prod.case split_paired_Ex bindW_Inr io_simps sum.inject prod.inject)
  from t have "st \<in> {ROLLED_BACK, RECOVERY_REQUIRED}"
    by (auto simp: take_back_def tryW_def bindW_def split: prod.splits sum.splits if_splits)
  moreover have "ends_in sys pv oid (if (if audited then st else RECOVERY_REQUIRED) = ROLLED_BACK then JS_ROLLED_BACK
      else JS_RECOVERY_REQUIRED) w'" if "marked"
    using s that by (auto intro: succeeds_ends)
  ultimately show ?thesis using o by (auto simp: honest_def outcome_def split: if_splits)
qed

lemma not_started_honest: "not_started sys pv p m oid e w = (Inr out, w') \<Longrightarrow> honest sys pv oid out w'"
proof -
  assume "not_started sys pv p m oid e w = (Inr out, w')"
  then obtain x w1 where k: "(case x of
       Some x \<Rightarrow> bindW (journal_update sys (pv_journal pv) oid JS_RECOVERY_REQUIRED) (\<lambda>_.
         retW (outcome RECOVERY_REQUIRED (Some m) [] (Some (Raised x))))
     | None \<Rightarrow> bindW (journal_update sys (pv_journal pv) oid JS_ROLLED_BACK) (\<lambda>_.
         retW (outcome ROLLED_BACK (Some m) [] (Some (Raised e))))) w1 = (Inr out, w')"
    unfolding not_started_def bindW_Inr by blast
  show ?thesis
  proof (cases x)
    case None
    with k show ?thesis by (auto simp: bindW_Inr honest_def outcome_def intro: update_ends)
  next
    case (Some y)
    with k show ?thesis by (auto simp: bindW_Inr honest_def outcome_def)
  qed
qed

lemma judge_honest:
  assumes "judge sys pv p cs a m r oid results w = (Inr out, w')" and "pv_invoke pv r' contents v = (Inr results, v')"
  shows "honest sys pv oid out w'"
proof -
  have h: "helper_passed results \<Longrightarrow> helper_done pv"
    unfolding helper_done_def by (intro exI conjI) (rule assms(2))
  show ?thesis
  proof (cases "helper_passed results")
    case False
    then show ?thesis using assms(1)
      by (auto simp: judge_def bindW_Inr split: if_splits intro: pv_rollback_honest) (auto simp: honest_def outcome_def intro: update_ends)
  next
    case True
    then show ?thesis using assms(1) h [OF True]
      by (auto simp: judge_def bindW_Inr split: if_splits intro: pv_rollback_honest) (auto simp: honest_def outcome_def intro: update_ends)
  qed
qed

lemma invoke_step_honest: "invoke_step sys pv p cs a m oid prepared w = (Inr out, w') \<Longrightarrow> honest sys pv oid out w'"
proof -
  assume "invoke_step sys pv p cs a m oid prepared w = (Inr out, w')"
  then obtain x w1 where x: "tryW (bindW (pv_invoke pv (pa_request prepared) (pa_contents prepared)) (\<lambda>results. retW (Inr results)))
        (\<lambda>e. if e \<in> {AdapterError ''privilege_denied'', AdapterError ''helper_launch_failed''} then retW (Inl e) else raiseW e) w = (Inr x, w1)"
    and k: "(case x of Inl e \<Rightarrow> not_started sys pv p m oid e | Inr results \<Rightarrow> judge sys pv p cs a m (pa_request prepared) oid results) w1
       = (Inr out, w')"
    by (auto simp: invoke_step_def bindW_Inr)
  show ?thesis
  proof (cases x)
    case (Inl e)
    with k show ?thesis by (auto intro: not_started_honest)
  next
    case (Inr results)
    then have "pv_invoke pv (pa_request prepared) (pa_contents prepared) w = (Inr results, w1)"
      using x by (auto simp: tryW_def bindW_def split: prod.splits sum.splits if_splits)
    with k Inr show ?thesis by (auto intro: judge_honest)
  qed
qed


text \<open>
  \<open>settles q m\<close>: the body of the coordinator either answers \<open>APPROVED\<close> or fails without a backup, having left
  the file at \<open>q\<close> alone, or answers honestly, or fails with a backup made.
\<close>

definition settles :: "system \<Rightarrow> privileged \<Rightarrow> str \<Rightarrow> str \<Rightarrow> (exn \<times> pv_locals, apply_outcome) run \<Rightarrow> bool" where
  "settles sys pv oid q m \<longleftrightarrow> (\<forall>w. case m w of
       (Inr out, w') \<Rightarrow> ao_status out = APPROVED \<and> fs w' q = fs w q \<or> honest sys pv oid out w'
     | (Inl (e, l), w') \<Rightarrow> pl_manifest l = None \<longrightarrow> fs w' q = fs w q)"

lemma settles_keeps:
  assumes "keeps (\<lambda>x. x = q) m" and "\<And>x. settles sys pv oid q (f x)"
  shows "settles sys pv oid q (bindW (known b r m) f)"
  unfolding settles_def
proof
  fix w
  obtain x w1 where m: "m w = (x, w1)" by (cases "m w")
  then have k: "fs w1 q = fs w q" using assms(1) by (auto simp: keeps_def) (metis snd_conv)
  show "case bindW (known b r m) f w of
      (Inr out, w') \<Rightarrow> ao_status out = APPROVED \<and> fs w' q = fs w q \<or> honest sys pv oid out w'
    | (Inl (e, l), w') \<Rightarrow> pl_manifest l = None \<longrightarrow> fs w' q = fs w q"
  proof (cases x)
    case (Inl e)
    with m k show ?thesis by (simp add: bindW_def known_run)
  next
    case (Inr y)
    then show ?thesis using m k assms(2) [of y, unfolded settles_def, rule_format, of w1]
      by (simp add: bindW_def known_run split: prod.splits sum.splits)
  qed
qed

text \<open>Once there is a backup, a step that may change anything must be followed by an honest answer.\<close>

definition honestly :: "system \<Rightarrow> privileged \<Rightarrow> str \<Rightarrow> (exn \<times> pv_locals, apply_outcome) run \<Rightarrow> bool" where
  "honestly sys pv oid m \<longleftrightarrow> (\<forall>w. case m w of
       (Inr out, w') \<Rightarrow> honest sys pv oid out w'
     | (Inl (e, l), w') \<Rightarrow> pl_manifest l \<noteq> None)"

lemma honestly_settles: "honestly sys pv oid m \<Longrightarrow> settles sys pv oid q m"
  unfolding honestly_def settles_def by (fastforce split: prod.splits sum.splits)

lemma honestly_bind:
  assumes "\<And>x. honestly sys pv oid (f x)"
  shows "honestly sys pv oid (bindW (known (Some b) r m) f)"
  unfolding honestly_def
proof
  fix w
  show "case bindW (known (Some b) r m) f w of (Inr out, w') \<Rightarrow> honest sys pv oid out w' | (Inl (e, l), w') \<Rightarrow> pl_manifest l \<noteq> None"
  proof (cases "m w")
    case (Pair x w1)
    then show ?thesis
    proof (cases x)
      case (Inl e)
      with Pair show ?thesis by (simp add: bindW_def known_run)
    next
      case (Inr y)
      with Pair show ?thesis using assms [of y, unfolded honestly_def, rule_format, of w1]
        by (simp add: bindW_def known_run)
    qed
  qed
qed

lemma honestly_invoke: "honestly sys pv oid (known (Some m) r (invoke_step sys pv p cs a m oid prepared))"
  unfolding honestly_def known_run by (auto split: prod.splits sum.splits intro: invoke_step_honest)



end
