(* ===== verification/Manifests.thy ===== *)
theory Manifests
  imports HelperFiles Approvals
begin

text \<open>
  The manifests of \<open>infrastructure/backup.py\<close>: reading a manifest back, listing the backups of a host (leniently
  for the program's own use, strictly for a restore), protecting, deleting and pruning them, and observing the
  targets of a restore.  The names in a directory are arguments; \<open>os.getuid()\<close> is \<open>euid\<close>.  The directories that
  \<open>create\<close> makes are not tracked (see \<open>World\<close>), so a world in which a backup is listed has them in \<open>dirs\<close>.
\<close>

section \<open>Decoding\<close>

definition max_manifest_bytes :: int where
  "max_manifest_bytes = 1048576"

definition is_object :: "json \<Rightarrow> bool" where
  "is_object v \<longleftrightarrow> (case v of JObj _ \<Rightarrow> True | _ \<Rightarrow> False)"

definition decode_backup_item :: "json \<Rightarrow> backup_item res" where
  "decode_backup_item v =
     (if \<not> is_object v then Inl ValueError
      else bindR (need_text v (lit ''target'')) (\<lambda>t.
           bindR (need_bool v (lit ''existed'')) (\<lambda>b.
           bindR (need_optional_text v (lit ''content_ref'')) (\<lambda>c.
           bindR (need_optional_text v (lit ''sha256'')) (\<lambda>h.
           bindR (need_optional_int v (lit ''mode'')) (\<lambda>m.
           bindR (need_optional_int v (lit ''uid'')) (\<lambda>u.
           bindR (need_optional_int v (lit ''gid'')) (\<lambda>g.
           bindR (need_optional_text v (lit ''selinux_context'')) (\<lambda>x.
           bindR (need_optional_text v (lit ''service_state'')) (\<lambda>s.
           bindR (need_optional_text v (lit ''storage_location'')) (\<lambda>l.
           Inr \<lparr>bi_target = t, existed = b, content_ref = c, bi_sha256 = h, mode = m, uid = u, gid = g,
                selinux_context = x, service_state = s, bi_storage_location = l\<rparr>)))))))))))"

definition decode_encryption :: "json \<Rightarrow> encryption_info res" where
  "decode_encryption v =
     bindR (need_bool v (lit ''enabled'')) (\<lambda>b.
     bindR (need_optional_text v (lit ''scheme'')) (\<lambda>s.
     bindR (need_optional_int v (lit ''envelope_version'')) (\<lambda>n.
     bindR (need_optional_text v (lit ''key_reference'')) (\<lambda>r.
     bindR (need_optional_text v (lit ''key_scope'')) (\<lambda>c.
     let e = \<lparr>enc_enabled = b, scheme = s, envelope_version = n, key_reference = r, key_scope = c\<rparr> in
     bindR (check_encryption_info e) (\<lambda>_. Inr e))))))"

text \<open>The inner \<open>try\<close> block of \<open>decode_backup_manifest_evidence\<close>.\<close>

definition manifest_fields :: "runtime \<Rightarrow> json \<Rightarrow> backup_manifest res" where
  "manifest_fields rt v =
     bindR (need_text v (lit ''schema_version'')) (\<lambda>sv.
     bindR (validate_schema_version sv) (\<lambda>_.
     bindR (get_field v (lit ''items'')) (\<lambda>its.
     bindR (get_field v (lit ''encryption'')) (\<lambda>enc.
     case its of
       JArr xs \<Rightarrow>
         if \<not> is_object enc then Inl ValueError
         else bindR (mapR decode_backup_item xs) (\<lambda>is.
              bindR (decode_encryption enc) (\<lambda>e.
              bindR (need_text v (lit ''backup_id'')) (\<lambda>bid.
              bindR (need_text v (lit ''plan_id'')) (\<lambda>pid.
              bindR (need_text v (lit ''change_set_hash'')) (\<lambda>csh.
              bindR (need_text v (lit ''host_id'')) (\<lambda>hid.
              bindR (need_optional_text v (lit ''host_fingerprint'')) (\<lambda>fp.
              bindR (need_text v (lit ''manifest_hash'')) (\<lambda>mh.
              bindR (need_text v (lit ''storage_location'')) (\<lambda>loc.
              bindR (need_bool v (lit ''protected'')) (\<lambda>pr.
              bindR (need_time rt v (lit ''created_at'')) (\<lambda>cr.
              bindR (need_optional_time rt v (lit ''retention_expires_at'')) (\<lambda>ex.
              bindR (need_bool v (lit ''complete'')) (\<lambda>co.
              Inr \<lparr>backup_id = bid, bm_schema_version = sv, bm_plan_id = pid, bm_change_set_hash = csh, bm_host_id = hid,
                   host_fingerprint = fp, items = is, manifest_hash = mh, storage_location = loc, encryption = e,
                   protected = pr, bm_created_at = cr, retention_expires_at = ex, complete = co\<rparr>)))))))))))))
     | _ \<Rightarrow> Inl ValueError))))"

definition invalid_manifest :: exn where
  "invalid_manifest = AdapterError ''invalid_manifest''"

text \<open>\<open>decode_backup_manifest_evidence\<close>; what re-encoding raises is not caught.\<close>

definition decode_manifest :: "runtime \<Rightarrow> bytes \<Rightarrow> backup_manifest res" where
  "decode_manifest rt content =
     (if max_manifest_bytes < int (length content) then Inl invalid_manifest
      else case bindR (utf8_decode content) jloads of
        Inl e \<Rightarrow> Inl (if e \<in> {UnicodeError, JSONDecodeError} then invalid_manifest else e)
      | Inr v \<Rightarrow>
          if \<not> is_object v then Inl invalid_manifest
          else case manifest_fields rt v of
            Inl e \<Rightarrow> Inl (if e \<in> {KeyError, TypeError, ValueError, InvariantViolation} then invalid_manifest else e)
          | Inr m \<Rightarrow>
              if \<not> complete m then Inl invalid_manifest
              else bindR (manifest_digest rt m) (\<lambda>h.
                   if h \<noteq> manifest_hash m then Inl invalid_manifest
                   else bindR (manifest_bytes rt m) (\<lambda>b.
                        if b \<noteq> content then Inl invalid_manifest else Inr m)))"

text \<open>\<open>_read_manifest\<close>\<close>

definition read_manifest :: "system \<Rightarrow> str \<Rightarrow> str \<Rightarrow> backup_manifest io" where
  "read_manifest sys d hid =
     bindW (entry_at sys (path_join d (lit ''manifest.json''))) (\<lambda>n.
     if \<not> is_file_node n then raiseW invalid_manifest
     else bindW os_step (\<lambda>_.
       if max_manifest_bytes < int (length (node_content (the n))) then raiseW invalid_manifest
       else bindW (tryW (read_bytes (resolved_target sys (path_join d (lit ''manifest.json''))))
              (\<lambda>e. raiseW (if e = OSError then invalid_manifest else e))) (\<lambda>content.
         bindW (liftR (decode_manifest (runtime.truncate sys) content)) (\<lambda>m.
         bindW (guardW (bm_host_id m = hid \<and> backup_id m = path_name d \<and> realpath sys (storage_location m) = realpath sys d)
           invalid_manifest) (\<lambda>_. retW m)))))"

section \<open>Listing\<close>

definition host_directory :: "system \<Rightarrow> backup_store \<Rightarrow> str \<Rightarrow> str res" where
  "host_directory sys bs hid = bindR (safe_component (runtime.truncate sys) hid) (\<lambda>h. Inr (path_join (bs_root bs) h))"

text \<open>\<open>st_mode & 0o777\<close>\<close>

definition permissions :: "int \<Rightarrow> int" where
  "permissions m = m mod 512"

definition owned_dir :: "system \<Rightarrow> dir_info \<Rightarrow> bool" where
  "owned_dir sys d \<longleftrightarrow> dr_uid d = euid sys \<and> permissions (dr_mode d) = 448"

definition owned_file :: "system \<Rightarrow> node option \<Rightarrow> bool" where
  "owned_file sys n \<longleftrightarrow> (case n of Some (RegFile _ m u _) \<Rightarrow> u = euid sys \<and> permissions m = 384 | _ \<Rightarrow> False)"

text \<open>The body of the loop of \<open>list_manifests_strict\<close>.\<close>

definition strict_entry :: "system \<Rightarrow> backup_store \<Rightarrow> str \<Rightarrow> str \<Rightarrow> backup_manifest io" where
  "strict_entry sys bs hid d =
     bindW (stat_dir sys d) (\<lambda>i.
     bindW (checkW (i \<noteq> None) ''invalid_backup_store'') (\<lambda>_.
     bindW os_step (\<lambda>_.
     bindW (entry_at sys (path_join d (lit ''manifest.json''))) (\<lambda>n.
     bindW (checkW (owned_dir sys (the i) \<and> owned_file sys n) ''invalid_backup_store'') (\<lambda>_.
     bindW (read_manifest sys d hid) (\<lambda>m.
     bindW (eachW (\<lambda>it. bindW (liftR (checked_target sys (bs_allowed bs) (bi_target it))) (\<lambda>_. retW ())) (items m)) (\<lambda>_.
     retW m)))))))"

definition newest_first :: "backup_manifest list \<Rightarrow> backup_manifest list" where
  "newest_first ms = sort_key (\<lambda>m. - bm_created_at m) ms"

definition list_manifests_strict :: "system \<Rightarrow> backup_store \<Rightarrow> str list \<Rightarrow> str \<Rightarrow> backup_manifest list io" where
  "list_manifests_strict sys bs names hid =
     bindW (liftR (host_directory sys bs hid)) (\<lambda>d.
     bindW (entry_at sys d) (\<lambda>n.
     if n = None then retW []
     else bindW (stat_dir sys d) (\<lambda>i.
       bindW (checkW (i \<noteq> None) ''invalid_backup_store'') (\<lambda>_.
       bindW os_step (\<lambda>_.
       bindW (checkW (owned_dir sys (the i)) ''invalid_backup_store'') (\<lambda>_.
       bindW os_step (\<lambda>_.
       bindW (mapW (\<lambda>x. strict_entry sys bs hid (path_join d x)) names) (\<lambda>ms.
       bindW (checkW (distinct (map backup_id ms)) ''invalid_backup_store'') (\<lambda>_.
       retW (newest_first ms))))))))))"

text \<open>\<open>observe_restore_targets\<close>\<close>

definition observe_target :: "system \<Rightarrow> backup_store \<Rightarrow> backup_item \<Rightarrow> observation io" where
  "observe_target sys bs it =
     bindW (liftR (checked_target sys (bs_allowed bs) (bi_target it))) (\<lambda>p.
     bindW (node_at p) (\<lambda>n.
     if n = Some SymLink then raiseW (AdapterError ''symlink_rejected'')
     else if n = None then retW \<lparr>ob_target = p, ob_exists = False, ob_sha256 = None\<rparr>
     else bindW (checkW (is_file_node n) ''unsupported_target'') (\<lambda>_.
       bindW os_step (\<lambda>_.
       bindW (checkW (int (length (node_content (the n))) \<le> max_item_bytes) ''unsupported_target'') (\<lambda>_.
       bindW (read_bytes p) (\<lambda>c. retW \<lparr>ob_target = p, ob_exists = True, ob_sha256 = Some (sha256 sys c)\<rparr>))))))"

definition observe_restore_targets :: "system \<Rightarrow> backup_store \<Rightarrow> backup_manifest \<Rightarrow> observation list io" where
  "observe_restore_targets sys bs m = mapW (observe_target sys bs) (items m)"

definition local_inventory :: "system \<Rightarrow> backup_store \<Rightarrow> str list \<Rightarrow> inventory" where
  "local_inventory sys bs names =
     \<lparr>list_strict = list_manifests_strict sys bs names, observe_targets = observe_restore_targets sys bs\<rparr>"

section \<open>Protecting, deleting, pruning\<close>

text \<open>\<open>dict.pop\<close> on the manifests the store has registered.\<close>

definition forget :: "backup_manifest \<Rightarrow> unit io" where
  "forget m = modifyW (\<lambda>w. w\<lparr>registry := filter (\<lambda>e. fst e \<noteq> (bm_host_id m, backup_id m)) (registry w)\<rparr>)"

text \<open>One entry of the loop of \<open>_load_host_manifests\<close>: what is damaged is passed over.\<close>

definition lenient_entry :: "system \<Rightarrow> str \<Rightarrow> str \<Rightarrow> backup_manifest option io" where
  "lenient_entry sys hid d =
     bindW (stat_dir sys d) (\<lambda>i.
     if i = None then retW None
     else tryW (bindW (read_manifest sys d hid) (\<lambda>m. retW (Some m)))
            (\<lambda>e. if adapter_error e then retW None else raiseW e))"

definition load_host_manifests :: "system \<Rightarrow> backup_store \<Rightarrow> str list \<Rightarrow> str \<Rightarrow> unit io" where
  "load_host_manifests sys bs names hid =
     bindW (liftR (host_directory sys bs hid)) (\<lambda>d.
     bindW (entry_at sys d) (\<lambda>n.
     if n = None then retW ()
     else bindW (stat_dir sys d) (\<lambda>i.
       bindW (checkW (i \<noteq> None) ''invalid_backup_store'') (\<lambda>_.
       bindW os_step (\<lambda>_.
       bindW (mapW (\<lambda>x. lenient_entry sys hid (path_join d x)) names) (\<lambda>ms.
       modifyW (\<lambda>w. w\<lparr>registry := fold (\<lambda>m r. AList.update (hid, backup_id m) m r) (concat (map (case_option [] (\<lambda>m. [m])) ms))
          (filter (\<lambda>e. fst (fst e) \<noteq> hid) (registry w))\<rparr>)))))))"

definition list_manifests :: "system \<Rightarrow> backup_store \<Rightarrow> str list \<Rightarrow> str \<Rightarrow> backup_manifest list io" where
  "list_manifests sys bs names hid =
     bindW (load_host_manifests sys bs names hid) (\<lambda>_.
     getW (\<lambda>w. newest_first (filter (\<lambda>m. bm_host_id m = hid) (map snd (registry w)))))"

definition set_protected :: "system \<Rightarrow> backup_store \<Rightarrow> str list \<Rightarrow> str \<Rightarrow> str \<Rightarrow> bool \<Rightarrow> backup_manifest io" where
  "set_protected sys bs names hid bid prot =
     bindW (load_host_manifests sys bs names hid) (\<lambda>_.
     bindW (getW (\<lambda>w. map_of (registry w) (hid, bid))) (\<lambda>found.
     case found of
       None \<Rightarrow> raiseW (AdapterError ''backup_not_found'')
     | Some m \<Rightarrow>
         bindW (liftR (seal_manifest (runtime.truncate sys) (m\<lparr>protected := prot, manifest_hash := []\<rparr>))) (\<lambda>u.
         bindW (liftR (manifest_bytes (runtime.truncate sys) u)) (\<lambda>b.
         bindW (atomic_write sys (resolved_target sys (path_join (storage_location u) (lit ''manifest.json''))) b 384) (\<lambda>_.
         bindW (modifyW (\<lambda>w. w\<lparr>registry := AList.update (hid, bid) u (registry w)\<rparr>)) (\<lambda>_.
         retW u))))))"

text \<open>\<open>_remove_backup_tree\<close>; \<open>listing\<close> gives the names in a directory.\<close>

definition unlink_item :: "system \<Rightarrow> str \<Rightarrow> unit io" where
  "unlink_item sys p =
     bindW (entry_at sys p) (\<lambda>n.
     bindW (checkW (is_file_node n) ''invalid_backup'') (\<lambda>_. unlink_entry sys p))"

definition remove_backup_tree :: "system \<Rightarrow> (str \<Rightarrow> str list) \<Rightarrow> str \<Rightarrow> unit io" where
  "remove_backup_tree sys listing d =
     bindW (stat_dir sys d) (\<lambda>i.
     bindW (checkW (i \<noteq> None) ''invalid_backup'') (\<lambda>_.
     bindW os_step (\<lambda>_.
     bindW (checkW (set (listing d) \<subseteq> {lit ''items'', lit ''manifest.json''}) ''invalid_backup'') (\<lambda>_.
     let its = path_join d (lit ''items''); man = path_join d (lit ''manifest.json'') in
     bindW (entry_at sys its) (\<lambda>n.
     bindW (if n = None then retW ()
       else bindW (stat_dir sys its) (\<lambda>j.
            bindW (checkW (j \<noteq> None) ''invalid_backup'') (\<lambda>_.
            bindW os_step (\<lambda>_.
            bindW (eachW (\<lambda>x. unlink_item sys (path_join its x)) (listing its)) (\<lambda>_. remove_dir sys its))))) (\<lambda>_.
     bindW (entry_at sys man) (\<lambda>n.
     bindW (if n = None then retW () else unlink_item sys man) (\<lambda>_.
     bindW (remove_dir sys d) (\<lambda>_. os_step)))))))))"

definition backup_delete :: "system \<Rightarrow> backup_store \<Rightarrow> (str \<Rightarrow> str list) \<Rightarrow> backup_manifest \<Rightarrow> unit io" where
  "backup_delete sys bs listing m =
     bindW check_cancel (\<lambda>_.
     bindW (checkW (\<not> protected m) ''protected_backup'') (\<lambda>_.
     bindW (entry_at sys (storage_location m)) (\<lambda>n.
     bindW (checkW (n \<noteq> None) ''backup_not_found'') (\<lambda>_.
     bindW (backup_verify sys bs m) (\<lambda>rs.
     bindW (checkW (rs \<noteq> [] \<and> list_all passed_result rs) ''invalid_backup'') (\<lambda>_.
     let d = realpath sys (storage_location m) in
     bindW (checkW (within d (bs_root bs)) ''invalid_backup'') (\<lambda>_.
     bindW (remove_backup_tree sys listing d) (\<lambda>_. forget m))))))))"

definition removable :: "nat \<Rightarrow> time \<Rightarrow> backup_manifest list \<Rightarrow> backup_manifest list" where
  "removable keep now ms = map snd (filter (\<lambda>(n, m). \<not> protected m \<and> 1 < length ms
     \<and> (keep \<le> n \<or> (case retention_expires_at m of None \<Rightarrow> False | Some t \<Rightarrow> t \<le> now))) (enumerate 0 ms))"

text \<open>The loop of \<open>prune\<close>, with the ids removed so far.\<close>

fun prune_loop :: "system \<Rightarrow> backup_store \<Rightarrow> (str \<Rightarrow> str list) \<Rightarrow> backup_manifest list \<Rightarrow> str list \<Rightarrow> backup_manifest list \<Rightarrow> str list io" where
  "prune_loop sys bs listing ms removed [] = retW removed"
| "prune_loop sys bs listing ms removed (m # rest) =
     (if length (filter (\<lambda>v. backup_id v \<notin> set removed) ms) \<le> 1 then retW removed
      else let d = realpath sys (storage_location m) in
        if \<not> within d (bs_root bs) then prune_loop sys bs listing ms removed rest
        else bindW (remove_backup_tree sys listing d) (\<lambda>_.
             bindW (forget m) (\<lambda>_. prune_loop sys bs listing ms (removed @ [backup_id m]) rest)))"

definition prune :: "system \<Rightarrow> backup_store \<Rightarrow> (str \<Rightarrow> str list) \<Rightarrow> str list \<Rightarrow> str \<Rightarrow> time \<Rightarrow> nat \<Rightarrow> str list io" where
  "prune sys bs listing names hid now keep =
     bindW (list_manifests sys bs names hid) (\<lambda>ms.
     prune_loop sys bs listing ms [] (rev (removable keep now ms)))"

section \<open>Reading back\<close>

lemma is_object_canon [simp]: "is_object (JObj kvs)" "is_object (canon (JObj kvs))"
  by (simp_all add: is_object_def)

lemma decode_backup_item_canon:
  assumes "bi_target i \<noteq> []"
  shows "decode_backup_item (canon (backup_item_json i)) = Inr i"
  using assms unfolding decode_backup_item_def backup_item_json_def
  by (simp add: read_back del: canon.simps(2))

lemma decode_backup_items_canon:
  "\<forall>i\<in>set is. bi_target i \<noteq> [] \<Longrightarrow> mapR decode_backup_item (map canon (map backup_item_json is)) = Inr is"
  by (induction "is") (simp_all add: decode_backup_item_canon)

lemma decode_encryption_canon:
  assumes "check_encryption_info e = Inr ()"
  shows "decode_encryption (canon (encryption_json e)) = Inr e"
  using assms unfolding decode_encryption_def encryption_json_def
  by (cases e) (simp add: read_back Let_def del: canon.simps(2))

text \<open>A manifest the reader takes: no identifier is empty, and the timestamps print and parse back.\<close>

definition manifest_ok :: "runtime \<Rightarrow> backup_manifest \<Rightarrow> bool" where
  "manifest_ok rt m \<longleftrightarrow> backup_id m \<noteq> [] \<and> bm_plan_id m \<noteq> [] \<and> bm_change_set_hash m \<noteq> [] \<and> bm_host_id m \<noteq> []
     \<and> manifest_hash m \<noteq> [] \<and> storage_location m \<noteq> [] \<and> (\<forall>i\<in>set (items m). bi_target i \<noteq> [])
     \<and> bm_schema_version m \<noteq> [] \<and> validate_schema_version (bm_schema_version m) = Inr ()
     \<and> check_encryption_info (encryption m) = Inr () \<and> stamp_ok rt (bm_created_at m)
     \<and> (case retention_expires_at m of None \<Rightarrow> True | Some t \<Rightarrow> stamp_ok rt t) \<and> storable (manifest_json rt m)"

lemma manifest_fields_canon:
  assumes "manifest_ok rt m"
  shows "manifest_fields rt (canon (manifest_json rt m)) = Inr m"
proof -
  have i: "mapR decode_backup_item (map canon (map backup_item_json (items m))) = Inr (items m)"
    using assms by (intro decode_backup_items_canon) (simp add: manifest_ok_def)
  have e: "decode_encryption (canon (encryption_json (encryption m))) = Inr (encryption m)" "is_object (canon (encryption_json (encryption m)))"
    using assms by (simp_all add: manifest_ok_def decode_encryption_canon) (simp add: encryption_json_def)
  have t: "\<forall>t. retention_expires_at m = Some t \<longrightarrow> stamp_ok rt t" using assms by (auto simp: manifest_ok_def)
  show ?thesis using assms i e t unfolding manifest_ok_def manifest_fields_def manifest_json_def
    by (simp add: read_back get_field_canon del: canon.simps(2))
qed

lemma decode_manifest_bytes:
  assumes "manifest_ok rt m" and "manifest_bytes rt m = Inr b" and "int (length b) \<le> max_manifest_bytes"
    and "manifest_digest rt m = Inr (manifest_hash m)" and "complete m"
  shows "decode_manifest rt b = Inr m"
proof -
  have "jloads (dumps False (manifest_json rt m)) = Inr (canon (manifest_json rt m))"
    using assms(1) by (intro jloads_dumps) (simp add: manifest_ok_def)
  moreover have "utf8_decode b = Inr (dumps False (manifest_json rt m))"
    using assms(2) utf8_decode_encode by (simp add: manifest_bytes_def)
  moreover have "is_object (canon (manifest_json rt m))" by (simp add: manifest_json_def)
  ultimately show ?thesis using manifest_fields_canon [OF assms(1)] assms(2-5)
    by (simp add: decode_manifest_def)
qed

lemma decode_manifest_Inr:
  assumes "decode_manifest rt b = Inr m"
  shows "complete m" "manifest_digest rt m = Inr (manifest_hash m)" "manifest_bytes rt m = Inr b" "int (length b) \<le> max_manifest_bytes"
  using assms by (auto simp: decode_manifest_def bindR_eq_Inr split: sum.splits if_splits)

section \<open>What a strict listing tells\<close>

text \<open>The directory \<open>d\<close> holds the canonical, sealed and complete manifest \<open>m\<close> of the host, in a file of the user's own.\<close>

definition listed :: "system \<Rightarrow> backup_store \<Rightarrow> files \<Rightarrow> str \<Rightarrow> str \<Rightarrow> backup_manifest \<Rightarrow> bool" where
  "listed sys bs f hid d m \<longleftrightarrow> bm_host_id m = hid \<and> backup_id m = path_name d \<and> realpath sys (storage_location m) = realpath sys d
     \<and> complete m \<and> manifest_digest (runtime.truncate sys) m = Inr (manifest_hash m)
     \<and> (\<exists>b k g. f (resolved_target sys (path_join d (lit ''manifest.json''))) = Some (RegFile b k (euid sys) g)
          \<and> permissions k = 384 \<and> manifest_bytes (runtime.truncate sys) m = Inr b)
     \<and> (\<forall>i\<in>set (items m). \<exists>r\<in>set (bs_allowed bs). within (realpath sys (path_parent (bi_target i))) r)"

lemma read_manifest_keeps [keeping]: "keeps S (read_manifest sys d hid)"
  unfolding read_manifest_def by (auto intro!: keeping simp: keeps_liftR_bind)

lemma tryW_translate: "tryW m (\<lambda>e. raiseW (g e)) w = (Inr x, w') \<longleftrightarrow> m w = (Inr x, w')"
  by (auto simp: tryW_def split: prod.splits sum.splits)

lemma read_manifest_Inr:
  assumes "read_manifest sys d hid w = (Inr m, w')"
  shows "fs w' = fs w" and "bm_host_id m = hid" "backup_id m = path_name d" "realpath sys (storage_location m) = realpath sys d"
    and "\<exists>b k u g. fs w (resolved_target sys (path_join d (lit ''manifest.json''))) = Some (RegFile b k u g)
      \<and> decode_manifest (runtime.truncate sys) b = Inr m"
proof -
  let ?p = "resolved_target sys (path_join d (lit ''manifest.json''))"
  obtain w1 c w2 where o: "os_step w = (Inr (), w1)" and r: "read_bytes ?p w1 = (Inr c, w2)" and w2: "w' = w2"
    and d: "decode_manifest (runtime.truncate sys) c = Inr m"
    and m: "bm_host_id m = hid" "backup_id m = path_name d" "realpath sys (storage_location m) = realpath sys d"
    using assms by (auto simp: read_manifest_def entry_at_def bindW_Inr tryW_translate split: if_splits simp del: lit_simps)
  from m show "bm_host_id m = hid" "backup_id m = path_name d" "realpath sys (storage_location m) = realpath sys d" by simp_all
  show "fs w' = fs w" "\<exists>b k u g. fs w ?p = Some (RegFile b k u g) \<and> decode_manifest (runtime.truncate sys) b = Inr m"
    using read_bytes_Inr [OF r] os_step_fs [OF o] d by (auto simp: w2)
qed

lemma strict_entry_keeps [keeping]: "keeps S (strict_entry sys bs hid d)"
  unfolding strict_entry_def by (auto intro!: keeping simp: keeps_liftR_bind)

lemma checked_targets:
  "eachW (\<lambda>it. bindW (liftR (checked_target sys roots (bi_target it))) (\<lambda>_. retW ())) is w = (Inr (), w') \<Longrightarrow>
    w' = w \<and> (\<forall>i\<in>set is. \<exists>p. checked_target sys roots (bi_target i) = Inr p)"
  by (induction "is" arbitrary: w) (auto simp: bindW_Inr)

lemma strict_entry_Inr:
  assumes "strict_entry sys bs hid d w = (Inr m, w')"
  shows "listed sys bs (fs w) hid d m"
proof -
  let ?p = "resolved_target sys (path_join d (lit ''manifest.json''))"
  obtain w1 w2 where o: "os_step w = (Inr (), w1)" and f: "owned_file sys (fs w1 ?p)"
    and r: "read_manifest sys d hid w1 = (Inr m, w2)"
    and c: "eachW (\<lambda>it. bindW (liftR (checked_target sys (bs_allowed bs) (bi_target it))) (\<lambda>_. retW ())) (items m) w2 = (Inr (), w')"
    using assms by (auto simp: strict_entry_def entry_at_def stat_dir_def checkW_def bindW_Inr)
  have w1: "fs w1 = fs w" by (rule os_step_fs [OF o])
  obtain b k u g where b: "fs w ?p = Some (RegFile b k u g)" and m: "decode_manifest (runtime.truncate sys) b = Inr m"
    using read_manifest_Inr(5) [OF r] w1 by auto
  from checked_targets [OF c] show ?thesis
    using read_manifest_Inr(2-4) [OF r] decode_manifest_Inr [OF m] b f
    by (auto simp: listed_def owned_file_def w1 checked_target_Inr)
qed

lemma newest_first_sorted: "sorted_wrt (\<lambda>x y. bm_created_at y \<le> bm_created_at x) (newest_first ms)"
proof -
  have "sorted (map (\<lambda>m. - bm_created_at m) (newest_first ms))" unfolding newest_first_def by (rule sorted_sort_key)
  then show ?thesis by (simp add: sorted_wrt_map)
qed

text \<open>
  Property C31. A strict listing hides nothing and invents nothing: it answers with exactly one manifest for every
  entry of the host's directory, newest first and with distinct ids; each is the complete manifest of that host
  whose canonical, hash-bound bytes lie in its directory in a private file of the user, with targets below the
  allowed roots only; and no file is changed.
\<close>

theorem strict_listing_exact:
  assumes "list_manifests_strict sys bs names hid w = (Inr ms, w')"
    and "host_directory sys bs hid = Inr d" and "fs w (resolved_target sys d) \<noteq> None"
  shows "(\<exists>ms'. list_all2 (\<lambda>x m. listed sys bs (fs w) hid (path_join d x) m) names ms' \<and> mset ms' = mset ms)
    \<and> distinct (map backup_id ms) \<and> sorted_wrt (\<lambda>x y. bm_created_at y \<le> bm_created_at x) ms \<and> fs w' = fs w"
proof -
  obtain w1 w2 w3 ms' where f: "fs w2 = fs w"
    and m: "mapW (\<lambda>x. strict_entry sys bs hid (path_join d x)) names w2 = (Inr ms', w')"
    and r: "distinct (map backup_id ms')" "ms = newest_first ms'"
    using assms by (auto simp: list_manifests_strict_def entry_at_def stat_dir_def checkW_def bindW_Inr dest!: os_step_fs)
  from mapW_keeping [OF _ m] have k: "fs w' = fs w"
      "list_all2 (\<lambda>x y. \<exists>w1 w2'. fs w1 = fs w2 \<and> strict_entry sys bs hid (path_join d x) w1 = (Inr y, w2')) names ms'"
    using f by (auto intro: keeping)
  have "list_all2 (\<lambda>x m. listed sys bs (fs w) hid (path_join d x) m) names ms'"
    using k(2) by (rule list_all2_mono) (metis strict_entry_Inr f)
  moreover have "mset ms' = mset ms" "distinct (map backup_id ms)"
    using r by (simp_all add: newest_first_def distinct_map)
  ultimately show ?thesis using k(1) newest_first_sorted [of ms'] r(2) by blast
qed

section \<open>What the store has registered\<close>

text \<open>The dictionary of registered manifests: one entry for a key, and the key is the manifest's own.\<close>

definition registry_ok :: "((str \<times> str) \<times> backup_manifest) list \<Rightarrow> bool" where
  "registry_ok r \<longleftrightarrow> distinct (map fst r) \<and> (\<forall>(k, m)\<in>set r. k = (bm_host_id m, backup_id m))"

lemma update_in: "e \<in> set (AList.update k v r) \<Longrightarrow> e = (k, v) \<or> e \<in> set r"
  by (induction r) (auto split: if_splits)

lemma registry_update: "registry_ok r \<Longrightarrow> k = (bm_host_id m, backup_id m) \<Longrightarrow> registry_ok (AList.update k m r)"
  unfolding registry_ok_def by (auto simp: distinct_update dest!: update_in)

lemma registry_filter: "registry_ok r \<Longrightarrow> registry_ok (filter P r)"
  unfolding registry_ok_def by (auto simp: distinct_map_filter)

lemma registry_fold:
  "registry_ok r \<Longrightarrow> \<forall>m\<in>set ms. bm_host_id m = hid \<Longrightarrow> registry_ok (fold (\<lambda>m r. AList.update (hid, backup_id m) m r) ms r)"
  by (induction ms arbitrary: r) (auto intro: registry_update)

lemma registry_lookup:
  assumes "registry_ok r" and "m \<in> set (filter (\<lambda>m. bm_host_id m = hid) (map snd r))"
  shows "map_of r (hid, backup_id m) = Some m"
proof -
  from assms obtain k where "(k, m) \<in> set r" "bm_host_id m = hid" by auto
  then show ?thesis using assms(1) unfolding registry_ok_def by (intro map_of_is_SomeI) auto
qed

lemma registry_ids:
  assumes "registry_ok r"
  shows "distinct (map backup_id (newest_first (filter (\<lambda>m. bm_host_id m = hid) (map snd r))))"
proof -
  have "inj_on backup_id (set (filter (\<lambda>m. bm_host_id m = hid) (map snd r)))"
  proof (rule inj_onI)
    fix m n assume "m \<in> set (filter (\<lambda>m. bm_host_id m = hid) (map snd r))"
      "n \<in> set (filter (\<lambda>m. bm_host_id m = hid) (map snd r))" "backup_id m = backup_id n"
    then show "m = n" using registry_lookup [OF assms] by (metis option.inject)
  qed
  moreover have "inj_on snd (set r)"
  proof (rule inj_onI)
    fix x y assume *: "x \<in> set r" "y \<in> set r" "snd x = snd y"
    have "fst x = (bm_host_id (snd x), backup_id (snd x))" "fst y = (bm_host_id (snd y), backup_id (snd y))"
      using assms *(1,2) by (auto simp: registry_ok_def case_prod_beta)
    then show "x = y" using *(3) by (simp add: prod_eq_iff)
  qed
  then have "distinct (map snd r)" using assms by (simp add: registry_ok_def distinct_map)
  ultimately show ?thesis by (simp add: newest_first_def distinct_map)
qed

text \<open>\<open>registers m\<close>: whatever happens, \<open>m\<close> leaves a well-formed dictionary of manifests.\<close>

definition registers :: "('e, 'a) run \<Rightarrow> bool" where
  "registers m \<longleftrightarrow> (\<forall>w. registry_ok (registry w) \<longrightarrow> registry_ok (registry (snd (m w))))"

named_theorems registering

lemma registers_pure [registering]: "registers (retW x)" "registers (liftR r)" "registers (raiseW e)" "registers (guardW b e)"
    "registers (checkW b c)" "registers (getW f)" "registers os_step" "registers check_cancel" "registers utc_now"
    "registers (put_node p n)" "registers (node_at p)" "registers (entry_at sys p)" "registers (stat_dir sys p)"
  by (simp_all add: registers_def guardW_def checkW_def os_step_def check_cancel_def utc_now_def put_node_def entry_at_def
    stat_dir_def split: list.split option.split nat.split)

lemma registers_bind [registering]: "registers m \<Longrightarrow> (\<And>x. registers (f x)) \<Longrightarrow> registers (bindW m f)"
  unfolding registers_def bindW_def by (auto split: prod.splits sum.splits)

lemma registers_try [registering]: "registers m \<Longrightarrow> (\<And>e. registers (h e)) \<Longrightarrow> registers (tryW m h)"
  unfolding registers_def tryW_def by (auto split: prod.splits sum.splits)

lemma registers_if [registering]: "registers a \<Longrightarrow> registers b \<Longrightarrow> registers (if c then a else b)" by simp

lemma registers_option [registering]: "registers a \<Longrightarrow> (\<And>y. registers (f y)) \<Longrightarrow> registers (case x of None \<Rightarrow> a | Some y \<Rightarrow> f y)"
  by (simp split: option.split)

lemma registers_mapW [registering]: "(\<And>x. registers (f x)) \<Longrightarrow> registers (mapW f xs)"
  by (induction xs) (auto intro!: registering)

lemma registers_eachW [registering]: "(\<And>x. registers (f x)) \<Longrightarrow> registers (eachW f xs)"
  by (induction xs) (auto intro!: registering)

lemma registers_files [registering]: "registers (read_bytes p)" "registers (unlink_entry sys p)" "registers (remove_dir sys p)"
    "registers (atomic_write sys p c k)" "registers (forget m)"
  by (auto simp: read_bytes_def unlink_entry_def remove_dir_def atomic_write_def forget_def split: option.split node.split
      intro!: registering) (simp_all add: registers_def registry_filter)

lemma registers_read [registering]: "registers (read_manifest sys d hid)" "registers (lenient_entry sys hid d)"
  unfolding read_manifest_def lenient_entry_def by (intro registering)+

lemma lenient_entry_Inr: "lenient_entry sys hid d w = (Inr (Some m), w') \<Longrightarrow> bm_host_id m = hid"
  by (auto simp: lenient_entry_def tryW_def bindW_def dest: read_manifest_Inr(2) split: if_splits prod.splits sum.splits)

lemma lenient_hosts:
  "mapW (\<lambda>x. lenient_entry sys hid (path_join d x)) names w = (Inr ms, w') \<Longrightarrow>
    \<forall>m\<in>set (concat (map (case_option [] (\<lambda>m. [m])) ms)). bm_host_id m = hid"
  by (induction names arbitrary: w ms) (auto simp: bindW_Inr dest: lenient_entry_Inr split: option.splits)

lemma registers_load [registering]: "registers (load_host_manifests sys bs names hid)"
proof -
  have "registers (bindW (mapW (\<lambda>x. lenient_entry sys hid (path_join d x)) names) (\<lambda>ms.
       modifyW (\<lambda>w. w\<lparr>registry := fold (\<lambda>m r. AList.update (hid, backup_id m) m r) (concat (map (case_option [] (\<lambda>m. [m])) ms))
          (filter (\<lambda>e. fst (fst e) \<noteq> hid) (registry w))\<rparr>)))" (is "registers (bindW ?m ?f)") for d
    unfolding registers_def
  proof (intro allI impI)
    fix w :: world assume r: "registry_ok (registry w)"
    obtain x w1 where m: "?m w = (x, w1)" by (cases "?m w")
    have r1: "registry_ok (registry w1)"
      using registers_mapW [of "\<lambda>x. lenient_entry sys hid (path_join d x)" names, OF registers_read(2)] r m
      unfolding registers_def by (metis snd_conv)
    show "registry_ok (registry (snd (bindW ?m ?f w)))"
    proof (cases x)
      case (Inl e)
      with m r1 show ?thesis by (simp add: bindW_def)
    next
      case (Inr ms)
      then have "\<forall>m\<in>set (concat (map (case_option [] (\<lambda>m. [m])) ms)). bm_host_id m = hid"
        using m lenient_hosts [of sys hid d names w ms w1] by simp
      with m r1 Inr show ?thesis by (simp add: bindW_def registry_fold registry_filter)
    qed
  qed
  note step = this
  show ?thesis unfolding load_host_manifests_def by (rule step | rule registering)+
qed

lemma seal_manifest_ids: "seal_manifest rt m = Inr u \<Longrightarrow> bm_host_id u = bm_host_id m \<and> backup_id u = backup_id m"
  by (auto simp: seal_manifest_def bindR_eq_Inr)

lemma registers_set: "bm_host_id m = hid \<Longrightarrow> backup_id m = bid \<Longrightarrow>
    registers (bindW (liftR (seal_manifest rt (m\<lparr>protected := prot, manifest_hash := []\<rparr>))) (\<lambda>u.
         bindW (liftR (manifest_bytes rt u)) (\<lambda>b.
         bindW (atomic_write sys (q u) b 384) (\<lambda>_.
         bindW (modifyW (\<lambda>w. w\<lparr>registry := AList.update (hid, bid) u (registry w)\<rparr>)) (\<lambda>_. retW u)))))"
proof -
  assume m: "bm_host_id m = hid" "backup_id m = bid"
  show ?thesis
  proof (cases "seal_manifest rt (m\<lparr>protected := prot, manifest_hash := []\<rparr>)")
    case (Inl e)
    then show ?thesis by (simp add: registers_def bindW_def)
  next
    case (Inr u)
    then have "(hid, bid) = (bm_host_id u, backup_id u)" using seal_manifest_ids [OF Inr] m by simp
    then have "registers (modifyW (\<lambda>w. w\<lparr>registry := AList.update (hid, bid) u (registry w)\<rparr>))"
      by (auto simp: registers_def intro: registry_update)
    then have "registers (bindW (liftR (manifest_bytes rt u)) (\<lambda>b. bindW (atomic_write sys (q u) b 384) (\<lambda>_.
         bindW (modifyW (\<lambda>w. w\<lparr>registry := AList.update (hid, bid) u (registry w)\<rparr>)) (\<lambda>_. retW u))))"
      by (intro registering)
    with Inr show ?thesis by (simp add: registers_def bindW_def)
  qed
qed

lemma registers_protect [registering]: "registers (set_protected sys bs names hid bid prot)"
  unfolding set_protected_def
proof (rule registers_bind [OF registers_load], unfold registers_def, intro allI impI)
  fix w :: world assume r: "registry_ok (registry w)"
  show "registry_ok (registry (snd (bindW (getW (\<lambda>w. map_of (registry w) (hid, bid))) (\<lambda>found. case found of
       None \<Rightarrow> raiseW (AdapterError ''backup_not_found'')
     | Some m \<Rightarrow>
         bindW (liftR (seal_manifest (runtime.truncate sys) (m\<lparr>protected := prot, manifest_hash := []\<rparr>))) (\<lambda>u.
         bindW (liftR (manifest_bytes (runtime.truncate sys) u)) (\<lambda>b.
         bindW (atomic_write sys (resolved_target sys (path_join (storage_location u) (lit ''manifest.json''))) b 384) (\<lambda>_.
         bindW (modifyW (\<lambda>w. w\<lparr>registry := AList.update (hid, bid) u (registry w)\<rparr>)) (\<lambda>_. retW u))))) w)))"
  proof (cases "map_of (registry w) (hid, bid)")
    case None
    with r show ?thesis by (simp add: bindW_def)
  next
    case (Some m)
    then have "bm_host_id m = hid" "backup_id m = bid" using r by (auto simp: registry_ok_def dest!: map_of_SomeD)
    from registers_set [OF this] Some r show ?thesis by (simp add: registers_def bindW_def [of "getW _"])
  qed
qed

lemma registers_remove [registering]: "registers (remove_backup_tree sys listing d)"
  unfolding remove_backup_tree_def unlink_item_def Let_def by (intro registering)+

lemma registers_forget_all [registering]: "registers (prune_loop sys bs listing ms removed rest)"
  by (induction rest arbitrary: removed) (auto simp: Let_def intro!: registering)

lemma registers_capture [registering]: "registers (capture_target sys bs t)"
  unfolding capture_target_def
  by (intro registers_bind registers_pure registers_if) (auto intro!: registering split: option.split node.split)

lemma registers_store [registering]: "registers (store_item sys bs rq dir x)"
  unfolding store_item_def Let_def
  by (cases x) (auto intro!: registering split: option.split bool.split prod.split)

lemma registers_new [registering]: "registers (mkdir_new p)" "registers (register m)"
  unfolding mkdir_new_def by (intro registering) (auto simp: registers_def register_def intro: registry_update)

lemma registers_create [registering]: "registers (backup_create sys bs rq)"
  unfolding backup_create_def persist_captured_def by (intro registering)+

section \<open>What pruning spares\<close>

text \<open>The paths of a backup's directory tree.\<close>

definition tree_paths :: "system \<Rightarrow> (str \<Rightarrow> str list) \<Rightarrow> str \<Rightarrow> str set" where
  "tree_paths sys listing d = (let its = path_join d (lit ''items'') in
     resolved_target sys ` ({d, its, path_join d (lit ''manifest.json'')} \<union> path_join its ` set (listing its)))"

lemma remove_keeps: "\<not> S (resolved_target sys p) \<Longrightarrow> keeps S (unlink_entry sys p)" "\<not> S (resolved_target sys p) \<Longrightarrow> keeps S (remove_dir sys p)"
  "\<not> S (resolved_target sys p) \<Longrightarrow> keeps S (unlink_item sys p)"
proof -
  show *: "\<not> S (resolved_target sys p) \<Longrightarrow> keeps S (unlink_entry sys p)"
    unfolding unlink_entry_def by (intro keeping)
  show "\<not> S (resolved_target sys p) \<Longrightarrow> keeps S (remove_dir sys p)"
    unfolding remove_dir_def by (intro keeping) (auto simp: keeps_def)
  show "\<not> S (resolved_target sys p) \<Longrightarrow> keeps S (unlink_item sys p)"
    unfolding unlink_item_def by (intro keeping *)
qed

lemma remove_tree_keeps: "\<forall>p\<in>tree_paths sys listing d. \<not> S p \<Longrightarrow> keeps S (remove_backup_tree sys listing d)"
  unfolding remove_backup_tree_def tree_paths_def Let_def by (intro keeping remove_keeps) auto

lemma forget_keeps [keeping]: "keeps S (forget m)"
  by (simp add: forget_def keeps_def)

text \<open>Deleting changes nothing outside the tree of the backup, and nothing at all where the backup is protected.\<close>

lemma backup_delete_keeps:
  assumes "protected m \<or> (\<forall>p\<in>tree_paths sys listing (realpath sys (storage_location m)). \<not> S p)"
  shows "keeps S (backup_delete sys bs listing m)"
proof (cases "protected m")
  case True
  then have "fs (snd (backup_delete sys bs listing m w)) = fs w" for w
    by (simp add: backup_delete_def bindW_def check_cancel_def checkW_def guardW_def split: option.split nat.split)
  then show ?thesis by (simp add: keeps_def)
next
  case False
  then show ?thesis using assms unfolding backup_delete_def Let_def by (intro keeping remove_tree_keeps) simp_all
qed

lemma prune_loop_keeps:
  "\<forall>m\<in>set rest. \<forall>p\<in>tree_paths sys listing (realpath sys (storage_location m)). \<not> S p \<Longrightarrow>
    keeps S (prune_loop sys bs listing ms removed rest)"
  by (induction rest arbitrary: removed) (auto simp: Let_def intro!: keeping remove_tree_keeps)

lemma prune_loop_removes:
  "prune_loop sys bs listing ms removed rest w = (Inr out, w') \<Longrightarrow> set out \<subseteq> set removed \<union> backup_id ` set rest"
  by (induction rest arbitrary: removed w) (fastforce simp: Let_def bindW_Inr split: if_splits)+

lemma another:
  assumes "1 < length (filter P ms)" and "distinct (map f ms)"
  shows "\<exists>m\<in>set ms. P m \<and> f m \<noteq> b"
proof -
  obtain x y zs where f: "filter P ms = x # y # zs"
    using assms(1) by (cases "filter P ms"; cases "tl (filter P ms)") auto
  have "distinct (map f (filter P ms))" using assms(2) by (rule distinct_map_filter)
  then have "f x \<noteq> f y" by (simp add: f)
  moreover have "x \<in> set (filter P ms)" "y \<in> set (filter P ms)" by (simp_all add: f)
  ultimately show ?thesis by auto
qed

lemma prune_loop_spares:
  assumes "prune_loop sys bs listing ms removed rest w = (Inr out, w')" and "distinct (map backup_id ms)"
    and "\<exists>m\<in>set ms. backup_id m \<notin> set removed"
  shows "\<exists>m\<in>set ms. backup_id m \<notin> set out"
  using assms(1,3)
proof (induction rest arbitrary: removed w)
  case Nil
  then show ?case by simp
next
  case (Cons m rest)
  show ?case
  proof (cases "length (filter (\<lambda>v. backup_id v \<notin> set removed) ms) \<le> 1")
    case True
    with Cons.prems show ?thesis by simp
  next
    case False
    then have "\<exists>v\<in>set ms. backup_id v \<notin> set removed \<and> backup_id v \<noteq> backup_id m"
      by (intro another) (simp_all add: assms(2))
    then have k: "\<exists>v\<in>set ms. backup_id v \<notin> set (removed @ [backup_id m])" by auto
    show ?thesis
    proof (cases "within (realpath sys (storage_location m)) (bs_root bs)")
      case True
      with False Cons.prems(1) obtain w2 where "prune_loop sys bs listing ms (removed @ [backup_id m]) rest w2 = (Inr out, w')"
        by (auto simp: Let_def bindW_Inr)
      then show ?thesis using k by (rule Cons.IH)
    next
      case outside: False
      with False Cons.prems show ?thesis by (intro Cons.IH) (simp_all add: Let_def)
    qed
  qed
qed

lemma load_keeps: "keeps S (load_host_manifests sys bs names hid)"
proof -
  have "keeps S (modifyW (\<lambda>w. w\<lparr>registry := g w\<rparr>))" for g by (simp add: keeps_def)
  moreover have "keeps S (lenient_entry sys hid d)" for d unfolding lenient_entry_def by (intro keeping)
  ultimately show ?thesis unfolding load_host_manifests_def by (intro keeping)
qed

lemma list_manifests_Inr:
  assumes "list_manifests sys bs names hid w = (r, w')" and "registry_ok (registry w)"
  shows "fs w' = fs w" and "r = Inr ms \<Longrightarrow> distinct (map backup_id ms)"
proof -
  have "keeps (\<lambda>_. True) (list_manifests sys bs names hid)"
    unfolding list_manifests_def by (intro keeping load_keeps)
  from keepsD [OF this assms(1)] show "fs w' = fs w" by auto
  assume "r = Inr ms"
  then obtain w1 where "load_host_manifests sys bs names hid w = (Inr (), w1)"
    and ms: "ms = newest_first (filter (\<lambda>m. bm_host_id m = hid) (map snd (registry w1)))"
    using assms(1) by (auto simp: list_manifests_def bindW_Inr)
  then have "registry_ok (registry w1)" using registers_load assms(2) unfolding registers_def by (metis snd_conv)
  then show "distinct (map backup_id ms)" unfolding ms by (rule registry_ids)
qed

lemma removable_in: "m \<in> set (removable keep now ms) \<Longrightarrow>
   \<exists>n<length ms. ms ! n = m \<and> \<not> protected m \<and> (keep \<le> n \<or> (\<exists>t. retention_expires_at m = Some t \<and> t \<le> now))"
  by (auto simp: removable_def in_set_enumerate_eq split: option.splits)


section \<open>What is written is what is read\<close>

lemma seal_manifest_Inr:
  assumes "seal_manifest rt d = Inr m"
  shows "manifest_digest rt m = Inr (manifest_hash m)" and "\<exists>h. m = d\<lparr>manifest_hash := h\<rparr>"
  using assms by (auto simp: seal_manifest_def bindR_eq_Inr manifest_digest_def)

lemma created_manifest:
  assumes "backup_create sys bs rq w = (Inr m, w')"
  shows "complete m" "manifest_digest (runtime.truncate sys) m = Inr (manifest_hash m)"
    and "\<exists>b. manifest_bytes (runtime.truncate sys) m = Inr b
      \<and> fs w' (path_join (storage_location m) (lit ''manifest.json'')) = Some (RegFile b 384 (euid sys) (egid sys))"
proof -
  obtain captured w1 where "persist_captured sys bs rq captured False w1 = (Inr m, w')"
    using assms by (auto simp: backup_create_def bindW_Inr)
  then obtain dir d w2 w3 b where s: "seal_manifest (runtime.truncate sys) d = Inr m" and d: "complete d" "storage_location d = dir"
    and b: "manifest_bytes (runtime.truncate sys) m = Inr b"
    and a: "atomic_write sys (path_join dir (lit ''manifest.json'')) b 384 w2 = (Inr (), w3)" and r: "register m w3 = (Inr (), w')"
    by (auto simp: persist_captured_def bindW_Inr)
  from seal_manifest_Inr(2) [OF s] d have m: "complete m" "storage_location m = dir" by auto
  show "complete m" "manifest_digest (runtime.truncate sys) m = Inr (manifest_hash m)"
    using m(1) seal_manifest_Inr(1) [OF s] by blast+
  have "fs w3 (path_join dir (lit ''manifest.json'')) = Some (RegFile b 384 (euid sys) (egid sys))"
    using atomic_write_Inr [OF a] by simp
  then have "fs w' (path_join dir (lit ''manifest.json'')) = Some (RegFile b 384 (euid sys) (egid sys))"
    using r by (auto simp: register_def)
  then show "\<exists>b. manifest_bytes (runtime.truncate sys) m = Inr b
      \<and> fs w' (path_join (storage_location m) (lit ''manifest.json'')) = Some (RegFile b 384 (euid sys) (egid sys))"
    using b m(2) by blast
qed

text \<open>
  What \<open>create\<close> leaves on disk is what the reader reads: the manifest file of a created backup
  holds, in a private file, bytes that decode to exactly the manifest \<open>create\<close> returned, provided its identifiers
  are not empty, its texts are Unicode, its timestamps parse back and it fits the size limit.
\<close>

theorem created_manifest_reads:
  assumes "backup_create sys bs rq w = (Inr m, w')" and "manifest_ok (runtime.truncate sys) m"
  shows "\<exists>b. fs w' (path_join (storage_location m) (lit ''manifest.json'')) = Some (RegFile b 384 (euid sys) (egid sys))
    \<and> (int (length b) \<le> max_manifest_bytes \<longrightarrow> decode_manifest (runtime.truncate sys) b = Inr m)"
  using created_manifest [OF assms(1)] decode_manifest_bytes [OF assms(2)] by blast

section \<open>Examples\<close>

definition kept_system :: system where
  "kept_system = toy_system\<lparr>sha256 := (\<lambda>b. b),
     fromisoformat := (\<lambda>s. Some (Aware (if startswith s [45] then - dec_val (tl s) else dec_val s)))\<rparr>"

definition kept_created :: "backup_manifest res \<times> world" where
  "kept_created = backup_create kept_system mini_store mini_request (toy_world mini_files)"

lemma resultE:
  assumes "case x of Inl _ \<Rightarrow> False | Inr y \<Rightarrow> P y"
  obtains y where "x = Inr y" and "P y"
  using assms by (cases x) auto

text \<open>Two backups of the host, the second made after the first, and the directories they lie in.\<close>

definition kept_two :: "(backup_manifest \<times> backup_manifest \<times> world) res" where
  "kept_two = (case kept_created of
      (Inr m, w) \<Rightarrow> (case backup_create kept_system mini_store (mini_request\<lparr>rq_backup_id := lit ''l''\<rparr>) w of
         (Inr n, w) \<Rightarrow> Inr (m, n, w) | (Inl e, _) \<Rightarrow> Inl e)
    | (Inl e, _) \<Rightarrow> Inl e)"

definition kept_ok :: "backup_manifest \<Rightarrow> str \<Rightarrow> str \<Rightarrow> time \<Rightarrow> files \<Rightarrow> bool" where
  "kept_ok m i d t f \<longleftrightarrow> manifest_ok (runtime.truncate kept_system) m \<and> backup_id m = i \<and> bm_host_id m = lit ''h'' \<and> storage_location m = d
     \<and> complete m \<and> manifest_digest (runtime.truncate kept_system) m = Inr (manifest_hash m) \<and> bm_created_at m = t
     \<and> \<not> protected m \<and> (case retention_expires_at m of None \<Rightarrow> True | Some t \<Rightarrow> 1000 < t)
     \<and> list_all (\<lambda>j. case checked_target kept_system (bs_allowed mini_store) (bi_target j) of Inr _ \<Rightarrow> True | Inl _ \<Rightarrow> False) (items m)
     \<and> (case manifest_bytes (runtime.truncate kept_system) m of Inl _ \<Rightarrow> False
        | Inr b \<Rightarrow> int (length b) \<le> max_manifest_bytes \<and> f (d @ lit ''/manifest.json'') = Some (RegFile b 384 1000 1000))"

lemma kept_two_ok: "case kept_two of Inl _ \<Rightarrow> False | Inr (m, n, w) \<Rightarrow>
     kept_ok m (lit ''k'') (lit ''/b/h/k'') 10 (fs w) \<and> kept_ok n (lit ''l'') (lit ''/b/h/l'') 20 (fs w)
     \<and> is_file_node (fs w (lit ''/b/h/k/items/0000-old.bin'')) \<and> faults w = [] \<and> registry w = [((lit ''h'', lit ''k''), m), ((lit ''h'', lit ''l''), n)]"
  by code_simp
lemma kept_twoE:
  obtains m n w1 w where "kept_created = (Inr m, w1)" "kept_two = Inr (m, n, w)" "kept_ok m (lit ''k'') (lit ''/b/h/k'') 10 (fs w)"
    "kept_ok n (lit ''l'') (lit ''/b/h/l'') 20 (fs w)" "is_file_node (fs w (lit ''/b/h/k/items/0000-old.bin''))" "faults w = []"
    "registry w = [((lit ''h'', lit ''k''), m), ((lit ''h'', lit ''l''), n)]"
proof (rule resultE [OF kept_two_ok])
  fix y assume t: "kept_two = Inr y" and k: "case y of (m, n, w) \<Rightarrow>
     kept_ok m (lit ''k'') (lit ''/b/h/k'') 10 (fs w) \<and> kept_ok n (lit ''l'') (lit ''/b/h/l'') 20 (fs w)
     \<and> is_file_node (fs w (lit ''/b/h/k/items/0000-old.bin'')) \<and> faults w = [] \<and> registry w = [((lit ''h'', lit ''k''), m), ((lit ''h'', lit ''l''), n)]"
  obtain m n w where y: "y = (m, n, w)" by (cases y)
  obtain w1 where "kept_created = (Inr m, w1)" using t unfolding y by (auto simp: kept_two_def split: prod.splits sum.splits)
  with t k that show thesis unfolding y by blast
qed

definition kept_dirs :: "str list" where
  "kept_dirs = [lit ''/b/h'', lit ''/b/h/k'', lit ''/b/h/k/items'', lit ''/b/h/l'', lit ''/b/h/l/items'']"

definition kept_world :: "world \<Rightarrow> world" where
  "kept_world w = w\<lparr>fs := (\<lambda>p. if p \<in> set kept_dirs then Some NotRegular else fs w p),
     dirs := (\<lambda>p. if p \<in> set kept_dirs then Some \<lparr>dr_mode = 448, dr_uid = 1000, dr_gid = 1000\<rparr> else None)\<rparr>"

lemma kept_paths:
  "host_directory kept_system mini_store (lit ''h'') = Inr (lit ''/b/h'')"
  "path_join (lit ''/b/h'') (lit ''k'') = lit ''/b/h/k''" "path_join (lit ''/b/h'') (lit ''l'') = lit ''/b/h/l''"
  "path_join (lit ''/b/h/k'') (lit ''manifest.json'') = lit ''/b/h/k/manifest.json''"
  "path_join (lit ''/b/h/l'') (lit ''manifest.json'') = lit ''/b/h/l/manifest.json''"
  "path_join (lit ''/b/h/k'') (lit ''items'') = lit ''/b/h/k/items''"
  "path_join (lit ''/b/h/k/items'') (lit ''0000-old.bin'') = lit ''/b/h/k/items/0000-old.bin''"
  "\<forall>p\<in>set (kept_dirs @ [lit ''/b/h/k/manifest.json'', lit ''/b/h/l/manifest.json'', lit ''/b/h/k/items/0000-old.bin'']).
     resolved_target kept_system p = p"
  "path_name (lit ''/b/h/k'') = lit ''k''" "path_name (lit ''/b/h/l'') = lit ''l''"
  "within (lit ''/b/h/k'') (bs_root mini_store)"
  by code_simp+

lemma kept_resolved [simp]:
  "resolved_target kept_system (lit ''/b/h'') = lit ''/b/h''" "resolved_target kept_system (lit ''/b/h/k'') = lit ''/b/h/k''"
  "resolved_target kept_system (lit ''/b/h/l'') = lit ''/b/h/l''" "resolved_target kept_system (lit ''/b/h/k/items'') = lit ''/b/h/k/items''"
  "resolved_target kept_system (lit ''/b/h/k/manifest.json'') = lit ''/b/h/k/manifest.json''"
  "resolved_target kept_system (lit ''/b/h/l/manifest.json'') = lit ''/b/h/l/manifest.json''"
  "resolved_target kept_system (lit ''/b/h/k/items/0000-old.bin'') = lit ''/b/h/k/items/0000-old.bin''"
  using kept_paths(8) by (simp_all add: kept_dirs_def del: lit_simps)

lemma kept_reads:
  assumes "kept_ok m i d t f" and "fs w p = f (d @ lit ''/manifest.json'')" and "faults w = []"
    and "path_join d (lit ''manifest.json'') = p" and "resolved_target kept_system p = p" and "path_name d = i"
  shows "read_manifest kept_system d (lit ''h'') w = (Inr m, w)" and "owned_file kept_system (fs w p)"
proof -
  obtain b where b: "manifest_bytes (runtime.truncate kept_system) m = Inr b" "int (length b) \<le> max_manifest_bytes"
    "fs w p = Some (RegFile b 384 1000 1000)"
    using assms(1,2) by (auto simp: kept_ok_def split: sum.splits)
  have "decode_manifest (runtime.truncate kept_system) b = Inr m"
    using assms(1) b(1,2) by (intro decode_manifest_bytes) (simp_all add: kept_ok_def)
  then show "read_manifest kept_system d (lit ''h'') w = (Inr m, w)"
    using assms(1,3,4,5,6) b(2,3)
    by (simp add: read_manifest_def bindW_def entry_at_def is_file_node_def os_step_def read_bytes_def tryW_def guardW_def kept_ok_def
      not_less del: lit_simps)
  show "owned_file kept_system (fs w p)"
    using b(3) by (simp add: owned_file_def permissions_def kept_system_def toy_system_def)
qed

lemma kept_world_sel:
  "fs (kept_world w) p = (if p \<in> set kept_dirs then Some NotRegular else fs w p)"
  "dirs (kept_world w) p = (if p \<in> set kept_dirs then Some \<lparr>dr_mode = 448, dr_uid = 1000, dr_gid = 1000\<rparr> else None)"
  "faults (kept_world w) = faults w" "registry (kept_world w) = registry w"
  by (simp_all add: kept_world_def)

lemma kept_dirs_in:
  "lit ''/b/h'' \<in> set kept_dirs" "lit ''/b/h/k'' \<in> set kept_dirs" "lit ''/b/h/l'' \<in> set kept_dirs" "lit ''/b/h/k/items'' \<in> set kept_dirs"
  "lit ''/b/h/k/manifest.json'' \<notin> set kept_dirs" "lit ''/b/h/l/manifest.json'' \<notin> set kept_dirs"
  "lit ''/b/h/k/items/0000-old.bin'' \<notin> set kept_dirs"
  by (simp_all add: kept_dirs_def)

lemma kept_files: "lit ''/b/h/k'' @ lit ''/manifest.json'' = lit ''/b/h/k/manifest.json''"
    "lit ''/b/h/l'' @ lit ''/manifest.json'' = lit ''/b/h/l/manifest.json''"
  by simp_all

lemma checks_pass:
  "list_all (\<lambda>j. case checked_target sys roots (bi_target j) of Inr _ \<Rightarrow> True | Inl _ \<Rightarrow> False) is \<Longrightarrow>
    eachW (\<lambda>it. bindW (liftR (checked_target sys roots (bi_target it))) (\<lambda>_. retW ())) is v = (Inr (), v)"
  by (induction "is") (auto simp: bindW_def split: sum.splits)

lemma kept_entry:
  assumes "kept_ok m (lit ''k'') (lit ''/b/h/k'') 10 (fs w)" and "faults w = []"
  shows "strict_entry kept_system mini_store (lit ''h'') (lit ''/b/h/k'') (kept_world w) = (Inr m, kept_world w)"
proof -
  have f: "fs (kept_world w) (lit ''/b/h/k/manifest.json'') = fs w (lit ''/b/h/k'' @ lit ''/manifest.json'')"
    by (simp only: kept_files kept_world_sel kept_dirs_in if_False)
  have p: "faults (kept_world w) = []" "path_join (lit ''/b/h/k'') (lit ''manifest.json'') = lit ''/b/h/k/manifest.json''"
    "resolved_target kept_system (lit ''/b/h/k/manifest.json'') = lit ''/b/h/k/manifest.json''" "path_name (lit ''/b/h/k'') = lit ''k''"
    using assms(2) by (simp_all only: kept_world_sel kept_paths kept_resolved)
  note r = kept_reads [OF assms(1) f p]
  have "list_all (\<lambda>j. case checked_target kept_system (bs_allowed mini_store) (bi_target j) of Inr _ \<Rightarrow> True | Inl _ \<Rightarrow> False) (items m)"
    using assms(1) unfolding kept_ok_def by blast
  then have e: "eachW (\<lambda>it. bindW (liftR (checked_target kept_system (bs_allowed mini_store) (bi_target it))) (\<lambda>_. retW ())) (items m) v
      = (Inr (), v)" for v by (rule checks_pass)
  have u: "owned_dir kept_system \<lparr>dr_mode = 448, dr_uid = 1000, dr_gid = 1000\<rparr>"
    by (simp add: owned_dir_def permissions_def kept_system_def toy_system_def)
  show ?thesis using r(2)
    by (simp add: strict_entry_def bindW_def stat_dir_def entry_at_def checkW_def guardW_def os_step_def kept_world_sel(1,2) kept_dirs_in
      p r(1) e u del: lit_simps)
qed

theorem strict_listing_exact_witness:
  "\<exists>m w. list_manifests_strict kept_system mini_store [lit ''k''] (lit ''h'') (kept_world w) = (Inr [m], kept_world w)
    \<and> listed kept_system mini_store (fs (kept_world w)) (lit ''h'') (path_join (lit ''/b/h'') (lit ''k'')) m"
proof (rule kept_twoE)
  fix m n :: backup_manifest and w' w :: world
  assume k: "kept_ok m (lit ''k'') (lit ''/b/h/k'') 10 (fs w)" and f: "faults w = []"
  have "euid kept_system = 1000" by (simp add: kept_system_def toy_system_def)
  then have l: "list_manifests_strict kept_system mini_store [lit ''k''] (lit ''h'') (kept_world w) = (Inr [m], kept_world w)"
    using kept_entry [OF k f] f
    by (simp add: list_manifests_strict_def kept_paths bindW_def entry_at_def stat_dir_def kept_world_sel kept_dirs_in checkW_def guardW_def
      os_step_def owned_dir_def permissions_def newest_first_def del: lit_simps)
  have "fs (kept_world w) (resolved_target kept_system (lit ''/b/h'')) \<noteq> None" by (simp add: kept_world_sel kept_dirs_in del: lit_simps)
  from strict_listing_exact [OF l kept_paths(1) this]
  have "listed kept_system mini_store (fs (kept_world w)) (lit ''h'') (path_join (lit ''/b/h'') (lit ''k'')) m"
    by (auto simp: list_all2_Cons1 simp del: lit_simps)
  with l show ?thesis by blast
qed

definition kept_listing :: "str \<Rightarrow> str list" where
  "kept_listing d = (if d = lit ''/b/h/k'' then [lit ''items'', lit ''manifest.json'']
     else if d = lit ''/b/h/k/items'' then [lit ''0000-old.bin''] else [])"

lemma kept_lenient:
  assumes "kept_ok m i d t (fs w)" and "faults v = []" and "d \<in> set kept_dirs" "fs v = fs (kept_world w)" "dirs v = dirs (kept_world w)"
    and "path_join d (lit ''manifest.json'') = p" "p = d @ lit ''/manifest.json''" "p \<notin> set kept_dirs"
    and "resolved_target kept_system p = p" "resolved_target kept_system d = d" "path_name d = i"
  shows "lenient_entry kept_system (lit ''h'') d v = (Inr (Some m), v)"
proof -
  have "fs v p = fs w (d @ lit ''/manifest.json'')" using assms(4,7,8) by (simp add: kept_world_sel del: lit_simps)
  from kept_reads(1) [OF assms(1) this assms(2,6,9,11)] show ?thesis using assms(3,4,5,10)
    by (simp add: lenient_entry_def bindW_def tryW_def stat_dir_def kept_world_sel del: lit_simps)
qed

lemma kept_lists:
  assumes "kept_ok m (lit ''k'') (lit ''/b/h/k'') 10 (fs w)" and "kept_ok n (lit ''l'') (lit ''/b/h/l'') 20 (fs w)" and "faults w = []"
    and "registry w = [((lit ''h'', lit ''k''), m), ((lit ''h'', lit ''l''), n)]"
  shows "list_manifests kept_system mini_store [lit ''k'', lit ''l''] (lit ''h'') (kept_world w) = (Inr [n, m], kept_world w)"
proof -
  have i: "backup_id m = lit ''k''" "backup_id n = lit ''l''" "bm_host_id m = lit ''h''" "bm_host_id n = lit ''h''"
      "bm_created_at m = 10" "bm_created_at n = 20"
    using assms(1,2) by (simp_all add: kept_ok_def del: lit_simps)
  have "lenient_entry kept_system (lit ''h'') (lit ''/b/h/k'') (kept_world w) = (Inr (Some m), kept_world w)"
    by (rule kept_lenient [OF assms(1), where p = "lit ''/b/h/k/manifest.json''"]; simp only: kept_paths kept_resolved kept_dirs_in kept_world_sel kept_files assms not_False_eq_True)
  moreover have "lenient_entry kept_system (lit ''h'') (lit ''/b/h/l'') (kept_world w) = (Inr (Some n), kept_world w)"
    by (rule kept_lenient [OF assms(2), where p = "lit ''/b/h/l/manifest.json''"]; simp only: kept_paths kept_resolved kept_dirs_in kept_world_sel kept_files assms not_False_eq_True)
  moreover have "(kept_world w)\<lparr>registry := registry w\<rparr> = kept_world w" by (simp add: kept_world_def)
  moreover have "lit ''k'' \<noteq> lit ''l''" by simp
  ultimately show ?thesis
    by (simp add: list_manifests_def load_host_manifests_def kept_paths bindW_def entry_at_def stat_dir_def kept_world_sel kept_dirs_in
      checkW_def guardW_def os_step_def assms(3,4) i newest_first_def del: lit_simps)
qed

lemma remove_tree_run:
  assumes "faults w = []" and "path_join d (lit ''items'') = its" "path_join d (lit ''manifest.json'') = man" "path_join its x = p"
    and "listing d = [lit ''items'', lit ''manifest.json'']" "listing its = [x]"
    and "resolved_target sys d = d" "resolved_target sys its = its" "resolved_target sys man = man" "resolved_target sys p = p"
    and "distinct [d, its, man, p]" and "fs w d = Some NotRegular" "fs w its = Some NotRegular" "dirs w d \<noteq> None" "dirs w its \<noteq> None"
    and "is_file_node (fs w man)" "is_file_node (fs w p)"
  shows "remove_backup_tree sys listing d w =
    (Inr (), w\<lparr>fs := (fs w)(p := None, its := None, man := None, d := None), dirs := (dirs w)(its := None, d := None)\<rparr>)"
proof -
  have "\<not> is_file_node None" by (simp add: is_file_node_def)
  then have "fs w man \<noteq> None" using assms(16) by metis
  then show ?thesis using assms
    by (auto simp: remove_backup_tree_def Let_def bindW_def entry_at_def stat_dir_def checkW_def guardW_def os_step_def unlink_item_def
      unlink_entry_def put_node_def remove_dir_def simp del: lit_simps)
qed


end
