(* ===== verification/ManifestSound.thy ===== *)
theory ManifestSound
  imports Manifests
begin

text \<open>
  What a manifest on disk can hold: whatever \<open>json.loads\<close> returns has code points for characters and integers that
  print, so that the reader of \<open>Manifests\<close> accepts exactly the bytes the writer makes of a manifest, and the hash
  of a manifest stands for all of it.
\<close>

section \<open>What json.loads returns\<close>

fun sound_json :: "json \<Rightarrow> bool" where
  "sound_json (JStr s) \<longleftrightarrow> code_points s"
| "sound_json (JInt i) \<longleftrightarrow> \<not> too_many_digits (dec_nat (nat \<bar>i\<bar>))"
| "sound_json (JArr vs) \<longleftrightarrow> (\<forall>v\<in>set vs. sound_json v)"
| "sound_json (JObj kvs) \<longleftrightarrow> (\<forall>(k, v)\<in>set kvs. code_points k \<and> sound_json v)"
| "sound_json v \<longleftrightarrow> True"

lemma code_points_append [simp]: "code_points (a @ b) \<longleftrightarrow> code_points a \<and> code_points b"
  by (auto simp: code_points_def)

lemma drop_sound [simp]: "code_points s \<Longrightarrow> code_points (drop n s)"
  by (auto simp: code_points_def dest: in_set_dropD)

lemma take_hex4_sound: "take_hex4 s = Some (u, r) \<Longrightarrow> code_points s \<Longrightarrow> 0 \<le> u \<and> code_points r"
  by (auto simp: take_hex4_def hex4_def hexval_def split: if_splits option.splits)

lemma unescape_u_sound: "unescape_u s = Some (u, r) \<Longrightarrow> code_points s \<Longrightarrow> 0 \<le> u \<and> code_points r"
  by (auto simp: unescape_u_def is_high_def is_low_def split: option.splits if_splits dest!: take_hex4_sound)

lemma unescape_step_sound:
  "unescape_step c cs = Some (v, r) \<Longrightarrow> code_points (c # cs) \<Longrightarrow> 0 \<le> v \<and> code_points r"
  by (auto simp: unescape_step_def simple_escape_def split: if_splits list.splits dest!: unescape_u_sound)

lemma json_unescape_sound: "json_unescape s = Some t \<Longrightarrow> code_points s \<Longrightarrow> code_points t"
proof (induction s arbitrary: t rule: json_unescape.induct)
  case (2 c cs)
  from "2.prems"(1) obtain v r u where s: "unescape_step c cs = Some (v, r)" "json_unescape r = Some u" "t = v # u"
    by (auto simp: json_unescape.simps(2) split: option.splits)
  show ?case using "2.IH" [OF s(1) refl s(2)] unescape_step_sound [OF s(1) "2.prems"(2)] s(3) by simp
qed simp

lemma jstring_end_sound: "jstring_end esc s = Some (b, r) \<Longrightarrow> code_points s \<Longrightarrow> code_points b \<and> code_points r"
  by (induction esc s arbitrary: b rule: jstring_end.induct) (auto split: if_splits)

lemma jstring_sound: "jstring s = Inr (v, r) \<Longrightarrow> code_points s \<Longrightarrow> code_points v \<and> code_points r"
  by (auto simp: jstring_def split: option.splits dest!: jstring_end_sound dest: json_unescape_sound)

lemma jws_sound [simp]: "code_points s \<Longrightarrow> code_points (jws s)"
  by (auto simp: jws_def code_points_def dest: set_dropWhileD)

lemma tl_sound [simp]: "code_points s \<Longrightarrow> code_points (tl s)"
  by (cases s) simp_all

lemma dropWhile_sound: "code_points s \<Longrightarrow> code_points (dropWhile P s)"
  by (auto simp: code_points_def dest: set_dropWhileD)

lemma scan_sound:
  "scan_int s = Some (ds, r) \<Longrightarrow> code_points s \<Longrightarrow> code_points r \<and> list_all isdigit ds \<and> ds \<noteq> []"
  "code_points s \<Longrightarrow> code_points (snd (scan_frac s))"
  "code_points s \<Longrightarrow> code_points (snd (scan_exp s))"
proof -
  show "scan_int s = Some (ds, r) \<Longrightarrow> code_points s \<Longrightarrow> code_points r \<and> list_all isdigit ds \<and> ds \<noteq> []"
    by (cases s) (auto simp: scan_int_def scan_digits_def isdigit_def list_all_iff dropWhile_sound dest!: set_takeWhileD split: if_splits)
  show "code_points s \<Longrightarrow> code_points (snd (scan_frac s))"
    by (cases s) (auto simp: scan_frac_def scan_digits_def dropWhile_sound)
  show "code_points s \<Longrightarrow> code_points (snd (scan_exp s))"
    by (cases s) (auto simp: scan_exp_def scan_digits_def Let_def dropWhile_sound split: if_splits list.splits)
qed

text \<open>A number read from few digits prints with few digits.\<close>

lemma dec_val_bound:
  assumes "list_all isdigit ds"
  shows "0 \<le> dec_val ds \<and> dec_val ds < 10 ^ length ds"
  using assms
proof (induction ds rule: rev_induct)
  case Nil
  then show ?case by (simp add: dec_val_def)
next
  case (snoc d ds)
  then have i: "0 \<le> dec_val ds" "dec_val ds < 10 ^ length ds" and d: "48 \<le> d" "d \<le> 57" by (simp_all add: isdigit_def)
  have "10 * dec_val ds + (d - 48) < 10 * 10 ^ length ds" using i(2) d by linarith
  then show ?case using i(1) d by (simp add: dec_val_snoc)
qed

lemma dec_nat_length: "n < 10 ^ k \<Longrightarrow> 0 < k \<Longrightarrow> length (dec_nat n) \<le> k"
proof (induction n arbitrary: k rule: dec_nat.induct)
  case (1 n)
  show ?case
  proof (cases "n < 10")
    case True
    then show ?thesis using "1.prems" by (subst dec_nat.simps) simp
  next
    case False
    obtain j where k: "k = Suc j" using "1.prems"(2) by (cases k) auto
    have j: "0 < j" using "1.prems"(1) False k by (cases j) auto
    have "n div 10 < 10 ^ j" using "1.prems"(1) k by (simp add: less_mult_imp_div_less mult.commute)
    from "1.IH" [OF False this j] show ?thesis using False k by (subst dec_nat.simps) simp
  qed
qed

lemma few_digits:
  assumes "list_all isdigit ds" and "\<not> too_many_digits ds" and "ds \<noteq> []" and "\<bar>i\<bar> = dec_val ds"
  shows "\<not> too_many_digits (dec_nat (nat \<bar>i\<bar>))"
proof -
  have "nat \<bar>i\<bar> < 10 ^ length ds" using dec_val_bound [OF assms(1)] assms(4) by (simp add: nat_less_iff)
  from dec_nat_length [OF this] show ?thesis using assms(2,3) by (simp add: too_many_digits_def)
qed

lemma jnumber_sound:
  assumes "jnumber s = Inr (v, r)" and "code_points s"
  shows "sound_json v \<and> code_points r"
proof -
  let ?sg = "if startswith s [45] then [45] else [] :: str"
  obtain ds r0 where i: "scan_int (drop (length ?sg) s) = Some (ds, r0)"
    using assms by (auto simp: jnumber_def Let_def split: option.splits)
  have d: "code_points r0" "list_all isdigit ds" "ds \<noteq> []" using scan_sound(1) [OF i] assms(2) by simp_all
  have r: "r = snd (scan_exp (snd (scan_frac r0)))"
    using assms i by (auto simp: jnumber_def Let_def split: prod.splits if_splits)
  have "0 \<le> dec_val ds" using dec_val_bound [OF d(2)] by simp
  then have "\<not> too_many_digits ds \<Longrightarrow> \<not> too_many_digits (dec_nat (nat (dec_val ds)))"
    using few_digits [OF d(2) _ d(3), of "dec_val ds"] by simp
  then have "sound_json v" using assms(1) i \<open>0 \<le> dec_val ds\<close>
    by (auto simp: jnumber_def Let_def split: prod.splits if_splits)
  then show ?thesis using scan_sound(2,3) d(1) by (simp add: r)
qed

lemma jword_sound: "jword s = Some (v, r) \<Longrightarrow> code_points s \<Longrightarrow> sound_json v \<and> code_points r"
  by (auto simp: jword_def split: if_splits)

lemma jkey_sound: "jkey s = Inr (k, r) \<Longrightarrow> code_points s \<Longrightarrow> code_points k \<and> code_points r"
  by (auto simp: jkey_def bindR_eq_Inr split: if_splits dest!: jstring_sound)

lemma jnext_sound: "jnext c s = Inr x \<Longrightarrow> code_points s \<Longrightarrow> (case x of Inl r \<Rightarrow> code_points r | Inr r \<Rightarrow> code_points r)"
  by (auto simp: jnext_def split: if_splits)

lemma dict_items_in:
  assumes "(k, v) \<in> set (dict_items kvs)"
  shows "(k, v) \<in> set kvs"
proof -
  have k: "k \<in> set (map fst kvs)" and v: "v = the (map_of (rev kvs) k)" using assms by (auto simp: dict_items_def dict_of_def)
  from k have "map_of (rev kvs) k \<noteq> None" by (simp add: map_of_eq_None_iff)
  then have "map_of (rev kvs) k = Some v" using v by simp
  from map_of_SomeD [OF this] show ?thesis by simp
qed

lemma jparse_sound:
  "jvalue n s = Inr (v, r) \<Longrightarrow> code_points s \<Longrightarrow> sound_json v \<and> code_points r"
  "jmembers n s = Inr (kvs, r) \<Longrightarrow> code_points s \<Longrightarrow> (\<forall>(k, v)\<in>set kvs. code_points k \<and> sound_json v) \<and> code_points r"
  "jelements n s = Inr (vs, r) \<Longrightarrow> code_points s \<Longrightarrow> (\<forall>v\<in>set vs. sound_json v) \<and> code_points r"
proof (induction n s and n s and n s arbitrary: v r and kvs r and vs r rule: jvalue_jmembers_jelements.induct)
  case (2 n s)
  show ?case using 2
    by (auto simp: bindR_eq_Inr split: if_splits option.splits
      dest!: jstring_sound jnumber_sound jword_sound dest!: dict_items_in)
next
  case (4 n s)
  then obtain k t v u x where k: "jkey s = Inr (k, t)" and v: "jvalue n t = Inr (v, u)" and x: "jnext 125 u = Inr x"
    and r: "(case x of Inl r \<Rightarrow> Inr ([(k, v)], r) | Inr r \<Rightarrow> bindR (jmembers n r) (\<lambda>(kvs, r). Inr ((k, v) # kvs, r))) = Inr (kvs, r)"
    by (auto simp: bindR_eq_Inr)
  have t: "code_points k" "code_points t" using jkey_sound [OF k "4.prems"(2)] by simp_all
  have u: "sound_json v" "code_points u" using "4.IH"(1) [OF v t(2)] by simp_all
  show ?case using r jnext_sound [OF x u(2)] "4.IH"(2) t(1) u(1)
    by (cases x) (fastforce simp: bindR_eq_Inr)+
next
  case (6 n s)
  then obtain v u x where v: "jvalue n s = Inr (v, u)" and x: "jnext 93 u = Inr x"
    and r: "(case x of Inl r \<Rightarrow> Inr ([v], r) | Inr r \<Rightarrow> bindR (jelements n r) (\<lambda>(vs, r). Inr (v # vs, r))) = Inr (vs, r)"
    by (auto simp: bindR_eq_Inr)
  have u: "sound_json v" "code_points u" using "6.IH"(1) [OF v "6.prems"(2)] by simp_all
  show ?case using r jnext_sound [OF x u(2)] "6.IH"(2) u(1)
    by (cases x) (fastforce simp: bindR_eq_Inr)+
qed auto

lemma jloads_sound: "jloads s = Inr v \<Longrightarrow> code_points s \<Longrightarrow> sound_json v"
  unfolding jloads_def using jparse_sound(1) [of "2 * length s + 2" "jws s"]
  by (auto simp: bindR_eq_Inr split: if_splits simp del: jvalue.simps)

lemma utf8_sound: "utf8_decode b = Inr s \<Longrightarrow> code_points s"
  using utf8_encode_decode [of b s] by (auto simp: utf8_encode_def code_points_def valid_cp_def split: if_splits)

section \<open>What the field readers return\<close>

lemma get_field_sound: "get_field v k = Inr x \<Longrightarrow> sound_json v \<Longrightarrow> sound_json x"
  by (auto simp: get_field_def obj_get_def dest!: map_of_SomeD split: option.splits json.splits)

lemma need_sound:
  assumes "sound_json v"
  shows "need_text v k = Inr s \<Longrightarrow> code_points s \<and> s \<noteq> []"
    and "need_optional_text v k = Inr x \<Longrightarrow> opt_ok code_points x"
    and "need_optional_int v k = Inr y \<Longrightarrow> sound_json (jopt JInt y)"
proof -
  note g = get_field_sound [OF _ assms]
  show "code_points s \<and> s \<noteq> []" if n: "need_text v k = Inr s"
  proof -
    obtain z where z: "get_field v k = Inr z" using n by (auto simp: need_text_def bindR_eq_Inr)
    then show ?thesis using n g [OF z] by (cases z) (auto simp: need_text_def split: if_splits)
  qed
  show "opt_ok code_points x" if n: "need_optional_text v k = Inr x"
  proof -
    obtain z where z: "get_field v k = Inr z" using n by (auto simp: need_optional_text_def bindR_eq_Inr)
    then show ?thesis using n g [OF z] by (cases z) (auto simp: need_optional_text_def opt_ok_def)
  qed
  show "sound_json (jopt JInt y)" if n: "need_optional_int v k = Inr y"
  proof -
    obtain z where z: "get_field v k = Inr z" using n by (auto simp: need_optional_int_def bindR_eq_Inr)
    then show ?thesis using n g [OF z] by (cases z) (auto simp: need_optional_int_def jopt_def)
  qed
qed

section \<open>A manifest that was read\<close>

text \<open>The clock of the machine: \<open>isoformat\<close> and \<open>fromisoformat\<close> of aware times fit together.\<close>

definition clock_ok :: "runtime \<Rightarrow> bool" where
  "clock_ok rt \<longleftrightarrow> (\<forall>t. stamp_ok rt t)"

lemma storable_item: "code_points (bi_target i) \<Longrightarrow> opt_ok code_points (content_ref i) \<Longrightarrow> opt_ok code_points (bi_sha256 i) \<Longrightarrow>
   opt_ok code_points (selinux_context i) \<Longrightarrow> opt_ok code_points (service_state i) \<Longrightarrow> opt_ok code_points (bi_storage_location i) \<Longrightarrow>
   storable (jopt JInt (mode i)) \<Longrightarrow> storable (jopt JInt (uid i)) \<Longrightarrow> storable (jopt JInt (gid i)) \<Longrightarrow>
   storable (backup_item_json i)"
  by (simp add: backup_item_json_def storable_jopt code_points_def [symmetric])

lemma sound_jopt [simp]: "sound_json (jopt JInt x) \<longleftrightarrow> storable (jopt JInt x)"
  by (simp add: jopt_def split: option.split)

lemma decode_item_sound:
  assumes "decode_backup_item v = Inr i" and "sound_json v"
  shows "bi_target i \<noteq> [] \<and> storable (backup_item_json i)"
  using assms(1) need_sound [OF assms(2)]
  by (auto simp: decode_backup_item_def bindR_eq_Inr split: if_splits intro!: storable_item)

lemma decode_encryption_sound:
  assumes "decode_encryption v = Inr e" and "sound_json v"
  shows "check_encryption_info e = Inr () \<and> storable (encryption_json e)"
  using assms(1) need_sound [OF assms(2)]
  by (auto simp: decode_encryption_def bindR_eq_Inr Let_def encryption_json_def storable_jopt code_points_def [symmetric])

lemma mapR_list_all2: "mapR f xs = Inr ys \<Longrightarrow> list_all2 (\<lambda>x y. f x = Inr y) xs ys"
  by (induction xs arbitrary: ys) (auto simp: bindR_eq_Inr)

lemma manifest_fields_sound:
  assumes "manifest_fields rt v = Inr m" and "sound_json v" and "clock_ok rt"
  shows "manifest_ok rt m"
proof -
  obtain z enc where z: "get_field v (lit ''items'') = Inr z" and enc: "get_field v (lit ''encryption'') = Inr enc"
    using assms(1) by (auto simp: manifest_fields_def bindR_eq_Inr simp del: lit_simps)
  obtain its where its: "z = JArr its" using assms(1) by (cases z) (auto simp: manifest_fields_def bindR_eq_Inr z enc simp del: lit_simps)
  obtain "is" where f: "get_field v (lit ''items'') = Inr (JArr its)" "get_field v (lit ''encryption'') = Inr enc"
    and d: "mapR decode_backup_item its = Inr is" "items m = is" "decode_encryption enc = Inr (encryption m)"
    and s: "validate_schema_version (bm_schema_version m) = Inr ()"
    using assms(1) z enc unfolding its by (auto simp: manifest_fields_def bindR_eq_Inr split: if_splits simp del: lit_simps)
  have x: "\<forall>x\<in>set its. sound_json x" "sound_json enc"
    using get_field_sound [OF f(1) assms(2)] get_field_sound [OF f(2) assms(2)] by simp_all
  have i: "\<forall>i\<in>set is. bi_target i \<noteq> [] \<and> storable (backup_item_json i)"
    using mapR_list_all2 [OF d(1)] x(1) decode_item_sound by (fastforce simp: list_all2_conv_all_nth in_set_conv_nth)
  have e: "check_encryption_info (encryption m) = Inr ()" "storable (encryption_json (encryption m))"
    using decode_encryption_sound [OF d(3) x(2)] by simp_all
  have t: "code_points (isoformat rt t)" "stamp_ok rt t" for t
    using assms(3) by (simp_all add: clock_ok_def stamp_ok_def text_ok_def)
  note n = need_sound [OF assms(2)]
  have "\<forall>z\<in>{backup_id m, bm_plan_id m, bm_change_set_hash m, bm_host_id m, manifest_hash m, storage_location m, bm_schema_version m}.
      code_points z \<and> z \<noteq> []" and "opt_ok code_points (host_fingerprint m)"
    using assms(1) n unfolding manifest_fields_def f
    by (auto simp: bindR_eq_Inr split: if_splits)
  then show ?thesis using i e s t d(2)
    by (auto simp: manifest_ok_def manifest_json_def time_json_def tuple_json_def storable_jopt code_points_def [symmetric] jopt_def opt_ok_def
      split: option.split)
qed

lemma decode_manifest_ok:
  assumes "decode_manifest rt b = Inr m" and "clock_ok rt"
  shows "manifest_ok rt m"
proof -
  obtain s v where "utf8_decode b = Inr s" "jloads s = Inr v" and f: "manifest_fields rt v = Inr m"
    using assms(1) by (auto simp: decode_manifest_def bindR_eq_Inr split: sum.splits if_splits)
  then have "sound_json v" using utf8_sound jloads_sound by blast
  then show ?thesis by (rule manifest_fields_sound [OF f _ assms(2)])
qed

text \<open>
  Property C30. The reader of manifests accepts exactly what the writer makes: bytes decode to a manifest if and only if
  they are the canonical bytes, at most a mebibyte, of a well-formed and complete manifest that carries its own hash.
\<close>

theorem manifest_reader_exact:
  assumes "clock_ok rt"
  shows "decode_manifest rt b = Inr m \<longleftrightarrow>
    manifest_ok rt m \<and> complete m \<and> manifest_digest rt m = Inr (manifest_hash m) \<and> manifest_bytes rt m = Inr b
      \<and> int (length b) \<le> max_manifest_bytes"
  using decode_manifest_ok [OF _ assms] decode_manifest_Inr decode_manifest_bytes by blast

section \<open>What the hash of a manifest binds\<close>

lemma manifest_field:
  "get_field (canon (manifest_json rt m)) k =
     (if k = lit ''manifest_hash'' then Inr (JStr (manifest_hash m))
      else get_field (canon (manifest_json rt (m\<lparr>manifest_hash := []\<rparr>))) k)"
  by (cases "k = lit ''manifest_hash''") (simp_all add: manifest_json_def get_field_canon del: canon.simps(2))

lemma fields_only:
  assumes "\<And>k. get_field v k = get_field u k"
  shows "manifest_fields rt v = manifest_fields rt u"
proof -
  have n: "need_text v = need_text u" "need_optional_text v = need_optional_text u" "need_bool v = need_bool u"
    by (simp_all add: fun_eq_iff need_text_def need_optional_text_def need_bool_def assms)
  then have t: "need_time rt v = need_time rt u" "need_optional_time rt v = need_optional_time rt u"
    by (simp_all add: fun_eq_iff need_time_def need_optional_time_def)
  show ?thesis unfolding manifest_fields_def n t assms ..
qed

lemma manifest_binds:
  assumes "collision_free (sha256 rt)" and "clock_ok rt"
    and "decode_manifest rt b = Inr m" and "decode_manifest rt b' = Inr n" and "manifest_hash m = manifest_hash n"
  shows "m = n"
proof -
  let ?z = "\<lambda>m. manifest_json rt (m\<lparr>manifest_hash := []\<rparr>)"
  note ok = decode_manifest_ok [OF assms(3,2)] decode_manifest_ok [OF assms(4,2)]
  have s: "storable (?z m)" "storable (?z n)"
    using ok by (auto simp: manifest_ok_def manifest_json_def)
  have h: "stable_hash rt (?z m) = Inr (manifest_hash m)" "stable_hash rt (?z n) = Inr (manifest_hash m)"
    using decode_manifest_Inr(2) [OF assms(3)] decode_manifest_Inr(2) [OF assms(4)] assms(5)
    by (simp_all add: manifest_digest_def manifest_bytes_def stable_hash_def)
  have "canon (?z m) = canon (?z n)" by (rule stable_hash_binds [OF assms(1) s h])
  then have "get_field (canon (manifest_json rt m)) k = get_field (canon (manifest_json rt n)) k" for k
    using assms(5) by (simp only: manifest_field [of rt m] manifest_field [of rt n])
  then have "manifest_fields rt (canon (manifest_json rt m)) = manifest_fields rt (canon (manifest_json rt n))"
    by (rule fields_only)
  then show ?thesis using manifest_fields_canon ok by simp
qed

end
