(* ===== verification/LocalRestore.thy ===== *)
theory LocalRestore
  imports ManifestSound
begin

text \<open>
  The restore of an approved local backup: the executor of one target (\<open>infrastructure/local_restore.py\<close>), and the
  coordinator that claims the authorisation once, keeps the evidence of what happened and tells the audit log
  (\<open>infrastructure/restore_execution.py\<close>).  The backup store is the one of \<open>Manifests\<close>, behind the interface
  \<open>restore_source\<close>.  The class of an \<open>OSError\<close> is taken to be \<open>OSError\<close> itself where its name is recorded.
\<close>

section \<open>The executor\<close>

datatype restored_state = RESTORE_COMMITTED

record restore_result =
  lr_state :: restored_state
  lr_host_id :: str
  lr_backup_id :: str
  lr_manifest_hash :: str
  lr_authorization_hash :: str
  lr_target :: str
  lr_completed_at :: time

text \<open>\<open>_binding\<close>\<close>

definition restore_binding :: "authorization \<Rightarrow> backup_manifest option \<Rightarrow> backup_manifest res" where
  "restore_binding a found = (case found of
       None \<Rightarrow> Inl (AdapterError ''restore_binding_mismatch'')
     | Some m \<Rightarrow>
         if (bm_host_id m, backup_id m, manifest_hash m, map bi_target (items m)) \<noteq>
            (au_host_id a, au_backup_id a, au_manifest_hash a, au_targets a)
         then Inl (AdapterError ''restore_binding_mismatch'') else Inr m)"

definition authorization_sealed :: "runtime \<Rightarrow> authorization \<Rightarrow> bool res" where
  "authorization_sealed rt a = bindR (authorization_with_hash rt a) (\<lambda>b. Inr (b = a))"

text \<open>\<open>target.unlink(missing_ok=True)\<close>, then \<open>_fsync_directory(target.parent)\<close>.\<close>

definition unlink_missing_ok :: "str \<Rightarrow> unit io" where
  "unlink_missing_ok p =
     bindW os_step (\<lambda>_. bindW (node_at p) (\<lambda>n.
       if n = Some NotRegular then raiseW OSError
       else bindW (put_node p None) (\<lambda>_. os_step)))"

text \<open>The end of \<open>execute\<close>: the item becomes the target.\<close>

definition put_item :: "system \<Rightarrow> backup_restore_item \<Rightarrow> unit io" where
  "put_item sys it =
     (let p = resolved_target sys (ri_target it) in
      if ri_existed it then
        (case ri_content it of
           Some content \<Rightarrow>
             bindW (checkW (Some (sha256 sys content) = ri_sha256 it) ''invalid_backup'') (\<lambda>_.
             atomic_write sys p content (mode_or_default (ri_mode it)))
         | None \<Rightarrow> raiseW (AdapterError ''invalid_backup''))
      else
        bindW (checkW (ri_content it = None \<and> ri_sha256 it = None) ''invalid_backup'') (\<lambda>_. unlink_missing_ok p))"

text \<open>\<open>SingleTargetLocalRestoreExecutor.execute\<close>, up to the change and then with it.\<close>

definition restore_ready :: "system \<Rightarrow> inventory \<Rightarrow> (backup_manifest \<Rightarrow> backup_restore_item list io) \<Rightarrow> authorization \<Rightarrow> time \<Rightarrow>
    backup_restore_item io" where
  "restore_ready sys iv get_items a now =
     bindW check_cancel (\<lambda>_.
     bindW (liftR (authorization_sealed (runtime.truncate sys) a)) (\<lambda>sealed.
     bindW (checkW (sealed \<and> now < au_expires_at a \<and> length (au_targets a) = 1) ''invalid_restore_authorization'') (\<lambda>_.
     bindW (list_strict iv (au_host_id a)) (\<lambda>ms.
     bindW (liftR (restore_binding a (find (\<lambda>m. backup_id m = au_backup_id a) ms))) (\<lambda>m.
     bindW (observe_targets iv m) (\<lambda>seen.
     bindW (checkW (seen = au_current a) ''stale_restore_target'') (\<lambda>_.
     bindW (get_items m) (\<lambda>its.
     bindW check_cancel (\<lambda>_.
     bindW (observe_targets iv m) (\<lambda>seen_again.
     bindW (checkW (seen_again = au_current a) ''stale_restore_target'') (\<lambda>_.
     case its of
       [it] \<Rightarrow> bindW (checkW ([ri_target it] = au_targets a) ''restore_binding_mismatch'') (\<lambda>_. retW it)
     | _ \<Rightarrow> raiseW (AdapterError ''restore_binding_mismatch''))))))))))))"

definition execute_restore :: "system \<Rightarrow> inventory \<Rightarrow> (backup_manifest \<Rightarrow> backup_restore_item list io) \<Rightarrow> authorization \<Rightarrow>
    time option \<Rightarrow> restore_result io" where
  "execute_restore sys iv get_items a given =
     bindW (case given of Some t \<Rightarrow> retW t | None \<Rightarrow> utc_now) (\<lambda>now.
     bindW (restore_ready sys iv get_items a now) (\<lambda>it.
     bindW (put_item sys it) (\<lambda>_.
     retW \<lparr>lr_state = RESTORE_COMMITTED, lr_host_id = au_host_id a, lr_backup_id = au_backup_id a,
           lr_manifest_hash = au_manifest_hash a, lr_authorization_hash = au_hash a, lr_target = ri_target it,
           lr_completed_at = now\<rparr>)))"

section \<open>Attempts and evidence\<close>

datatype execution_state = RX_COMMITTED | RX_FAILED | RX_UNKNOWN

record restore_attempt =
  rx_schema_version :: str
  rx_authorization_hash :: str
  rx_host_id :: str
  rx_backup_id :: str
  rx_manifest_hash :: str
  rx_preview_hash :: str
  rx_approval_id :: str
  rx_actor :: str
  rx_target :: str
  rx_started_at :: time
  rx_hash :: str

record restore_evidence =
  re_schema_version :: str
  re_attempt_hash :: str
  re_authorization_hash :: str
  re_host_id :: str
  re_backup_id :: str
  re_manifest_hash :: str
  re_target :: str
  re_state :: execution_state
  re_completed_at :: time
  re_error_code :: "str option"
  re_hash :: str

fun execution_state_value :: "execution_state \<Rightarrow> str" where
  "execution_state_value RX_COMMITTED = lit ''committed''"
| "execution_state_value RX_FAILED = lit ''failed''"
| "execution_state_value RX_UNKNOWN = lit ''unknown''"

definition parse_execution_state :: "str \<Rightarrow> execution_state res" where
  "parse_execution_state s = (case find (\<lambda>x. execution_state_value x = s) [RX_COMMITTED, RX_FAILED, RX_UNKNOWN] of
     None \<Rightarrow> Inl ValueError | Some x \<Rightarrow> Inr x)"

definition attempt_json :: "runtime \<Rightarrow> restore_attempt \<Rightarrow> json" where
  "attempt_json rt x = JObj
     [(lit ''schema_version'', JStr (rx_schema_version x)), (lit ''authorization_hash'', JStr (rx_authorization_hash x)),
      (lit ''host_id'', JStr (rx_host_id x)), (lit ''backup_id'', JStr (rx_backup_id x)),
      (lit ''manifest_hash'', JStr (rx_manifest_hash x)), (lit ''preview_hash'', JStr (rx_preview_hash x)),
      (lit ''approval_id'', JStr (rx_approval_id x)), (lit ''actor'', JStr (rx_actor x)), (lit ''target'', JStr (rx_target x)),
      (lit ''started_at'', time_json rt (rx_started_at x)), (lit ''attempt_hash'', JStr (rx_hash x))]"

definition evidence_json :: "runtime \<Rightarrow> restore_evidence \<Rightarrow> json" where
  "evidence_json rt x = JObj
     [(lit ''schema_version'', JStr (re_schema_version x)), (lit ''attempt_hash'', JStr (re_attempt_hash x)),
      (lit ''authorization_hash'', JStr (re_authorization_hash x)), (lit ''host_id'', JStr (re_host_id x)),
      (lit ''backup_id'', JStr (re_backup_id x)), (lit ''manifest_hash'', JStr (re_manifest_hash x)),
      (lit ''target'', JStr (re_target x)), (lit ''state'', JStr (execution_state_value (re_state x))),
      (lit ''completed_at'', time_json rt (re_completed_at x)), (lit ''error_code'', jopt JStr (re_error_code x)),
      (lit ''evidence_hash'', JStr (re_hash x))]"

text \<open>\<open>_canonical\<close>\<close>

definition canonical_bytes :: "json \<Rightarrow> bytes res" where
  "canonical_bytes v = utf8_encode (dumps False v)"

definition attempt_with_hash :: "runtime \<Rightarrow> restore_attempt \<Rightarrow> restore_attempt res" where
  "attempt_with_hash rt x = (let v = x\<lparr>rx_hash := []\<rparr> in
     bindR (canonical_bytes (attempt_json rt v)) (\<lambda>b. Inr (v\<lparr>rx_hash := sha256 rt b\<rparr>)))"

definition evidence_with_hash :: "runtime \<Rightarrow> restore_evidence \<Rightarrow> restore_evidence res" where
  "evidence_with_hash rt x = (let v = x\<lparr>re_hash := []\<rparr> in
     bindR (canonical_bytes (evidence_json rt v)) (\<lambda>b. Inr (v\<lparr>re_hash := sha256 rt b\<rparr>)))"

record restore_view =
  vw_attempt :: restore_attempt
  vw_evidence :: "restore_evidence option"

text \<open>\<open>RestoreExecutionView.state\<close>, in which \<open>"attempt_only"\<close> is \<open>None\<close>.\<close>

definition view_state :: "restore_view \<Rightarrow> execution_state option" where
  "view_state v = map_option re_state (vw_evidence v)"

definition requires_attention :: "restore_view \<Rightarrow> bool" where
  "requires_attention v \<longleftrightarrow> (case vw_evidence v of None \<Rightarrow> True | Some e \<Rightarrow> re_state e \<noteq> RX_COMMITTED)"

section \<open>The store of restores\<close>

text \<open>\<open>RestoreExecutionStore\<close> at an absolute root; \<open>stat.S_IMODE\<close>.\<close>

definition open_restore_store :: "system \<Rightarrow> str \<Rightarrow> unit io" where
  "open_restore_store sys root = bindW (entry_at sys root) (\<lambda>n. guardW (comps root \<noteq> [] \<and> n \<noteq> Some SymLink) ValueError)"

definition imode :: "int \<Rightarrow> int" where
  "imode m = m mod 4096"

definition private_root :: "system \<Rightarrow> dir_info option \<Rightarrow> unit io" where
  "private_root sys i = bindW os_step (\<lambda>_.
     checkW (\<exists>d\<in>set_option i. dr_uid d = euid sys \<and> imode (dr_mode d) = 448) ''unsafe_restore_execution_store'')"

definition restore_path :: "str \<Rightarrow> str \<Rightarrow> str \<Rightarrow> str res" where
  "restore_path root identity role =
     (if is_digest identity then Inr (path_join root (identity @ lit ''.'' @ role @ lit ''.json''))
      else Inl (AdapterError ''invalid_restore_authorization''))"

definition prepare_store :: "system \<Rightarrow> str \<Rightarrow> unit io" where
  "prepare_store sys root =
     bindW (make_dir_ok sys root 448) (\<lambda>_.
     bindW (chmod_dir sys root 448) (\<lambda>_.
     bindW (stat_dir sys root) (private_root sys)))"

definition read_record :: "system \<Rightarrow> str \<Rightarrow> str \<Rightarrow> bytes io" where
  "read_record sys root p =
     bindW (stat_dir sys root) (\<lambda>i.
     bindW (checkW (i \<noteq> None) ''restore_execution_not_found'') (\<lambda>_.
     bindW (private_root sys i) (\<lambda>_.
     bindW (entry_at sys p) (\<lambda>n.
     bindW (checkW (is_file_node n) ''restore_execution_not_found'') (\<lambda>_.
     bindW os_step (\<lambda>_.
     bindW (checkW (case n of Some (RegFile c m u _) \<Rightarrow> u = euid sys \<and> imode m = 384 \<and> int (length c) \<le> 1048576 | _ \<Rightarrow> False)
       ''unsafe_restore_execution_store'') (\<lambda>_.
     read_bytes (resolved_target sys p))))))))"

definition attempt_fields :: "str list" where
  "attempt_fields = [lit ''schema_version'', lit ''authorization_hash'', lit ''host_id'', lit ''backup_id'', lit ''manifest_hash'',
     lit ''preview_hash'', lit ''approval_id'', lit ''actor'', lit ''target'', lit ''started_at'', lit ''attempt_hash'']"

definition parse_attempt :: "runtime \<Rightarrow> json \<Rightarrow> restore_attempt res" where
  "parse_attempt rt v =
     bindR (need_text v (lit ''schema_version'')) (\<lambda>sv.
     bindR (need_text v (lit ''authorization_hash'')) (\<lambda>ah.
     bindR (need_text v (lit ''host_id'')) (\<lambda>hid.
     bindR (need_text v (lit ''backup_id'')) (\<lambda>bid.
     bindR (need_text v (lit ''manifest_hash'')) (\<lambda>mh.
     bindR (need_text v (lit ''preview_hash'')) (\<lambda>ph.
     bindR (need_text v (lit ''approval_id'')) (\<lambda>aid.
     bindR (need_text v (lit ''actor'')) (\<lambda>who.
     bindR (need_text v (lit ''target'')) (\<lambda>t.
     bindR (need_time rt v (lit ''started_at'')) (\<lambda>at'.
     bindR (need_text v (lit ''attempt_hash'')) (\<lambda>h.
     Inr \<lparr>rx_schema_version = sv, rx_authorization_hash = ah, rx_host_id = hid, rx_backup_id = bid, rx_manifest_hash = mh,
          rx_preview_hash = ph, rx_approval_id = aid, rx_actor = who, rx_target = t, rx_started_at = at', rx_hash = h\<rparr>)))))))))))"

definition evidence_fields :: "str list" where
  "evidence_fields = [lit ''schema_version'', lit ''attempt_hash'', lit ''authorization_hash'', lit ''host_id'', lit ''backup_id'',
     lit ''manifest_hash'', lit ''target'', lit ''state'', lit ''completed_at'', lit ''error_code'', lit ''evidence_hash'']"

definition parse_evidence :: "runtime \<Rightarrow> json \<Rightarrow> restore_evidence res" where
  "parse_evidence rt v =
     bindR (need_optional_text v (lit ''error_code'')) (\<lambda>c.
     bindR (need_text v (lit ''schema_version'')) (\<lambda>sv.
     bindR (need_text v (lit ''attempt_hash'')) (\<lambda>xh.
     bindR (need_text v (lit ''authorization_hash'')) (\<lambda>ah.
     bindR (need_text v (lit ''host_id'')) (\<lambda>hid.
     bindR (need_text v (lit ''backup_id'')) (\<lambda>bid.
     bindR (need_text v (lit ''manifest_hash'')) (\<lambda>mh.
     bindR (need_text v (lit ''target'')) (\<lambda>t.
     bindR (bindR (need_text v (lit ''state'')) parse_execution_state) (\<lambda>s.
     bindR (need_time rt v (lit ''completed_at'')) (\<lambda>at'.
     bindR (need_text v (lit ''evidence_hash'')) (\<lambda>h.
     Inr \<lparr>re_schema_version = sv, re_attempt_hash = xh, re_authorization_hash = ah, re_host_id = hid, re_backup_id = bid,
          re_manifest_hash = mh, re_target = t, re_state = s, re_completed_at = at', re_error_code = c, re_hash = h\<rparr>)))))))))))"

text \<open>The \<open>except\<close> clause of the two loaders; then the checks that bind the record to its name, its hash and its bytes.\<close>

definition unreadable :: "exn \<Rightarrow> bool" where
  "unreadable e \<longleftrightarrow> e \<in> {UnicodeError, JSONDecodeError, KeyError, TypeError, ValueError}"

definition parsed :: "(json \<Rightarrow> 'a res) \<Rightarrow> exn \<Rightarrow> bytes \<Rightarrow> (json \<times> 'a) res" where
  "parsed parse bad content =
     (case bindR (bindR (utf8_decode content) jloads) (\<lambda>v. bindR (parse v) (\<lambda>x. Inr (v, x))) of
        Inl e \<Rightarrow> Inl (if unreadable e then bad else e)
      | Inr y \<Rightarrow> Inr y)"

definition decode_attempt :: "runtime \<Rightarrow> str \<Rightarrow> bytes \<Rightarrow> restore_attempt res" where
  "decode_attempt rt identity content = (let bad = AdapterError ''invalid_restore_attempt'' in
     bindR (parsed (parse_attempt rt) bad content) (\<lambda>(v, x).
     if \<not> has_fields v attempt_fields \<or> rx_schema_version x \<noteq> lit ''1.0'' \<or> rx_authorization_hash x \<noteq> identity then Inl bad
     else bindR (attempt_with_hash rt x) (\<lambda>y.
       if y \<noteq> x then Inl bad
       else bindR (canonical_bytes (attempt_json rt x)) (\<lambda>b. if b \<noteq> content then Inl bad else Inr x))))"

definition decode_evidence :: "runtime \<Rightarrow> str \<Rightarrow> bytes \<Rightarrow> restore_evidence res" where
  "decode_evidence rt identity content = (let bad = AdapterError ''invalid_restore_evidence'' in
     bindR (parsed (parse_evidence rt) bad content) (\<lambda>(v, x).
     if \<not> has_fields v evidence_fields \<or> re_schema_version x \<noteq> lit ''1.0'' \<or> re_authorization_hash x \<noteq> identity
        \<or> (re_state x = RX_COMMITTED) \<noteq> (re_error_code x = None) then Inl bad
     else bindR (evidence_with_hash rt x) (\<lambda>y.
       if y \<noteq> x then Inl bad
       else bindR (canonical_bytes (evidence_json rt x)) (\<lambda>b. if b \<noteq> content then Inl bad else Inr x))))"

definition load_attempt :: "system \<Rightarrow> str \<Rightarrow> str \<Rightarrow> restore_attempt io" where
  "load_attempt sys root identity =
     bindW (liftR (restore_path root identity (lit ''attempt''))) (\<lambda>p.
     bindW (read_record sys root p) (\<lambda>content. liftR (decode_attempt (runtime.truncate sys) identity content)))"

definition load_evidence :: "system \<Rightarrow> str \<Rightarrow> str \<Rightarrow> restore_evidence io" where
  "load_evidence sys root identity =
     bindW (liftR (restore_path root identity (lit ''result''))) (\<lambda>p.
     bindW (read_record sys root p) (\<lambda>content. liftR (decode_evidence (runtime.truncate sys) identity content)))"

definition save_attempt :: "system \<Rightarrow> str \<Rightarrow> restore_attempt \<Rightarrow> restore_attempt io" where
  "save_attempt sys root x =
     bindW (liftR (attempt_with_hash (runtime.truncate sys) x)) (\<lambda>v.
     bindW (liftR (restore_path root (rx_authorization_hash v) (lit ''attempt''))) (\<lambda>p.
     bindW (prepare_store sys root) (\<lambda>_.
     bindW (entry_at sys p) (\<lambda>n.
     bindW (checkW (n = None) ''restore_authorization_consumed'') (\<lambda>_.
     bindW (liftR (canonical_bytes (attempt_json (runtime.truncate sys) v))) (\<lambda>b.
     bindW (atomic_write sys (resolved_target sys p) b 384) (\<lambda>_.
     load_attempt sys root (rx_authorization_hash v))))))))"

definition save_evidence :: "system \<Rightarrow> str \<Rightarrow> restore_evidence \<Rightarrow> restore_evidence io" where
  "save_evidence sys root x =
     bindW (liftR (evidence_with_hash (runtime.truncate sys) x)) (\<lambda>v.
     bindW (liftR (restore_path root (re_authorization_hash v) (lit ''result''))) (\<lambda>p.
     bindW (prepare_store sys root) (\<lambda>_.
     bindW (entry_at sys p) (\<lambda>n.
     bindW (checkW (n = None) ''restore_result_exists'') (\<lambda>_.
     bindW (liftR (canonical_bytes (evidence_json (runtime.truncate sys) v))) (\<lambda>b.
     bindW (atomic_write sys (resolved_target sys p) b 384) (\<lambda>_.
     load_evidence sys root (re_authorization_hash v))))))))"

text \<open>\<open>list_strict\<close>; \<open>names\<close> are the names in the root.\<close>

definition restore_entry :: "system \<Rightarrow> str \<Rightarrow> str \<Rightarrow> (str \<times> str) io" where
  "restore_entry sys root name =
     bindW (entry_at sys (path_join root name)) (\<lambda>n.
     case split_on 46 name of
       [identity, role, ending] \<Rightarrow>
         bindW (checkW (is_file_node n \<and> role \<in> {lit ''attempt'', lit ''result''} \<and> ending = lit ''json'')
           ''unsafe_restore_execution_store'') (\<lambda>_.
         bindW (liftR (restore_path root identity role)) (\<lambda>_. retW (identity, role)))
     | _ \<Rightarrow> raiseW (AdapterError ''unsafe_restore_execution_store''))"

definition evidence_binds :: "restore_attempt \<Rightarrow> restore_evidence \<Rightarrow> bool" where
  "evidence_binds x e \<longleftrightarrow> re_attempt_hash e = rx_hash x
     \<and> (re_authorization_hash e, re_host_id e, re_backup_id e, re_manifest_hash e, re_target e)
       = (rx_authorization_hash x, rx_host_id x, rx_backup_id x, rx_manifest_hash x, rx_target x)"

definition restore_view_of :: "system \<Rightarrow> str \<Rightarrow> (str \<times> str) list \<Rightarrow> str \<Rightarrow> restore_view io" where
  "restore_view_of sys root entries identity =
     bindW (checkW ((identity, lit ''attempt'') \<in> set entries) ''invalid_restore_evidence'') (\<lambda>_.
     bindW (load_attempt sys root identity) (\<lambda>x.
     if (identity, lit ''result'') \<in> set entries
     then bindW (load_evidence sys root identity) (\<lambda>e.
          bindW (checkW (evidence_binds x e) ''invalid_restore_evidence'') (\<lambda>_.
          retW \<lparr>vw_attempt = x, vw_evidence = Some e\<rparr>))
     else retW \<lparr>vw_attempt = x, vw_evidence = None\<rparr>))"

definition list_restores :: "system \<Rightarrow> str \<Rightarrow> str list \<Rightarrow> restore_view list io" where
  "list_restores sys root names =
     bindW (entry_at sys root) (\<lambda>n.
     if n = None then retW []
     else bindW (stat_dir sys root) (\<lambda>i.
       bindW (checkW (i \<noteq> None) ''unsafe_restore_execution_store'') (\<lambda>_.
       bindW (private_root sys i) (\<lambda>_.
       bindW os_step (\<lambda>_.
       bindW (mapW (restore_entry sys root) names) (\<lambda>entries.
       bindW (mapW (restore_view_of sys root entries) (dict_keys (map fst entries))) (\<lambda>vs.
       retW (sort_key (\<lambda>v. - rx_started_at (vw_attempt v)) vs))))))))"

section \<open>The coordinator\<close>

text \<open>\<open>RestoreExecutionPersistenceError\<close> carries the evidence that could not be kept.\<close>

datatype restore_failure = RestoreRaised exn | NotPersisted restore_evidence str

definition plainly :: "'a io \<Rightarrow> (restore_failure, 'a) run" where
  "plainly m = tryW m (\<lambda>e. raiseW (RestoreRaised e))"

text \<open>\<open>getattr(error, "code", type(error).__name__)\<close> of the exceptions that are caught.\<close>

fun error_name :: "exn \<Rightarrow> str" where
  "error_name (AdapterError c) = lit c"
| "error_name OperationCancelled = lit ''OperationCancelled''"
| "error_name e = lit ''OSError''"

definition port_error :: "exn \<Rightarrow> bool" where
  "port_error e \<longleftrightarrow> adapter_error e \<or> e = OSError"

definition evidence_of :: "runtime \<Rightarrow> restore_attempt \<Rightarrow> execution_state \<Rightarrow> str option \<Rightarrow> time \<Rightarrow> restore_evidence res" where
  "evidence_of rt x s c now = evidence_with_hash rt
     \<lparr>re_schema_version = lit ''1.0'', re_attempt_hash = rx_hash x, re_authorization_hash = rx_authorization_hash x,
      re_host_id = rx_host_id x, re_backup_id = rx_backup_id x, re_manifest_hash = rx_manifest_hash x,
      re_target = rx_target x, re_state = s, re_completed_at = now, re_error_code = c, re_hash = []\<rparr>"

definition evidence_now :: "system \<Rightarrow> restore_attempt \<Rightarrow> execution_state \<Rightarrow> str option \<Rightarrow> restore_evidence io" where
  "evidence_now sys x s c = bindW utc_now (\<lambda>now. liftR (evidence_of (runtime.truncate sys) x s c now))"

definition persist_evidence :: "system \<Rightarrow> str \<Rightarrow> restore_evidence \<Rightarrow> (restore_failure, restore_evidence) run" where
  "persist_evidence sys root e = tryW (save_evidence sys root e)
     (\<lambda>x. raiseW (if port_error x then NotPersisted e (error_name x) else RestoreRaised x))"

definition attempt_of :: "authorization \<Rightarrow> time \<Rightarrow> restore_attempt" where
  "attempt_of a now =
     \<lparr>rx_schema_version = lit ''1.0'', rx_authorization_hash = au_hash a, rx_host_id = au_host_id a,
      rx_backup_id = au_backup_id a, rx_manifest_hash = au_manifest_hash a, rx_preview_hash = au_preview_hash a,
      rx_approval_id = au_approval_id a, rx_actor = au_actor a, rx_target = hd (au_targets a), rx_started_at = now, rx_hash = []\<rparr>"

definition restore_event :: "str \<Rightarrow> str \<Rightarrow> str \<Rightarrow> (str \<times> json) list" where
  "restore_event hid bid binding =
     [(lit ''host_id'', JStr hid), (lit ''backup_id'', JStr bid), (lit ''binding_hash'', JStr binding)]"

text \<open>What follows the executor: its failure is kept and raised again, its success kept and told.\<close>

definition restore_failed :: "system \<Rightarrow> str \<Rightarrow> restore_attempt \<Rightarrow> exn \<Rightarrow> (restore_failure, restore_evidence) run" where
  "restore_failed sys root x e =
     (if port_error e \<or> e = OperationCancelled
      then bindW (plainly (evidence_now sys x RX_FAILED (Some (error_name e)))) (\<lambda>ev.
           bindW (persist_evidence sys root ev) (\<lambda>_. raiseW (RestoreRaised e)))
      else raiseW (RestoreRaised e))"

definition restore_untold :: "system \<Rightarrow> str \<Rightarrow> restore_evidence \<Rightarrow> exn \<Rightarrow> (restore_failure, unit) run" where
  "restore_untold sys root ev e =
     (if port_error e
      then bindW (plainly (liftR (evidence_with_hash (runtime.truncate sys)
             (ev\<lparr>re_state := RX_UNKNOWN, re_error_code := Some (error_name e), re_hash := []\<rparr>)))) (\<lambda>unknown.
           bindW (persist_evidence sys root unknown) (\<lambda>_.
           raiseW (NotPersisted unknown (if error_name e = [] then lit ''audit_failed'' else error_name e))))
      else raiseW (RestoreRaised e))"

definition restore_claimed :: "system \<Rightarrow> inventory \<Rightarrow> (backup_manifest \<Rightarrow> backup_restore_item list io) \<Rightarrow> str \<Rightarrow>
    (str \<Rightarrow> str \<Rightarrow> (str \<times> json) list \<Rightarrow> unit io) \<Rightarrow> authorization \<Rightarrow> restore_attempt \<Rightarrow> (restore_failure, restore_evidence) run" where
  "restore_claimed sys iv get_items root log a x =
     bindW (plainly (log (lit ''restore.started'') (au_hash a) (restore_event (au_host_id a) (au_backup_id a) (au_hash a)))) (\<lambda>_.
     bindW (tryW (bindW (execute_restore sys iv get_items a None) (\<lambda>r. retW (Inr r))) (\<lambda>e. retW (Inl e))) (\<lambda>outcome.
     case outcome of
       Inl e \<Rightarrow> restore_failed sys root x e
     | Inr r \<Rightarrow>
         bindW (plainly (evidence_now sys x RX_COMMITTED None)) (\<lambda>ev.
         bindW (tryW (log (lit ''restore.committed'') (au_hash a) (restore_event (lr_host_id r) (lr_backup_id r) (lr_authorization_hash r)))
             (restore_untold sys root ev)) (\<lambda>_.
         persist_evidence sys root ev))))"

definition coordinate_restore :: "system \<Rightarrow> inventory \<Rightarrow> (backup_manifest \<Rightarrow> backup_restore_item list io) \<Rightarrow> str \<Rightarrow>
    (str \<Rightarrow> str \<Rightarrow> (str \<times> json) list \<Rightarrow> unit io) \<Rightarrow> authorization \<Rightarrow> (restore_failure, restore_evidence) run" where
  "coordinate_restore sys iv get_items root log a =
     bindW (plainly (liftR (authorization_sealed (runtime.truncate sys) a))) (\<lambda>sealed.
     bindW (plainly (checkW (sealed \<and> length (au_targets a) = 1) ''invalid_restore_authorization'')) (\<lambda>_.
     bindW (plainly utc_now) (\<lambda>now.
     bindW (plainly (save_attempt sys root (attempt_of a now))) (\<lambda>x.
     restore_claimed sys iv get_items root log a x))))"

section \<open>The interface to the backups\<close>

text \<open>
  What a restore needs of a store: looking changes no file, what is listed is sealed and of that host, what is
  observed is there, and the items come verified, last first.
\<close>

definition observed :: "system \<Rightarrow> files \<Rightarrow> backup_item \<Rightarrow> observation \<Rightarrow> bool" where
  "observed sys f i x \<longleftrightarrow> ob_target x = resolved_target sys (bi_target i) \<and> ob_exists x = (f (ob_target x) \<noteq> None)
     \<and> (f (ob_target x) = None \<or> is_file_node (f (ob_target x)))
     \<and> ob_sha256 x = map_option (\<lambda>n. sha256 sys (node_content n)) (f (ob_target x))"

definition verified_item :: "system \<Rightarrow> backup_item \<Rightarrow> backup_restore_item \<Rightarrow> bool" where
  "verified_item sys i it \<longleftrightarrow> ri_target it = bi_target i \<and> ri_existed it = existed i \<and> ri_sha256 it = bi_sha256 i \<and> ri_mode it = mode i
     \<and> (if existed i then \<exists>c. ri_content it = Some c \<and> bi_sha256 i = Some (sha256 sys c) else ri_content it = None)"

definition sealed :: "runtime \<Rightarrow> backup_manifest \<Rightarrow> bool" where
  "sealed rt m \<longleftrightarrow> (\<exists>b. decode_manifest rt b = Inr m)"

text \<open>What a restored item leaves at its target.\<close>

definition restored_node :: "system \<Rightarrow> backup_restore_item \<Rightarrow> node option" where
  "restored_node sys it = (if ri_existed it
     then map_option (\<lambda>c. RegFile c (mode_or_default (ri_mode it)) (euid sys) (egid sys)) (ri_content it) else None)"

locale restore_source =
  fixes sys :: system and iv :: inventory and get_items :: "backup_manifest \<Rightarrow> backup_restore_item list io"
  assumes list_keeps: "keeps S (list_strict iv h)"
    and observe_keeps: "keeps S (observe_targets iv m)"
    and items_keep: "keeps S (get_items m)"
    and lists: "list_strict iv h w = (Inr ms, w') \<Longrightarrow> m \<in> set ms \<Longrightarrow> sealed (runtime.truncate sys) m \<and> bm_host_id m = h"
    and observes: "observe_targets iv m w = (Inr obs, w') \<Longrightarrow> list_all2 (observed sys (fs w)) (items m) obs"
    and hands: "get_items m w = (Inr its, w') \<Longrightarrow> list_all2 (verified_item sys) (rev (items m)) its"

lemma put_item_outcome:
  assumes "put_item sys it w = (r, w')"
  shows "(fs w' = fs w \<and> (\<exists>e. r = Inl e)) \<or>
    (fs w' = (fs w)(resolved_target sys (ri_target it) := restored_node sys it) \<and> (r = Inr () \<or> r = Inl OSError)
     \<and> (if ri_existed it then \<exists>c. ri_content it = Some c \<and> ri_sha256 it = Some (sha256 sys c) else ri_sha256 it = None))"
proof (cases "ri_existed it")
  case True
  then show ?thesis using assms
    by (cases "ri_content it")
      (auto simp: put_item_def Let_def checkW_def guardW_def bindW_def atomic_write_def put_node_def restored_node_def os_step_def
        split: prod.splits sum.splits list.splits if_splits)
next
  case False
  then show ?thesis using assms
    by (auto simp: put_item_def Let_def checkW_def guardW_def bindW_def unlink_missing_ok_def put_node_def restored_node_def os_step_def
        split: prod.splits sum.splits list.splits if_splits)
qed

definition restore_matches :: "system \<Rightarrow> authorization \<Rightarrow> time \<Rightarrow> files \<Rightarrow> backup_manifest \<Rightarrow> backup_item \<Rightarrow> backup_restore_item \<Rightarrow> bool" where
  "restore_matches sys a now f m i it \<longleftrightarrow> sealed (runtime.truncate sys) m \<and> items m = [i] \<and> au_targets a = [bi_target i]
     \<and> bm_host_id m = au_host_id a \<and> backup_id m = au_backup_id a \<and> manifest_hash m = au_manifest_hash a
     \<and> (\<exists>x. au_current a = [x] \<and> observed sys f i x) \<and> verified_item sys i it \<and> now < au_expires_at a
     \<and> authorization_with_hash (runtime.truncate sys) a = Inr a"

context restore_source begin

lemma ready_keeps [keeping]: "keeps S (restore_ready sys iv get_items a now)"
  unfolding restore_ready_def checkW_def
  by (intro keeping list_keeps observe_keeps items_keep) (auto intro!: keeping split: list.split)

lemma ready_Inr:
  assumes "restore_ready sys iv get_items a now w = (Inr it, w')"
  shows "fs w' = fs w \<and> (\<exists>m i. restore_matches sys a now (fs w) m i it)"
proof -
  obtain w1 ms w2 m w3 w4 its w5 where c: "fs w1 = fs w"
    and e: "authorization_with_hash (runtime.truncate sys) a = Inr a" "now < au_expires_at a" "length (au_targets a) = 1"
    and l: "list_strict iv (au_host_id a) w1 = (Inr ms, w2)"
    and b: "restore_binding a (find (\<lambda>m. backup_id m = au_backup_id a) ms) = Inr m"
    and o1: "observe_targets iv m w2 = (Inr (au_current a), w3)"
    and gi: "get_items m w3 = (Inr its, w4)"
    and k: "(case its of [it] \<Rightarrow> bindW (checkW ([ri_target it] = au_targets a) ''restore_binding_mismatch'') (\<lambda>_. retW it)
       | _ \<Rightarrow> raiseW (AdapterError ''restore_binding_mismatch'')) w5 = (Inr it, w')"
    using assms
    unfolding restore_ready_def bindW_Inr checkW_def authorization_sealed_def
    by (auto simp: bindR_eq_Inr dest!: check_cancel_fs)
  have "its = [it]" using k by (auto simp: bindW_Inr checkW_def split: list.splits)
  then have g: "get_items m w3 = (Inr [it], w4)" using gi by simp
  from b have m: "find (\<lambda>m. backup_id m = au_backup_id a) ms = Some m" "bm_host_id m = au_host_id a" "backup_id m = au_backup_id a"
      "manifest_hash m = au_manifest_hash a" "map bi_target (items m) = au_targets a"
    by (auto simp: restore_binding_def split: option.splits if_splits)
  from m(1) have "m \<in> set ms" by (auto simp: find_Some_iff)
  with lists [OF l] have s: "sealed (runtime.truncate sys) m" by blast
  obtain i where i: "items m = [i]" using m(5) e(3) by (auto simp: m(5) [symmetric] length_Suc_conv)
  have f2: "fs w2 = fs w" using keepsD [OF list_keeps l] c by auto
  from observes [OF o1] obtain x where x: "au_current a = [x]" "observed sys (fs w) i x"
    unfolding i f2 by (auto simp: list_all2_Cons1)
  from hands [OF g] have v: "verified_item sys i it" by (simp add: i)
  have "fs w' = fs w" using keepsD [OF ready_keeps assms] by auto
  then show ?thesis using s i m e x v by (auto simp: restore_matches_def)
qed

lemma execute_outcome:
  assumes "execute_restore sys iv get_items a given w = (r, w')"
  shows "(fs w' = fs w \<and> (\<exists>e. r = Inl e)) \<or>
    (\<exists>now m i it. restore_matches sys a now (fs w) m i it
       \<and> fs w' = (fs w)(resolved_target sys (bi_target i) := restored_node sys it)
       \<and> (r = Inl OSError \<or> (\<exists>x. r = Inr x \<and> lr_target x = bi_target i \<and> lr_completed_at x = now \<and> lr_authorization_hash x = au_hash a)))"
proof -
  obtain n w0 where n: "(case given of Some t \<Rightarrow> retW t | None \<Rightarrow> utc_now) w = (Inr n, w0)" "fs w0 = fs w"
    by (cases given; cases "clock w") (auto simp: utc_now_def)
  obtain y w1 where y: "restore_ready sys iv get_items a n w0 = (y, w1)" by (cases "restore_ready sys iv get_items a n w0")
  show ?thesis
  proof (cases y)
    case (Inl e)
    have "fs w1 = fs w" using keepsD [OF ready_keeps y] n(2) by auto
    then show ?thesis using assms n y Inl by (auto simp: execute_restore_def bindW_def)
  next
    case (Inr it)
    from ready_Inr [OF y [unfolded Inr]] n(2) obtain m i where f: "fs w1 = fs w" and m: "restore_matches sys a n (fs w) m i it"
      by auto
    have t: "ri_target it = bi_target i" using m by (simp add: restore_matches_def verified_item_def)
    obtain z w2 where z: "put_item sys it w1 = (z, w2)" by (cases "put_item sys it w1")
    have r: "w' = w2" "r = (case z of Inl e \<Rightarrow> Inl e | Inr _ \<Rightarrow> Inr \<lparr>lr_state = RESTORE_COMMITTED, lr_host_id = au_host_id a, lr_backup_id = au_backup_id a,
           lr_manifest_hash = au_manifest_hash a, lr_authorization_hash = au_hash a, lr_target = ri_target it, lr_completed_at = n\<rparr>)"
      using assms n y Inr z by (auto simp: execute_restore_def bindW_def split: sum.splits)
    from put_item_outcome [OF z] consider (none) e where "fs w2 = fs w1" "z = Inl e"
      | (put) "fs w2 = (fs w1)(resolved_target sys (ri_target it) := restored_node sys it)" "z = Inr () \<or> z = Inl OSError" by blast
    then show ?thesis
    proof cases
      case none
      then show ?thesis using r f by simp
    next
      case put
      then have "fs w' = (fs w)(resolved_target sys (bi_target i) := restored_node sys it)" using r(1) f t by simp
      moreover have "r = Inl OSError \<or> (\<exists>x. r = Inr x \<and> lr_target x = bi_target i \<and> lr_completed_at x = n \<and> lr_authorization_hash x = au_hash a)"
        using put(2) r(2) t by auto
      ultimately show ?thesis using m by blast
    qed
  qed
qed

lemma execute_keeps [keeping]:
  assumes "\<not> S (resolved_target sys (hd (au_targets a)))"
  shows "keeps S (execute_restore sys iv get_items a given)"
  unfolding keeps_def
proof (intro allI impI)
  fix w p assume "S p"
  obtain r w' where e: "execute_restore sys iv get_items a given w = (r, w')" by (cases "execute_restore sys iv get_items a given w")
  from execute_outcome [OF e] show "fs (snd (execute_restore sys iv get_items a given w)) p = fs w p"
    using assms \<open>S p\<close> by (auto simp: e restore_matches_def)
qed

lemma prepare_Inr:
  assumes "prepare_restore rt iv hid bid p a now w = (Inr auth, w')"
  shows "\<exists>m. sealed (runtime.truncate sys) m \<and> preview_matches hid bid p m \<and> manifest_hash m = au_manifest_hash auth
    \<and> list_all2 (observed sys (fs w)) (items m) (au_current auth) \<and> preview_with_hash rt p = Inr p \<and> restore_valid_for a p now
    \<and> au_host_id auth = hid \<and> au_backup_id auth = bid \<and> au_expires_at auth = min (pv_expires_at p) (ra_expires_at a)"
proof -
  obtain w1 ms w2 w3 where c: "fs w1 = fs w" and ok: "approval_check rt hid bid p a now = Inr True"
    and l: "list_strict iv hid w1 = (Inr ms, w2)" and c3: "fs w3 = fs w2"
    and k: "(case filter (\<lambda>m. backup_id m = bid) ms of
       [] \<Rightarrow> raiseW (AdapterError ''backup_not_found'')
     | m # _ \<Rightarrow>
         bindW (guardW (preview_matches hid bid p m) (AdapterError ''restore_binding_mismatch'')) (\<lambda>_.
         bindW (observe_targets iv m) (\<lambda>obs.
         bindW (liftR (authorization_with_hash rt (draft_authorization hid bid p a now m obs))) (\<lambda>prepared.
         bindW (guardW (now < au_expires_at prepared) (AdapterError ''stale_restore_approval'')) (\<lambda>_.
         retW prepared))))) w3 = (Inr auth, w')"
    using assms unfolding prepare_restore_def bindW_Inr
    by (auto dest!: check_cancel_fs split: if_splits)
  obtain m rest where f: "filter (\<lambda>m. backup_id m = bid) ms = m # rest"
    using k by (cases "filter (\<lambda>m. backup_id m = bid) ms") auto
  then have "m \<in> set (filter (\<lambda>m. backup_id m = bid) ms)" by simp
  then have m: "m \<in> set ms" by simp
  have f2: "fs w3 = fs w" using keepsD [OF list_keeps l] c c3 by auto
  obtain obs w4 where o1: "observe_targets iv m w3 = (Inr obs, w4)" and pm: "preview_matches hid bid p m"
    and a: "authorization_with_hash rt (draft_authorization hid bid p a now m obs) = Inr auth"
    using k unfolding f by (auto simp: bindW_Inr)
  from observes [OF o1] have "list_all2 (observed sys (fs w)) (items m) obs" by (simp add: f2)
  moreover have "au_current auth = obs" "au_manifest_hash auth = manifest_hash m" "au_host_id auth = hid" "au_backup_id auth = bid"
      "au_expires_at auth = min (pv_expires_at p) (ra_expires_at a)"
    using a by (auto simp: authorization_with_hash_def draft_authorization_def Let_def bindR_eq_Inr)
  ultimately show ?thesis using lists [OF l m] pm ok
    by (intro exI [of _ m]) (auto simp: approval_check_def bindR_eq_Inr)
qed

end

section \<open>The local store provides it\<close>

lemma observe_target_keeps [keeping]: "keeps S (observe_target sys bs i)"
  unfolding observe_target_def checkW_def by (auto intro!: keeping simp: keeps_liftR_bind)

lemma plaintext_keeps [keeping]: "keeps S (restored_plaintext sys bs m base i)"
  unfolding restored_plaintext_def read_through_def by (auto intro!: keeping split: option.split node.split)

lemma mapW_observe:
  assumes "mapW (observe_target sys bs) is w = (Inr obs, w')"
  shows "list_all2 (observed sys (fs w)) is obs"
proof -
  note k = observe_target_keeps
  have o: "observed sys (fs w1) i x" if got: "observe_target sys bs i w1 = (Inr x, w2)" for i x w1 w2
  proof -
    let ?p = "resolved_target sys (bi_target i)"
    from got obtain p where p: "checked_target sys (bs_allowed bs) (bi_target i) = Inr p" by (auto simp: observe_target_def bindW_Inr)
    then have q: "p = ?p" by (simp add: checked_target_Inr)
    show ?thesis
    proof (cases "fs w1 ?p")
      case None
      then show ?thesis using got p q by (auto simp: observe_target_def bindW_Inr observed_def)
    next
      case (Some n)
      obtain wa c where r: "read_bytes p wa = (Inr c, w2)" and f: "fs wa = fs w1" "is_file_node (Some n)"
        and x: "x = \<lparr>ob_target = p, ob_exists = True, ob_sha256 = Some (sha256 sys c)\<rparr>"
        using got p q Some by (auto simp: observe_target_def bindW_Inr checkW_def dest!: os_step_fs split: if_splits)
      from read_bytes_Inr [OF r] show ?thesis using f x q Some by (auto simp: observed_def)
    qed
  qed
  have "list_all2 (\<lambda>x y. \<exists>w1 w2. fs w1 = fs w \<and> observe_target sys bs x w1 = (Inr y, w2)) is obs"
    using mapW_keeping [OF k assms] by blast
  then show ?thesis by (rule list_all2_mono) (metis o)
qed

lemma mapW_plaintext:
  assumes "mapW (restored_plaintext sys bs m base) is w = (Inr its, w')"
  shows "list_all2 (verified_item sys) is its"
proof -
  note k = plaintext_keeps
  have o: "verified_item sys i it" if "restored_plaintext sys bs m base i w1 = (Inr it, w2)" for i it w1 w2
    using that by (cases "existed i"; cases "content_ref i") (auto simp: restored_plaintext_def bindW_Inr verified_item_def)
  have "list_all2 (\<lambda>x y. \<exists>w1 w2. fs w1 = fs w \<and> restored_plaintext sys bs m base x w1 = (Inr y, w2)) is its"
    using mapW_keeping [OF k assms] by blast
  then show ?thesis by (rule list_all2_mono) (metis o)
qed

lemma strict_listing_sealed:
  assumes "list_manifests_strict sys bs names hid w = (Inr ms, w')" and "m \<in> set ms"
  shows "sealed (runtime.truncate sys) m \<and> bm_host_id m = hid"
proof -
  obtain d w1 w2 ms' where m: "mapW (\<lambda>x. strict_entry sys bs hid (path_join d x)) names w1 = (Inr ms', w2)" and ms: "set ms = set ms'"
    using assms by (auto simp: list_manifests_strict_def bindW_Inr newest_first_def split: if_splits)
  have "list_all2 (\<lambda>x y. \<exists>v v'. fs v = fs w1 \<and> strict_entry sys bs hid (path_join d x) v = (Inr y, v')) names ms'"
    using mapW_keeping [OF _ m] by (auto intro: keeping)
  then obtain x v v' where "strict_entry sys bs hid (path_join d x) v = (Inr m, v')"
    using assms(2) ms by (auto simp: list_all2_conv_all_nth in_set_conv_nth)
  then obtain v1 v2 where r: "read_manifest sys (path_join d x) hid v1 = (Inr m, v2)" by (auto simp: strict_entry_def bindW_Inr)
  from read_manifest_Inr(2,5) [OF r] show ?thesis by (auto simp: sealed_def)
qed

interpretation local_source: restore_source sys "local_inventory sys bs names" "backup_restore_items sys bs" for sys bs names
proof
  show "keeps S (list_strict (local_inventory sys bs names) h)" for S h
    unfolding local_inventory_def by (simp add: list_manifests_strict_def) (auto intro!: keeping keeps_liftR_bind)
  show "keeps S (observe_targets (local_inventory sys bs names) m)" for S m
    unfolding local_inventory_def
    by (simp add: observe_restore_targets_def) (intro keeping)
  show "keeps S (backup_restore_items sys bs m)" for S m
    unfolding backup_restore_items_def by (intro keeping)
  show "sealed (runtime.truncate sys) m \<and> bm_host_id m = h"
    if "list_strict (local_inventory sys bs names) h w = (Inr ms, w')" "m \<in> set ms" for h w ms w' m
    using that strict_listing_sealed by (simp add: local_inventory_def)
  show "list_all2 (observed sys (fs w)) (items m) obs" if "observe_targets (local_inventory sys bs names) m w = (Inr obs, w')" for m w obs w'
    using that mapW_observe by (simp add: local_inventory_def observe_restore_targets_def)
  show "list_all2 (verified_item sys) (rev (items m)) its" if "backup_restore_items sys bs m w = (Inr its, w')" for m w its w'
    using that mapW_plaintext by (auto simp: backup_restore_items_def bindW_Inr)
qed

section \<open>What was approved is what is restored\<close>

text \<open>A target as the preview shows it, in a file of the user's.\<close>

definition as_previewed :: "system \<Rightarrow> preview_item \<Rightarrow> node option \<Rightarrow> bool" where
  "as_previewed sys i n \<longleftrightarrow> (if pi_existed i
     then \<exists>c. n = Some (RegFile c (mode_or_default (pi_mode i)) (euid sys) (egid sys)) \<and> pi_sha256 i = Some (sha256 sys c)
     else n = None)"

text \<open>
  Property C25. A restore puts back what the user saw and approved, over what the user saw, or nothing at all.  If it
  changed any file, then the preview had one item and neither it nor the approval had expired; the target still held
  the content, or the absence, it had when the restore was authorised; it now is as the preview showed the backup;
  and no other file changed.  It answers with an error only where it changed nothing, or where the last sync of the
  directory failed.
\<close>

theorem restore_as_approved:
  assumes "collision_free (sha256 sys)" and "clock_ok (runtime.truncate sys)"
    and "prepare_restore (runtime.truncate sys) (local_inventory sys bs names) hid bid p a t w0 = (Inr auth, w1)"
    and "execute_restore sys (local_inventory sys bs names') (backup_restore_items sys bs) auth given w = (r, w')"
  shows "(fs w' = fs w \<and> (\<exists>e. r = Inl e)) \<or>
    (\<exists>i now q. pv_items p = [i] \<and> now < pv_expires_at p \<and> now < ra_expires_at a \<and> q = resolved_target sys (pi_target i)
       \<and> map_option node_content (fs w q) = map_option node_content (fs w0 q)
       \<and> as_previewed sys i (fs w' q) \<and> (\<forall>p. p \<noteq> q \<longrightarrow> fs w' p = fs w p)
       \<and> (r = Inl OSError \<or> (\<exists>x. r = Inr x \<and> lr_target x = pi_target i \<and> lr_completed_at x = now)))"
proof -
  obtain m where m: "sealed (runtime.truncate sys) m" "preview_matches hid bid p m" "manifest_hash m = au_manifest_hash auth"
    and o0: "list_all2 (observed sys (fs w0)) (items m) (au_current auth)"
    and e: "au_expires_at auth = min (pv_expires_at p) (ra_expires_at a)"
    using local_source.prepare_Inr [OF assms(3)] by blast
  from local_source.execute_outcome [OF assms(4)] show ?thesis
  proof (rule disjE)
    assume "\<exists>now n i it. restore_matches sys auth now (fs w) n i it
       \<and> fs w' = (fs w)(resolved_target sys (bi_target i) := restored_node sys it)
       \<and> (r = Inl OSError \<or> (\<exists>x. r = Inr x \<and> lr_target x = bi_target i \<and> lr_completed_at x = now \<and> lr_authorization_hash x = au_hash auth))"
    then obtain now n i it where n: "restore_matches sys auth now (fs w) n i it"
      and w': "fs w' = (fs w)(resolved_target sys (bi_target i) := restored_node sys it)"
      and r: "r = Inl OSError \<or> (\<exists>x. r = Inr x \<and> lr_target x = bi_target i \<and> lr_completed_at x = now)" by blast
    from n m(3) have "sealed (runtime.truncate sys) n" "manifest_hash n = manifest_hash m" by (simp_all add: restore_matches_def)
    then have "n = m" using manifest_binds [of "runtime.truncate sys"] assms(1,2) m(1) by (auto simp: sealed_def runtime.defs)
    with n m(2) have i: "items m = [i]" "pv_items p = [preview_item_of i]" by (auto simp: restore_matches_def preview_matches_def)
    let ?q = "resolved_target sys (bi_target i)"
    obtain x where x: "au_current auth = [x]" "observed sys (fs w) i x" "observed sys (fs w0) i x"
      using n o0 by (auto simp: restore_matches_def i(1))
    then have "map_option (\<lambda>n. sha256 sys (node_content n)) (fs w ?q) = map_option (\<lambda>n. sha256 sys (node_content n)) (fs w0 ?q)"
      by (simp add: observed_def)
    then have "map_option node_content (fs w ?q) = map_option node_content (fs w0 ?q)"
      using assms(1) by (cases "fs w ?q"; cases "fs w0 ?q") (auto simp: collision_free_def)
    moreover have "as_previewed sys (preview_item_of i) (fs w' ?q)"
      using n by (auto simp: w' restore_matches_def verified_item_def restored_node_def as_previewed_def preview_item_of_def)
    moreover have "now < pv_expires_at p" "now < ra_expires_at a" using n e by (auto simp: restore_matches_def)
    ultimately show ?thesis using i(2) w' r
      by (intro disjI2 exI [of _ "preview_item_of i"] exI [of _ now] exI [of _ ?q]) (auto simp: preview_item_of_def)
  qed blast
qed

section \<open>An authorisation is used once\<close>

text \<open>The files of an authorisation, by its hash.\<close>

definition attempt_file :: "system \<Rightarrow> str \<Rightarrow> str \<Rightarrow> str" where
  "attempt_file sys root identity = resolved_target sys (path_join root (identity @ lit ''.'' @ lit ''attempt'' @ lit ''.json''))"

definition result_file :: "system \<Rightarrow> str \<Rightarrow> str \<Rightarrow> str" where
  "result_file sys root identity = resolved_target sys (path_join root (identity @ lit ''.'' @ lit ''result'' @ lit ''.json''))"

lemma prepare_store_keeps [keeping]: "\<not> S (resolved_target sys root) \<Longrightarrow> keeps S (prepare_store sys root)"
  unfolding prepare_store_def private_root_def by (intro keeping)

lemma read_record_keeps [keeping]: "keeps S (read_record sys root p)"
  unfolding read_record_def private_root_def by (intro keeping)

lemma load_keeps_files [keeping]: "keeps S (load_attempt sys root h)" "keeps S (load_evidence sys root h)"
  unfolding load_attempt_def load_evidence_def by (intro keeping)+

lemma with_hash_Inr:
  "attempt_with_hash rt x = Inr v \<Longrightarrow> rx_authorization_hash v = rx_authorization_hash x"
  "evidence_with_hash rt e = Inr f \<Longrightarrow> f = e\<lparr>re_hash := re_hash f\<rparr>"
  by (auto simp: attempt_with_hash_def evidence_with_hash_def Let_def bindR_eq_Inr)

lemma restore_path_Inr:
  "restore_path root h (lit ''attempt'') = Inr p \<Longrightarrow> resolved_target sys p = attempt_file sys root h"
  "restore_path root h (lit ''result'') = Inr p \<Longrightarrow> resolved_target sys p = result_file sys root h"
  by (auto simp: restore_path_def attempt_file_def result_file_def simp del: lit_simps split: if_splits)

lemma save_keeps [keeping]:
  "\<not> S (resolved_target sys root) \<Longrightarrow> \<not> S (attempt_file sys root (rx_authorization_hash x)) \<Longrightarrow> keeps S (save_attempt sys root x)"
  "\<not> S (resolved_target sys root) \<Longrightarrow> \<not> S (result_file sys root (re_authorization_hash e)) \<Longrightarrow> keeps S (save_evidence sys root e)"
  unfolding save_attempt_def save_evidence_def
  by (intro keeps_liftR_bind keeping;
    force dest: restore_path_Inr(1) [of _ _ _ sys] restore_path_Inr(2) [of _ _ _ sys] with_hash_Inr(1) arg_cong [OF with_hash_Inr(2), of _ _ _ re_authorization_hash]
      simp del: lit_simps)+

lemma load_attempt_Inr:
  assumes "load_attempt sys root h w = (Inr x, w')"
  shows "fs w' = fs w \<and> rx_authorization_hash x = h \<and> attempt_with_hash (runtime.truncate sys) x = Inr x
    \<and> (\<exists>b m u g. fs w (attempt_file sys root h) = Some (RegFile b m u g) \<and> decode_attempt (runtime.truncate sys) h b = Inr x)"
proof -
  obtain p b w1 where p: "restore_path root h (lit ''attempt'') = Inr p" and r: "read_record sys root p w = (Inr b, w1)"
    and d: "decode_attempt (runtime.truncate sys) h b = Inr x"
    using assms by (auto simp: load_attempt_def bindW_Inr simp del: lit_simps)
  have "\<exists>m u g. fs w (resolved_target sys p) = Some (RegFile b m u g)"
    using r by (auto simp: read_record_def private_root_def bindW_Inr checkW_def entry_at_def stat_dir_def dest!: os_step_fs read_bytes_Inr)
  moreover have "rx_authorization_hash x = h \<and> attempt_with_hash (runtime.truncate sys) x = Inr x"
    using d by (auto simp: decode_attempt_def Let_def bindR_eq_Inr split: prod.splits if_splits)
  moreover have "fs w' = fs w" using keepsD [OF load_keeps_files(1) assms] by auto
  ultimately show ?thesis using d by (auto simp: restore_path_Inr(1) [OF p])
qed

lemma load_evidence_Inr:
  assumes "load_evidence sys root h w = (Inr x, w')"
  shows "fs w' = fs w \<and> re_authorization_hash x = h \<and> evidence_with_hash (runtime.truncate sys) x = Inr x
    \<and> (\<exists>b m u g. fs w (result_file sys root h) = Some (RegFile b m u g) \<and> decode_evidence (runtime.truncate sys) h b = Inr x)"
proof -
  obtain p b w1 where p: "restore_path root h (lit ''result'') = Inr p" and r: "read_record sys root p w = (Inr b, w1)"
    and d: "decode_evidence (runtime.truncate sys) h b = Inr x"
    using assms by (auto simp: load_evidence_def bindW_Inr simp del: lit_simps)
  have "\<exists>m u g. fs w (resolved_target sys p) = Some (RegFile b m u g)"
    using r by (auto simp: read_record_def private_root_def bindW_Inr checkW_def entry_at_def stat_dir_def dest!: os_step_fs read_bytes_Inr)
  moreover have "re_authorization_hash x = h \<and> evidence_with_hash (runtime.truncate sys) x = Inr x"
    using d by (auto simp: decode_evidence_def Let_def bindR_eq_Inr split: prod.splits if_splits)
  moreover have "fs w' = fs w" using keepsD [OF load_keeps_files(2) assms] by auto
  ultimately show ?thesis using d by (auto simp: restore_path_Inr(2) [OF p])
qed

text \<open>Claiming: a claim that is there is not written over, and one that succeeds was not there and now is.\<close>

lemma save_attempt_outcome:
  assumes "save_attempt sys root x w = (r, w')" and "attempt_file sys root (rx_authorization_hash x) \<noteq> resolved_target sys root"
  shows "(fs w (attempt_file sys root (rx_authorization_hash x)) \<noteq> None \<longrightarrow> (\<exists>e. r = Inl e) \<and> (\<forall>p. p \<noteq> resolved_target sys root \<longrightarrow> fs w' p = fs w p))
    \<and> (\<forall>y. r = Inr y \<longrightarrow> fs w (attempt_file sys root (rx_authorization_hash x)) = None
         \<and> fs w' (attempt_file sys root (rx_authorization_hash x)) \<noteq> None \<and> rx_authorization_hash y = rx_authorization_hash x)"
proof (cases "attempt_with_hash (runtime.truncate sys) x")
  case (Inl e)
  then show ?thesis using assms(1) by (auto simp: save_attempt_def bindW_def) metis
next
  case (Inr v)
  note h = with_hash_Inr(1) [OF Inr]
  show ?thesis
  proof (cases "restore_path root (rx_authorization_hash x) (lit ''attempt'')")
    case (Inl e)
    then show ?thesis using assms(1) Inr h by (auto simp: save_attempt_def bindW_def simp del: lit_simps)
  next
    case p: (Inr p)
    note q = restore_path_Inr(1) [OF p, of sys]
    obtain y w1 where y: "prepare_store sys root w = (y, w1)" by (cases "prepare_store sys root w")
    have f: "fs w1 q = fs w q" if "q \<noteq> resolved_target sys root" for q
      using keepsD [OF prepare_store_keeps [of "\<lambda>q. q \<noteq> resolved_target sys root"] y] that by simp
    show ?thesis
    proof (cases y)
      case (Inl e)
      then show ?thesis using assms(1) Inr h p y f by (auto simp: save_attempt_def bindW_def simp del: lit_simps)
    next
      case (Inr u)
      have run: "(if fs w1 (resolved_target sys p) \<noteq> None then (Inl (AdapterError ''restore_authorization_consumed''), w1)
          else bindW (liftR (canonical_bytes (attempt_json (runtime.truncate sys) v))) (\<lambda>b.
             bindW (atomic_write sys (resolved_target sys p) b 384) (\<lambda>_. load_attempt sys root (rx_authorization_hash v))) w1) = (r, w')"
        using assms(1) \<open>attempt_with_hash (runtime.truncate sys) x = Inr v\<close> h p y Inr
        by (auto simp: save_attempt_def bindW_def entry_at_def checkW_def guardW_def simp del: lit_simps)
      have "fs w1 (attempt_file sys root (rx_authorization_hash x)) = fs w (attempt_file sys root (rx_authorization_hash x))"
        by (rule f [OF assms(2)])
      then show ?thesis using run q h f
        by (auto simp: bindW_Inr dest!: load_attempt_Inr split: if_splits)
    qed
  qed
qed

lemma plainly_keeps [keeping]: "keeps S m \<Longrightarrow> keeps S (plainly m)"
  unfolding plainly_def by (intro keeping)

lemma after_keeps [keeping]:
  assumes "\<not> S (resolved_target sys root)" and "\<not> S (result_file sys root (re_authorization_hash e))"
  shows "keeps S (persist_evidence sys root e)"
  unfolding persist_evidence_def using assms by (intro keeping)

lemma evidence_of_fields:
  assumes "evidence_of rt x s c now = Inr e"
  shows "re_authorization_hash e = rx_authorization_hash x" "re_state e = s" "re_error_code e = c" "re_target e = rx_target x"
    "re_attempt_hash e = rx_hash x"
  using assms by (auto simp: evidence_of_def evidence_with_hash_def Let_def bindR_eq_Inr)

lemma failed_keeps [keeping]:
  assumes "\<not> S (resolved_target sys root)" and "\<not> S (result_file sys root (rx_authorization_hash x))"
  shows "keeps S (restore_failed sys root x e)"
proof -
  have k: "keeps S (bindW (plainly (evidence_now sys x s c)) (\<lambda>ev. bindW (persist_evidence sys root ev) f))"
    if "\<And>y. keeps S (f y)" for s c and f :: "restore_evidence \<Rightarrow> (restore_failure, restore_evidence) run"
  proof (rule keeps_bind_result)
    show "keeps S (plainly (evidence_now sys x s c))" unfolding evidence_now_def by (intro keeping)
    fix w ev w' assume "plainly (evidence_now sys x s c) w = (Inr ev, w')"
    then have "re_authorization_hash ev = rx_authorization_hash x"
      by (auto simp: plainly_def tryW_translate evidence_now_def bindW_Inr evidence_of_fields)
    then show "keeps S (bindW (persist_evidence sys root ev) f)" using assms that by (intro keeping) auto
  qed
  show ?thesis unfolding restore_failed_def by (intro keeps_if k keeps_pure)
qed

lemma untold_keeps [keeping]:
  assumes "\<not> S (resolved_target sys root)" and "\<not> S (result_file sys root (re_authorization_hash ev))"
  shows "keeps S (restore_untold sys root ev e)"
proof -
  have h: "re_authorization_hash u = re_authorization_hash ev"
    if "evidence_with_hash rt (ev\<lparr>re_state := s, re_error_code := c, re_hash := []\<rparr>) = Inr u" for rt s c u
    using that by (auto simp: evidence_with_hash_def Let_def bindR_eq_Inr)
  have k: "keeps S (bindW (plainly (liftR (evidence_with_hash rt (ev\<lparr>re_state := s, re_error_code := c, re_hash := []\<rparr>)))) (\<lambda>u.
      bindW (persist_evidence sys root u) (\<lambda>_. raiseW (g u))))" for rt s c and g :: "restore_evidence \<Rightarrow> restore_failure"
    by (rule keeps_bind_result) (use assms h in \<open>auto intro!: keeping simp: plainly_def tryW_translate\<close>)
  show ?thesis unfolding restore_untold_def by (intro keeps_if k keeps_pure)
qed

text \<open>What the files of a restore must be: four different ones.\<close>

definition restore_apart :: "system \<Rightarrow> str \<Rightarrow> authorization \<Rightarrow> bool" where
  "restore_apart sys root a \<longleftrightarrow> distinct [attempt_file sys root (au_hash a), result_file sys root (au_hash a), resolved_target sys root,
     resolved_target sys (hd (au_targets a))]"

definition quiet_log :: "system \<Rightarrow> str \<Rightarrow> authorization \<Rightarrow> (str \<Rightarrow> str \<Rightarrow> (str \<times> json) list \<Rightarrow> unit io) \<Rightarrow> bool" where
  "quiet_log sys root a log \<longleftrightarrow> (\<forall>ev c k. keeps (\<lambda>q. q = attempt_file sys root (au_hash a) \<or> q = resolved_target sys (hd (au_targets a))) (log ev c k))"

lemma claimed_keeps:
  assumes "restore_apart sys root a" and "quiet_log sys root a log" and "rx_authorization_hash x = au_hash a"
  shows "keeps (\<lambda>q. q = attempt_file sys root (au_hash a))
    (restore_claimed sys (local_inventory sys bs names) (backup_restore_items sys bs) root log a x)"
proof -
  let ?S = "\<lambda>q. q = attempt_file sys root (au_hash a)"
  have l: "keeps ?S (log ev c k)" for ev c k
    using assms(2) unfolding quiet_log_def by (blast intro: keeps_mono)
  have n: "\<not> ?S (resolved_target sys root)" "\<not> ?S (result_file sys root (au_hash a))" "\<not> ?S (resolved_target sys (hd (au_targets a)))"
    using assms(1) by (auto simp: restore_apart_def)
  have told: "keeps ?S (bindW (plainly (evidence_now sys x RX_COMMITTED None)) (\<lambda>ev.
         bindW (tryW (log c1 c2 c3) (restore_untold sys root ev)) (\<lambda>_. persist_evidence sys root ev)))" for c1 c2 c3
  proof (rule keeps_bind_result)
    show "keeps ?S (plainly (evidence_now sys x RX_COMMITTED None))" unfolding evidence_now_def by (intro keeping)
    fix w ev w' assume "plainly (evidence_now sys x RX_COMMITTED None) w = (Inr ev, w')"
    then have "re_authorization_hash ev = au_hash a"
      by (auto simp: plainly_def tryW_translate evidence_now_def bindW_Inr evidence_of_fields assms(3))
    then show "keeps ?S (bindW (tryW (log c1 c2 c3) (restore_untold sys root ev)) (\<lambda>_. persist_evidence sys root ev))"
      using n l by (intro keeping) auto
  qed
  have f: "keeps ?S (restore_failed sys root x e)" for e
    using n assms(3) by (intro failed_keeps) auto
  have e: "keeps ?S (execute_restore sys (local_inventory sys bs names) (backup_restore_items sys bs) a None)"
    by (rule local_source.execute_keeps) (use n in auto)
  show ?thesis unfolding restore_claimed_def
    by (intro keeps_bind plainly_keeps keeps_try l e keeps_pure) (auto split: sum.split intro: f told)
qed

text \<open>What is kept is what was to be kept: the records read back.\<close>

lemma parse_state_value [simp]: "parse_execution_state (execution_state_value s) = Inr s"
  by (cases s) (simp_all add: parse_execution_state_def)

lemma need_canon_text:
  assumes "distinct (map fst kvs)" and "map_of kvs k = Some (JStr s)"
  shows "need_text (canon (JObj kvs)) k = Inr x \<longleftrightarrow> s \<noteq> [] \<and> x = s"
  using assms(2) by (auto simp: need_text_def get_field_canon [OF assms(1)] simp del: canon.simps(2))

lemma parse_canon:
  assumes "clock_ok rt"
  shows "parse_attempt rt (canon (attempt_json rt v)) = Inr x \<Longrightarrow> x = v"
    and "parse_evidence rt (canon (evidence_json rt u)) = Inr e \<Longrightarrow> e = u"
proof -
  have t: "need_time rt (canon (JObj kvs)) k = Inr t" if "distinct (map fst kvs)" "map_of kvs k = Some (JStr (isoformat rt t))" for kvs k t
    using need_time_canon(1) [OF that] assms by (simp add: clock_ok_def)
  show "x = v" if "parse_attempt rt (canon (attempt_json rt v)) = Inr x"
    using that by (auto simp: parse_attempt_def attempt_json_def time_json_def bindR_eq_Inr t need_canon_text simp del: canon.simps(2))
  show "e = u" if "parse_evidence rt (canon (evidence_json rt u)) = Inr e"
    using that by (auto simp: parse_evidence_def evidence_json_def time_json_def bindR_eq_Inr t need_canon_text need_canon(2) simp del: canon.simps(2))
qed

lemma parsed_dumps:
  assumes "storable j" and "canonical_bytes j = Inr b" and "parsed parse bad b = Inr (v, x)"
  shows "parse (canon j) = Inr x"
proof -
  have "utf8_decode b = Inr (dumps False j)" using assms(2) utf8_decode_encode by (simp add: canonical_bytes_def)
  then show ?thesis using assms(3) jloads_dumps [OF assms(1)] by (auto simp: parsed_def bindR_eq_Inr split: sum.splits)
qed

lemma save_attempt_Inr:
  assumes "save_attempt sys root x w = (Inr y, w')" and "clock_ok (runtime.truncate sys)"
    and "\<And>v. attempt_with_hash (runtime.truncate sys) x = Inr v \<Longrightarrow> storable (attempt_json (runtime.truncate sys) v)"
  shows "attempt_with_hash (runtime.truncate sys) x = Inr y"
proof -
  let ?rt = "runtime.truncate sys"
  obtain v p b w1 w2 where v: "attempt_with_hash ?rt x = Inr v" and p: "restore_path root (rx_authorization_hash v) (lit ''attempt'') = Inr p"
    and b: "canonical_bytes (attempt_json ?rt v) = Inr b" and a: "atomic_write sys (resolved_target sys p) b 384 w1 = (Inr (), w2)"
    and l: "load_attempt sys root (rx_authorization_hash v) w2 = (Inr y, w')"
    using assms(1) by (auto simp: save_attempt_def bindW_Inr simp del: lit_simps)
  have "decode_attempt ?rt (rx_authorization_hash v) b = Inr y"
    using load_attempt_Inr [OF l] atomic_write_Inr [OF a] restore_path_Inr(1) [OF p, of sys] by auto
  then obtain z where "parsed (parse_attempt ?rt) (AdapterError ''invalid_restore_attempt'') b = Inr (z, y)"
    by (auto simp: decode_attempt_def Let_def bindR_eq_Inr split: if_splits)
  from parsed_dumps [OF assms(3) [OF v] b this] have "y = v" by (rule parse_canon(1) [OF assms(2)])
  then show ?thesis using v by simp
qed

lemma save_evidence_Inr:
  assumes "save_evidence sys root x w = (Inr y, w')" and "clock_ok (runtime.truncate sys)"
    and "\<And>v. evidence_with_hash (runtime.truncate sys) x = Inr v \<Longrightarrow> storable (evidence_json (runtime.truncate sys) v)"
  shows "evidence_with_hash (runtime.truncate sys) x = Inr y \<and> (\<exists>b. canonical_bytes (evidence_json (runtime.truncate sys) y) = Inr b
    \<and> fs w' (result_file sys root (re_authorization_hash x)) = Some (RegFile b 384 (euid sys) (egid sys)))"
proof -
  let ?rt = "runtime.truncate sys"
  obtain v p b w1 w2 where v: "evidence_with_hash ?rt x = Inr v" and p: "restore_path root (re_authorization_hash v) (lit ''result'') = Inr p"
    and b: "canonical_bytes (evidence_json ?rt v) = Inr b" and a: "atomic_write sys (resolved_target sys p) b 384 w1 = (Inr (), w2)"
    and l: "load_evidence sys root (re_authorization_hash v) w2 = (Inr y, w')"
    using assms(1) by (auto simp: save_evidence_def bindW_Inr simp del: lit_simps)
  have d: "decode_evidence ?rt (re_authorization_hash v) b = Inr y" and f: "fs w' = fs w2"
    using load_evidence_Inr [OF l] atomic_write_Inr [OF a] restore_path_Inr(2) [OF p, of sys] by auto
  then obtain z where "parsed (parse_evidence ?rt) (AdapterError ''invalid_restore_evidence'') b = Inr (z, y)"
    by (auto simp: decode_evidence_def Let_def bindR_eq_Inr split: if_splits)
  from parsed_dumps [OF assms(3) [OF v] b this] have y: "y = v" by (rule parse_canon(2) [OF assms(2)])
  have h: "re_authorization_hash v = re_authorization_hash x" by (subst with_hash_Inr(2) [OF v]) simp
  then show ?thesis using v b f atomic_write_Inr [OF a] restore_path_Inr(2) [OF p, of sys] by (simp add: y)
qed

text \<open>The records hold text only.\<close>

definition hex_digest :: "system \<Rightarrow> bool" where
  "hex_digest sys \<longleftrightarrow> (\<forall>b. is_digest (sha256 sys b))"

lemma truncate_sha [simp]: "sha256 (runtime.truncate sys) = sha256 sys"
  by (simp add: runtime.defs)

lemma attempt_storable:
  assumes "attempt_with_hash (runtime.truncate sys) (attempt_of a now) = Inr v"
    and "storable (authorization_json (runtime.truncate sys) a)" and "au_targets a \<noteq> []"
    and "clock_ok (runtime.truncate sys)" and "hex_digest sys"
  shows "storable (attempt_json (runtime.truncate sys) v)"
proof -
  have "code_points (sha256 sys b)" "code_points (isoformat (runtime.truncate sys) t)" for b t
    using assms(4,5) digest_code_points by (auto simp: hex_digest_def clock_ok_def stamp_ok_def text_ok_def)
  then show ?thesis using assms(1-3)
    by (auto simp: attempt_with_hash_def attempt_of_def attempt_json_def authorization_json_def time_json_def tuple_json_def bindR_eq_Inr Let_def
      code_points_def [symmetric])
qed

lemma evidence_storable:
  assumes "evidence_with_hash (runtime.truncate sys) e = Inr v" and "evidence_of (runtime.truncate sys) x s None now = Inr e"
    and "storable (attempt_json (runtime.truncate sys) x)" and "clock_ok (runtime.truncate sys)" and "hex_digest sys"
  shows "storable (evidence_json (runtime.truncate sys) v)"
proof -
  have "code_points (sha256 sys b)" "code_points (isoformat (runtime.truncate sys) t)" for b t
    using assms(4,5) digest_code_points by (auto simp: hex_digest_def clock_ok_def stamp_ok_def text_ok_def)
  moreover have "code_points (execution_state_value s)" by (cases s) simp_all
  ultimately show ?thesis using assms(1-3)
    by (auto simp: evidence_of_def evidence_with_hash_def evidence_json_def attempt_json_def time_json_def jopt_def bindR_eq_Inr Let_def
      code_points_def [symmetric])
qed

lemma evidence_sealed_again:
  assumes "evidence_of rt x s c now = Inr e"
  shows "evidence_with_hash rt e = Inr e"
  using assms by (auto simp: evidence_of_def evidence_with_hash_def Let_def bindR_eq_Inr)

lemma claimed_Inr:
  assumes "restore_claimed sys (local_inventory sys bs names) (backup_restore_items sys bs) root log a x v = (Inr ev, w')"
    and "restore_apart sys root a" and "quiet_log sys root a log" and "rx_authorization_hash x = au_hash a"
    and "storable (attempt_json (runtime.truncate sys) x)" and "clock_ok (runtime.truncate sys)" and "hex_digest sys"
  shows "re_state ev = RX_COMMITTED \<and> re_target ev = rx_target x \<and> re_attempt_hash ev = rx_hash x
    \<and> (\<exists>now f m i it. f (resolved_target sys (hd (au_targets a))) = fs v (resolved_target sys (hd (au_targets a)))
         \<and> restore_matches sys a now f m i it \<and> fs w' (resolved_target sys (hd (au_targets a))) = restored_node sys it)
    \<and> (\<exists>b. fs w' (result_file sys root (au_hash a)) = Some (RegFile b 384 (euid sys) (egid sys))
         \<and> canonical_bytes (evidence_json (runtime.truncate sys) ev) = Inr b)"
proof -
  let ?t = "resolved_target sys (hd (au_targets a))" and ?S = "\<lambda>q. q = resolved_target sys (hd (au_targets a))"
  obtain v1 v2 r v3 e v4 where l1: "log (lit ''restore.started'') (au_hash a) (restore_event (au_host_id a) (au_backup_id a) (au_hash a)) v = (Inr (), v1)"
    and x: "execute_restore sys (local_inventory sys bs names) (backup_restore_items sys bs) a None v1 = (Inr r, v2)"
    and e: "evidence_now sys x RX_COMMITTED None v2 = (Inr e, v3)"
    and l2: "tryW (log (lit ''restore.committed'') (au_hash a) (restore_event (lr_host_id r) (lr_backup_id r) (lr_authorization_hash r)))
             (restore_untold sys root e) v3 = (Inr (), v4)"
    and p: "persist_evidence sys root e v4 = (Inr ev, w')"
    using assms(1) by (auto simp: restore_claimed_def bindW_Inr plainly_def tryW_translate tryW_def bindW_def restore_failed_def
      split: prod.splits sum.splits if_splits)
  have l: "keeps ?S (log ev c k)" for ev c k
    using assms(3) unfolding quiet_log_def by (blast intro: keeps_mono)
  obtain now where eo: "evidence_of (runtime.truncate sys) x RX_COMMITTED None now = Inr e"
    using e by (auto simp: evidence_now_def bindW_Inr)
  note ef = evidence_of_fields [OF eo]
  have n: "\<not> ?S (resolved_target sys root)" "\<not> ?S (result_file sys root (re_authorization_hash e))"
    using assms(2,4) ef(1) by (auto simp: restore_apart_def)
  have "fs v1 ?t = fs v ?t" by (rule keepsD [OF l l1]) simp
  moreover obtain now' m i it where m: "restore_matches sys a now' (fs v1) m i it"
      "fs v2 = (fs v1)(resolved_target sys (bi_target i) := restored_node sys it)"
    using local_source.execute_outcome [OF x] by auto
  moreover have "fs w' ?t = fs v2 ?t"
  proof -
    have "keeps ?S (evidence_now sys x RX_COMMITTED None)" unfolding evidence_now_def by (intro keeping)
    from keepsD [OF this e] have "fs v3 ?t = fs v2 ?t" by simp
    moreover have "keeps ?S (tryW (log (lit ''restore.committed'') (au_hash a) (restore_event (lr_host_id r) (lr_backup_id r) (lr_authorization_hash r)))
             (restore_untold sys root e))" by (intro keeps_try l untold_keeps n)
    from keepsD [OF this l2] have "fs v4 ?t = fs v3 ?t" by simp
    moreover have "keeps ?S (persist_evidence sys root e)" by (rule after_keeps [OF n])
    from keepsD [OF this p] have "fs w' ?t = fs v4 ?t" by simp
    ultimately show ?thesis by simp
  qed
  moreover have "resolved_target sys (bi_target i) = ?t" using m(1) by (simp add: restore_matches_def)
  moreover have s: "save_evidence sys root e v4 = (Inr ev, w')" using p by (simp add: persist_evidence_def tryW_translate)
  note se = save_evidence_Inr [OF s assms(6) evidence_storable [OF _ eo assms(5,6,7)]]
  have "ev = e" using se evidence_sealed_again [OF eo] by simp
  ultimately show ?thesis using se ef assms(4) by (metis fun_upd_same)
qed

lemma coordinate_claims:
  assumes "coordinate_restore sys iv get_items root log a w = (answer, w')"
  shows "(fs w' = fs w \<and> (\<exists>e. answer = Inl e)) \<or>
    (authorization_with_hash (runtime.truncate sys) a = Inr a \<and> length (au_targets a) = 1 \<and>
      (\<exists>now r w0 w1. fs w0 = fs w \<and> save_attempt sys root (attempt_of a now) w0 = (r, w1) \<and>
        (case r of Inl e \<Rightarrow> w' = w1 \<and> answer = Inl (RestoreRaised e)
         | Inr x \<Rightarrow> restore_claimed sys iv get_items root log a x w1 = (answer, w'))))"
proof (cases "authorization_sealed (runtime.truncate sys) a")
  case (Inl e)
  then show ?thesis using assms by (auto simp: coordinate_restore_def bindW_def plainly_def tryW_def)
next
  case (Inr ok)
  show ?thesis
  proof (cases "ok \<and> length (au_targets a) = 1")
    case True
    obtain now w0 where u: "utc_now w = (Inr now, w0)" "fs w0 = fs w" by (cases "clock w") (auto simp: utc_now_def)
    obtain r w1 where s: "save_attempt sys root (attempt_of a now) w0 = (r, w1)" by (cases "save_attempt sys root (attempt_of a now) w0")
    have "case r of Inl e \<Rightarrow> w' = w1 \<and> answer = Inl (RestoreRaised e)
         | Inr x \<Rightarrow> restore_claimed sys iv get_items root log a x w1 = (answer, w')"
      using assms u(1) True Inr s
      by (auto simp: coordinate_restore_def bindW_def plainly_def tryW_def checkW_def guardW_def split: sum.splits)
    moreover have "authorization_with_hash (runtime.truncate sys) a = Inr a" "length (au_targets a) = 1"
      using True Inr by (auto simp: authorization_sealed_def bindR_eq_Inr)
    ultimately show ?thesis using u(2) s by blast
  next
    case False
    then show ?thesis using assms Inr
      by (auto simp: coordinate_restore_def bindW_def plainly_def tryW_def checkW_def guardW_def)
  qed
qed

text \<open>
  Property C26. An authorisation restores at most once.  Where its attempt is on record the coordinator refuses and changes
  nothing but the directory of the records; and a call that changed the target or answered with evidence found no
  attempt and left one, whatever else failed.
\<close>

theorem restore_at_most_once:
  fixes sys root a w
  defines "claim \<equiv> attempt_file sys root (au_hash a)" and "target \<equiv> resolved_target sys (hd (au_targets a))"
  assumes "coordinate_restore sys (local_inventory sys bs names) (backup_restore_items sys bs) root log a w = (answer, w')"
    and "restore_apart sys root a" and "quiet_log sys root a log"
  shows "(fs w claim \<noteq> None \<longrightarrow> (\<exists>e. answer = Inl e) \<and> (\<forall>p. p \<noteq> resolved_target sys root \<longrightarrow> fs w' p = fs w p))
    \<and> (fs w' target \<noteq> fs w target \<or> (\<exists>ev. answer = Inr ev) \<longrightarrow> fs w claim = None \<and> fs w' claim \<noteq> None)"
proof -
  from coordinate_claims [OF assms(3)] consider (none) "fs w' = fs w" "\<exists>e. answer = Inl e"
    | (claim) now r w0 w1 where "fs w0 = fs w" "save_attempt sys root (attempt_of a now) w0 = (r, w1)"
        "case r of Inl e \<Rightarrow> w' = w1 \<and> answer = Inl (RestoreRaised e)
         | Inr x \<Rightarrow> restore_claimed sys (local_inventory sys bs names) (backup_restore_items sys bs) root log a x w1 = (answer, w')"
    by blast
  then show ?thesis
  proof cases
    case none
    then show ?thesis by auto
  next
    case claim
    have h: "rx_authorization_hash (attempt_of a now) = au_hash a" by (simp add: attempt_of_def)
    have n: "claim \<noteq> resolved_target sys root" "target \<noteq> resolved_target sys root" "target \<noteq> claim"
      using assms(4) by (auto simp: restore_apart_def claim_def target_def)
    note o = save_attempt_outcome [OF claim(2), unfolded h, folded claim_def, OF n(1)]
    show ?thesis
    proof (cases r)
      case (Inl e)
      have "keeps (\<lambda>q. q = target) (save_attempt sys root (attempt_of a now))"
        using n by (intro save_keeps) (auto simp: h claim_def)
      from keepsD [OF this claim(2)] have "fs w1 target = fs w0 target" by simp
      then show ?thesis using claim(1,3) Inl o by auto
    next
      case (Inr x)
      have x: "rx_authorization_hash x = au_hash a" "fs w claim = None" "fs w1 claim \<noteq> None" using o Inr claim(1) by auto
      have c: "restore_claimed sys (local_inventory sys bs names) (backup_restore_items sys bs) root log a x w1 = (answer, w')"
        using claim(3) Inr by simp
      have "fs w' claim = fs w1 claim"
        using keepsD [OF claimed_keeps [OF assms(4,5) x(1)] c] by (simp add: claim_def)
      then show ?thesis using x(2,3) by simp
    qed
  qed
qed

text \<open>
  Property C27. An answer is evidence.  Where the coordinator answers, the restore is done: the evidence says
  COMMITTED for this authorisation, attempt and target, it is on disk in canonical form, and the target holds what the
  verified item of a listed, sealed backup, the one authorised, leaves there, over the state that was observed.
\<close>

theorem restore_evidence_true:
  assumes "coordinate_restore sys (local_inventory sys bs names) (backup_restore_items sys bs) root log a w = (Inr ev, w')"
    and "restore_apart sys root a" and "quiet_log sys root a log"
    and "storable (authorization_json (runtime.truncate sys) a)" and "clock_ok (runtime.truncate sys)" and "hex_digest sys"
  shows "re_state ev = RX_COMMITTED \<and> au_targets a = [re_target ev]
    \<and> (\<exists>now f m i it. f (resolved_target sys (re_target ev)) = fs w (resolved_target sys (re_target ev))
         \<and> restore_matches sys a now f m i it \<and> fs w' (resolved_target sys (re_target ev)) = restored_node sys it)
    \<and> (\<exists>b. fs w' (result_file sys root (au_hash a)) = Some (RegFile b 384 (euid sys) (egid sys))
         \<and> canonical_bytes (evidence_json (runtime.truncate sys) ev) = Inr b)"
proof -
  obtain now x w0 w1 where l: "length (au_targets a) = 1" and f: "fs w0 = fs w"
    and s: "save_attempt sys root (attempt_of a now) w0 = (Inr x, w1)"
    and c: "restore_claimed sys (local_inventory sys bs names) (backup_restore_items sys bs) root log a x w1 = (Inr ev, w')"
  proof -
    obtain now r w0 w1 where "length (au_targets a) = 1" "fs w0 = fs w" and s: "save_attempt sys root (attempt_of a now) w0 = (r, w1)"
      and k: "case r of Inl e \<Rightarrow> w' = w1 \<and> (Inr ev :: restore_failure + restore_evidence) = Inl (RestoreRaised e)
         | Inr x \<Rightarrow> restore_claimed sys (local_inventory sys bs names) (backup_restore_items sys bs) root log a x w1 = (Inr ev, w')"
      using coordinate_claims [OF assms(1)] by blast
    with that show thesis by (cases r) auto
  qed
  have t: "au_targets a = [hd (au_targets a)]" "au_targets a \<noteq> []" using l by (cases "au_targets a"; simp)+
  have x: "attempt_with_hash (runtime.truncate sys) (attempt_of a now) = Inr x"
    by (rule save_attempt_Inr [OF s assms(5)]) (rule attempt_storable [OF _ assms(4) t(2) assms(5,6)])
  then have xt: "rx_target x = hd (au_targets a)" "rx_authorization_hash x = au_hash a"
    by (auto simp: attempt_with_hash_def attempt_of_def Let_def bindR_eq_Inr)
  have "keeps (\<lambda>q. q = resolved_target sys (hd (au_targets a))) (save_attempt sys root (attempt_of a now))"
    using assms(2) by (intro save_keeps) (auto simp: restore_apart_def attempt_of_def)
  from keepsD [OF this s] have "fs w1 (resolved_target sys (hd (au_targets a))) = fs w (resolved_target sys (hd (au_targets a)))" by (simp add: f)
  moreover note claimed_Inr [OF c assms(2,3) xt(2) attempt_storable [OF x assms(4) t(2) assms(5,6)] assms(5,6)]
  ultimately show ?thesis using t(1) xt(1) by metis
qed

section \<open>What needs attention\<close>

lemma restore_entry_keeps [keeping]: "keeps S (restore_entry sys root name)"
  unfolding restore_entry_def by (auto intro!: keeping split: list.split)

lemma restore_view_keeps [keeping]: "keeps S (restore_view_of sys root entries h)"
  unfolding restore_view_of_def by (auto intro!: keeping)

lemma three_parts:
  "(case xs of [a, b, c] \<Rightarrow> f a b c | _ \<Rightarrow> raiseW e) w = (Inr y, w') \<Longrightarrow> \<exists>a b c. xs = [a, b, c] \<and> f a b c w = (Inr y, w')"
  by (auto split: list.split_asm)

lemma restore_entry_Inr:
  assumes "restore_entry sys root name w = (Inr y, w')"
  shows "split_on 46 name = [fst y, snd y, lit ''json'']"
  using assms by (auto simp: restore_entry_def bindW_Inr checkW_def simp del: lit_simps dest!: three_parts)

lemma restore_view_Inr:
  assumes "restore_view_of sys root entries h w = (Inr v, w')"
  shows "rx_authorization_hash (vw_attempt v) = h
    \<and> (\<exists>b m u g. fs w (attempt_file sys root h) = Some (RegFile b m u g) \<and> decode_attempt (runtime.truncate sys) h b = Inr (vw_attempt v))
    \<and> (case vw_evidence v of None \<Rightarrow> (h, lit ''result'') \<notin> set entries
       | Some e \<Rightarrow> (h, lit ''result'') \<in> set entries \<and> evidence_binds (vw_attempt v) e
           \<and> (\<exists>b m u g. fs w (result_file sys root h) = Some (RegFile b m u g) \<and> decode_evidence (runtime.truncate sys) h b = Inr e))"
proof -
  obtain x w1 where x: "load_attempt sys root h w = (Inr x, w1)"
    and k: "(if (h, lit ''result'') \<in> set entries
     then bindW (load_evidence sys root h) (\<lambda>e. bindW (checkW (evidence_binds x e) ''invalid_restore_evidence'') (\<lambda>_.
          retW \<lparr>vw_attempt = x, vw_evidence = Some e\<rparr>))
     else retW \<lparr>vw_attempt = x, vw_evidence = None\<rparr>) w1 = (Inr v, w')"
    using assms by (auto simp: restore_view_of_def bindW_Inr checkW_def simp del: lit_simps)
  note l = load_attempt_Inr [OF x]
  show ?thesis
  proof (cases "(h, lit ''result'') \<in> set entries")
    case True
    then obtain e w2 where e: "load_evidence sys root h w1 = (Inr e, w2)" and v: "v = \<lparr>vw_attempt = x, vw_evidence = Some e\<rparr>" "evidence_binds x e"
      using k by (auto simp: bindW_Inr checkW_def simp del: lit_simps)
    from load_evidence_Inr [OF e] l v True show ?thesis by (simp del: lit_simps)
  next
    case False
    then show ?thesis using k l by (auto simp del: lit_simps)
  qed
qed

lemma list_all2_sets:
  "list_all2 P xs ys \<Longrightarrow> (\<forall>x\<in>set xs. \<exists>y\<in>set ys. P x y) \<and> (\<forall>y\<in>set ys. \<exists>x\<in>set xs. P x y)"
  by (induction rule: list_all2_induct) auto

lemma entry_names:
  assumes en: "list_all2 (\<lambda>x y. split_on 46 x = [fst y, snd y, lit ''json'']) names entries"
  shows "(\<exists>role. [h, role, lit ''json''] \<in> split_on 46 ` set names) \<longleftrightarrow> h \<in> fst ` set entries"
proof
  assume "\<exists>role. [h, role, lit ''json''] \<in> split_on 46 ` set names"
  then obtain role x where x: "[h, role, lit ''json''] = split_on 46 x" "x \<in> set names" by blast
  then obtain y where y: "y \<in> set entries" "split_on 46 x = [fst y, snd y, lit ''json'']" using list_all2_sets [OF en] by blast
  then have "h = fst y" using x(1) by (simp del: lit_simps)
  then show "h \<in> fst ` set entries" using y(1) by simp
next
  assume "h \<in> fst ` set entries"
  then obtain y where y: "y \<in> set entries" "h = fst y" by auto
  then obtain x where "x \<in> set names" "split_on 46 x = [fst y, snd y, lit ''json'']" using list_all2_sets [OF en] by blast
  then show "\<exists>role. [h, role, lit ''json''] \<in> split_on 46 ` set names" unfolding y(2) by (intro exI [of _ "snd y"]) (rule rev_image_eqI, assumption, rule sym)
qed


end
