(* ===== verification/JsonSize.thy ===== *)
theory JsonSize
  imports JsonFields
begin

text \<open>
  How many bytes the canonical encoding of a JSON value takes at most, and that its bytes are bytes: what the limits of
  the readers, a mebibyte for a record, mean for the writers.
\<close>

section \<open>The size of what is written\<close>

text \<open>A bound of the bytes of a JSON text: a character of a string takes at most six.\<close>

fun json_size :: "json \<Rightarrow> nat" where
  "json_size JNull = 4"
| "json_size (JBool b) = 5"
| "json_size (JInt i) = 4 * length (dec_int i)"
| "json_size (JFloat t) = 4 * length t"
| "json_size (JStr s) = 6 * length s + 2"
| "json_size (JArr vs) = 2 + (\<Sum>v\<leftarrow>vs. json_size v + 1)"
| "json_size (JObj kvs) = 2 + (\<Sum>(k, v)\<leftarrow>kvs. 6 * length k + 4 + json_size v)"

definition byte_count :: "str \<Rightarrow> nat" where
  "byte_count s = length (concat (map utf8_char s))"

lemma byte_count_simps [simp]:
  "byte_count [] = 0" "byte_count (c # s) = length (utf8_char c) + byte_count s" "byte_count (s @ t) = byte_count s + byte_count t"
  by (simp_all add: byte_count_def)

lemma utf8_char_length: "length (utf8_char c) \<le> 4" "c < 128 \<Longrightarrow> length (utf8_char c) = 1"
  by (simp_all add: utf8_char_def)

lemma byte_count_le: "byte_count s \<le> 4 * length s"
  using utf8_char_length(1) by (induction s) (auto intro: add_mono)

lemma hexdigit_ascii: "hexdigit (k mod 16) < 128"
proof -
  have "k mod 16 < 16" by simp
  then show ?thesis unfolding hexdigit_def by (simp only: split: if_split) linarith
qed

lemma escape_size: "byte_count (escape_char c) \<le> 6"
proof -
  have "byte_count (u_escape c) = 6"
    using hexdigit_ascii by (simp add: u_escape_def utf8_char_length(2))
  then show ?thesis using utf8_char_length(1) [of c]
    by (auto simp: escape_char_def short_escape_def utf8_char_length(2))
qed

lemma string_size: "byte_count (json_string False s) \<le> 6 * length s + 2"
proof -
  have "byte_count (concat (map escape_char s)) \<le> 6 * length s"
  proof (induction s)
    case (Cons c s)
    then show ?case using escape_size [of c] by simp
  qed simp
  then show ?thesis by (simp add: json_string_def utf8_char_length(2))
qed

lemma join_size: "byte_count (join [44] ts) \<le> (\<Sum>t\<leftarrow>ts. byte_count t + 1)"
proof -
  have "byte_count (concat (map (\<lambda>z. [44] @ z) us)) = (\<Sum>t\<leftarrow>us. byte_count t + 1)" for us
    by (induction us) (simp_all add: utf8_char_length(2))
  then show ?thesis by (cases ts) (simp_all add: join_def del: append_Cons)
qed

lemma sum_le: "\<forall>x\<in>set xs. f x \<le> (g x :: nat) \<Longrightarrow> (\<Sum>x\<leftarrow>xs. f x) \<le> (\<Sum>x\<leftarrow>xs. g x)"
  by (induction xs) (auto intro: add_mono)

lemma sum_sorted: "(\<Sum>x\<leftarrow>sort_key k xs. f x) = (\<Sum>x\<leftarrow>xs. (f x :: nat))"
  by (metis mset_map mset_sort sum_mset_sum_list)

lemma dumps_size: "byte_count (dumps False v) \<le> json_size v"
proof (induction v)
  case (JStr s)
  then show ?case using string_size by simp
next
  case (JArr vs)
  have "byte_count (dumps False (JArr vs)) \<le> 2 + (\<Sum>t\<leftarrow>map (dumps False) vs. byte_count t + 1)"
    using join_size [of "map (dumps False) vs"] by (simp add: utf8_char_length(2))
  also have "\<dots> \<le> 2 + (\<Sum>v\<leftarrow>vs. json_size v + 1)"
    using JArr sum_le [of vs "\<lambda>v. byte_count (dumps False v) + 1"] by (simp add: comp_def)
  finally show ?case by simp
next
  case (JObj kvs)
  have "byte_count (dumps False (JObj kvs)) \<le> 2 + (\<Sum>t\<leftarrow>map member_text (sort_key fst kvs). byte_count t + 1)"
    using join_size [of "map member_text (sort_key fst kvs)"] unfolding dumps_obj by (simp add: utf8_char_length(2))
  also have "(\<Sum>t\<leftarrow>map member_text (sort_key fst kvs). byte_count t + 1) = (\<Sum>x\<leftarrow>kvs. byte_count (member_text x) + 1)"
    by (simp add: comp_def sum_sorted)
  also have "\<dots> \<le> (\<Sum>(k, v)\<leftarrow>kvs. 6 * length k + 4 + json_size v)"
  proof (rule sum_le, clarify)
    fix k v assume "(k, v) \<in> set kvs"
    then have "byte_count (dumps False v) \<le> json_size v" using JObj by fastforce
    then show "byte_count (member_text (k, v)) + 1 \<le> 6 * length k + 4 + json_size v"
      using string_size [of k] by (simp add: member_text_def utf8_char_length(2))
  qed
  finally show ?case by simp
next
  case (JInt i)
  show ?case using byte_count_le by simp
next
  case (JFloat t)
  show ?case using byte_count_le by simp
next
  case (JBool b)
  then show ?case by (cases b) (simp_all add: utf8_char_length(2))
next
  case JNull
  show ?case by (simp add: utf8_char_length(2))
qed

lemma encoded_size: "utf8_encode (dumps False v) = Inr b \<Longrightarrow> length b \<le> json_size v"
  using dumps_size [of v] by (auto simp: utf8_encode_def byte_count_def split: if_splits)

definition octets :: "str \<Rightarrow> bool" where
  "octets s \<longleftrightarrow> (\<forall>c\<in>set s. 0 \<le> c \<and> c < 256)"

lemma utf8_char_octets:
  assumes "valid_cp c"
  shows "octets (utf8_char c)"
proof -
  have c: "0 \<le> c" "c < 1114112" using assms by (simp_all add: valid_cp_def)
  have m: "k mod 64 < 128" for k :: int by (rule less_trans [of _ 64]) simp_all
  have "c < 2048 \<Longrightarrow> c div 64 < 32" "c < 65536 \<Longrightarrow> c div 4096 < 16" "c div 262144 < 5" using c by linarith+
  moreover have "0 \<le> c div 64" "0 \<le> c div 4096" "0 \<le> c div 262144" using c by (simp_all add: pos_imp_zdiv_nonneg_iff)
  ultimately show ?thesis using c by (auto simp: utf8_char_def octets_def m)
qed

lemma utf8_octets: "utf8_encode s = Inr b \<Longrightarrow> octets b"
  using utf8_char_octets by (fastforce simp: utf8_encode_def octets_def split: if_splits)

end
