(* ===== verification/RestoreRun.thy ===== *)
theory RestoreRun
  imports LocalRestore JsonSize
begin

text \<open>
  Restores that run: what the operations of \<open>Manifests\<close> and \<open>LocalRestore\<close> do on a machine without faults, and that
  a restore then completes.
\<close>

section \<open>The operations on a quiet machine\<close>

definition quiet :: "world \<Rightarrow> bool" where
  "quiet w \<longleftrightarrow> faults w = [] \<and> cancel_in w = None"

lemma quiet_run [simp]:
  "quiet w \<Longrightarrow> os_step w = (Inr (), w)" "quiet w \<Longrightarrow> check_cancel w = (Inr (), w)"
  "quiet w \<Longrightarrow> read_bytes p w = (case fs w p of Some (RegFile c _ _ _) \<Rightarrow> (Inr c, w) | _ \<Rightarrow> (Inl OSError, w))"
  by (auto simp: quiet_def os_step_def check_cancel_def read_bytes_def bindW_def split: option.split node.split)

lemma quiet_changes [simp]:
  "quiet (w\<lparr>fs := f\<rparr>) = quiet w" "quiet (w\<lparr>dirs := d\<rparr>) = quiet w" "quiet (w\<lparr>clock := c\<rparr>) = quiet w" "quiet (w\<lparr>events := es\<rparr>) = quiet w"
  by (simp_all add: quiet_def)

lemma atomic_write_run:
  "quiet w \<Longrightarrow> fs w p \<noteq> Some NotRegular \<Longrightarrow>
    atomic_write sys p c m w = (Inr (), w\<lparr>fs := (fs w)(p \<mapsto> RegFile c m (euid sys) (egid sys))\<rparr>)"
  by (simp add: atomic_write_def bindW_def put_node_def)

lemma utc_now_run: "clock w = t # ts \<Longrightarrow> utc_now w = (Inr t, w\<lparr>clock := ts\<rparr>)"
  by (simp add: utc_now_def)

text \<open>A private directory of the user's.\<close>

definition private_at :: "system \<Rightarrow> world \<Rightarrow> str \<Rightarrow> bool" where
  "private_at sys w d \<longleftrightarrow> fs w (resolved_target sys d) = Some NotRegular
     \<and> (\<exists>g. dirs w (resolved_target sys d) = Some \<lparr>dr_mode = 448, dr_uid = euid sys, dr_gid = g\<rparr>)"

lemma prepare_store_run:
  assumes "quiet w" and "private_at sys w root"
  shows "prepare_store sys root w = (Inr (), w)"
proof -
  obtain g where d: "dirs w (resolved_target sys root) = Some \<lparr>dr_mode = 448, dr_uid = euid sys, dr_gid = g\<rparr>"
    using assms(2) by (auto simp: private_at_def)
  then have "(dirs w)(resolved_target sys root \<mapsto> \<lparr>dr_mode = 448, dr_uid = euid sys, dr_gid = g\<rparr>) = dirs w"
    by (rule fun_upd_idem)
  then show ?thesis using assms d
    by (simp add: private_at_def prepare_store_def make_dir_ok_def make_dir_def entry_at_def stat_dir_def chmod_dir_def private_root_def
      checkW_def guardW_def imode_def bindW_def tryW_def)
qed

lemma read_record_run:
  assumes "quiet w" and "private_at sys w root" and "fs w (resolved_target sys p) = Some (RegFile b 384 (euid sys) g)" "int (length b) \<le> 1048576"
  shows "read_record sys root p w = (Inr b, w)"
  using assms
  by (auto simp: private_at_def read_record_def stat_dir_def entry_at_def private_root_def checkW_def guardW_def imode_def bindW_def is_file_node_def)

section \<open>Records that are saved\<close>

definition attempt_ok :: "runtime \<Rightarrow> restore_attempt \<Rightarrow> bool" where
  "attempt_ok rt x \<longleftrightarrow> storable (attempt_json rt x) \<and> rx_schema_version x = lit ''1.0'' \<and> is_digest (rx_authorization_hash x)
     \<and> rx_host_id x \<noteq> [] \<and> rx_backup_id x \<noteq> [] \<and> rx_manifest_hash x \<noteq> [] \<and> rx_preview_hash x \<noteq> [] \<and> rx_approval_id x \<noteq> []
     \<and> rx_actor x \<noteq> [] \<and> rx_target x \<noteq> [] \<and> rx_hash x \<noteq> []"

definition evidence_ok :: "runtime \<Rightarrow> restore_evidence \<Rightarrow> bool" where
  "evidence_ok rt x \<longleftrightarrow> storable (evidence_json rt x) \<and> re_schema_version x = lit ''1.0'' \<and> is_digest (re_authorization_hash x)
     \<and> re_attempt_hash x \<noteq> [] \<and> re_host_id x \<noteq> [] \<and> re_backup_id x \<noteq> [] \<and> re_manifest_hash x \<noteq> [] \<and> re_target x \<noteq> [] \<and> re_hash x \<noteq> []
     \<and> ((re_state x = RX_COMMITTED) = (re_error_code x = None))"

lemma digest_nonempty: "is_digest h \<Longrightarrow> h \<noteq> []"
  by (auto simp: is_digest_def)

lemma state_value_nonempty [simp]: "execution_state_value s \<noteq> []"
  by (cases s) simp_all

lemma decode_attempt_saved:
  assumes "attempt_ok rt x" and "clock_ok rt" and "attempt_with_hash rt x = Inr x" and "canonical_bytes (attempt_json rt x) = Inr b"
  shows "decode_attempt rt (rx_authorization_hash x) b = Inr x"
proof -
  have t: "need_time rt (canon (JObj kvs)) k = Inr t" if "distinct (map fst kvs)" "map_of kvs k = Some (JStr (isoformat rt t))" for kvs k t
    using need_time_canon(1) [OF that] assms(2) by (simp add: clock_ok_def)
  have "utf8_decode b = Inr (dumps False (attempt_json rt x))"
    using assms(4) utf8_decode_encode by (simp add: canonical_bytes_def)
  moreover have "jloads (dumps False (attempt_json rt x)) = Inr (canon (attempt_json rt x))"
    using assms(1) by (intro jloads_dumps) (simp add: attempt_ok_def)
  moreover have "parse_attempt rt (canon (attempt_json rt x)) = Inr x"
    using assms(1) digest_nonempty
    by (auto simp: attempt_ok_def parse_attempt_def attempt_json_def time_json_def t need_canon(1) simp del: canon.simps(2))
  ultimately have "parsed (parse_attempt rt) bad b = Inr (canon (attempt_json rt x), x)" for bad
    by (simp add: parsed_def)
  moreover have "has_fields (canon (attempt_json rt x)) attempt_fields"
    unfolding attempt_json_def by (rule fields_canon) (simp add: attempt_fields_def)
  ultimately show ?thesis using assms by (simp add: decode_attempt_def Let_def attempt_ok_def del: canon.simps(2))
qed

lemma decode_evidence_saved:
  assumes "evidence_ok rt x" and "clock_ok rt" and "evidence_with_hash rt x = Inr x" and "canonical_bytes (evidence_json rt x) = Inr b"
  shows "decode_evidence rt (re_authorization_hash x) b = Inr x"
proof -
  have t: "need_time rt (canon (JObj kvs)) k = Inr t" if "distinct (map fst kvs)" "map_of kvs k = Some (JStr (isoformat rt t))" for kvs k t
    using need_time_canon(1) [OF that] assms(2) by (simp add: clock_ok_def)
  have "utf8_decode b = Inr (dumps False (evidence_json rt x))"
    using assms(4) utf8_decode_encode by (simp add: canonical_bytes_def)
  moreover have "jloads (dumps False (evidence_json rt x)) = Inr (canon (evidence_json rt x))"
    using assms(1) by (intro jloads_dumps) (simp add: evidence_ok_def)
  moreover have "parse_evidence rt (canon (evidence_json rt x)) = Inr x"
    using assms(1) digest_nonempty
    by (auto simp: evidence_ok_def parse_evidence_def evidence_json_def time_json_def t need_canon simp del: canon.simps(2))
  ultimately have "parsed (parse_evidence rt) bad b = Inr (canon (evidence_json rt x), x)" for bad
    by (simp add: parsed_def)
  moreover have "has_fields (canon (evidence_json rt x)) evidence_fields"
    unfolding evidence_json_def by (rule fields_canon) (simp add: evidence_fields_def)
  ultimately show ?thesis using assms by (simp add: decode_evidence_def Let_def evidence_ok_def del: canon.simps(2))
qed

lemma restore_path_digest:
  assumes "is_digest h"
  shows "\<exists>p. restore_path root h (lit ''attempt'') = Inr p \<and> resolved_target sys p = attempt_file sys root h"
    and "\<exists>p. restore_path root h (lit ''result'') = Inr p \<and> resolved_target sys p = result_file sys root h"
  using assms by (simp_all add: restore_path_def attempt_file_def result_file_def del: lit_simps)

lemma with_hash_again:
  "attempt_with_hash rt x = Inr v \<Longrightarrow> attempt_with_hash rt v = Inr v"
  "evidence_with_hash rt e = Inr f \<Longrightarrow> evidence_with_hash rt f = Inr f"
  by (auto simp: attempt_with_hash_def evidence_with_hash_def Let_def bindR_eq_Inr)

lemma load_attempt_run:
  assumes "quiet w" and "private_at sys w root" and "clock_ok (runtime.truncate sys)"
    and "attempt_ok (runtime.truncate sys) x" and "attempt_with_hash (runtime.truncate sys) x = Inr x"
    and "canonical_bytes (attempt_json (runtime.truncate sys) x) = Inr b" "int (length b) \<le> 1048576"
    and "fs w (attempt_file sys root (rx_authorization_hash x)) = Some (RegFile b 384 (euid sys) g)"
  shows "load_attempt sys root (rx_authorization_hash x) w = (Inr x, w)"
proof -
  have "is_digest (rx_authorization_hash x)" using assms(4) by (simp add: attempt_ok_def)
  then obtain p where p: "restore_path root (rx_authorization_hash x) (lit ''attempt'') = Inr p"
      "resolved_target sys p = attempt_file sys root (rx_authorization_hash x)" using restore_path_digest(1) by blast
  have "read_record sys root p w = (Inr b, w)"
    using assms(8) unfolding p(2) [symmetric] by (intro read_record_run [OF assms(1,2)]) (use assms(7) in auto)
  then show ?thesis using p(1) decode_attempt_saved [OF assms(4,3,5,6)] by (simp add: load_attempt_def bindW_def del: lit_simps)
qed

lemma save_attempt_run:
  assumes "quiet w" and "private_at sys w root" and "clock_ok (runtime.truncate sys)"
    and "attempt_with_hash (runtime.truncate sys) x = Inr v" and "attempt_ok (runtime.truncate sys) v"
    and "canonical_bytes (attempt_json (runtime.truncate sys) v) = Inr b" "int (length b) \<le> 1048576"
    and "fs w (attempt_file sys root (rx_authorization_hash v)) = None" "attempt_file sys root (rx_authorization_hash v) \<noteq> resolved_target sys root"
  shows "save_attempt sys root x w =
    (Inr v, w\<lparr>fs := (fs w)(attempt_file sys root (rx_authorization_hash v) \<mapsto> RegFile b 384 (euid sys) (egid sys))\<rparr>)"
proof -
  let ?w = "w\<lparr>fs := (fs w)(attempt_file sys root (rx_authorization_hash v) \<mapsto> RegFile b 384 (euid sys) (egid sys))\<rparr>"
  have "is_digest (rx_authorization_hash v)" using assms(5) by (simp add: attempt_ok_def)
  then obtain p where p: "restore_path root (rx_authorization_hash v) (lit ''attempt'') = Inr p"
      "resolved_target sys p = attempt_file sys root (rx_authorization_hash v)" using restore_path_digest(1) by blast
  have "private_at sys ?w root" using assms(2,9) by (simp add: private_at_def)
  then have "load_attempt sys root (rx_authorization_hash v) ?w = (Inr v, ?w)"
    by (intro load_attempt_run [OF _ _ assms(3,5) with_hash_again(1) [OF assms(4)] assms(6,7)]) (simp_all add: assms(1))
  then show ?thesis using p assms prepare_store_run [OF assms(1,2)] atomic_write_run [OF assms(1), of "resolved_target sys p"]
    by (simp add: save_attempt_def bindW_def entry_at_def checkW_def guardW_def del: lit_simps)
qed

lemma save_evidence_run:
  assumes "quiet w" and "private_at sys w root" and "clock_ok (runtime.truncate sys)"
    and "evidence_with_hash (runtime.truncate sys) x = Inr v" and "evidence_ok (runtime.truncate sys) v"
    and "canonical_bytes (evidence_json (runtime.truncate sys) v) = Inr b" "int (length b) \<le> 1048576"
    and "fs w (result_file sys root (re_authorization_hash v)) = None" "result_file sys root (re_authorization_hash v) \<noteq> resolved_target sys root"
  shows "save_evidence sys root x w =
    (Inr v, w\<lparr>fs := (fs w)(result_file sys root (re_authorization_hash v) \<mapsto> RegFile b 384 (euid sys) (egid sys))\<rparr>)"
proof -
  let ?w = "w\<lparr>fs := (fs w)(result_file sys root (re_authorization_hash v) \<mapsto> RegFile b 384 (euid sys) (egid sys))\<rparr>"
  have "is_digest (re_authorization_hash v)" using assms(5) by (simp add: evidence_ok_def)
  then obtain p where p: "restore_path root (re_authorization_hash v) (lit ''result'') = Inr p"
      "resolved_target sys p = result_file sys root (re_authorization_hash v)" using restore_path_digest(2) by blast
  have "private_at sys ?w root" using assms(2,9) by (simp add: private_at_def)
  then have "read_record sys root p ?w = (Inr b, ?w)"
    using assms(1) by (intro read_record_run [where g = "egid sys"]) (use assms(7) p(2) in auto)
  then have "load_evidence sys root (re_authorization_hash v) ?w = (Inr v, ?w)"
    using p(1) decode_evidence_saved [OF assms(5,3) with_hash_again(2) [OF assms(4)] assms(6)] by (simp add: load_evidence_def bindW_def del: lit_simps)
  then show ?thesis using p assms prepare_store_run [OF assms(1,2)] atomic_write_run [OF assms(1), of "resolved_target sys p"]
    by (simp add: save_evidence_def bindW_def entry_at_def checkW_def guardW_def del: lit_simps)
qed

section \<open>Reading the backups\<close>

lemma strict_listing_run:
  assumes "quiet w" and "host_directory sys bs hid = Inr d" and "private_at sys w d" and "path_join d x = e" and "private_at sys w e"
    and "resolved_target sys (path_join e (lit ''manifest.json'')) = p" and "fs w p = Some (RegFile b 384 (euid sys) g)"
    and "decode_manifest (runtime.truncate sys) b = Inr m" and "bm_host_id m = hid" "backup_id m = path_name e"
      "realpath sys (storage_location m) = realpath sys e"
    and "list_all (\<lambda>j. case checked_target sys (bs_allowed bs) (bi_target j) of Inr _ \<Rightarrow> True | Inl _ \<Rightarrow> False) (items m)"
  shows "list_manifests_strict sys bs [x] hid w = (Inr [m], w)"
proof -
  have b: "int (length b) \<le> max_manifest_bytes" using decode_manifest_Inr(4) [OF assms(8)] .
  have r: "read_manifest sys e hid w = (Inr m, w)"
    using assms(1,6-11) b
    by (simp add: read_manifest_def bindW_def entry_at_def is_file_node_def tryW_def guardW_def del: lit_simps)
  obtain g1 g2 where o: "dirs w (resolved_target sys d) = Some \<lparr>dr_mode = 448, dr_uid = euid sys, dr_gid = g1\<rparr>"
      "dirs w (resolved_target sys e) = Some \<lparr>dr_mode = 448, dr_uid = euid sys, dr_gid = g2\<rparr>"
    "fs w (resolved_target sys d) = Some NotRegular" "fs w (resolved_target sys e) = Some NotRegular"
    using assms(3,5) by (auto simp: private_at_def)
  have "strict_entry sys bs hid e w = (Inr m, w)"
    using o assms(1,6,7) r checks_pass [OF assms(12)]
    by (simp add: strict_entry_def bindW_def stat_dir_def entry_at_def checkW_def guardW_def owned_dir_def owned_file_def permissions_def del: lit_simps)
  then show ?thesis using o assms(1,2,4)
    by (simp add: list_manifests_strict_def bindW_def entry_at_def stat_dir_def checkW_def guardW_def owned_dir_def permissions_def newest_first_def)
qed

lemma observe_run:
  assumes "quiet w" and "items m = [i]" and "checked_target sys (bs_allowed bs) (bi_target i) = Inr p"
    and "fs w p = Some (RegFile c k u g)" "int (length c) \<le> max_item_bytes"
  shows "observe_restore_targets sys bs m w = (Inr [\<lparr>ob_target = p, ob_exists = True, ob_sha256 = Some (sha256 sys c)\<rparr>], w)"
  using assms
  by (simp add: observe_restore_targets_def observe_target_def bindW_def checkW_def guardW_def is_file_node_def)

lemma items_run:
  assumes "quiet w" and "items m = [i]" and "existed i" "content_ref i = Some ref" "ref \<noteq> []" "\<not> is_absolute ref" "bi_sha256 i = Some (sha256 sys c)"
    and "realpath sys (storage_location m) = base" "within base (bs_root bs)" "realpath sys (path_join base ref) = q" "path_join base ref = q" "within q base"
    and "fs w q = Some (RegFile c k u g)" "int (length c) \<le> max_item_bytes" "\<not> enc_enabled (encryption m)"
    and "manifest_digest (runtime.truncate sys) m = Inr (manifest_hash m)" "complete m" "manifest_bytes (runtime.truncate sys) m = Inr b"
    and "path_join base (lit ''manifest.json'') = p" "realpath sys p = p" "fs w p = Some (RegFile b k' u' g')"
  shows "backup_restore_items sys bs m w = (Inr [\<lparr>ri_target = bi_target i, ri_existed = True, ri_content = Some c, ri_sha256 = bi_sha256 i,
           ri_mode = mode i, ri_uid = uid i, ri_gid = gid i\<rparr>], w)"
proof -
  have d: "decode_content bs c (encryption m) (backup_id m) (host_fingerprint m) (bi_target i) = Inr c"
    using assms(15) by (simp add: decode_content_def)
  have "manifest_check sys m base w = (Inr (backup_result (lit ''backup.manifest'') True (JStr (manifest_hash m)) (JStr (manifest_hash m))), w)"
    using assms(1,16-21) by (simp add: manifest_check_def bindW_def tryW_def read_through_def is_file_node_def del: lit_simps)
  moreover have "verify_item sys bs m base (0, i) w = (Inr (backup_result (item_check_name ''backup.item.'' 0) True (jopt JStr (bi_sha256 i)) (jopt JStr (bi_sha256 i))), w)"
    using assms(1,3-7,10-15) d by (simp add: verify_item_def stored_digest_def bindW_def tryW_def Let_def)
  ultimately have v: "\<exists>rs. backup_verify sys bs m w = (Inr rs, w) \<and> rs \<noteq> [] \<and> (\<forall>r\<in>set rs. passed_result r)"
    using assms(1,2,8,9) by (simp add: backup_verify_def bindW_def Let_def backup_result_def passed_result_def)
  have "restored_plaintext sys bs m base i w = (Inr \<lparr>ri_target = bi_target i, ri_existed = True, ri_content = Some c, ri_sha256 = bi_sha256 i,
           ri_mode = mode i, ri_uid = uid i, ri_gid = gid i\<rparr>, w)"
    using assms(1,3-7,10,11,13) d by (simp add: restored_plaintext_def bindW_def read_through_def guardW_def)
  then show ?thesis using v assms(2,8) by (auto simp: backup_restore_items_def bindW_def guardW_def)
qed

section \<open>The executor and the coordinator\<close>

lemma execute_run:
  assumes "quiet w" and "authorization_with_hash (runtime.truncate sys) a = Inr a" and "now < au_expires_at a" and "au_targets a = [t]"
    and "list_strict iv (au_host_id a) w = (Inr [m], w)" and "bm_host_id m = au_host_id a" "backup_id m = au_backup_id a"
      "manifest_hash m = au_manifest_hash a" "map bi_target (items m) = [t]"
    and "observe_targets iv m w = (Inr (au_current a), w)" and "get_items m w = (Inr [it], w)" and "ri_target it = t"
    and "ri_existed it" "ri_content it = Some c" "ri_sha256 it = Some (sha256 sys c)" and "fs w (resolved_target sys t) \<noteq> Some NotRegular"
    and "(case given of Some t \<Rightarrow> retW t | None \<Rightarrow> utc_now) v = (Inr now, w)"
  shows "execute_restore sys iv get_items a given v =
    (Inr \<lparr>lr_state = RESTORE_COMMITTED, lr_host_id = au_host_id a, lr_backup_id = au_backup_id a, lr_manifest_hash = au_manifest_hash a,
        lr_authorization_hash = au_hash a, lr_target = t, lr_completed_at = now\<rparr>,
     w\<lparr>fs := (fs w)(resolved_target sys t := restored_node sys it)\<rparr>)"
proof -
  have "restore_binding a (find (\<lambda>m. backup_id m = au_backup_id a) [m]) = Inr m"
    using assms(4,6-9) by (simp add: restore_binding_def)
  then have "restore_ready sys iv get_items a now w = (Inr it, w)"
    using assms(1-5,10-12) by (simp add: restore_ready_def bindW_def authorization_sealed_def checkW_def guardW_def)
  moreover have "put_item sys it w = (Inr (), w\<lparr>fs := (fs w)(resolved_target sys t := restored_node sys it)\<rparr>)"
    using assms(1,12-16) by (simp add: put_item_def Let_def bindW_def checkW_def guardW_def atomic_write_run restored_node_def)
  ultimately show ?thesis using assms(12,17) by (simp add: execute_restore_def bindW_def)
qed

lemma coordinate_run:
  assumes "quiet w" and "private_at sys w root" and "clock_ok (runtime.truncate sys)" and "clock w = t0 # t1 # t2 # ts"
    and "authorization_with_hash (runtime.truncate sys) a = Inr a" and "au_targets a = [t]" and "restore_apart sys root a"
    and "attempt_with_hash (runtime.truncate sys) (attempt_of a t0) = Inr x" "attempt_ok (runtime.truncate sys) x"
      "canonical_bytes (attempt_json (runtime.truncate sys) x) = Inr b" "int (length b) \<le> 1048576"
    and "evidence_of (runtime.truncate sys) x RX_COMMITTED None t2 = Inr e" "evidence_ok (runtime.truncate sys) e"
      "canonical_bytes (evidence_json (runtime.truncate sys) e) = Inr b'" "int (length b') \<le> 1048576"
    and "fs w (attempt_file sys root (au_hash a)) = None" "fs w (result_file sys root (au_hash a)) = None"
    and "\<And>v. quiet v \<Longrightarrow> fs v = (fs w)(attempt_file sys root (au_hash a) \<mapsto> RegFile b 384 (euid sys) (egid sys)) \<Longrightarrow> dirs v = dirs w \<Longrightarrow> clock v = t1 # t2 # ts \<Longrightarrow>
       execute_restore sys iv get_items a None v = (Inr r, v\<lparr>clock := t2 # ts, fs := (fs v)(resolved_target sys t := n)\<rparr>)"
  shows "\<exists>w'. coordinate_restore sys iv get_items root (\<lambda>_ _ _. retW ()) a w = (Inr e, w')"
proof -
  let ?w0 = "w\<lparr>clock := t1 # t2 # ts\<rparr>"
  let ?w1 = "?w0\<lparr>fs := (fs w)(attempt_file sys root (au_hash a) \<mapsto> RegFile b 384 (euid sys) (egid sys))\<rparr>"
  let ?w2 = "?w1\<lparr>clock := t2 # ts, fs := (fs ?w1)(resolved_target sys t := n)\<rparr>"
  let ?w3 = "?w2\<lparr>clock := ts\<rparr>"
  have h: "rx_authorization_hash x = au_hash a" using with_hash_Inr(1) [OF assms(8)] by (simp add: attempt_of_def)
  have d: "attempt_file sys root (au_hash a) \<noteq> resolved_target sys root" "result_file sys root (au_hash a) \<noteq> resolved_target sys root"
    "resolved_target sys t \<noteq> resolved_target sys root" "result_file sys root (au_hash a) \<noteq> attempt_file sys root (au_hash a)"
    "result_file sys root (au_hash a) \<noteq> resolved_target sys t"
    using assms(6,7) by (auto simp: restore_apart_def)
  have p: "private_at sys ?w0 root" "private_at sys ?w3 root" using assms(2) d by (simp_all add: private_at_def)
  have s: "save_attempt sys root (attempt_of a t0) ?w0 = (Inr x, ?w1)"
    using save_attempt_run [OF _ p(1) assms(3,8,9,10,11)] assms(1,16) d(1) by (simp add: h)
  have x: "execute_restore sys iv get_items a None ?w1 = (Inr r, ?w2)"
    by (rule assms(18)) (use assms(1) in simp_all)
  have u: "evidence_now sys x RX_COMMITTED None ?w2 = (Inr e, ?w3)"
    using assms(12) by (simp add: evidence_now_def bindW_def utc_now_run)
  have "re_authorization_hash e = au_hash a" using evidence_of_fields(1) [OF assms(12)] h by simp
  then obtain w4 where v: "save_evidence sys root e ?w3 = (Inr e, w4)"
    using save_evidence_run [OF _ p(2) assms(3) evidence_sealed_again [OF assms(12)] assms(13,14,15)] assms(1,17) d by simp
  have "restore_claimed sys iv get_items root (\<lambda>_ _ _. retW ()) a x ?w1 = (Inr e, w4)"
    using x u v by (simp add: restore_claimed_def bindW_def plainly_def tryW_def persist_evidence_def)
  then show ?thesis using assms(4,5,6) s
    by (simp add: coordinate_restore_def bindW_def plainly_def tryW_def checkW_def guardW_def authorization_sealed_def utc_now_run)
qed

section \<open>The records fit\<close>

definition short_texts :: "authorization \<Rightarrow> bool" where
  "short_texts a \<longleftrightarrow> (\<forall>s\<in>{au_host_id a, au_backup_id a, au_manifest_hash a, au_preview_hash a, au_approval_id a, au_actor a, hd (au_targets a)}. length s \<le> 4096)"

lemma digest_length: "hex_digest sys \<Longrightarrow> length (sha256 sys b) = 64"
  by (simp add: hex_digest_def is_digest_def)

lemma records_size:
  assumes "hex_digest sys" and "length (isoformat sys t) \<le> 64" "length (isoformat sys u) \<le> 64" and "short_texts a" "is_digest (au_hash a)"
    and "attempt_with_hash (runtime.truncate sys) (attempt_of a t) = Inr x"
    and "evidence_of (runtime.truncate sys) x s c u = Inr e" and "case c of None \<Rightarrow> True | Some k \<Rightarrow> length k \<le> 4096"
  shows "json_size (attempt_json (runtime.truncate sys) x) < 1048576" and "json_size (evidence_json (runtime.truncate sys) e) < 1048576"
proof -
  have i: "isoformat (runtime.truncate sys) = isoformat sys" by (simp add: runtime.defs)
  obtain h where x: "x = (attempt_of a t)\<lparr>rx_hash := h\<rparr>" "length h = 64"
    using assms(6) digest_length [OF assms(1)] by (auto simp: attempt_with_hash_def Let_def bindR_eq_Inr attempt_of_def)
  obtain h' where e: "re_hash e = h'" "length h' = 64" "re_schema_version e = lit ''1.0''" "re_attempt_hash e = h" "re_authorization_hash e = au_hash a"
     "re_host_id e = au_host_id a" "re_backup_id e = au_backup_id a" "re_manifest_hash e = au_manifest_hash a" "re_target e = hd (au_targets a)"
     "re_state e = s" "re_completed_at e = u" "re_error_code e = c"
    using assms(7) digest_length [OF assms(1)] unfolding x(1)
    by (auto simp: evidence_of_def evidence_with_hash_def Let_def bindR_eq_Inr attempt_of_def)
  have h: "length (au_hash a) = 64" using assms(5) by (simp add: is_digest_def)
  show "json_size (attempt_json (runtime.truncate sys) x) < 1048576"
    using h assms(2,4) by (simp add: attempt_json_def time_json_def x attempt_of_def i short_texts_def)
  show "json_size (evidence_json (runtime.truncate sys) e) < 1048576"
    using h x(2) assms(3,4,8) by (cases s; cases c) (simp_all add: evidence_json_def time_json_def jopt_def e i short_texts_def)
qed


end
