(* ===== verification/RestoreDrill.thy ===== *)
theory RestoreDrill
  imports RestoreRun
begin

text \<open>
  A drill: a backup is listed, previewed, approved, authorised and restored, on two small machines, one whose digest has
  no collisions and one whose digest is a hexadecimal text.  It shows that the properties of restores speak of runs that
  succeed.
\<close>

section \<open>A drill\<close>

text \<open>A machine whose digest is a hexadecimal text; \<open>kept_system\<close> is the one whose digest has no collisions.\<close>

definition hex_system :: system where
  "hex_system = kept_system\<lparr>sha256 := toy_digest\<rparr>"

definition drill_item :: "system \<Rightarrow> backup_item" where
  "drill_item sys = \<lparr>bi_target = lit ''/c/a'', existed = True, content_ref = Some (lit ''items/0''), bi_sha256 = Some (sha256 sys (lit ''saved'')),
     mode = Some 420, uid = Some 1000, gid = Some 1000, selinux_context = None, service_state = None, bi_storage_location = None\<rparr>"

definition drill_draft :: "system \<Rightarrow> str \<Rightarrow> backup_manifest" where
  "drill_draft sys d = \<lparr>backup_id = lit ''k'', bm_schema_version = lit ''1.0'', bm_plan_id = lit ''p'', bm_change_set_hash = lit ''x'',
     bm_host_id = lit ''h'', host_fingerprint = None, items = [drill_item sys], manifest_hash = [], storage_location = d @ lit ''/k'',
     encryption = no_encryption, protected = False, bm_created_at = 10, retention_expires_at = None, complete = True\<rparr>"

text \<open>The backup lies in \<open>d/k\<close>; the target has other content by now; \<open>/r\<close> is for the records.\<close>

definition drill_files :: "str \<Rightarrow> bytes \<Rightarrow> files" where
  "drill_files d b = [d \<mapsto> NotRegular, d @ lit ''/k'' \<mapsto> NotRegular, d @ lit ''/k/manifest.json'' \<mapsto> RegFile b 384 1000 1000,
     d @ lit ''/k/items/0'' \<mapsto> RegFile (lit ''saved'') 384 1000 1000, lit ''/c/a'' \<mapsto> RegFile (lit ''other'') 420 7 8, lit ''/r'' \<mapsto> NotRegular]"

definition drill_world :: "str \<Rightarrow> bytes \<Rightarrow> world" where
  "drill_world d b = (toy_world (drill_files d b))\<lparr>dirs := (\<lambda>p. if p \<in> {d, d @ lit ''/k'', lit ''/r''}
     then Some \<lparr>dr_mode = 448, dr_uid = 1000, dr_gid = 1000\<rparr> else None)\<rparr>"

definition drill_seen :: "system \<Rightarrow> observation list" where
  "drill_seen sys = [\<lparr>ob_target = lit ''/c/a'', ob_exists = True, ob_sha256 = Some (sha256 sys (lit ''other''))\<rparr>]"

definition drill_taken :: "system \<Rightarrow> backup_restore_item" where
  "drill_taken sys = \<lparr>ri_target = lit ''/c/a'', ri_existed = True, ri_content = Some (lit ''saved''), ri_sha256 = Some (sha256 sys (lit ''saved'')),
     ri_mode = Some 420, ri_uid = Some 1000, ri_gid = Some 1000\<rparr>"

definition drill_inventory :: "system \<Rightarrow> inventory" where
  "drill_inventory sys = local_inventory sys mini_store [lit ''k'']"

definition drill_sealed :: "system \<Rightarrow> str \<Rightarrow> (backup_manifest \<times> bytes) res" where
  "drill_sealed sys d = (let rt = runtime.truncate sys in
     bindR (seal_manifest rt (drill_draft sys d)) (\<lambda>m. bindR (manifest_bytes rt m) (\<lambda>b. Inr (m, b))))"

definition places_ok :: "system \<Rightarrow> str \<Rightarrow> bool" where
  "places_ok sys d \<longleftrightarrow> host_directory sys mini_store (lit ''h'') = Inr d \<and> path_join d (lit ''k'') = d @ lit ''/k'' \<and> path_name (d @ lit ''/k'') = lit ''k''
     \<and> path_join (d @ lit ''/k'') (lit ''manifest.json'') = d @ lit ''/k/manifest.json'' \<and> path_join (d @ lit ''/k'') (lit ''items/0'') = d @ lit ''/k/items/0''
     \<and> within (d @ lit ''/k'') (bs_root mini_store) \<and> within (d @ lit ''/k/items/0'') (d @ lit ''/k'')
     \<and> (\<forall>p\<in>{d, d @ lit ''/k'', d @ lit ''/k/manifest.json'', lit ''/c/a'', lit ''/r''}. resolved_target sys p = p)
     \<and> checked_target sys (bs_allowed mini_store) (lit ''/c/a'') = Inr (lit ''/c/a'')
     \<and> distinct [d, d @ lit ''/k'', d @ lit ''/k/manifest.json'', d @ lit ''/k/items/0'', lit ''/c/a'', lit ''/r'']"

definition hex_dir :: str where
  "hex_dir = lit ''/b/'' @ replicate 24 48"

lemma drill_places: "places_ok kept_system (lit ''/b/h'')" "places_ok hex_system hex_dir"
  by code_simp+

text \<open>What the two machines have in common.\<close>

definition drill_machine :: "system \<Rightarrow> str \<Rightarrow> bool" where
  "drill_machine sys d \<longleftrightarrow> euid sys = 1000 \<and> egid sys = 1000 \<and> isoformat sys = dec_int \<and> (\<forall>p. realpath sys p = p)
     \<and> clock_ok (runtime.truncate sys) \<and> octets d \<and> length d \<le> 100
     \<and> (\<forall>b. octets b \<and> b \<noteq> [] \<longrightarrow> octets (sha256 sys b) \<and> sha256 sys b \<noteq> [] \<and> length (sha256 sys b) \<le> length b + 64)"

lemma signed_clock: "isoformat sys = dec_int \<Longrightarrow>
    fromisoformat sys = (\<lambda>s. Some (Aware (if startswith s [45] then - dec_val (tl s) else dec_val s))) \<Longrightarrow> clock_ok (runtime.truncate sys)"
proof -
  assume i: "isoformat sys = dec_int" "fromisoformat sys = (\<lambda>s. Some (Aware (if startswith s [45] then - dec_val (tl s) else dec_val s)))"
  have "text_ok (dec_int t)" for t
    using dec_nat_isdigit by (auto simp: text_ok_def code_points_def dec_int_def list_all_iff isdigit_def) force+
  moreover have "\<not> startswith (dec_nat n) [45]" for n
    using dec_nat_isdigit [of n] by (cases "dec_nat n") (auto simp: startswith_def isdigit_def)
  ultimately show ?thesis by (simp add: clock_ok_def stamp_ok_def i runtime.defs) (simp add: dec_int_def startswith_def)
qed

lemma drill_machines: "drill_machine kept_system (lit ''/b/h'')" "drill_machine hex_system hex_dir"
proof -
  have "octets (toy_digest b) \<and> toy_digest b \<noteq> [] \<and> length (toy_digest b) = 64" for b
  proof -
    have "is_digest (toy_digest b)" using toy_system_digest by (simp add: toy_system_def)
    then show ?thesis by (auto simp: is_digest_def octets_def list_all_iff isdigit_def simp del: list.size) force+
  qed
  moreover have "clock_ok (runtime.truncate kept_system)" "clock_ok (runtime.truncate hex_system)"
    by (rule signed_clock; simp add: kept_system_def hex_system_def toy_system_def)+
  ultimately show "drill_machine kept_system (lit ''/b/h'')" "drill_machine hex_system hex_dir"
    by (simp_all add: drill_machine_def kept_system_def hex_system_def hex_dir_def toy_system_def octets_def)
qed

lemma drill_digest:
  assumes "drill_machine sys d" and "octets b" "b \<noteq> []"
  shows "octets (sha256 sys b)" "sha256 sys b \<noteq> []" "length (sha256 sys b) \<le> length b + 64"
  using assms by (simp_all add: drill_machine_def)

lemma octets_texts: "octets s \<Longrightarrow> code_points s \<and> (\<forall>c\<in>set s. valid_cp c)"
  by (auto simp: octets_def code_points_def valid_cp_def)

lemma dumps_nonempty: "utf8_encode (dumps False (JObj kvs)) = Inr b \<Longrightarrow> b \<noteq> []"
  by (auto simp: utf8_encode_def utf8_char_def split: if_splits)

lemma drill_encodes:
  assumes "encodable (JObj kvs)"
  shows "\<exists>b. utf8_encode (dumps False (JObj kvs)) = Inr b \<and> octets b \<and> b \<noteq> [] \<and> length b \<le> json_size (JObj kvs)"
  using utf8_dumps [OF assms] utf8_octets dumps_nonempty encoded_size by blast

lemma small_numbers: "length (dec_int 10) = 2" "length (dec_int 420) = 3" "length (dec_int 1000) = 4"
  "\<not> too_many_digits (dec_nat 420)" "\<not> too_many_digits (dec_nat 1000)"
  by code_simp+

lemma stamp_texts: "\<forall>c\<in>set (dec_int t). valid_cp c"
  using digits_valid by (auto simp: dec_int_def)

lemma drill_version: "validate_schema_version [49, 46, 48] = Inr ()"
  by code_simp

lemma drill_manifest:
  assumes "drill_machine sys d"
  obtains m b where "drill_sealed sys d = Inr (m, b)" "m = (drill_draft sys d)\<lparr>manifest_hash := manifest_hash m\<rparr>" "octets (manifest_hash m)"
    "manifest_ok (runtime.truncate sys) m" "int (length b) \<le> max_manifest_bytes"
    "manifest_digest (runtime.truncate sys) m = Inr (manifest_hash m)" "manifest_bytes (runtime.truncate sys) m = Inr b"
proof -
  let ?rt = "runtime.truncate sys"
  let ?j = "\<lambda>h. manifest_json ?rt ((drill_draft sys d)\<lparr>manifest_hash := h\<rparr>)"
  have i: "isoformat ?rt = dec_int" "isoformat sys = dec_int" "sha256 ?rt = sha256 sys" using assms by (simp_all add: drill_machine_def runtime.defs)
  have sv: "octets (sha256 sys (lit ''saved''))" "length (sha256 sys (lit ''saved'')) \<le> 69"
    using drill_digest(1,3) [OF assms, of "lit ''saved''"] by (simp_all add: octets_def)
  have od: "octets d" "length d \<le> 100" using assms by (simp_all add: drill_machine_def)
  have enc: "encodable (?j h)" if "octets h" for h
    using octets_texts [OF that] octets_texts [OF sv(1)] octets_texts [OF od(1)] stamp_texts
    by (simp add: manifest_json_def drill_draft_def drill_item_def backup_item_json_def encryption_json_def no_encryption_def jopt_def i)
  have size: "json_size (?j h) \<le> 5000 + 6 * length h" for h
    using sv(2) od(2) small_numbers
    by (simp add: manifest_json_def drill_draft_def drill_item_def backup_item_json_def encryption_json_def no_encryption_def jopt_def i)
  have json: "\<exists>kvs. ?j h = JObj kvs" for h by (simp add: manifest_json_def)
  have run: "\<exists>b. utf8_encode (dumps False (?j h)) = Inr b \<and> octets b \<and> b \<noteq> [] \<and> length b \<le> 5000 + 6 * length h" if "octets h" for h
    using drill_encodes enc [OF that] json [of h] size [of h] by (metis order_trans)
  obtain b0 where b0: "utf8_encode (dumps False (?j [])) = Inr b0" "octets b0" "b0 \<noteq> []" "length b0 \<le> 5000"
    using run [of "[]"] by (auto simp: octets_def)
  let ?h = "sha256 sys b0"
  let ?m = "(drill_draft sys d)\<lparr>manifest_hash := ?h\<rparr>"
  note h = drill_digest [OF assms b0(2,3)]
  obtain b where b: "utf8_encode (dumps False (?j ?h)) = Inr b" "length b \<le> 5000 + 6 * length ?h" using run [OF h(1)] by blast
  have dig: "manifest_digest ?rt ?m = Inr ?h" "manifest_bytes ?rt ?m = Inr b"
    using b0(1) b(1) by (simp_all add: manifest_digest_def manifest_bytes_def i)
  have seal: "seal_manifest ?rt (drill_draft sys d) = Inr ?m"
    using dig(1) by (simp add: seal_manifest_def manifest_digest_def)
  have "stamp_ok ?rt 10" using assms by (simp add: drill_machine_def clock_ok_def)
  moreover have "code_points ?h" "code_points (sha256 sys (lit ''saved''))" "code_points d" "code_points (dec_int 10)"
    using octets_texts h(1) sv(1) od(1) calculation by (auto simp: stamp_ok_def text_ok_def i)
  ultimately have "manifest_ok ?rt ?m"
    using h(2) small_numbers
    by (simp add: manifest_ok_def drill_draft_def drill_item_def manifest_json_def backup_item_json_def encryption_json_def no_encryption_def jopt_def
      i drill_version check_encryption_info_def code_points_def [symmetric])
  then show thesis
    using that [of ?m b] dig seal h b(2) b0(4) by (simp add: drill_sealed_def Let_def max_manifest_bytes_def)
qed

lemma drill_hash:
  assumes "drill_machine sys d" and "encodable (JObj kvs)" and "json_size (JObj kvs) \<le> n"
  shows "\<exists>h. stable_hash (runtime.truncate sys) (JObj kvs) = Inr h \<and> octets h \<and> h \<noteq> [] \<and> length h \<le> n + 64"
proof -
  obtain b where b: "utf8_encode (dumps False (JObj kvs)) = Inr b" "octets b" "b \<noteq> []" "length b \<le> json_size (JObj kvs)"
    using drill_encodes [OF assms(2)] by blast
  then show ?thesis using drill_digest [OF assms(1) b(2,3)] assms(3) by (simp add: stable_hash_def)
qed

definition drill_agreed :: "system \<Rightarrow> backup_manifest \<Rightarrow> restore_preview \<Rightarrow> restore_approval \<Rightarrow> authorization \<Rightarrow> bool" where
  "drill_agreed sys m p a auth \<longleftrightarrow> (let rt = runtime.truncate sys in
     pv_items p = map preview_item_of (items m) \<and> preview_matches (lit ''h'') (lit ''k'') p m
     \<and> approval_check rt (lit ''h'') (lit ''k'') p a 50 = Inr True \<and> pv_expires_at p = 348 \<and> ra_expires_at a = 348
     \<and> authorization_with_hash rt (draft_authorization (lit ''h'') (lit ''k'') p a 50 m (drill_seen sys)) = Inr auth
     \<and> auth = (draft_authorization (lit ''h'') (lit ''k'') p a 50 m (drill_seen sys))\<lparr>au_hash := au_hash auth\<rparr>
     \<and> octets (au_hash auth) \<and> octets (pv_hash p) \<and> pv_hash p \<noteq> [] \<and> ra_approval_id a = lit ''a'' \<and> ra_actor a = lit ''me'')"

lemma drill_review:
  assumes "drill_machine sys d" and "m = (drill_draft sys d)\<lparr>manifest_hash := h\<rparr>" "octets h" "h \<noteq> []"
  obtains p a auth where "drill_agreed sys m p a auth"
proof -
  let ?rt = "runtime.truncate sys"
  have i: "isoformat ?rt = dec_int" "isoformat sys = dec_int" "sha256 ?rt = sha256 sys" using assms by (simp_all add: drill_machine_def runtime.defs)
  have s: "octets (sha256 sys (lit ''saved''))" "octets (sha256 sys (lit ''other''))"
    using drill_digest(1) [OF assms(1), of "lit ''saved''"] drill_digest(1) [OF assms(1), of "lit ''other''"] by (simp_all add: octets_def)
  let ?p0 = "\<lparr>pv_host_id = bm_host_id m, pv_backup_id = backup_id m, pv_manifest_hash = manifest_hash m,
       pv_created_at = 48, pv_expires_at = 348, pv_protected = protected m, pv_items = map preview_item_of (items m), pv_hash = []\<rparr>"
  have enc: "encodable (preview_json ?rt ?p0)"
    using octets_texts [OF assms(3)] octets_texts [OF s(1)] stamp_texts
    by (simp add: assms(2) preview_json_def drill_draft_def drill_item_def preview_item_of_def preview_item_json_def time_json_def tuple_json_def jopt_def i)
  obtain ph where ph: "stable_hash ?rt (preview_json ?rt ?p0) = Inr ph" "octets ph" "ph \<noteq> []"
    using drill_hash [OF assms(1) enc [unfolded preview_json_def]] unfolding preview_json_def by blast
  let ?p = "?p0\<lparr>pv_hash := ph\<rparr>"
  have p: "create_preview ?rt 300 m 48 = Inr ?p"
    using ph(1) assms(2,4) by (simp add: create_preview_def preview_with_hash_def Let_def drill_draft_def)
  note pv = create_preview_Inr [OF p]
  let ?a = "\<lparr>ra_approval_id = lit ''a'', ra_actor = lit ''me'', ra_host_id = pv_host_id ?p, ra_backup_id = pv_backup_id ?p,
                ra_manifest_hash = pv_manifest_hash ?p, ra_preview_hash = pv_hash ?p, ra_approved_at = 49, ra_expires_at = 348\<rparr>"
  have ok: "approval_check ?rt (lit ''h'') (lit ''k'') ?p ?a 50 = Inr True"
    using pv(1) assms(2) by (simp add: approval_check_def restore_valid_for_def drill_draft_def)
  let ?d = "draft_authorization (lit ''h'') (lit ''k'') ?p ?a 50 m (drill_seen sys)"
  have enc2: "encodable (authorization_json ?rt ?d)"
    using octets_texts [OF assms(3)] octets_texts [OF s(1)] octets_texts [OF s(2)] octets_texts [OF ph(2)] stamp_texts
    by (simp add: assms(2) authorization_json_def draft_authorization_def drill_draft_def drill_item_def drill_seen_def observation_json_def time_json_def tuple_json_def jopt_def i)
  obtain ah where ah: "stable_hash ?rt (authorization_json ?rt ?d) = Inr ah" "octets ah"
    using drill_hash [OF assms(1) enc2 [unfolded authorization_json_def]] unfolding authorization_json_def by blast
  have "authorization_with_hash ?rt ?d = Inr (?d\<lparr>au_hash := ah\<rparr>)"
    using ah(1) by (simp add: authorization_with_hash_def Let_def draft_authorization_def)
  then show thesis
    using that [of ?p ?a "?d\<lparr>au_hash := ah\<rparr>"] ok pv(2) ph ah assms(2) by (simp add: drill_agreed_def drill_draft_def)
qed

definition drill_holds :: "system \<Rightarrow> str \<Rightarrow> bytes \<Rightarrow> world \<Rightarrow> bool" where
  "drill_holds sys d b v \<longleftrightarrow> quiet v \<and> dirs v = dirs (drill_world d b)
     \<and> (\<forall>q\<in>{d, d @ lit ''/k'', d @ lit ''/k/manifest.json'', d @ lit ''/k/items/0'', lit ''/c/a'', lit ''/r''}. fs v q = drill_files d b q)"

lemma drill_start: "drill_holds sys d b (drill_world d b)"
  by (simp add: drill_holds_def drill_world_def toy_world_def quiet_def)

lemma drill_stored:
  assumes "places_ok sys d"
  shows "drill_files d b d = Some NotRegular" "drill_files d b (d @ lit ''/k'') = Some NotRegular"
    "drill_files d b (d @ lit ''/k/manifest.json'') = Some (RegFile b 384 1000 1000)"
    "drill_files d b (d @ lit ''/k/items/0'') = Some (RegFile (lit ''saved'') 384 1000 1000)"
    "drill_files d b (lit ''/c/a'') = Some (RegFile (lit ''other'') 420 7 8)" "drill_files d b (lit ''/r'') = Some NotRegular"
  using assms unfolding places_ok_def drill_files_def by (auto simp del: lit_simps)

lemma drill_private:
  assumes "drill_machine sys d" and "places_ok sys d" and "drill_holds sys d b v"
  shows "private_at sys v d" "private_at sys v (d @ lit ''/k'')" "private_at sys v (lit ''/r'')"
  using assms drill_stored [OF assms(2)]
  by (simp_all add: private_at_def drill_machine_def places_ok_def drill_holds_def drill_world_def del: lit_simps)

lemma drill_source:
  assumes "drill_machine sys d" and "places_ok sys d" and "drill_sealed sys d = Inr (m, b)" and "drill_holds sys d b v"
  shows "list_strict (drill_inventory sys) (lit ''h'') v = (Inr [m], v)"
    and "observe_targets (drill_inventory sys) m v = (Inr (drill_seen sys), v)"
    and "backup_restore_items sys mini_store m v = (Inr [drill_taken sys], v)"
proof -
  obtain m' b' where s: "drill_sealed sys d = Inr (m', b')" and m': "m' = (drill_draft sys d)\<lparr>manifest_hash := manifest_hash m'\<rparr>"
    and ok': "manifest_ok (runtime.truncate sys) m'" and len': "int (length b') \<le> max_manifest_bytes"
    and dig': "manifest_digest (runtime.truncate sys) m' = Inr (manifest_hash m')" "manifest_bytes (runtime.truncate sys) m' = Inr b'"
    by (rule drill_manifest [OF assms(1)])
  have e: "m' = m" "b' = b" using s assms(3) by simp_all
  note m = m' [unfolded e] and ok = ok' [unfolded e] and len = len' [unfolded e] and dig = dig' [unfolded e]
  have f: "items m = [drill_item sys]" "bm_host_id m = lit ''h''" "backup_id m = lit ''k''" "storage_location m = d @ lit ''/k''" "complete m" "\<not> enc_enabled (encryption m)"
    by (subst m, simp add: drill_draft_def no_encryption_def del: lit_simps)+
  have c: "decode_manifest (runtime.truncate sys) b = Inr m"
    by (intro decode_manifest_bytes ok dig f(5) len)
  have q: "quiet v" using assms(4) by (simp add: drill_holds_def)
  have h: "fs v (d @ lit ''/k/manifest.json'') = Some (RegFile b 384 (euid sys) 1000)" "fs v (lit ''/c/a'') = Some (RegFile (lit ''other'') 420 7 8)"
    "fs v (d @ lit ''/k/items/0'') = Some (RegFile (lit ''saved'') 384 1000 1000)"
    using assms(1,4) drill_stored [OF assms(2), of b] by (simp_all add: drill_holds_def drill_machine_def del: lit_simps)
  have r: "realpath sys p = p" for p using assms(1) by (simp add: drill_machine_def)
  have pl: "host_directory sys mini_store (lit ''h'') = Inr d" "path_join d (lit ''k'') = d @ lit ''/k''" "path_name (d @ lit ''/k'') = lit ''k''"
    "path_join (d @ lit ''/k'') (lit ''manifest.json'') = d @ lit ''/k/manifest.json''" "path_join (d @ lit ''/k'') (lit ''items/0'') = d @ lit ''/k/items/0''"
    "within (d @ lit ''/k'') (bs_root mini_store)" "within (d @ lit ''/k/items/0'') (d @ lit ''/k'')"
    "resolved_target sys (d @ lit ''/k/manifest.json'') = d @ lit ''/k/manifest.json''" "checked_target sys (bs_allowed mini_store) (lit ''/c/a'') = Inr (lit ''/c/a'')"
    using assms(2) by (simp_all add: places_ok_def del: lit_simps)
  have it: "bi_target (drill_item sys) = lit ''/c/a''" "existed (drill_item sys)" "content_ref (drill_item sys) = Some (lit ''items/0'')"
    "bi_sha256 (drill_item sys) = Some (sha256 sys (lit ''saved''))" "mode (drill_item sys) = Some 420" "uid (drill_item sys) = Some 1000" "gid (drill_item sys) = Some 1000"
    by (simp_all add: drill_item_def del: lit_simps)
  show "list_strict (drill_inventory sys) (lit ''h'') v = (Inr [m], v)"
    unfolding drill_inventory_def local_inventory_def inventory.simps
    by (rule strict_listing_run [OF q pl(1) drill_private(1) [OF assms(1,2,4)] pl(2) drill_private(2) [OF assms(1,2,4)] _ h(1) c])
      (simp_all add: pl f it r del: lit_simps)
  show "observe_targets (drill_inventory sys) m v = (Inr (drill_seen sys), v)"
    unfolding drill_inventory_def local_inventory_def inventory.simps drill_seen_def
    by (rule observe_run [OF q f(1) _ h(2)]) (simp_all only: it pl, simp add: max_item_bytes_def)
  have "backup_restore_items sys mini_store m v = (Inr [\<lparr>ri_target = bi_target (drill_item sys), ri_existed = True, ri_content = Some (lit ''saved''),
      ri_sha256 = bi_sha256 (drill_item sys), ri_mode = mode (drill_item sys), ri_uid = uid (drill_item sys), ri_gid = gid (drill_item sys)\<rparr>], v)"
  proof (rule items_run [OF q f(1) it(2,3) _ _ it(4) _ _ _ _ _ h(3) _ f(6) dig(1) f(5) dig(2) _ _ h(1)])
    show "realpath sys (storage_location m) = d @ lit ''/k''" by (simp only: f r)
    show "\<not> is_absolute (lit ''items/0'')" by (simp add: is_absolute_def startswith_def)
  qed (simp_all only: pl r, simp_all add: max_item_bytes_def)
  then show "backup_restore_items sys mini_store m v = (Inr [drill_taken sys], v)" by (simp add: drill_taken_def it del: lit_simps)
qed

lemma drill_authorized:
  assumes "drill_agreed sys m p a auth" and "items m = [drill_item sys]" "bm_host_id m = lit ''h''" "backup_id m = lit ''k''"
  shows "au_host_id auth = lit ''h''" "au_backup_id auth = lit ''k''" "au_manifest_hash auth = manifest_hash m" "au_targets auth = [lit ''/c/a'']"
    "au_current auth = drill_seen sys" "au_expires_at auth = 348"
proof -
  obtain h where a: "auth = (draft_authorization (lit ''h'') (lit ''k'') p a 50 m (drill_seen sys))\<lparr>au_hash := h\<rparr>"
    using assms(1) by (auto simp: drill_agreed_def Let_def)
  show "au_host_id auth = lit ''h''" "au_backup_id auth = lit ''k''" "au_manifest_hash auth = manifest_hash m" "au_targets auth = [lit ''/c/a'']"
    "au_current auth = drill_seen sys" "au_expires_at auth = 348"
    using assms(1) by (simp_all add: a assms(2-4) draft_authorization_def drill_agreed_def Let_def drill_item_def del: lit_simps)
qed

lemma drill_backup:
  assumes "drill_machine sys d" and "drill_sealed sys d = Inr (m, b)"
  shows "items m = [drill_item sys]" "bm_host_id m = lit ''h''" "backup_id m = lit ''k''" "manifest_hash m \<noteq> []"
    "m = (drill_draft sys d)\<lparr>manifest_hash := manifest_hash m\<rparr>" "octets (manifest_hash m)"
proof -
  obtain m' b' where s: "drill_sealed sys d = Inr (m', b')" and m': "m' = (drill_draft sys d)\<lparr>manifest_hash := manifest_hash m'\<rparr>"
    and o: "octets (manifest_hash m')" "manifest_ok (runtime.truncate sys) m'"
    by (rule drill_manifest [OF assms(1)])
  have e: "m' = m" using s assms(2) by simp
  note m = m' [unfolded e]
  show "items m = [drill_item sys]" "bm_host_id m = lit ''h''" "backup_id m = lit ''k''"
    by (subst m, simp add: drill_draft_def del: lit_simps)+
  show "manifest_hash m \<noteq> []" "octets (manifest_hash m)" using o by (simp_all add: e manifest_ok_def)
  show "m = (drill_draft sys d)\<lparr>manifest_hash := manifest_hash m\<rparr>" by (rule m)
qed

lemma drill_execute:
  assumes "drill_machine sys d" and "places_ok sys d" and "drill_sealed sys d = Inr (m, b)" and "drill_holds sys d b w"
    and "drill_agreed sys m p a auth" and "now < 348" and "(case given of Some t \<Rightarrow> retW t | None \<Rightarrow> utc_now) v = (Inr now, w)"
  shows "execute_restore sys (drill_inventory sys) (backup_restore_items sys mini_store) auth given v =
    (Inr \<lparr>lr_state = RESTORE_COMMITTED, lr_host_id = lit ''h'', lr_backup_id = lit ''k'', lr_manifest_hash = manifest_hash m,
        lr_authorization_hash = au_hash auth, lr_target = lit ''/c/a'', lr_completed_at = now\<rparr>,
     w\<lparr>fs := (fs w)(lit ''/c/a'' := Some (RegFile (lit ''saved'') 420 1000 1000))\<rparr>)"
proof -
  note f = drill_backup(1,2,3) [OF assms(1,3)]
  note au = drill_authorized [OF assms(5) f]
  have e: "authorization_with_hash (runtime.truncate sys) auth = Inr auth"
    using assms(5) by (auto simp: drill_agreed_def authorization_with_hash_def Let_def bindR_eq_Inr)
  have q: "quiet w" "fs w (lit ''/c/a'') = Some (RegFile (lit ''other'') 420 7 8)"
    using assms(4) drill_stored [OF assms(2), of b] by (simp_all add: drill_holds_def del: lit_simps)
  have t: "ri_target (drill_taken sys) = lit ''/c/a''" "ri_existed (drill_taken sys)" "ri_content (drill_taken sys) = Some (lit ''saved'')"
    "ri_sha256 (drill_taken sys) = Some (sha256 sys (lit ''saved''))" "ri_mode (drill_taken sys) = Some 420"
    by (simp_all add: drill_taken_def del: lit_simps)
  have x: "bi_target (drill_item sys) = lit ''/c/a''" "resolved_target sys (lit ''/c/a'') = lit ''/c/a''" "euid sys = 1000" "egid sys = 1000"
    using assms(1,2) by (simp_all add: drill_item_def places_ok_def drill_machine_def del: lit_simps)
  have n: "restored_node sys (drill_taken sys) = Some (RegFile (lit ''saved'') 420 1000 1000)"
    by (simp add: restored_node_def t x mode_or_default_def del: lit_simps)
  note src = drill_source [OF assms(1-4)]
  have "execute_restore sys (drill_inventory sys) (backup_restore_items sys mini_store) auth given v =
    (Inr \<lparr>lr_state = RESTORE_COMMITTED, lr_host_id = au_host_id auth, lr_backup_id = au_backup_id auth, lr_manifest_hash = au_manifest_hash auth,
        lr_authorization_hash = au_hash auth, lr_target = lit ''/c/a'', lr_completed_at = now\<rparr>,
     w\<lparr>fs := (fs w)(resolved_target sys (lit ''/c/a'') := restored_node sys (drill_taken sys))\<rparr>)"
    by (rule execute_run [where m = m and it = "drill_taken sys" and now = now and w = w and sys = sys and a = auth and t = "lit ''/c/a''"
        and c = "lit ''saved''" and given = given and v = v and get_items = "backup_restore_items sys mini_store", OF q(1) e _ au(4) _ _ _ _ _ _ src(3) t(1,2,3,4) _ assms(7)])
      (simp_all only: au f src x n list.map q, simp_all add: assms(6))
  then show ?thesis by (simp only: au n x)
qed

lemma drill_prepare:
  assumes "drill_machine sys d" and "places_ok sys d" and "drill_sealed sys d = Inr (m, b)" and "drill_holds sys d b w"
    and "drill_agreed sys m p a auth"
  shows "prepare_restore (runtime.truncate sys) (drill_inventory sys) (lit ''h'') (lit ''k'') p a 50 w = (Inr auth, w)"
proof -
  note f = drill_backup(1,2,3) [OF assms(1,3)]
  have "au_expires_at auth = 348" "backup_id m = lit ''k''" using drill_authorized(6) [OF assms(5) f] f by simp_all
  moreover have "check_cancel w = (Inr (), w)" using assms(4) by (simp add: drill_holds_def)
  ultimately show ?thesis using assms(5) drill_source(1,2) [OF assms(1-4)]
    by (simp add: prepare_restore_def bindW_def guardW_def drill_agreed_def Let_def del: lit_simps)
qed

text \<open>The restore as approved, where the digest has no collisions.\<close>

lemma restore_as_approved_witness:
  "\<exists>bs names p a auth w0 w1 x w' i. prepare_restore (runtime.truncate kept_system) (local_inventory kept_system bs names) (lit ''h'') (lit ''k'') p a 50 w0 = (Inr auth, w1)
     \<and> execute_restore kept_system (local_inventory kept_system bs names) (backup_restore_items kept_system bs) auth (Some 60) w1 = (Inr x, w')
     \<and> pv_items p = [i] \<and> as_previewed kept_system i (fs w' (resolved_target kept_system (pi_target i))) \<and> lr_completed_at x = 60"
proof -
  note k = drill_machines(1) drill_places(1)
  obtain m b where s: "drill_sealed kept_system (lit ''/b/h'') = Inr (m, b)" by (rule drill_manifest [OF k(1)])
  obtain p a auth where r: "drill_agreed kept_system m p a auth"
    using drill_review [OF k(1) drill_backup(5,6,4) [OF k(1) s]] by blast
  let ?w = "drill_world (lit ''/b/h'') b"
  note pr = drill_prepare [OF k s drill_start r]
  have ex: "\<exists>x w'. execute_restore kept_system (drill_inventory kept_system) (backup_restore_items kept_system mini_store) auth (Some 60) ?w = (Inr x, w')
      \<and> lr_completed_at x = 60"
    by (subst drill_execute [OF k s drill_start r, of 60]) simp_all
  then obtain x w' where x: "execute_restore kept_system (drill_inventory kept_system) (backup_restore_items kept_system mini_store) auth (Some 60) ?w = (Inr x, w')"
    "lr_completed_at x = 60" by blast
  have "collision_free (sha256 kept_system)" by (simp add: collision_free_def kept_system_def)
  moreover have "clock_ok (runtime.truncate kept_system)" using k(1) by (simp add: drill_machine_def)
  ultimately obtain i where "pv_items p = [i]" "as_previewed kept_system i (fs w' (resolved_target kept_system (pi_target i)))"
    using restore_as_approved [OF _ _ pr [unfolded drill_inventory_def] x(1) [unfolded drill_inventory_def]] by auto
  then show ?thesis using pr x unfolding drill_inventory_def by blast
qed

section \<open>A whole restore\<close>

lemma drill_record_file:
  assumes "is_digest h"
  shows "attempt_file hex_system (lit ''/r'') h = lit ''/r/'' @ h @ lit ''.attempt.json''"
    and "result_file hex_system (lit ''/r'') h = lit ''/r/'' @ h @ lit ''.result.json''"
proof -
  have h: "47 \<notin> set h" "h \<noteq> []" using assms by (auto simp: is_digest_def list_all_iff isdigit_def)
  have r: "realpath hex_system p = p" for p by (simp add: hex_system_def kept_system_def toy_system_def)
  have j: "resolved_target hex_system (path_join (lit ''/r'') (h @ s)) = lit ''/r/'' @ h @ s" if "47 \<notin> set s" "length s > 1" for s
  proof -
    have c: "comps (h @ s) = [h @ s]" using h that by (cases h; cases s) (auto simp: comps_def split_on_no_sep)
    have d: "comps (lit ''/r'') = [lit ''r'']" by code_simp
    have "clean [lit ''r'', h @ s]" "clean [lit ''r'']" using h that by (cases h; cases s; auto simp: clean_def)+
    then show ?thesis using c d by (simp add: resolved_target_def path_join_def path_parent_def path_name_def r) (simp add: abs_path_def join_def)
  qed
  show "attempt_file hex_system (lit ''/r'') h = lit ''/r/'' @ h @ lit ''.attempt.json''"
    using j [of "lit ''.attempt.json''"] by (simp add: attempt_file_def)
  show "result_file hex_system (lit ''/r'') h = lit ''/r/'' @ h @ lit ''.result.json''"
    using j [of "lit ''.result.json''"] by (simp add: result_file_def)
qed

lemma hex_machine: "hex_digest hex_system" "clock_ok (runtime.truncate hex_system)" "isoformat hex_system = dec_int"
  "realpath hex_system p = p" "euid hex_system = 1000" "egid hex_system = 1000"
  using drill_machines(2) toy_system_digest by (simp_all add: drill_machine_def hex_digest_def hex_system_def toy_system_def)

lemma digest_valid: "is_digest h \<Longrightarrow> \<forall>c\<in>set h. valid_cp c"
  by (auto simp: is_digest_def list_all_iff isdigit_def valid_cp_def)

definition drill_authorization :: "authorization \<Rightarrow> bool" where
  "drill_authorization a \<longleftrightarrow> au_host_id a = lit ''h'' \<and> au_backup_id a = lit ''k'' \<and> is_digest (au_manifest_hash a) \<and> is_digest (au_preview_hash a)
     \<and> au_approval_id a = lit ''a'' \<and> au_actor a = lit ''me'' \<and> au_targets a = [lit ''/c/a''] \<and> au_current a = drill_seen hex_system
     \<and> is_digest (au_hash a) \<and> authorization_with_hash (runtime.truncate hex_system) a = Inr a"

lemma stamps_code_points: "code_points (isoformat (runtime.truncate hex_system) t)"
  using hex_machine(2) by (auto simp: clock_ok_def stamp_ok_def text_ok_def)

lemma drill_storable:
  assumes "drill_authorization a"
  shows "storable (authorization_json (runtime.truncate hex_system) a)"
proof -
  have "code_points (au_manifest_hash a)" "code_points (au_preview_hash a)" "code_points (au_hash a)" "code_points (sha256 hex_system b)" for b
    using assms digest_code_points hex_machine(1) by (auto simp: drill_authorization_def hex_digest_def)
  then show ?thesis using assms stamps_code_points
    by (simp add: authorization_json_def drill_authorization_def drill_seen_def observation_json_def time_json_def tuple_json_def jopt_def code_points_def [symmetric])
qed

lemma drill_records:
  assumes "drill_authorization a" and "length (dec_int t) \<le> 64" "length (dec_int u) \<le> 64"
  obtains x b e b' where "attempt_with_hash (runtime.truncate hex_system) (attempt_of a t) = Inr x" "attempt_ok (runtime.truncate hex_system) x"
      "canonical_bytes (attempt_json (runtime.truncate hex_system) x) = Inr b" "int (length b) \<le> 1048576"
      "evidence_of (runtime.truncate hex_system) x RX_COMMITTED None u = Inr e" "evidence_ok (runtime.truncate hex_system) e"
      "canonical_bytes (evidence_json (runtime.truncate hex_system) e) = Inr b'" "int (length b') \<le> 1048576"
proof -
  let ?rt = "runtime.truncate hex_system"
  have i: "isoformat ?rt = dec_int" using hex_machine(3) by (simp add: runtime.defs)
  have dg: "is_digest (sha256 hex_system b)" for b using hex_machine(1) by (simp add: hex_digest_def)
  have d: "is_digest (au_manifest_hash a)" "is_digest (au_preview_hash a)" "is_digest (au_hash a)"
    and tx: "au_host_id a = lit ''h''" "au_backup_id a = lit ''k''" "au_approval_id a = lit ''a''" "au_actor a = lit ''me''" "au_targets a = [lit ''/c/a'']"
    using assms(1) by (simp_all add: drill_authorization_def)
  note v = digest_valid [OF d(1)] digest_valid [OF d(2)] digest_valid [OF d(3)] digest_valid [OF dg] stamp_texts
  let ?x = "\<lambda>h. (attempt_of a t)\<lparr>rx_hash := h\<rparr>"
  have enc: "\<exists>b. canonical_bytes (attempt_json ?rt (?x h)) = Inr b" if "\<forall>c\<in>set h. valid_cp c" for h
    unfolding canonical_bytes_def by (rule utf8_dumps) (use v that in \<open>simp add: attempt_json_def attempt_of_def time_json_def tx i\<close>)
  obtain b0 where "canonical_bytes (attempt_json ?rt (?x [])) = Inr b0" using enc [of "[]"] by auto
  then have x: "attempt_with_hash ?rt (attempt_of a t) = Inr (?x (sha256 hex_system b0))"
    by (simp add: attempt_with_hash_def Let_def canonical_bytes_def stable_hash_def)
  obtain b where b: "canonical_bytes (attempt_json ?rt (?x (sha256 hex_system b0))) = Inr b" using enc v(4) by blast
  let ?e = "\<lambda>h. \<lparr>re_schema_version = lit ''1.0'', re_attempt_hash = sha256 hex_system b0, re_authorization_hash = au_hash a,
      re_host_id = au_host_id a, re_backup_id = au_backup_id a, re_manifest_hash = au_manifest_hash a,
      re_target = lit ''/c/a'', re_state = RX_COMMITTED, re_completed_at = u, re_error_code = None, re_hash = h\<rparr>"
  have ence: "\<exists>b. canonical_bytes (evidence_json ?rt (?e h)) = Inr b" if "\<forall>c\<in>set h. valid_cp c" for h
    unfolding canonical_bytes_def by (rule utf8_dumps) (use v that in \<open>simp add: evidence_json_def time_json_def jopt_def tx i\<close>)
  obtain b1 where "canonical_bytes (evidence_json ?rt (?e [])) = Inr b1" using ence [of "[]"] by auto
  then have e: "evidence_of ?rt (?x (sha256 hex_system b0)) RX_COMMITTED None u = Inr (?e (sha256 hex_system b1))"
    by (simp add: evidence_of_def evidence_with_hash_def Let_def canonical_bytes_def stable_hash_def attempt_of_def tx del: lit_simps)
  obtain b' where b': "canonical_bytes (evidence_json ?rt (?e (sha256 hex_system b1))) = Inr b'" using ence v(4) by blast
  have sx: "storable (attempt_json ?rt (?x (sha256 hex_system b0)))"
    by (rule attempt_storable [OF x drill_storable [OF assms(1)] _ hex_machine(2,1)]) (simp add: tx)
  have se: "storable (evidence_json ?rt (?e (sha256 hex_system b1)))"
    by (rule evidence_storable [OF evidence_sealed_again [OF e] e sx hex_machine(2,1)])
  have ok: "attempt_ok ?rt (?x (sha256 hex_system b0))" "evidence_ok ?rt (?e (sha256 hex_system b1))"
    using sx se d dg digest_nonempty by (simp_all add: attempt_ok_def evidence_ok_def attempt_of_def tx)
  have "short_texts a" using d by (simp add: short_texts_def tx is_digest_def)
  note sz = records_size [OF hex_machine(1) _ _ this d(3) x e]
  have "int (length b) \<le> 1048576" "int (length b') \<le> 1048576"
    using sz assms(2,3) encoded_size [OF b [unfolded canonical_bytes_def]] encoded_size [OF b' [unfolded canonical_bytes_def]]
    by (simp_all add: hex_machine(3))
  then show thesis using that [OF x ok(1) b _ e ok(2) b'] by blast
qed

lemma drill_authorized_hex:
  obtains m b a where "drill_sealed hex_system hex_dir = Inr (m, b)" "\<exists>p r. drill_agreed hex_system m p r a" "drill_authorization a"
proof -
  let ?rt = "runtime.truncate hex_system"
  note k = drill_machines(2)
  have dg: "is_digest (sha256 hex_system b)" for b using hex_machine(1) by (simp add: hex_digest_def)
  have hashed: "is_digest h" if "stable_hash ?rt v = Inr h" for v h using that dg by (auto simp: stable_hash_def bindR_eq_Inr)
  obtain m b where s: "drill_sealed hex_system hex_dir = Inr (m, b)" and md: "manifest_digest ?rt m = Inr (manifest_hash m)"
    by (rule drill_manifest [OF k])
  obtain p r a where g: "drill_agreed hex_system m p r a"
    using drill_review [OF k drill_backup(5,6,4) [OF k s]] by blast
  have "is_digest (manifest_hash m)" using md dg by (auto simp: manifest_digest_def bindR_eq_Inr) (metis dg)
  moreover have "is_digest (pv_hash p)" "au_preview_hash a = pv_hash p" "is_digest (au_hash a)" "authorization_with_hash ?rt a = Inr a"
      "au_approval_id a = lit ''a''" "au_actor a = lit ''me''"
  proof -
    have pp: "preview_with_hash ?rt p = Inr p" and aa: "authorization_with_hash ?rt (draft_authorization (lit ''h'') (lit ''k'') p r 50 m (drill_seen hex_system)) = Inr a"
      using g by (auto simp: drill_agreed_def Let_def approval_check_def bindR_eq_Inr)
    show "is_digest (pv_hash p)" using pp hashed by (auto simp: preview_with_hash_def Let_def bindR_eq_Inr) (metis restore_preview.select_convs(8) restore_preview.surjective restore_preview.update_convs(8))
    have ra: "ra_approval_id r = lit ''a''" "ra_actor r = lit ''me''" using g by (simp_all add: drill_agreed_def Let_def del: lit_simps)
    let ?d = "draft_authorization (lit ''h'') (lit ''k'') p r 50 m (drill_seen hex_system)"
    have dd: "?d\<lparr>au_hash := []\<rparr> = ?d" "au_preview_hash ?d = pv_hash p" by (simp_all add: draft_authorization_def)
    obtain h where h: "stable_hash ?rt (authorization_json ?rt ?d) = Inr h" "a = ?d\<lparr>au_hash := h\<rparr>"
      using aa unfolding authorization_with_hash_def Let_def dd by (auto simp: bindR_eq_Inr)
    show "is_digest (au_hash a)" using hashed [OF h(1)] by (simp add: h(2))
    show "authorization_with_hash ?rt a = Inr a" using h dd(1) by (simp add: authorization_with_hash_def Let_def)
    show "au_preview_hash a = pv_hash p" "au_approval_id a = lit ''a''" "au_actor a = lit ''me''"
      by (simp_all add: h(2) draft_authorization_def ra del: lit_simps)
  qed
  ultimately have "drill_authorization a"
    using drill_authorized [OF g drill_backup(1,2,3) [OF k s]] by (simp add: drill_authorization_def del: lit_simps)
  then show thesis using that [OF s] g by blast
qed

lemma drill_apart:
  assumes "drill_authorization a"
  shows "restore_apart hex_system (lit ''/r'') a" and "quiet_log hex_system (lit ''/r'') a (\<lambda>_ _ _. retW ())"
proof -
  have r: "resolved_target hex_system (lit ''/r'') = lit ''/r''" "resolved_target hex_system (lit ''/c/a'') = lit ''/c/a''"
    using drill_places(2) by (simp_all add: places_ok_def del: lit_simps)
  have l: "is_digest (au_hash a)" "length (au_hash a) = 64" "au_targets a = [lit ''/c/a'']" using assms by (simp_all add: drill_authorization_def is_digest_def)
  show "restore_apart hex_system (lit ''/r'') a"
    using l(2) arg_cong [of _ _ length] unfolding restore_apart_def drill_record_file [OF l(1)] l(3) list.sel r by auto
  show "quiet_log hex_system (lit ''/r'') a (\<lambda>_ _ _. retW ())" by (simp add: quiet_log_def keeps_pure)
qed

lemma drill_completes:
  assumes "drill_sealed hex_system hex_dir = Inr (m, b)" and "drill_agreed hex_system m p r a" and "drill_authorization a"
  shows "\<exists>e w'. coordinate_restore hex_system (drill_inventory hex_system) (backup_restore_items hex_system mini_store) (lit ''/r'') (\<lambda>_ _ _. retW ()) a
    (drill_world hex_dir b) = (Inr e, w')"
proof -
  let ?w = "drill_world hex_dir b"
  note k = drill_machines(2) drill_places(2)
  have d: "is_digest (au_hash a)" "length (au_hash a) = 64" "au_targets a = [lit ''/c/a'']" "authorization_with_hash (runtime.truncate hex_system) a = Inr a"
    using assms(3) by (simp_all add: drill_authorization_def is_digest_def)
  have l: "length (dec_int 10) \<le> 64" "length (dec_int 30) \<le> 64" by code_simp+
  obtain x b1 e b2 where x: "attempt_with_hash (runtime.truncate hex_system) (attempt_of a 10) = Inr x" "attempt_ok (runtime.truncate hex_system) x"
      "canonical_bytes (attempt_json (runtime.truncate hex_system) x) = Inr b1" "int (length b1) \<le> 1048576"
      "evidence_of (runtime.truncate hex_system) x RX_COMMITTED None 30 = Inr e" "evidence_ok (runtime.truncate hex_system) e"
      "canonical_bytes (evidence_json (runtime.truncate hex_system) e) = Inr b2" "int (length b2) \<le> 1048576"
    by (rule drill_records [OF assms(3) l])
  have short: "length q < 60" if "q \<in> {hex_dir, hex_dir @ lit ''/k'', hex_dir @ lit ''/k/manifest.json'', hex_dir @ lit ''/k/items/0'', lit ''/c/a'', lit ''/r''}" for q
    using that by (auto simp: hex_dir_def)
  have long: "length (attempt_file hex_system (lit ''/r'') (au_hash a)) > 60" "length (result_file hex_system (lit ''/r'') (au_hash a)) > 60"
    unfolding drill_record_file [OF d(1)] using d(2) by simp_all
  have none: "drill_files hex_dir b q = None" if "length q > 60" for q
  proof -
    have "q \<notin> {hex_dir, hex_dir @ lit ''/k'', hex_dir @ lit ''/k/manifest.json'', hex_dir @ lit ''/k/items/0'', lit ''/c/a'', lit ''/r''}"
      using that short [of q] by linarith
    then show ?thesis by (simp add: drill_files_def del: lit_simps)
  qed
  let ?r = "\<lparr>lr_state = RESTORE_COMMITTED, lr_host_id = lit ''h'', lr_backup_id = lit ''k'', lr_manifest_hash = manifest_hash m,
        lr_authorization_hash = au_hash a, lr_target = lit ''/c/a'', lr_completed_at = 20\<rparr>"
  have t: "resolved_target hex_system (lit ''/c/a'') = lit ''/c/a''" using k(2) by (simp add: places_ok_def del: lit_simps)
  have w: "quiet ?w" "clock ?w = 10 # 20 # 30 # [40, 50, 60, 70, 80]" "fs ?w = drill_files hex_dir b"
    by (simp_all add: drill_world_def toy_world_def quiet_def)
  have run: "execute_restore hex_system (drill_inventory hex_system) (backup_restore_items hex_system mini_store) a None v =
      (Inr ?r, v\<lparr>clock := 30 # [40, 50, 60, 70, 80], fs := (fs v)(resolved_target hex_system (lit ''/c/a'') := Some (RegFile (lit ''saved'') 420 1000 1000))\<rparr>)"
    if v: "quiet v" "fs v = (fs ?w)(attempt_file hex_system (lit ''/r'') (au_hash a) \<mapsto> RegFile b1 384 (euid hex_system) (egid hex_system))"
      "dirs v = dirs ?w" "clock v = 20 # 30 # [40, 50, 60, 70, 80]" for v
  proof -
    have "drill_holds hex_system hex_dir b (v\<lparr>clock := 30 # [40, 50, 60, 70, 80]\<rparr>)"
    proof -
      have "fs v q = drill_files hex_dir b q" if "length q < 60" for q
        using that long(1) by (auto simp: v(2) w(3))
      then show ?thesis using v(1,3) short by (simp add: drill_holds_def del: lit_simps)
    qed
    from drill_execute [OF k assms(1) this assms(2), of 20 None v] show ?thesis
      using v(4) by (simp add: t utc_now_def del: lit_simps)
  qed
  have "fs ?w (attempt_file hex_system (lit ''/r'') (au_hash a)) = None" "fs ?w (result_file hex_system (lit ''/r'') (au_hash a)) = None"
    using none long by (simp_all only: w(3))
  from coordinate_run [OF w(1) drill_private(3) [OF k drill_start] hex_machine(2) w(2) d(4,3) drill_apart(1) [OF assms(3)] x this run]
  show ?thesis by blast
qed

lemma drill_done:
  obtains b a e w' where "coordinate_restore hex_system (local_inventory hex_system mini_store [lit ''k'']) (backup_restore_items hex_system mini_store)
      (lit ''/r'') (\<lambda>_ _ _. retW ()) a (drill_world hex_dir b) = (Inr e, w')" "drill_authorization a"
proof -
  obtain m b a where "drill_sealed hex_system hex_dir = Inr (m, b)" "\<exists>p r. drill_agreed hex_system m p r a" and a: "drill_authorization a"
    by (rule drill_authorized_hex)
  then show thesis using drill_completes that unfolding drill_inventory_def by blast
qed

text \<open>The four properties of the coordinator, where the restore runs.\<close>

lemma restore_at_most_once_witness:
  "\<exists>a b e w'. coordinate_restore hex_system (local_inventory hex_system mini_store [lit ''k'']) (backup_restore_items hex_system mini_store)
      (lit ''/r'') (\<lambda>_ _ _. retW ()) a (drill_world hex_dir b) = (Inr e, w')
    \<and> fs (drill_world hex_dir b) (attempt_file hex_system (lit ''/r'') (au_hash a)) = None
    \<and> fs w' (attempt_file hex_system (lit ''/r'') (au_hash a)) \<noteq> None"
proof -
  obtain b a e w' where r: "coordinate_restore hex_system (local_inventory hex_system mini_store [lit ''k'']) (backup_restore_items hex_system mini_store)
      (lit ''/r'') (\<lambda>_ _ _. retW ()) a (drill_world hex_dir b) = (Inr e, w')" and a: "drill_authorization a"
    by (rule drill_done)
  show ?thesis using r restore_at_most_once [OF r drill_apart [OF a]] by blast
qed

lemma restore_evidence_true_witness:
  "\<exists>a b e w'. coordinate_restore hex_system (local_inventory hex_system mini_store [lit ''k'']) (backup_restore_items hex_system mini_store)
      (lit ''/r'') (\<lambda>_ _ _. retW ()) a (drill_world hex_dir b) = (Inr e, w')
    \<and> re_state e = RX_COMMITTED \<and> re_target e = lit ''/c/a''"
proof -
  obtain b a e w' where r: "coordinate_restore hex_system (local_inventory hex_system mini_store [lit ''k'']) (backup_restore_items hex_system mini_store)
      (lit ''/r'') (\<lambda>_ _ _. retW ()) a (drill_world hex_dir b) = (Inr e, w')" and a: "drill_authorization a"
    by (rule drill_done)
  have "au_targets a = [lit ''/c/a'']" using a by (simp add: drill_authorization_def)
  then show ?thesis using r restore_evidence_true [OF r drill_apart [OF a] drill_storable [OF a] hex_machine(2,1)]
    by (metis list.inject)
qed



text \<open>The manifest of the drill, read back.\<close>

lemma manifest_reader_exact_witness:
  "\<exists>m b. decode_manifest (runtime.truncate kept_system) b = Inr m \<and> manifest_bytes (runtime.truncate kept_system) m = Inr b"
proof -
  note k = drill_machines(1)
  obtain m b where s: "drill_sealed kept_system (lit ''/b/h'') = Inr (m, b)" "m = (drill_draft kept_system (lit ''/b/h''))\<lparr>manifest_hash := manifest_hash m\<rparr>"
    and ok: "manifest_ok (runtime.truncate kept_system) m" "int (length b) \<le> max_manifest_bytes"
      "manifest_digest (runtime.truncate kept_system) m = Inr (manifest_hash m)" "manifest_bytes (runtime.truncate kept_system) m = Inr b"
    by (rule drill_manifest [OF k])
  have "complete m" by (subst s(2)) (simp add: drill_draft_def)
  moreover have "clock_ok (runtime.truncate kept_system)" using k by (simp add: drill_machine_def)
  ultimately show ?thesis using manifest_reader_exact [of "runtime.truncate kept_system" b m] ok by blast
qed

end
