(* ===== verification/Spec2Isabelle.thy ===== *)
theory Spec2Isabelle
  imports ChangePlanning DropIn LocalApply Gui Approvals Diagnose PrivilegedSafety RestoreDrill
begin

text \<open>
  LLM-Manager diagnoses a machine that runs Ollama and its OpenCode clients, recommends settings, and changes
  two kinds of files after the user approved it: the user's OpenCode configuration (JSONC) and the program's own
  systemd drop-in of Ollama, which needs administrator rights.  This development models the local program
  under src/src/llm_manager, from the diagnosis to the changed file and back, and proves what makes it safe.
  File names below are relative to that directory.

  \<^bold>\<open>How the parts work together.\<close>  \<open>DiagnoseHost\<close> asks the probes of a host and writes a report.  The rule engine
  turns a report and a profile into recommendations and settles their conflicts; the user selects some; change
  planning reads the files again and lets a planner turn the selection into a change set bound to the digests of
  those files.  An approval binds plan, change set, report and backup policy.  The safe apply coordinator then
  creates and verifies a backup, renders and writes the files, validates them and the services, keeps a journal,
  and rolls back on failure.  Changes that need administrator rights go another way: a coordinator turns the
  approved plan into a request of fixed shape, which a privileged helper reads from a staging directory, checks,
  claims with a receipt and executes.  Backups are listed, protected, pruned, and restored after a review of their
  own: a preview is approved, a preflight turns the approval into an authorisation, and a coordinator claims the
  authorisation once, restores, and keeps evidence of what happened.  The presenter is the
  state machine of the graphical interface over all of it.

  \<^bold>\<open>Theories.\<close>
  \<^item> \<open>Prelude\<close>, \<open>PyText\<close>, \<open>PyNet\<close>, \<open>Json\<close>, \<open>JsonDoc\<close>, \<open>JsonFields\<close>: exceptions, results and dictionaries, and what
    the source uses of Python's library: text as lists of code points, UTF-8, splitting, number literals,
    \<open>ipaddress\<close>, \<open>json.dumps\<close> and \<open>json.loads\<close>.  The lemmas show that writing and reading JSON and UTF-8 are
    inverse to each other, on which all round trips rest.
  \<^item> \<open>Domain\<close>, \<open>Models\<close>, \<open>Primitive\<close>: domain/enums.py, models.py, workflow.py, serialization.py: the enumerations,
    the dataclasses as records with the checks of their constructors, the plan's state machine, stable hashes.
  \<^item> \<open>Rules\<close>, \<open>Advice\<close>: optimization/; the engine as written, its settlement of conflicts, its totality on the
    default catalog, and that what it recommends the planner accepts.
  \<^item> \<open>Jsonc\<close>, \<open>OpenCodePlan\<close>, \<open>FileRender\<close>, \<open>OpenCodeEdit\<close>: planning/opencode.py and \<open>render_file_changes\<close>: the
    parser that finds the source span of every scalar, the planner, and the splicing of edits, which is shown
    equal to applying them from left to right.
  \<^item> \<open>OllamaPlan\<close>, \<open>DropIn\<close>: planning/ollama.py; the drop-in editor against reading assignments as a dictionary.
  \<^item> \<open>ChangePlanning\<close>, \<open>Approvals\<close>, \<open>Diagnose\<close>, \<open>Gui\<close>: application/ (change_planning, approval, apply_availability,
    restore_availability, restore_preview, restore_preflight, services) and ui/workflow.py, ui/recommendations.py.
    \<open>Gui\<close> gives the wizard as a step relation with its invariant by rule induction.
  \<^item> \<open>World\<close>, \<open>Triples\<close>: the effects.  A \<open>world\<close> holds files, directories, the clock, a schedule of faults and of
    the user's cancellation; every system call that can fail consumes one entry of the schedule, so a theorem
    about all worlds is about all faults at all moments.  \<open>keeps S m\<close> says that \<open>m\<close> leaves the files in \<open>S\<close> alone,
    the collection \<open>keeping\<close> proves it along the structure of a program, and \<open>triple\<close> is a Hoare logic with
    exceptional postconditions.
  \<^item> \<open>Journal\<close>, \<open>Backup\<close>: infrastructure/journal.py and backup.py: journal files bound by a hash, and the store
    that captures, verifies and restores.  The contract of a backup store is the locale \<open>backup_contract\<close>,
    interpreted by the local store.
  \<^item> \<open>SafeApply\<close>, \<open>ApplySafety\<close>, \<open>LocalApply\<close>: infrastructure/safe_apply.py: executor, validator and coordinator as
    written; what every outcome says about the files, proved over \<open>backup_contract\<close> and concluded for the local
    store.
  \<^item> \<open>Manifests\<close>, \<open>ManifestSound\<close>: the rest of infrastructure/backup.py: the decoder of manifests, the two listings,
    protection, deletion and pruning.  They show that the reader accepts exactly what the writer makes (for which
    \<open>json.loads\<close> is shown to give only values that print again), that a strict listing hides nothing, and what
    pruning spares.
  \<^item> \<open>LocalRestore\<close>, \<open>RestoreRun\<close>, \<open>RestoreDrill\<close>, \<open>JsonSize\<close>: infrastructure/local_restore.py and
    restore_execution.py: the executor of one target, the store of attempts and evidence, the coordinator.  What they
    need of the backup store is the locale \<open>restore_source\<close>, interpreted by the strict listing and \<open>restore_items\<close>.
    They show that what was approved is what is restored, at most once, that an answer is evidence, and that a list of
    restores shows every open one; \<open>RestoreRun\<close> shows that a restore without faults completes and that its records fit
    the limit of their reader, from the size of a JSON text in \<open>JsonSize\<close>; \<open>RestoreDrill\<close> is a whole restore on two
    small machines.
  \<^item> \<open>HelperProtocol\<close>, \<open>HelperFiles\<close>, \<open>HelperRun\<close>, \<open>HelperSafety\<close>: infrastructure/helper_protocol.py, helper_staging.py,
    helper_receipts.py, helper_executor.py, helper_backend.py, helper_cli.py, root_target_lock.py: requests and
    their encoding; staging, receipts and directories with their modes and owners; the helper command.  They show
    what an accepted request is, which paths the helper can touch at all, that it executes an operation at most
    once, and that its answer is true.
  \<^item> \<open>PrivilegedApply\<close>, \<open>PrivilegedSafety\<close>: infrastructure/privileged_apply.py: the coordinator on the user's side;
    that what the user approved is what the helper accepts, and that answer and journal agree.

  \<^bold>\<open>How state and operations correspond.\<close>  An operation of the source is one definition of the same name (or with
  its class as a prefix: \<open>journal_update\<close>, \<open>backup_restore\<close>, \<open>receipt_begin\<close>); a raise is the \<open>Inl\<close> of an \<open>exn\<close>, with the
  code of an \<open>AdapterError\<close>; a \<open>try\<close> is \<open>tryW\<close> and catches exactly the classes the source names.  Where an
  exception handler reads local variables, the body raises them along (\<open>tagged\<close>, \<open>known\<close>).

  \<^bold>\<open>Bounds and fuel.\<close>  The two recursive parsers carry fuel.  \<open>jloads\<close> takes twice the length of the text plus two, and
  \<open>locate_scalar_spans\<close> a bound from the length of the document; the lemmas \<open>jparse_total\<close> and those of the locale
  \<open>total_descent\<close> show that the fuel never runs out, so that no theorem holds because a parser stopped.  Loops over
  lists are structural recursion.  Python's limits that matter are kept: one mebibyte for manifests, journals and
  records of restores, sixteen for items, the size of a request and of a receipt, 4300 digits of an integer.

  \<^bold>\<open>What is assumed.\<close>  SHA-256, \<open>realpath\<close>, the printing and parsing of timestamps and the classification of Unicode
  digits are fields of a record and so arbitrary; where a theorem needs a property of them (a timestamp that is
  printed reads back, digests are digests) it is a hypothesis.  Cipher, service commands, probes, capture of root
  backups, audit log and the invocation of the helper are arguments.  Timestamps are instants in microseconds.
  A directory's listing is an argument where the source reads one.  One process acts at a time: nobody else changes
  a file between two steps of an operation, although everything may have changed between two operations.
  The umask removes no permission of the owner.  A \<open>float\<close> is its text.  The directories that \<open>create\<close> of the backup
  store and the journal make are not tracked, so a world in which they are listed has them to begin with.  Where the
  coordinator of restores records the class of an \<open>OSError\<close>, it is \<open>OSError\<close> itself.

  \<^bold>\<open>Not modelled.\<close>  The routes over SSH (remote_*, ssh_*, openssh_*), the separate restore with administrator rights
  (root_restore_*, root_backup_*), the administration of backups (inventory, deletion, retention, evidence), the
  Qt widgets, translations and texts, the probes' command lines and the scripts under packaging/ and docs/.  The
  texts of messages and their redaction are left out of every record, and so is \<open>RecursionError\<close> for documents
  nested deeper than Python's limit.  \<open>to_primitive\<close>, which reflects on any dataclass, is one function per class.
\<close>

end
